(* ===== verification/Prelude.thy ===== *)
theory Prelude imports Main "HOL-Library.AList" "HOL-Library.Sublist" "HOL-Library.Multiset" begin

text \<open>
  The library every component shares: the results of Go functions and the
  state-passing operations built from them, Go maps, sorting, and the environment
  a run reads from (the clock, the random source, the Unicode case tables and the
  hash function of Go's standard library).
\<close>

section \<open>Automation\<close>

named_theorems go_defs \<open>definitions of the operation combinators\<close>
named_theorems keeps_rules \<open>rules that an operation keeps an invariant\<close>

section \<open>Results and operations\<close>

text \<open>
  A Go function returns a value and an error, or it panics. The errors the code
  makes are the constructors of \<open>goerr\<close>: sentinel errors by name, the formatted
  ones by what they mention, and \<open>RpcError code message\<close> for \<^verbatim>\<open>tgerr.New\<close>. \<open>ErrLib\<close> is
  an error of a library call, \<open>ErrMulti\<close> the errors joined by \<^verbatim>\<open>multierr.Append\<close>.
\<close>

datatype goerr =
    ErrMessageID
  | ErrPhoneExists string
  | ErrTokenExists
  | ErrUsernameExists string
  | ErrUserNotFound int
  | ErrObjectNotFound string
  | ErrOffsetRange int
  | ErrNoSession
  | ErrConnNotFound int
  | ErrSend
  | RpcError int string
  | ErrLib string
  | ErrMulti "goerr list"

datatype 'a outcome = Ok 'a | Err goerr | Panic

text \<open>
  An operation over a state \<open>'s\<close>. The state is returned on errors as well: what
  the code has changed before it fails stays changed. After a panic the process
  is gone, and the returned state is the one at the panic.
\<close>

type_synonym ('s, 'a) go = "'s \<Rightarrow> 'a outcome \<times> 's"

definition ret :: "'a \<Rightarrow> ('s, 'a) go" where
  [go_defs]: "ret x = (\<lambda>s. (Ok x, s))"

definition fail :: "goerr \<Rightarrow> ('s, 'a) go" where
  [go_defs]: "fail e = (\<lambda>s. (Err e, s))"

definition gopanic :: "('s, 'a) go" where
  [go_defs]: "gopanic = (\<lambda>s. (Panic, s))"

definition gets :: "('s \<Rightarrow> 'a) \<Rightarrow> ('s, 'a) go" where
  [go_defs]: "gets f = (\<lambda>s. (Ok (f s), s))"

definition modify :: "('s \<Rightarrow> 's) \<Rightarrow> ('s, unit) go" where
  [go_defs]: "modify f = (\<lambda>s. (Ok (), f s))"

definition bnd :: "('s, 'a) go \<Rightarrow> ('a \<Rightarrow> ('s, 'b) go) \<Rightarrow> ('s, 'b) go" where
  [go_defs]: "bnd m f = (\<lambda>s. case m s of
       (Ok x, s') \<Rightarrow> f x s'
     | (Err e, s') \<Rightarrow> (Err e, s')
     | (Panic, s') \<Rightarrow> (Panic, s'))"

text \<open>\<open>on_err m h\<close> is \<^verbatim>\<open>if err != nil { h(err) }\<close> after the call \<open>m\<close>.\<close>

definition on_err :: "('s, 'a) go \<Rightarrow> (goerr \<Rightarrow> ('s, 'a) go) \<Rightarrow> ('s, 'a) go" where
  [go_defs]: "on_err m h = (\<lambda>s. case m s of
       (Ok x, s') \<Rightarrow> (Ok x, s')
     | (Err e, s') \<Rightarrow> h e s'
     | (Panic, s') \<Rightarrow> (Panic, s'))"

text \<open>\<open>attempt m\<close> hands the error of \<open>m\<close> to the caller as a value.\<close>

definition attempt :: "('s, 'a) go \<Rightarrow> ('s, goerr + 'a) go" where
  [go_defs]: "attempt m = (\<lambda>s. case m s of
       (Ok x, s') \<Rightarrow> (Ok (Inr x), s')
     | (Err e, s') \<Rightarrow> (Ok (Inl e), s')
     | (Panic, s') \<Rightarrow> (Panic, s'))"

text \<open>A \<^verbatim>\<open>for range\<close> loop over a list that threads an accumulator.\<close>

fun loop :: "('x \<Rightarrow> 'a \<Rightarrow> ('s, 'a) go) \<Rightarrow> 'x list \<Rightarrow> 'a \<Rightarrow> ('s, 'a) go" where
  "loop f [] a = ret a"
| "loop f (x # xs) a = bnd (f x a) (loop f xs)"

text \<open>\<open>collect f xs\<close> appends the result of \<open>f\<close> on each element to the output slice.\<close>

definition collect :: "('x \<Rightarrow> ('s, 'a) go) \<Rightarrow> 'x list \<Rightarrow> ('s, 'a list) go" where
  "collect f xs = loop (\<lambda>x out. bnd (f x) (\<lambda>y. ret (out @ [y]))) xs []"

lemma bnd_Ok: "m s = (Ok x, s') \<Longrightarrow> bnd m f s = f x s'"
  by (simp add: bnd_def)

lemma bnd_Err: "m s = (Err e, s') \<Longrightarrow> bnd m f s = (Err e, s')"
  by (simp add: bnd_def)

lemma bnd_OkE:
  assumes "bnd m f s = (Ok y, s'')"
  obtains x s' where "m s = (Ok x, s')" "f x s' = (Ok y, s'')"
  using assms by (auto simp: bnd_def split: prod.splits outcome.splits)

lemma bnd_ret [simp]: "bnd (ret x) f = f x"
  by (simp add: bnd_def ret_def)

lemma bnd_gets [simp]: "bnd (gets g) f s = f (g s) s"
  by (simp add: bnd_def gets_def)

lemma bnd_modify [simp]: "bnd (modify g) f s = f () (g s)"
  by (simp add: bnd_def modify_def)

lemma ret_apply [simp]: "ret x s = (Ok x, s)"
  by (simp add: ret_def)

lemma gets_apply [simp]: "gets f s = (Ok (f s), s)"
  by (simp add: gets_def)

lemma modify_apply [simp]: "modify f s = (Ok (), f s)"
  by (simp add: modify_def)

lemma gopanic_apply [simp]: "gopanic s = (Panic, s)"
  by (simp add: gopanic_def)

lemma fail_apply [simp]: "fail e s = (Err e, s)"
  by (simp add: fail_def)

lemma bnd_fail [simp]: "bnd (fail e) f = fail e"
  by (simp add: bnd_def fail_def)

subsection \<open>Invariants of operations\<close>

text \<open>
  \<open>keeps I m\<close>: from a state with \<open>I\<close>, whatever \<open>m\<close> returns (a value or an
  error, but not a panic, after which there is no next state), \<open>I\<close> holds after it.
\<close>

definition keeps :: "('s \<Rightarrow> bool) \<Rightarrow> ('s, 'a) go \<Rightarrow> bool" where
  "keeps I m \<longleftrightarrow> (\<forall>s. I s \<longrightarrow> fst (m s) \<noteq> Panic \<longrightarrow> I (snd (m s)))"

lemma keepsI: "(\<And>s r s'. I s \<Longrightarrow> m s = (r, s') \<Longrightarrow> r \<noteq> Panic \<Longrightarrow> I s') \<Longrightarrow> keeps I m"
  unfolding keeps_def by (metis prod.collapse)

lemma keepsD: "keeps I m \<Longrightarrow> I s \<Longrightarrow> m s = (r, s') \<Longrightarrow> r \<noteq> Panic \<Longrightarrow> I s'"
  unfolding keeps_def by (metis fst_conv snd_conv)

lemma keeps_ret [keeps_rules]: "keeps I (ret x)"
  by (simp add: keeps_def ret_def)

lemma keeps_fail [keeps_rules]: "keeps I (fail e)"
  by (simp add: keeps_def fail_def)

lemma keeps_gopanic [keeps_rules]: "keeps I gopanic"
  by (simp add: keeps_def gopanic_def)

lemma keeps_gets [keeps_rules]: "keeps I (gets f)"
  by (simp add: keeps_def gets_def)

lemma keeps_modify: "(\<And>s. I s \<Longrightarrow> I (f s)) \<Longrightarrow> keeps I (modify f)"
  by (simp add: keeps_def modify_def)

lemma keeps_bnd [keeps_rules]:
  "keeps I m \<Longrightarrow> (\<And>x. keeps I (f x)) \<Longrightarrow> keeps I (bnd m f)"
  unfolding keeps_def bnd_def by (auto split: prod.splits outcome.splits)

lemma keeps_on_err [keeps_rules]:
  "keeps I m \<Longrightarrow> (\<And>e. keeps I (h e)) \<Longrightarrow> keeps I (on_err m h)"
  unfolding keeps_def on_err_def by (auto split: prod.splits outcome.splits)

lemma keeps_attempt [keeps_rules]: "keeps I m \<Longrightarrow> keeps I (attempt m)"
  unfolding keeps_def attempt_def by (auto split: prod.splits outcome.splits)

lemma keeps_loop [keeps_rules]:
  "(\<And>x a. keeps I (f x a)) \<Longrightarrow> keeps I (loop f xs a)"
  by (induction xs arbitrary: a) (auto intro!: keeps_rules)

lemma keeps_collect [keeps_rules]: "(\<And>x. keeps I (f x)) \<Longrightarrow> keeps I (collect f xs)"
  unfolding collect_def by (intro keeps_rules)

lemma keeps_if [keeps_rules]: "keeps I a \<Longrightarrow> keeps I b \<Longrightarrow> keeps I (if c then a else b)"
  by simp

lemma keeps_case_option [keeps_rules]:
  "keeps I a \<Longrightarrow> (\<And>x. keeps I (b x)) \<Longrightarrow> keeps I (case o' of None \<Rightarrow> a | Some x \<Rightarrow> b x)"
  by (cases o') auto

lemma keeps_case_sum [keeps_rules]:
  "(\<And>e. keeps I (a e)) \<Longrightarrow> (\<And>x. keeps I (b x)) \<Longrightarrow> keeps I (case v of Inl e \<Rightarrow> a e | Inr x \<Rightarrow> b x)"
  by (cases v) auto

lemma keeps_case_prod [keeps_rules]:
  "(\<And>x y. keeps I (f x y)) \<Longrightarrow> keeps I (case p of (x, y) \<Rightarrow> f x y)"
  by (cases p) auto

lemma keeps_Let [keeps_rules]: "(\<And>x. keeps I (f x)) \<Longrightarrow> keeps I (Let v f)"
  by (simp add: Let_def)

section \<open>Go maps\<close>

text \<open>
  A Go map is an association list with distinct keys. The order of the list stands
  for the order in which \<^verbatim>\<open>range\<close> visits the map, which Go leaves open: a theorem
  about every state covers every order, and \<open>sort_key_perm\<close> gives the results that
  do not depend on it.
\<close>

type_synonym ('k, 'v) gomap = "('k \<times> 'v) list"

abbreviation mput :: "'k \<Rightarrow> 'v \<Rightarrow> ('k, 'v) gomap \<Rightarrow> ('k, 'v) gomap" where
  "mput \<equiv> AList.update"

abbreviation mdel :: "'k \<Rightarrow> ('k, 'v) gomap \<Rightarrow> ('k, 'v) gomap" where
  "mdel \<equiv> AList.delete"

abbreviation mmod :: "'k \<Rightarrow> ('v \<Rightarrow> 'v) \<Rightarrow> ('k, 'v) gomap \<Rightarrow> ('k, 'v) gomap" where
  "mmod \<equiv> AList.map_entry"

abbreviation mkeys :: "('k, 'v) gomap \<Rightarrow> 'k list" where
  "mkeys m \<equiv> map fst m"

abbreviation mvals :: "('k, 'v) gomap \<Rightarrow> 'v list" where
  "mvals m \<equiv> map snd m"

definition mwf :: "('k, 'v) gomap \<Rightarrow> bool" where
  "mwf m \<longleftrightarrow> distinct (mkeys m)"

text \<open>Reading a nil map or a nil slice is reading an empty one.\<close>

definition getd :: "('k, 'v list) gomap \<Rightarrow> 'k \<Rightarrow> 'v list" where
  "getd m k = (case map_of m k of None \<Rightarrow> [] | Some v \<Rightarrow> v)"

lemma map_of_mput [simp]: "map_of (mput k v m) k' = (if k' = k then Some v else map_of m k')"
  by (simp add: AList.update_conv')

lemma map_of_mdel [simp]: "map_of (mdel k m) k' = (if k' = k then None else map_of m k')"
  by (simp add: AList.delete_conv')

lemma map_of_mmod [simp]:
  "map_of (mmod k f m) k' = (if k' = k then map_option f (map_of m k) else map_of m k')"
  by (induction m) auto

lemma mkeys_mmod [simp]: "mkeys (mmod k f m) = mkeys m"
  by (induction m) auto

lemma mwf_mmod [simp]: "mwf (mmod k f m) \<longleftrightarrow> mwf m"
  by (simp add: mwf_def)

lemma mwf_Nil [simp]: "mwf []"
  by (simp add: mwf_def)

lemma mwf_mput [simp]: "mwf m \<Longrightarrow> mwf (mput k v m)"
  by (simp add: mwf_def AList.distinct_update)

lemma mwf_mdel [simp]: "mwf m \<Longrightarrow> mwf (mdel k m)"
  by (simp add: mwf_def AList.distinct_delete)

lemma mwf_filter: "mwf m \<Longrightarrow> mwf (filter P m)"
  unfolding mwf_def by (induction m) auto

lemma mwf_map_of: "mwf m \<Longrightarrow> (k, v) \<in> set m \<longleftrightarrow> map_of m k = Some v"
  by (auto simp: mwf_def map_of_is_SomeI dest: map_of_SomeD)

lemma mvals_map_of: "mwf m \<Longrightarrow> v \<in> set (mvals m) \<longleftrightarrow> (\<exists>k. map_of m k = Some v)"
  by (force simp: mwf_map_of [symmetric] image_iff)

lemma getd_mput [simp]: "getd (mput k v m) k' = (if k' = k then v else getd m k')"
  by (simp add: getd_def)

lemma getd_mdel [simp]: "getd (mdel k m) k' = (if k' = k then [] else getd m k')"
  by (simp add: getd_def)

lemma getd_mmod: "getd (mmod k f m) k' = (if k' = k \<and> map_of m k \<noteq> None then f (getd m k) else getd m k')"
  by (simp add: getd_def split: option.splits)

lemma getd_Nil [simp]: "getd [] k = []"
  by (simp add: getd_def)

text \<open>\<open>gotake\<close> is \<^verbatim>\<open>if limit > 0 && len(xs) > limit { xs = xs[:limit] }\<close>.\<close>

definition gotake :: "int \<Rightarrow> 'a list \<Rightarrow> 'a list" where
  "gotake limit xs = (if 0 < limit \<and> limit < int (length xs) then take (nat limit) xs else xs)"

lemma gotake_take: "0 < limit \<Longrightarrow> gotake limit xs = take (nat limit) xs"
  by (auto simp: gotake_def)

lemma gotake_all: "limit \<le> 0 \<Longrightarrow> gotake limit xs = xs"
  by (auto simp: gotake_def)

lemma set_gotake: "set (gotake limit xs) \<subseteq> set xs"
  by (auto simp: gotake_def dest: in_set_takeD)

lemma mput_new: "k \<notin> fst ` set m \<Longrightarrow> mput k v m = m @ [(k, v)]"
  by (induction m) auto

lemma mput_notin: "map_of m k = None \<Longrightarrow> mput k v m = m @ [(k, v)]"
  by (rule mput_new) (simp add: map_of_eq_None_iff)

section \<open>Sorting\<close>

text \<open>
  \<^verbatim>\<open>sort.Slice\<close> by a key. Where the keys are distinct the result does not depend on
  the order of the input, nor on the algorithm.
\<close>

lemma sort_key_unique:
  assumes "set xs = set ys" "distinct (map f xs)" "distinct (map f ys)"
  shows "sort_key (f :: 'a \<Rightarrow> 'k::linorder) xs = sort_key f ys"
proof (rule map_sorted_distinct_set_unique [where f = f])
  show "inj_on f (set (sort_key f xs) \<union> set (sort_key f ys))"
    using assms by (simp add: distinct_map)
  show "distinct (map f (sort_key f xs))" "distinct (map f (sort_key f ys))"
    using assms(2,3) by (simp_all add: distinct_map)
qed (use assms in simp_all)

lemma sort_key_snoc:
  assumes "\<And>y. y \<in> set xs \<Longrightarrow> f x < f y" "distinct (map f xs)"
  shows "sort_key (f :: 'a \<Rightarrow> 'k::linorder) (xs @ [x]) = x # sort_key f xs"
proof -
  have "f x \<notin> f ` set xs"
    using assms(1) by fastforce
  then have "sort_key f (xs @ [x]) = sort_key f (x # xs)"
    using assms(2) by (intro sort_key_unique) auto
  also have "\<dots> = x # sort_key f xs"
  proof -
    have "insort_key f x ys = x # ys" if "\<And>y. y \<in> set ys \<Longrightarrow> f x < f y" for ys
      using that by (cases ys) (auto intro: less_imp_le)
    then have "insort_key f x (sort_key f xs) = x # sort_key f xs"
      using assms(1) by (metis set_sort)
    then show ?thesis
      by simp
  qed
  finally show ?thesis .
qed

lemma map_filter_cong:
  "(\<And>x. x \<in> set xs \<Longrightarrow> f x = g x) \<Longrightarrow> List.map_filter f xs = List.map_filter g xs"
  by (induction xs) (simp_all add: List.map_filter_simps split: option.split)

lemma map_filter_append [simp]:
  "List.map_filter f (xs @ ys) = List.map_filter f xs @ List.map_filter f ys"
  by (simp add: List.map_filter_def)

lemma set_map_filter: "set (List.map_filter f xs) = {y. \<exists>x \<in> set xs. f x = Some y}"
  by (induction xs) (auto simp: List.map_filter_simps split: option.splits)

lemma distinct_map_filter:
  assumes "\<And>x y. f x = Some y \<Longrightarrow> h y = g x" "distinct (map g xs)"
  shows "distinct (map h (List.map_filter f xs))"
  using assms(2)
proof (induction xs)
  case (Cons x xs)
  show ?case
  proof (cases "f x")
    case (Some y)
    have "h y \<notin> h ` set (List.map_filter f xs)"
      using Cons.prems assms(1) [OF Some] by (auto simp: set_map_filter dest!: assms(1))
    with Some Cons show ?thesis
      by (simp add: List.map_filter_simps)
  qed (use Cons in \<open>simp add: List.map_filter_simps\<close>)
qed (simp add: List.map_filter_simps)

lemma filter_map_filter:
  "filter P (List.map_filter f xs) =
     List.map_filter (\<lambda>x. case f x of None \<Rightarrow> None | Some y \<Rightarrow> if P y then Some y else None) xs"
  by (induction xs) (simp_all add: List.map_filter_simps split: option.split)

lemma map_map_filter:
  "map h (List.map_filter f xs) = List.map_filter (\<lambda>x. map_option h (f x)) xs"
  by (induction xs) (simp_all add: List.map_filter_simps split: option.split)

lemma sorted_desc_sort_key:
  "sorted (rev (map f (sort_key (\<lambda>x. - f x :: int) xs)))"
proof -
  have "sorted (map (\<lambda>x. - f x) (sort_key (\<lambda>x. - f x) xs))"
    by simp
  then show ?thesis
    by (induction "sort_key (\<lambda>x. - f x) xs" arbitrary: xs)
      (simp_all add: sorted_wrt_map sorted_wrt_rev)
qed

section \<open>The environment of a run\<close>

type_synonym byte = char

type_synonym bytes = "char list"

text \<open>
  What the code reads from outside: the successive readings of \<^verbatim>\<open>time.Now\<close> (in
  nanoseconds since the Unix epoch), the bytes of \<^verbatim>\<open>crypto/rand\<close>, the Unicode tables
  behind \<^verbatim>\<open>strings.ToLower\<close> and \<^verbatim>\<open>strings.EqualFold\<close> (used on strings that are not
  ASCII only) and the regexp class \<^verbatim>\<open>\p{L}\<close> (used on runes above 127), and \<^verbatim>\<open>sha256.Sum256\<close>. Each reading of the clock and of the random
  source moves its position on, so two readings are two values. Since Go 1.24
  \<^verbatim>\<open>rand.Read\<close> never returns an error.
\<close>

record world =
  clk :: "nat \<Rightarrow> int"
  clk_pos :: nat
  rnd :: "nat \<Rightarrow> byte"
  rnd_pos :: nat
  uc_lower :: "string \<Rightarrow> string"
  uc_fold :: "string \<Rightarrow> string \<Rightarrow> bool"
  uc_letter :: "nat \<Rightarrow> bool"
  sha256 :: "bytes \<Rightarrow> bytes"

definition now :: "('z world_scheme, int) go" where
  "now = (\<lambda>w. (Ok (clk w (clk_pos w)), w\<lparr>clk_pos := Suc (clk_pos w)\<rparr>))"

definition rand_read :: "nat \<Rightarrow> ('z world_scheme, bytes) go" where
  "rand_read n = (\<lambda>w. (Ok (map (\<lambda>i. rnd w (rnd_pos w + i)) [0..<n]),
     w\<lparr>rnd_pos := rnd_pos w + n\<rparr>))"

lemma bnd_now [simp]:
  "bnd now f w = f (clk w (clk_pos w)) (w\<lparr>clk_pos := Suc (clk_pos w)\<rparr>)"
  by (simp add: now_def bnd_def)

lemma bnd_rand_read [simp]:
  "bnd (rand_read n) f w =
     f (map (\<lambda>i. rnd w (rnd_pos w + i)) [0..<n]) (w\<lparr>rnd_pos := rnd_pos w + n\<rparr>)"
  by (simp add: rand_read_def bnd_def)

end
