(* ===== verification/GoStd.thy ===== *)
theory GoStd imports Prelude "HOL-Library.Word" begin

text \<open>
  What the program uses of Go's standard library: the \<^verbatim>\<open>strings\<close> functions on byte
  strings, \<^verbatim>\<open>strconv.FormatInt\<close>, hexadecimal and URL-safe base64, little-endian
  64-bit integers, and \<^verbatim>\<open>time.Time\<close> as nanoseconds. A Go string is the list of its
  bytes. Non-ASCII literals in the sources are their UTF-8 bytes.
\<close>

section \<open>Characters\<close>

definition is_digit :: "char \<Rightarrow> bool" where
  "is_digit c \<longleftrightarrow> 48 \<le> (of_char c :: nat) \<and> (of_char c :: nat) \<le> 57"

definition is_lower :: "char \<Rightarrow> bool" where
  "is_lower c \<longleftrightarrow> 97 \<le> (of_char c :: nat) \<and> (of_char c :: nat) \<le> 122"

definition is_upper :: "char \<Rightarrow> bool" where
  "is_upper c \<longleftrightarrow> 65 \<le> (of_char c :: nat) \<and> (of_char c :: nat) \<le> 90"

definition is_ascii :: "char \<Rightarrow> bool" where
  "is_ascii c \<longleftrightarrow> (of_char c :: nat) < 128"

definition ascii_lower :: "char \<Rightarrow> char" where
  "ascii_lower c = (if is_upper c then char_of ((of_char c :: nat) + 32) else c)"

definition chr :: "nat \<Rightarrow> char" where
  "chr n = char_of n"

lemma of_char_chr [simp]: "n < 256 \<Longrightarrow> of_char (chr n) = n"
  by (simp add: chr_def)

lemma of_char_lt [simp]: "(of_char c :: nat) < 256"
  by simp

section \<open>Case mapping\<close>

text \<open>
  \<^verbatim>\<open>strings.ToLower\<close> maps ASCII-only strings byte by byte and hands any other string
  to the Unicode tables, as Go's implementation does; \<^verbatim>\<open>strings.EqualFold\<close> likewise.
\<close>

definition ToLower :: "(string \<Rightarrow> string) \<Rightarrow> string \<Rightarrow> string" where
  "ToLower uc s = (if list_all is_ascii s then map ascii_lower s else uc s)"

definition EqualFold :: "(string \<Rightarrow> string \<Rightarrow> bool) \<Rightarrow> string \<Rightarrow> string \<Rightarrow> bool" where
  "EqualFold uc s t = (if list_all is_ascii s \<and> list_all is_ascii t
     then map ascii_lower s = map ascii_lower t else uc s t)"

section \<open>White space\<close>

text \<open>The UTF-8 encodings of the runes with \<^verbatim>\<open>unicode.IsSpace\<close>.\<close>

definition spaces :: "string list" where
  "spaces = map (map chr)
     ([[9], [10], [11], [12], [13], [32], [194, 133], [194, 160], [225, 154, 128]]
      @ map (\<lambda>b. [226, 128, b]) [128, 129, 130, 131, 132, 133, 134, 135, 136, 137, 138, 168, 169, 175]
      @ [[226, 129, 159], [227, 128, 128]])"

lemma spaces_nonempty: "[] \<notin> set spaces"
  by (simp add: spaces_def)

text \<open>\<open>strip ws s\<close> removes from the front of \<open>s\<close> the words of \<open>ws\<close>, while there is one.\<close>

function strip :: "string list \<Rightarrow> string \<Rightarrow> string" where
  "strip ws s = (case find (\<lambda>w. w \<noteq> [] \<and> prefix w s) ws of
     None \<Rightarrow> s
   | Some w \<Rightarrow> strip ws (drop (length w) s))"
  by pat_completeness auto
termination
  by (relation "measure (\<lambda>(ws, s). length s)")
    (auto simp: find_Some_iff prefix_def)

declare strip.simps [simp del]

definition TrimSpace :: "string \<Rightarrow> string" where
  "TrimSpace s = rev (strip (map rev spaces) (rev (strip spaces s)))"

text \<open>
  \<open>first_field s\<close> is \<^verbatim>\<open>strings.Fields(s)[0]\<close> for a string that does not start with
  white space: the bytes before the first space.
\<close>

fun first_field :: "string \<Rightarrow> string" where
  "first_field [] = []"
| "first_field (c # s) = (if list_ex (\<lambda>w. prefix w (c # s)) spaces then [] else c # first_field s)"

lemma strip_Nil [simp]: "strip ws [] = []"
  by (subst strip.simps) (auto split: option.splits simp: find_Some_iff)

lemma strip_fixed: "(\<And>w. w \<in> set ws \<Longrightarrow> w \<noteq> [] \<Longrightarrow> \<not> prefix w s) \<Longrightarrow> strip ws s = s"
  by (subst strip.simps) (auto split: option.splits simp: find_Some_iff dest!: nth_mem)

lemma strip_done: "w \<in> set ws \<Longrightarrow> w \<noteq> [] \<Longrightarrow> \<not> prefix w (strip ws s)"
proof (induction ws s rule: strip.induct)
  case (1 ws s)
  show ?case
  proof (cases "find (\<lambda>w. w \<noteq> [] \<and> prefix w s) ws")
    case None
    then have "strip ws s = s"
      by (subst strip.simps) simp
    with None 1(2,3) show ?thesis
      by (auto simp: find_None_iff)
  next
    case (Some v)
    then have "strip ws s = strip ws (drop (length v) s)"
      by (subst strip.simps) simp
    with 1(1) [OF Some 1(2,3)] show ?thesis
      by simp
  qed
qed

lemma strip_suffix: "suffix (strip ws s) s"
proof (induction ws s rule: strip.induct)
  case (1 ws s)
  show ?case
  proof (cases "find (\<lambda>w. w \<noteq> [] \<and> prefix w s) ws")
    case None
    then show ?thesis
      by (subst strip.simps) simp
  next
    case (Some v)
    then have "strip ws s = strip ws (drop (length v) s)"
      by (subst strip.simps) simp
    with 1 [OF Some] show ?thesis
      by (metis suffix_drop suffix_order.trans)
  qed
qed

lemma strip_idem [simp]: "strip ws (strip ws s) = strip ws s"
  by (rule strip_fixed) (rule strip_done)

lemma TrimSpace_Nil [simp]: "TrimSpace [] = []"
  by (simp add: TrimSpace_def)

lemma TrimSpace_idem [simp]: "TrimSpace (TrimSpace s) = TrimSpace s"
proof -
  let ?a = "strip spaces s"
  let ?b = "strip (map rev spaces) (rev ?a)"
  have pre: "prefix (rev ?b) ?a"
    using strip_suffix [of "map rev spaces" "rev ?a"] by (metis rev_rev_ident suffix_to_prefix)
  have "\<not> prefix w (rev ?b)" if "w \<in> set spaces" "w \<noteq> []" for w
    using strip_done [OF that, of s] pre prefix_order.trans by blast
  then have "strip spaces (rev ?b) = rev ?b"
    by (rule strip_fixed)
  then show ?thesis
    by (simp add: TrimSpace_def)
qed

section \<open>Searching\<close>

definition contains :: "string \<Rightarrow> string \<Rightarrow> bool" where
  "contains s sub \<longleftrightarrow> list_ex (prefix sub) (suffixes s)"

lemma contains_iff: "contains s sub \<longleftrightarrow> (\<exists>a b. s = a @ sub @ b)"
proof
  assume "contains s sub"
  then show "\<exists>a b. s = a @ sub @ b"
    by (fastforce simp: contains_def list_ex_iff suffix_def prefix_def)
next
  assume "\<exists>a b. s = a @ sub @ b"
  then obtain a b where "s = a @ sub @ b"
    by blast
  then have "suffix (sub @ b) s" "prefix sub (sub @ b)"
    by (auto simp: suffix_def)
  then show "contains s sub"
    unfolding contains_def list_ex_iff by (metis in_set_suffixes)
qed

definition TrimPrefix :: "string \<Rightarrow> string \<Rightarrow> string" where
  "TrimPrefix s p = (if prefix p s then drop (length p) s else s)"

text \<open>\<^verbatim>\<open>strings.Cut\<close> at a one-byte separator.\<close>

fun Cut :: "char \<Rightarrow> string \<Rightarrow> (string \<times> string) option" where
  "Cut c [] = None"
| "Cut c (x # s) = (if x = c then Some ([], s) else map_option (\<lambda>(a, b). (x # a, b)) (Cut c s))"

lemma Cut_Some: "Cut c s = Some (a, b) \<longleftrightarrow> s = a @ c # b \<and> c \<notin> set a"
proof (induction s arbitrary: a)
  case (Cons x s)
  show ?case
  proof (cases "x = c")
    case True
    then show ?thesis
      by (cases a) auto
  next
    case False
    with Cons show ?thesis
      by (cases a) auto
  qed
qed simp

lemma Cut_None: "Cut c s = None \<longleftrightarrow> c \<notin> set s"
  by (induction s) auto

section \<open>Decimal numbers\<close>

fun digits :: "nat \<Rightarrow> string" where
  "digits n = (if n < 10 then [chr (48 + n)] else digits (n div 10) @ [chr (48 + n mod 10)])"

declare digits.simps [simp del]

definition FormatInt :: "int \<Rightarrow> string" where
  "FormatInt i = (if i < 0 then CHR ''-'' # digits (nat (- i)) else digits (nat i))"

definition digit_val :: "char \<Rightarrow> nat" where
  "digit_val c = of_char c - 48"

definition parse_nat :: "string \<Rightarrow> nat" where
  "parse_nat s = foldl (\<lambda>a c. 10 * a + digit_val c) 0 s"

lemma digits_nonempty [simp]: "digits n \<noteq> []"
  by (subst digits.simps) simp

lemma digits_all: "list_all is_digit (digits n)"
proof (induction n rule: digits.induct)
  case (1 n)
  have "is_digit (chr (48 + d))" if "d < 10" for d
    using that by (simp add: is_digit_def)
  with 1 show ?case
    by (subst digits.simps) (auto simp del: list_all_iff)
qed

lemma parse_nat_digits [simp]: "parse_nat (digits n) = n"
proof (induction n rule: digits.induct)
  case (1 n)
  have [simp]: "digit_val (chr (48 + d)) = d" if "d < 10" for d
    using that by (simp add: digit_val_def)
  show ?case
    using 1 by (subst digits.simps) (auto simp: parse_nat_def)
qed

lemma digits_inj [simp]: "digits m = digits n \<longleftrightarrow> m = n"
  by (metis parse_nat_digits)

lemma digits_not_minus: "CHR ''-'' # s \<noteq> digits n"
proof
  assume "CHR ''-'' # s = digits n"
  with digits_all [of n] have "is_digit (CHR ''-'')"
    by (metis list.pred_inject(2))
  then show False
    by (simp add: is_digit_def)
qed

lemma FormatInt_inj [simp]: "FormatInt i = FormatInt j \<longleftrightarrow> i = j"
  using digits_not_minus by (auto simp: FormatInt_def) metis+

lemma FormatInt_nonempty [simp]: "FormatInt i \<noteq> []"
  by (simp add: FormatInt_def)

lemma FormatInt_chars: "c \<in> set (FormatInt i) \<Longrightarrow> c = CHR ''-'' \<or> is_digit c"
  using digits_all by (auto simp: FormatInt_def list_all_iff split: if_splits)

lemma FormatInt_no_nul: "chr 0 \<notin> set (FormatInt i)"
proof
  assume "chr 0 \<in> set (FormatInt i)"
  then have "chr 0 = CHR ''-'' \<or> is_digit (chr 0)"
    by (rule FormatInt_chars)
  moreover have "chr 0 \<noteq> CHR ''-''"
    by (simp add: chr_def char_of_def)
  ultimately show False
    by (simp add: is_digit_def)
qed

lemma FormatInt_no_colon: "CHR '':'' \<notin> set (FormatInt i)"
proof
  assume "CHR '':'' \<in> set (FormatInt i)"
  then have "CHR '':'' = CHR ''-'' \<or> is_digit (CHR '':'')"
    by (rule FormatInt_chars)
  then show False
    by (auto simp: is_digit_def)
qed

lemma separated_inj:
  fixes c :: char
  assumes "c \<notin> set a" "c \<notin> set a'" "a @ c # b = a' @ c # b'"
  shows "a = a' \<and> b = b'"
proof -
  have "Cut c (a @ c # b) = Some (a, b)" "Cut c (a' @ c # b') = Some (a', b')"
    using assms(1,2) by (simp_all add: Cut_Some)
  then have "Some (a, b) = Some (a', b')"
    using assms(3) by metis
  then show ?thesis
    by simp
qed

section \<open>Hexadecimal and base64\<close>

definition hex_digit :: "nat \<Rightarrow> char" where
  "hex_digit n = ''0123456789abcdef'' ! n"

definition hex :: "bytes \<Rightarrow> string" where
  "hex bs = concat (map (\<lambda>b. [hex_digit (of_char b div 16), hex_digit (of_char b mod 16)]) bs)"

definition b64_alphabet :: string where
  "b64_alphabet = ''ABCDEFGHIJKLMNOPQRSTUVWXYZabcdefghijklmnopqrstuvwxyz0123456789-_''"

definition b64_char :: "nat \<Rightarrow> char" where
  "b64_char n = b64_alphabet ! (n mod 64)"

text \<open>\<^verbatim>\<open>base64.RawURLEncoding.EncodeToString\<close>: groups of three bytes, no padding.\<close>

fun base64_raw_url :: "bytes \<Rightarrow> string" where
  "base64_raw_url [] = []"
| "base64_raw_url [a] = (let n = of_char a * 16 in [b64_char (n div 64), b64_char n])"
| "base64_raw_url [a, b] = (let n = (of_char a * 256 + of_char b) * 4
     in [b64_char (n div 4096), b64_char (n div 64), b64_char n])"
| "base64_raw_url (a # b # c # s) = (let n = of_char a * 65536 + of_char b * 256 + of_char c
     in [b64_char (n div 262144), b64_char (n div 4096), b64_char (n div 64), b64_char n]
        @ base64_raw_url s)"

lemma hex_digit_inj: "m < 16 \<Longrightarrow> n < 16 \<Longrightarrow> hex_digit m = hex_digit n \<Longrightarrow> m = n"
  by (simp add: hex_digit_def nth_eq_iff_index_eq)

lemma hex_length [simp]: "length (hex bs) = 2 * length bs"
  by (induction bs) (simp_all add: hex_def)

lemma hex_inj: "hex as = hex bs \<Longrightarrow> as = bs"
proof (induction as arbitrary: bs)
  case Nil
  then show ?case
    by (cases bs) (simp_all add: hex_def)
next
  case (Cons a as)
  then obtain b bs' where bs: "bs = b # bs'"
    by (cases bs) (simp_all add: hex_def)
  with Cons.prems have
    "hex_digit (of_char a div 16) = hex_digit (of_char b div 16)"
    "hex_digit (of_char a mod 16) = hex_digit (of_char b mod 16)" and rest: "hex as = hex bs'"
    by (simp_all add: hex_def)
  moreover have "(of_char x :: nat) div 16 < 16" for x :: char
    by (simp add: less_mult_imp_div_less)
  ultimately have "(of_char a :: nat) div 16 = of_char b div 16"
    "(of_char a :: nat) mod 16 = of_char b mod 16"
    by (auto intro: hex_digit_inj)
  then have "(of_char a :: nat) = of_char b"
    by (metis div_mult_mod_eq)
  with Cons.IH [OF rest] bs show ?case
    by simp
qed

lemma base64_length: "length (base64_raw_url bs) = (4 * length bs + 2) div 3"
  by (induction bs rule: base64_raw_url.induct) (simp_all add: Let_def)

lemma b64_char_in: "b64_char n \<in> set b64_alphabet"
proof -
  have "n mod 64 < length b64_alphabet"
    by (simp add: b64_alphabet_def)
  then show ?thesis
    by (simp add: b64_char_def)
qed

lemma base64_chars: "set (base64_raw_url bs) \<subseteq> set b64_alphabet"
  by (induction bs rule: base64_raw_url.induct) (simp_all add: Let_def b64_char_in)

section \<open>Machine integers\<close>

text \<open>
  \<open>int64 x\<close> is the value of \<open>x\<close> kept in 64 bits with a sign, \<open>uint64_le\<close> and
  \<open>put_uint64_le\<close> are \<^verbatim>\<open>binary.LittleEndian\<close>.
\<close>

definition int64 :: "int \<Rightarrow> int" where
  "int64 x = sint (word_of_int x :: 64 word)"

definition int64_range :: "int \<Rightarrow> bool" where
  "int64_range x \<longleftrightarrow> - (2 ^ 63) \<le> x \<and> x < 2 ^ 63"

fun uint64_le :: "bytes \<Rightarrow> int" where
  "uint64_le [] = 0"
| "uint64_le (b # bs) = of_char b + 256 * uint64_le bs"

fun le_bytes :: "nat \<Rightarrow> int \<Rightarrow> bytes" where
  "le_bytes 0 x = []"
| "le_bytes (Suc n) x = chr (nat (x mod 256)) # le_bytes n (x div 256)"

definition put_uint64_le :: "int \<Rightarrow> bytes" where
  "put_uint64_le x = le_bytes 8 (x mod 2 ^ 64)"

lemma int64_bounds: "int64_range (int64 x)"
  using sint_range_size [of "word_of_int x :: 64 word"]
  by (simp add: int64_range_def int64_def size_word_def)

lemma int64_id: "int64_range x \<Longrightarrow> int64 x = x"
  by (simp add: int64_def int64_range_def sint_sbintrunc' signed_take_bit_int_eq_self)

lemma uint64_le_bytes: "0 \<le> x \<Longrightarrow> x < 256 ^ n \<Longrightarrow> uint64_le (le_bytes n x) = x"
proof (induction n arbitrary: x)
  case (Suc n)
  have "uint64_le (le_bytes n (x div 256)) = x div 256"
    using Suc.prems by (intro Suc.IH) auto
  moreover have "of_char (chr (nat (x mod 256))) = x mod 256"
  proof -
    have "of_char (chr (nat (x mod 256))) = int (of_char (chr (nat (x mod 256))))"
      by (simp only: of_nat_of_char)
    also have "\<dots> = x mod 256"
      by (subst of_char_chr) auto
    finally show ?thesis .
  qed
  ultimately show ?case
    by simp
qed simp

lemma le_bytes_length [simp]: "length (le_bytes n x) = n"
  by (induction n arbitrary: x) simp_all

lemma uint64_le_put [simp]: "uint64_le (put_uint64_le x) = x mod 2 ^ 64"
  unfolding put_uint64_le_def by (rule uint64_le_bytes) simp_all

lemma put_uint64_length [simp]: "length (put_uint64_le x) = 8"
  by (simp add: put_uint64_le_def)

section \<open>Time\<close>

text \<open>
  \<^verbatim>\<open>time.Time\<close> is the instant in nanoseconds since the Unix epoch; the zero value is
  the start of year 1. \<^verbatim>\<open>Unix()\<close> rounds down to seconds.
\<close>

definition zero_time :: int where
  "zero_time = - 62135596800 * 1000000000"

definition Unix :: "int \<Rightarrow> int" where
  "Unix t = t div 1000000000"

definition seconds :: "int \<Rightarrow> int" where
  "seconds n = n * 1000000000"

end
