(* ===== verification/Teled.thy ===== *)
theory Teled imports GoStd begin

text \<open>
  The root package of the repository: the data types of \<^verbatim>\<open>users.go\<close>,
  \<^verbatim>\<open>message.go\<close>, \<^verbatim>\<open>updates.go\<close>, \<^verbatim>\<open>file.go\<close>, \<^verbatim>\<open>bot.go\<close> and \<^verbatim>\<open>db.go\<close>, and the payloads
  of the update log. Fields keep their Go names behind a prefix for the type; a
  pointer that may be nil is an option.
\<close>

section \<open>Accounts\<close>

record Contact =
  ct_UserID :: int
  ct_FirstName :: string
  ct_LastName :: string

record User =
  usr_ID :: int
  usr_AccessHash :: int
  usr_Phone :: string
  usr_Username :: string
  usr_FirstName :: string
  usr_LastName :: string
  usr_About :: string
  usr_IsBot :: bool
  usr_BotToken :: string
  usr_CreatedAt :: int

definition zero_user :: User where
  "zero_user = \<lparr>usr_ID = 0, usr_AccessHash = 0, usr_Phone = [], usr_Username = [],
     usr_FirstName = [], usr_LastName = [], usr_About = [], usr_IsBot = False,
     usr_BotToken = [], usr_CreatedAt = zero_time\<rparr>"

section \<open>Messages\<close>

record File =
  file_ID :: int
  file_OwnerUserID :: int
  file_AccessHash :: int
  file_ObjectKey :: string
  file_Size :: int
  file_Mime :: string
  file_SHA256 :: bytes
  file_FileReference :: bytes
  file_Kind :: string
  file_CreatedAt :: int

record Message =
  msg_GlobalID :: int
  msg_LocalID :: int
  msg_FromUserID :: int
  msg_PeerUserID :: int
  msg_Out :: bool
  msg_Text :: string
  msg_Date :: int
  msg_EditDate :: int
  msg_RandomID :: int
  msg_Media :: "File option"

record Draft =
  dr_PeerUserID :: int
  dr_Text :: string
  dr_Date :: int

record Dialog =
  dlg_PeerUserID :: int
  dlg_TopMessageID :: int
  dlg_ReadInboxMaxID :: int
  dlg_ReadOutboxMaxID :: int
  dlg_UnreadCount :: int
  dlg_Draft :: "Draft option"

record EditResult =
  er_SelfLocalID :: int
  er_SelfPts :: int
  er_PeerUserID :: int
  er_PeerLocalID :: int
  er_PeerPts :: int
  er_Date :: int
  er_EditDate :: int

record DeleteResult =
  del_Pts :: int
  del_PtsCount :: int
  del_LocalIDs :: "int list"

record SentMessage =
  sent_GlobalID :: int
  sent_Date :: int
  sent_SenderLocalID :: int
  sent_SenderPts :: int
  sent_RecipientLocalID :: int
  sent_RecipientPts :: int
  sent_SelfChat :: bool

section \<open>Updates\<close>

record State =
  st_Pts :: int
  st_Qts :: int
  st_Seq :: int
  st_Date :: int
  st_UnreadCount :: int

record UpdateLogEntry =
  ue_Pts :: int
  ue_PtsCount :: int
  ue_Type :: string
  ue_GlobalID :: "int option"
  ue_Extra :: bytes
  ue_Date :: int

record ReadResult =
  rr_InboxPts :: int
  rr_UnreadCount :: int
  rr_OutboxPts :: int
  rr_OutboxMaxID :: int

definition UpdateNew :: string where "UpdateNew = ''new''"

definition UpdateEdit :: string where "UpdateEdit = ''edit''"

definition UpdateDelete :: string where "UpdateDelete = ''delete''"

definition UpdateReadInbox :: string where "UpdateReadInbox = ''readinbox''"

definition UpdateReadOutbox :: string where "UpdateReadOutbox = ''readoutbox''"

lemmas update_types = UpdateNew_def UpdateEdit_def UpdateDelete_def UpdateReadInbox_def
  UpdateReadOutbox_def

section \<open>Bots\<close>

record BotCommand =
  bc_Command :: string
  bc_Description :: string

definition BotFatherID :: int where "BotFatherID = 93372553"

definition BotFatherStepNewBotName :: string where
  "BotFatherStepNewBotName = ''newbot_name''"

definition BotFatherStepNewBotUsername :: string where
  "BotFatherStepNewBotUsername = ''newbot_username''"

definition BotFatherStepRevokeSelect :: string where
  "BotFatherStepRevokeSelect = ''revoke_select''"

lemmas bot_steps = BotFatherStepNewBotName_def BotFatherStepNewBotUsername_def
  BotFatherStepRevokeSelect_def

record BotFatherState =
  bf_Step :: string
  bf_DraftName :: string

definition zero_bot_state :: BotFatherState where
  "zero_bot_state = \<lparr>bf_Step = [], bf_DraftName = []\<rparr>"

section \<open>Payloads of the update log\<close>

text \<open>
  The \<^verbatim>\<open>encoding/json\<close> text of the two structs: an object with integer fields and
  one array. A nil slice is written as \<^verbatim>\<open>null\<close>. The decoder accepts the objects
  with these fields in this order and white space between tokens, which is what
  the program stores; on any other text the code ignores the error and keeps the
  zero value.
\<close>

definition jquote :: "string \<Rightarrow> string" where
  "jquote s = CHR 0x22 # s @ [CHR 0x22]"

fun json_ints :: "int list \<Rightarrow> string" where
  "json_ints [] = []"
| "json_ints [i] = FormatInt i"
| "json_ints (i # j # is) = FormatInt i @ CHR '','' # json_ints (j # is)"

definition EncodeDeleted :: "int list \<Rightarrow> bytes" where
  "EncodeDeleted ids = ''{'' @ jquote ''ids'' @ '':''
     @ (if ids = [] then ''null'' else ''['' @ json_ints ids @ '']'') @ ''}''"

definition EncodeRead :: "int \<Rightarrow> int \<Rightarrow> bytes" where
  "EncodeRead peer maxID = ''{'' @ jquote ''peer'' @ '':'' @ FormatInt peer
     @ '','' @ jquote ''max_id'' @ '':'' @ FormatInt maxID @ ''}''"

definition jspace :: "char \<Rightarrow> bool" where
  "jspace c \<longleftrightarrow> c \<in> set [CHR '' '', CHR 0x09, CHR 0x0A, CHR 0x0D]"

definition jskip :: "string \<Rightarrow> string" where
  "jskip s = dropWhile jspace s"

definition jtoken :: "string \<Rightarrow> string \<Rightarrow> string option" where
  "jtoken t s = (let r = jskip s in if prefix t r then Some (drop (length t) r) else None)"

definition jnat :: "string \<Rightarrow> (nat \<times> string) option" where
  "jnat s = (let ds = takeWhile is_digit s in
     if ds = [] \<or> (hd ds = CHR ''0'' \<and> length ds > 1) then None
     else Some (parse_nat ds, dropWhile is_digit s))"

definition jint :: "string \<Rightarrow> (int \<times> string) option" where
  "jint s = (let r = jskip s in
     if r \<noteq> [] \<and> hd r = CHR ''-'' then map_option (\<lambda>(n, t). (- int n, t)) (jnat (tl r))
     else map_option (\<lambda>(n, t). (int n, t)) (jnat r))"

fun jints :: "nat \<Rightarrow> string \<Rightarrow> (int list \<times> string) option" where
  "jints 0 s = None"
| "jints (Suc n) s = (case jint s of
     None \<Rightarrow> None
   | Some (i, r) \<Rightarrow> (case jtoken '','' r of
       Some r' \<Rightarrow> map_option (\<lambda>(is, t). (i # is, t)) (jints n r')
     | None \<Rightarrow> map_option (\<lambda>t. ([i], t)) (jtoken '']'' r)))"

definition jarray :: "string \<Rightarrow> (int list \<times> string) option" where
  "jarray s = (case jtoken ''null'' s of
     Some r \<Rightarrow> Some ([], r)
   | None \<Rightarrow> (case jtoken ''['' s of
       None \<Rightarrow> None
     | Some r \<Rightarrow> (case jtoken '']'' r of
         Some r' \<Rightarrow> Some ([], r')
       | None \<Rightarrow> jints (length r) r)))"

definition jkey :: "string \<Rightarrow> string \<Rightarrow> string option" where
  "jkey k s = Option.bind (jtoken (jquote k) s) (jtoken '':'')"

definition jend :: "string \<Rightarrow> bool" where
  "jend s \<longleftrightarrow> (case jtoken ''}'' s of None \<Rightarrow> False | Some r \<Rightarrow> jskip r = [])"

definition DecodeDeleted :: "bytes \<Rightarrow> int list" where
  "DecodeDeleted extra =
     (case Option.bind (Option.bind (jtoken ''{'' extra) (jkey ''ids'')) jarray of
       None \<Rightarrow> []
     | Some (is, r) \<Rightarrow> if jend r then is else [])"

definition DecodeRead :: "bytes \<Rightarrow> int \<times> int" where
  "DecodeRead extra =
     (case Option.bind (Option.bind (jtoken ''{'' extra) (jkey ''peer'')) jint of
       None \<Rightarrow> (0, 0)
     | Some (p, r) \<Rightarrow>
        (case Option.bind (Option.bind (jtoken '','' r) (jkey ''max_id'')) jint of
           None \<Rightarrow> (0, 0)
         | Some (m, r') \<Rightarrow> if jend r' then (p, m) else (0, 0)))"

lemma jskip_Cons [simp]: "\<not> jspace c \<Longrightarrow> jskip (c # s) = c # s"
  by (simp add: jskip_def)

lemma jskip_Nil [simp]: "jskip [] = []"
  by (simp add: jskip_def)

lemma jtoken_Cons [simp]:
  "\<not> jspace c \<Longrightarrow> jtoken (t # ts) (c # s) =
     (if t = c then (if prefix ts s then Some (drop (length ts) s) else None) else None)"
  by (simp add: jtoken_def Let_def)

lemma digit_not_space [simp]: "is_digit c \<Longrightarrow> \<not> jspace c"
  by (auto simp: is_digit_def jspace_def)

lemma digits_Cons: obtains d ds where "digits n = d # ds" "is_digit d"
  using digits_all [of n] digits_nonempty [of n] by (cases "digits n") auto

lemma digits_no_leading_zero: "hd (digits n) = CHR ''0'' \<Longrightarrow> length (digits n) \<le> 1"
proof (induction n rule: digits.induct)
  case (1 n)
  show ?case
  proof (cases "n < 10")
    case True
    then show ?thesis
      by (subst digits.simps) simp
  next
    case False
    then have eq: "digits n = digits (n div 10) @ [chr (48 + n mod 10)]"
      by (subst digits.simps) simp
    with 1(2) have "hd (digits (n div 10)) = CHR ''0''"
      by simp
    moreover from 1(1) [OF False] this have "length (digits (n div 10)) \<le> 1"
      by simp
    ultimately have "digits (n div 10) = [CHR ''0'']"
      by (cases "digits (n div 10)") auto
    then have "parse_nat (digits (n div 10)) = 0"
      by (simp add: parse_nat_def digit_val_def)
    with False show ?thesis
      by simp
  qed
qed

lemma jnat_digits:
  assumes "\<not> (r \<noteq> [] \<and> is_digit (hd r))"
  shows "jnat (digits n @ r) = Some (n, r)"
proof -
  have all: "\<And>c. c \<in> set (digits n) \<Longrightarrow> is_digit c"
    using digits_all by (simp add: list_all_iff)
  have "takeWhile is_digit r = []" "dropWhile is_digit r = r"
    using assms by (cases r; simp)+
  with all have "takeWhile is_digit (digits n @ r) = digits n" "dropWhile is_digit (digits n @ r) = r"
    by simp_all
  with digits_no_leading_zero [of n] show ?thesis
    by (auto simp: jnat_def Let_def)
qed

lemma jint_FormatInt:
  assumes "\<not> (r \<noteq> [] \<and> is_digit (hd r))"
  shows "jint (FormatInt i @ r) = Some (i, r)"
proof (cases "i < 0")
  case True
  then show ?thesis
    using jnat_digits [OF assms] by (simp add: jint_def FormatInt_def jspace_def)
next
  case False
  obtain d ds where d: "digits (nat i) = d # ds" "is_digit d"
    by (rule digits_Cons)
  then have "d \<noteq> CHR ''-''"
    by (auto simp: is_digit_def)
  with d have "jint (digits (nat i) @ r) = map_option (\<lambda>(n, t). (int n, t)) (jnat (digits (nat i) @ r))"
    by (simp add: jint_def)
  with False jnat_digits [OF assms, of "nat i"] show ?thesis
    by (simp add: FormatInt_def)
qed

lemma jints_json_ints:
  "is \<noteq> [] \<Longrightarrow> length is \<le> n \<Longrightarrow> jints n (json_ints is @ CHR '']'' # r) = Some (is, r)"
proof (induction "is" arbitrary: n rule: json_ints.induct)
  case (2 i)
  then obtain m where "n = Suc m"
    by (cases n) auto
  moreover have "jint (FormatInt i @ CHR '']'' # r) = Some (i, CHR '']'' # r)"
    by (rule jint_FormatInt) (simp add: is_digit_def)
  ultimately show ?case
    by (simp add: jspace_def)
next
  case (3 i j "is")
  then obtain m where "n = Suc m" "length (j # is) \<le> m"
    by (cases n) auto
  moreover have "jint (FormatInt i @ CHR '','' # json_ints (j # is) @ CHR '']'' # r)
      = Some (i, CHR '','' # json_ints (j # is) @ CHR '']'' # r)"
    by (rule jint_FormatInt) (simp add: is_digit_def)
  ultimately show ?case
    using 3(1) [of m] by (simp add: jspace_def)
qed simp

lemma json_ints_length: "is \<noteq> [] \<Longrightarrow> length is \<le> length (json_ints is)"
proof (induction "is" rule: json_ints.induct)
  case (2 i)
  show ?case
    using FormatInt_nonempty [of i] by (cases "FormatInt i") simp_all
qed simp_all

lemma json_ints_head:
  "is \<noteq> [] \<Longrightarrow> \<exists>c s. json_ints is = c # s \<and> (c = CHR ''-'' \<or> is_digit c)"
proof -
  have *: "\<exists>c s. FormatInt i @ r = c # s \<and> (c = CHR ''-'' \<or> is_digit c)" for i r
    using FormatInt_chars [of _ i] FormatInt_nonempty [of i] by (cases "FormatInt i") auto
  assume "is \<noteq> []"
  then show ?thesis
  proof (cases "is" rule: json_ints.cases)
    case (2 i)
    with * [of i "[]"] show ?thesis by simp
  next
    case (3 i j js)
    with * [of i "CHR '','' # json_ints (j # js)"] show ?thesis by simp
  qed simp
qed

lemma decode_encode_deleted [simp]: "DecodeDeleted (EncodeDeleted is) = is"
proof (cases "is = []")
  case True
  have "prefix ''ids'' (''ids'' @ r)" for r :: string
    by simp
  with True show ?thesis
    by (simp add: DecodeDeleted_def EncodeDeleted_def jkey_def jquote_def jarray_def jend_def
        jspace_def)
next
  case False
  obtain c s where c: "json_ints is = c # s" "c = CHR ''-'' \<or> is_digit c"
    using json_ints_head [OF False] by blast
  then have "\<not> jspace c" "c \<noteq> CHR '']''"
    by (auto simp: jspace_def is_digit_def)
  moreover have "jints (length (json_ints is @ ''}'') + 1) (json_ints is @ CHR '']'' # ''}'') = Some (is, ''}'')"
    using jints_json_ints [OF False, of "length (json_ints is @ ''}'') + 1" "''}''"]
      json_ints_length [OF False] by simp
  ultimately show ?thesis
    using False c(1)
    by (simp add: DecodeDeleted_def EncodeDeleted_def jkey_def jquote_def jarray_def jend_def
        jspace_def)
qed

lemma decode_encode_read [simp]: "DecodeRead (EncodeRead p m) = (p, m)"
proof -
  have 1: "jint (FormatInt p @ CHR '','' # r) = Some (p, CHR '','' # r)" for r
    by (rule jint_FormatInt) (simp add: is_digit_def)
  have 2: "jint (FormatInt m @ CHR ''}'' # r) = Some (m, CHR ''}'' # r)" for r
    by (rule jint_FormatInt) (simp add: is_digit_def)
  show ?thesis
    by (simp add: DecodeRead_def EncodeRead_def jkey_def jquote_def jend_def jspace_def 1 2)
qed

end
