(* ===== verification/MemDB.thy ===== *)
theory MemDB imports Teled begin

text \<open>
  The in-memory database of \<^verbatim>\<open>memory/db.go\<close>: its state and every method of the
  \<^verbatim>\<open>teled.DB\<close> interface, in the order of the file. A method takes the mutex for its
  whole body, so each is one atomic step on the state. Identifiers, pts and dates
  are integers without a bound: the counters start at zero and each call adds one
  (\<open>DeleteMessages\<close> the number of its ids), so 64 bits are never exceeded.
\<close>

section \<open>State\<close>

record memUser =
  mu_u :: User
  mu_pts :: int
  mu_lastMessageID :: int
  mu_botOwnerID :: int

record memMessage =
  mm_globalID :: int
  mm_from :: int
  mm_peer :: int
  mm_text :: string
  mm_date :: int
  mm_editDate :: int
  mm_randomID :: int
  mm_mediaFileID :: int
  mm_deleted :: bool

record memRef =
  mr_localID :: int
  mr_globalID :: int
  mr_out :: bool
  mr_unread :: bool

record memPhoneCode =
  pc_code :: string
  pc_expiresAt :: int

record memTempKey =
  tk_perm :: bytes
  tk_expiresAt :: int

record memdb = world +
  users :: "(int, memUser) gomap"
  userSeq :: int
  messages :: "(int, memMessage) gomap"
  msgSeq :: int
  refs :: "(int, (int, memRef) gomap) gomap"
  updates :: "(int, UpdateLogEntry list) gomap"
  files :: "(int, File) gomap"
  fileSeq :: int
  sessions :: "(bytes, int) gomap"
  tempKeys :: "(bytes, memTempKey) gomap"
  phoneCodes :: "(string, memPhoneCode) gomap"
  drafts :: "(int, (int, Draft) gomap) gomap"
  contacts :: "(int, (int, Contact) gomap) gomap"
  botStates :: "(int, BotFatherState) gomap"
  botCommands :: "(string, BotCommand list) gomap"

definition newMemUser :: "User \<Rightarrow> int \<Rightarrow> memUser" where
  "newMemUser u owner = \<lparr>mu_u = u, mu_pts = 0, mu_lastMessageID = 0, mu_botOwnerID = owner\<rparr>"

definition NewDB :: "('z memdb_scheme, unit) go" where
  "NewDB = bnd now (\<lambda>t. modify (\<lambda>d. d\<lparr>
     users := [(BotFatherID, newMemUser (zero_user\<lparr>usr_ID := BotFatherID,
       usr_AccessHash := 7264819913547, usr_Username := ''BotFather'',
       usr_FirstName := ''BotFather'', usr_IsBot := True, usr_CreatedAt := t\<rparr>) 0)],
     userSeq := 0, messages := [], msgSeq := 0, refs := [], updates := [], files := [],
     fileSeq := 0, sessions := [], tempKeys := [], phoneCodes := [], drafts := [],
     contacts := [], botStates := [], botCommands := []\<rparr>))"

definition Ready :: "('z memdb_scheme, unit) go" where
  "Ready = ret ()"

section \<open>Users\<close>

definition genAccessHash :: "('z world_scheme, int) go" where
  "genAccessHash = bnd (rand_read 8) (\<lambda>b.
     let h = int64 (uint64_le b) in ret (if h = 0 then 1 else h))"

definition phoneTaken :: "string \<Rightarrow> 'z memdb_scheme \<Rightarrow> bool" where
  "phoneTaken phone d \<longleftrightarrow> phone \<noteq> [] \<and>
     list_ex (\<lambda>mu. usr_Phone (mu_u mu) = phone) (mvals (users d))"

definition usernameTaken :: "string \<Rightarrow> 'z memdb_scheme \<Rightarrow> bool" where
  "usernameTaken username d \<longleftrightarrow> username \<noteq> [] \<and>
     list_ex (\<lambda>mu. usr_Username (mu_u mu) = username) (mvals (users d))"

definition tokenTaken :: "string \<Rightarrow> 'z memdb_scheme \<Rightarrow> bool" where
  "tokenTaken token d \<longleftrightarrow> token \<noteq> [] \<and>
     list_ex (\<lambda>mu. usr_BotToken (mu_u mu) = token) (mvals (users d))"

definition nextUserID :: "('z memdb_scheme, int) go" where
  "nextUserID = bnd (modify (\<lambda>d. d\<lparr>userSeq := userSeq d + 1\<rparr>)) (\<lambda>_. gets userSeq)"

definition insertUser :: "User \<Rightarrow> int \<Rightarrow> ('z memdb_scheme, User) go" where
  "insertUser u owner =
     bnd (modify (\<lambda>d. d\<lparr>users := mput (usr_ID u) (newMemUser u owner) (users d)\<rparr>)) (\<lambda>_. ret u)"

definition CreateUser :: "string \<Rightarrow> string \<Rightarrow> string \<Rightarrow> ('z memdb_scheme, User) go" where
  "CreateUser phone firstName lastName = bnd (gets (phoneTaken phone)) (\<lambda>taken.
     if taken then fail (ErrPhoneExists phone) else
     bnd nextUserID (\<lambda>id. bnd genAccessHash (\<lambda>h. bnd now (\<lambda>t.
     insertUser (zero_user\<lparr>usr_ID := id, usr_AccessHash := h, usr_Phone := phone,
       usr_FirstName := firstName, usr_LastName := lastName, usr_CreatedAt := t\<rparr>) 0))))"

definition CreateBot :: "string \<Rightarrow> string \<Rightarrow> string \<Rightarrow> ('z memdb_scheme, User) go" where
  "CreateBot token username firstName = bnd (gets (tokenTaken token)) (\<lambda>taken.
     if taken then fail ErrTokenExists else
     bnd (gets (usernameTaken username)) (\<lambda>taken'.
     if taken' then fail (ErrUsernameExists username) else
     bnd nextUserID (\<lambda>id. bnd genAccessHash (\<lambda>h. bnd now (\<lambda>t.
     insertUser (zero_user\<lparr>usr_ID := id, usr_AccessHash := h, usr_Username := username,
       usr_FirstName := firstName, usr_IsBot := True, usr_BotToken := token,
       usr_CreatedAt := t\<rparr>) 0)))))"

definition CreateOwnedBot :: "string \<Rightarrow> string \<Rightarrow> int \<Rightarrow> string \<Rightarrow> ('z memdb_scheme, User) go" where
  "CreateOwnedBot username firstName ownerID secret = bnd (gets (usernameTaken username)) (\<lambda>taken.
     if taken then fail (ErrUsernameExists username) else
     bnd nextUserID (\<lambda>id. bnd genAccessHash (\<lambda>h. bnd now (\<lambda>t.
     insertUser (zero_user\<lparr>usr_ID := id, usr_AccessHash := h, usr_Username := username,
       usr_FirstName := firstName, usr_IsBot := True,
       usr_BotToken := FormatInt id @ '':'' @ secret, usr_CreatedAt := t\<rparr>) ownerID))))"

text \<open>An assignment through the pointer held in the users map.\<close>

definition setUser :: "int \<Rightarrow> (memUser \<Rightarrow> memUser) \<Rightarrow> ('z memdb_scheme, unit) go" where
  "setUser uid f = modify (\<lambda>d. d\<lparr>users := mmod uid f (users d)\<rparr>)"

definition SetBotToken :: "int \<Rightarrow> string \<Rightarrow> ('z memdb_scheme, unit) go" where
  "SetBotToken botID token = bnd (gets (\<lambda>d. map_of (users d) botID)) (\<lambda>x. case x of
     None \<Rightarrow> ret ()
   | Some mu \<Rightarrow> if usr_IsBot (mu_u mu)
       then setUser botID (\<lambda>mu. mu\<lparr>mu_u := (mu_u mu)\<lparr>usr_BotToken := token\<rparr>\<rparr>)
       else ret ())"

definition BotByToken :: "string \<Rightarrow> ('z memdb_scheme, User option) go" where
  "BotByToken token = gets (\<lambda>d. map_option mu_u
     (find (\<lambda>mu. usr_IsBot (mu_u mu) \<and> usr_BotToken (mu_u mu) = token) (mvals (users d))))"

definition BotsByOwner :: "int \<Rightarrow> ('z memdb_scheme, User list) go" where
  "BotsByOwner ownerID = gets (\<lambda>d. sort_key usr_ID
     (map mu_u (filter (\<lambda>mu. mu_botOwnerID mu = ownerID) (mvals (users d)))))"

definition UserByID :: "int \<Rightarrow> ('z memdb_scheme, User option) go" where
  "UserByID uid = gets (\<lambda>d. map_option mu_u (map_of (users d) uid))"

definition UserByPhone :: "string \<Rightarrow> ('z memdb_scheme, User option) go" where
  "UserByPhone phone = gets (\<lambda>d. map_option mu_u
     (find (\<lambda>mu. usr_Phone (mu_u mu) = phone) (mvals (users d))))"

definition UserByUsername :: "string \<Rightarrow> ('z memdb_scheme, User option) go" where
  "UserByUsername username = gets (\<lambda>d. map_option mu_u
     (find (\<lambda>mu. usr_Username (mu_u mu) = username) (mvals (users d))))"

text \<open>A nil pointer leaves the field unchanged.\<close>

definition with_default :: "'a option \<Rightarrow> 'a \<Rightarrow> 'a" where
  "with_default x y = (case x of None \<Rightarrow> y | Some v \<Rightarrow> v)"

definition setProfileFields :: "string option \<Rightarrow> string option \<Rightarrow> string option \<Rightarrow> User \<Rightarrow> User" where
  "setProfileFields firstName lastName about u = u\<lparr>
     usr_FirstName := with_default firstName (usr_FirstName u),
     usr_LastName := with_default lastName (usr_LastName u),
     usr_About := with_default about (usr_About u)\<rparr>"

definition SetProfile ::
  "int \<Rightarrow> string option \<Rightarrow> string option \<Rightarrow> string option \<Rightarrow> ('z memdb_scheme, User) go" where
  "SetProfile userID firstName lastName about = bnd (gets (\<lambda>d. map_of (users d) userID)) (\<lambda>x.
     case x of
       None \<Rightarrow> fail (ErrUserNotFound userID)
     | Some mu \<Rightarrow>
        let u = setProfileFields firstName lastName about (mu_u mu) in
        bnd (setUser userID (\<lambda>mu. mu\<lparr>mu_u := u\<rparr>)) (\<lambda>_. ret u))"

definition SearchUsers :: "string \<Rightarrow> int \<Rightarrow> ('z memdb_scheme, User list) go" where
  "SearchUsers query limit = gets (\<lambda>d.
     let lc = ToLower (uc_lower d); q = lc (TrimSpace query) in
     if q = [] then [] else
     let limit' = if limit \<le> 0 then 20 else limit;
         hit = (\<lambda>u. prefix q (lc (usr_Username u)) \<or> contains (lc (usr_FirstName u)) q
                  \<or> contains (lc (usr_LastName u)) q)
     in gotake limit' (sort_key usr_ID (filter hit (map mu_u (mvals (users d))))))"

definition SetUsername :: "int \<Rightarrow> string \<Rightarrow> ('z memdb_scheme, User) go" where
  "SetUsername userID username = bnd (gets users) (\<lambda>us. case map_of us userID of
       None \<Rightarrow> fail (ErrUserNotFound userID)
     | Some mu \<Rightarrow>
        if username \<noteq> [] \<and>
           list_ex (\<lambda>(id, other). id \<noteq> userID \<and> usr_Username (mu_u other) = username) us
        then fail (ErrUsernameExists username)
        else let u = (mu_u mu)\<lparr>usr_Username := username\<rparr> in
          bnd (setUser userID (\<lambda>mu. mu\<lparr>mu_u := u\<rparr>)) (\<lambda>_. ret u))"

definition UsersByIDs :: "int list \<Rightarrow> ('z memdb_scheme, User list) go" where
  "UsersByIDs ids = gets (\<lambda>d. map mu_u (List.map_filter (map_of (users d)) ids))"

section \<open>Phone codes and sessions\<close>

definition phoneCodeKey :: "string \<Rightarrow> string \<Rightarrow> string" where
  "phoneCodeKey phone codeHash = phone @ chr 0 # codeHash"

definition SavePhoneCode :: "string \<Rightarrow> string \<Rightarrow> string \<Rightarrow> int \<Rightarrow> ('z memdb_scheme, unit) go" where
  "SavePhoneCode phone codeHash code ttl = bnd now (\<lambda>t. modify (\<lambda>d. d\<lparr>phoneCodes :=
     mput (phoneCodeKey phone codeHash) \<lparr>pc_code = code, pc_expiresAt = t + ttl\<rparr> (phoneCodes d)\<rparr>))"

text \<open>The clock is read only when the code is found: \<^verbatim>\<open>!ok || !After(time.Now())\<close>.\<close>

definition PhoneCode :: "string \<Rightarrow> string \<Rightarrow> ('z memdb_scheme, string option) go" where
  "PhoneCode phone codeHash =
     bnd (gets (\<lambda>d. map_of (phoneCodes d) (phoneCodeKey phone codeHash))) (\<lambda>x. case x of
       None \<Rightarrow> ret None
     | Some pc \<Rightarrow> bnd now (\<lambda>t. ret (if t < pc_expiresAt pc then Some (pc_code pc) else None)))"

definition BindSession :: "bytes \<Rightarrow> int \<Rightarrow> ('z memdb_scheme, unit) go" where
  "BindSession keyID userID = modify (\<lambda>d. d\<lparr>sessions := mput keyID userID (sessions d)\<rparr>)"

definition SessionUserID :: "bytes \<Rightarrow> ('z memdb_scheme, int option) go" where
  "SessionUserID keyID = gets (\<lambda>d. map_of (sessions d) keyID)"

definition Unbind :: "bytes \<Rightarrow> ('z memdb_scheme, unit) go" where
  "Unbind keyID = modify (\<lambda>d. d\<lparr>sessions := mdel keyID (sessions d)\<rparr>)"

definition BindTempAuthKey :: "bytes \<Rightarrow> bytes \<Rightarrow> int \<Rightarrow> ('z memdb_scheme, unit) go" where
  "BindTempAuthKey tempKeyID permKeyID expiresAt = modify (\<lambda>d. d\<lparr>tempKeys :=
     mput tempKeyID \<lparr>tk_perm = permKeyID, tk_expiresAt = expiresAt\<rparr> (tempKeys d)\<rparr>)"

definition PermAuthKey :: "bytes \<Rightarrow> ('z memdb_scheme, bytes option) go" where
  "PermAuthKey tempKeyID = bnd (gets (\<lambda>d. map_of (tempKeys d) tempKeyID)) (\<lambda>x. case x of
       None \<Rightarrow> ret None
     | Some tk \<Rightarrow> bnd now (\<lambda>t. ret (if t < tk_expiresAt tk then Some (tk_perm tk) else None)))"

section \<open>Messages\<close>

text \<open>\<^verbatim>\<open>allocate\<close> and \<^verbatim>\<open>allocatePts\<close> dereference the user they look up: a nil
  pointer when there is no such user, which panics.\<close>

definition allocate :: "int \<Rightarrow> ('z memdb_scheme, int \<times> int) go" where
  "allocate userID = bnd (gets (\<lambda>d. map_of (users d) userID)) (\<lambda>x. case x of
       None \<Rightarrow> gopanic
     | Some mu \<Rightarrow>
        bnd (setUser userID (\<lambda>mu. mu\<lparr>mu_lastMessageID := mu_lastMessageID mu + 1,
               mu_pts := mu_pts mu + 1\<rparr>)) (\<lambda>_.
        ret (mu_lastMessageID mu + 1, mu_pts mu + 1)))"

definition allocatePts :: "int \<Rightarrow> int \<Rightarrow> ('z memdb_scheme, int) go" where
  "allocatePts userID n = bnd (gets (\<lambda>d. map_of (users d) userID)) (\<lambda>x. case x of
       None \<Rightarrow> gopanic
     | Some mu \<Rightarrow>
        bnd (setUser userID (\<lambda>mu. mu\<lparr>mu_pts := mu_pts mu + n\<rparr>)) (\<lambda>_.
        ret (mu_pts mu + n)))"

definition putRef :: "int \<Rightarrow> memRef \<Rightarrow> ('z memdb_scheme, unit) go" where
  "putRef userID r = modify (\<lambda>d. d\<lparr>refs :=
     mput userID (mput (mr_localID r) r (getd (refs d) userID)) (refs d)\<rparr>)"

definition logUpdate ::
  "int \<Rightarrow> int \<Rightarrow> int \<Rightarrow> string \<Rightarrow> int option \<Rightarrow> bytes \<Rightarrow> ('z memdb_scheme, unit) go" where
  "logUpdate userID pts ptsCount typ globalID extra = bnd now (\<lambda>t. modify (\<lambda>d. d\<lparr>updates :=
     mput userID (getd (updates d) userID @ [\<lparr>ue_Pts = pts, ue_PtsCount = ptsCount,
       ue_Type = typ, ue_GlobalID = globalID, ue_Extra = extra, ue_Date = t\<rparr>]) (updates d)\<rparr>))"

definition refByGlobal :: "int \<Rightarrow> int \<Rightarrow> 'z memdb_scheme \<Rightarrow> memRef option" where
  "refByGlobal userID globalID d =
     find (\<lambda>r. mr_globalID r = globalID) (mvals (getd (refs d) userID))"

definition SendMessage ::
  "int \<Rightarrow> int \<Rightarrow> string \<Rightarrow> int \<Rightarrow> int \<Rightarrow> ('z memdb_scheme, SentMessage) go" where
  "SendMessage fromID peerID text randomID mediaFileID =
     bnd (modify (\<lambda>d. d\<lparr>msgSeq := msgSeq d + 1\<rparr>)) (\<lambda>_. bnd (gets msgSeq) (\<lambda>gid. bnd now (\<lambda>t.
     bnd (modify (\<lambda>d. d\<lparr>messages := mput gid \<lparr>mm_globalID = gid, mm_from = fromID, mm_peer = peerID,
       mm_text = text, mm_date = t, mm_editDate = zero_time, mm_randomID = randomID,
       mm_mediaFileID = mediaFileID, mm_deleted = False\<rparr> (messages d)\<rparr>)) (\<lambda>_.
     bnd (allocate fromID) (\<lambda>(sl, sp).
     bnd (putRef fromID \<lparr>mr_localID = sl, mr_globalID = gid, mr_out = True, mr_unread = False\<rparr>) (\<lambda>_.
     bnd (logUpdate fromID sp 1 UpdateNew (Some gid) []) (\<lambda>_.
     if fromID = peerID
     then ret \<lparr>sent_GlobalID = gid, sent_Date = t, sent_SenderLocalID = sl, sent_SenderPts = sp,
            sent_RecipientLocalID = 0, sent_RecipientPts = 0, sent_SelfChat = True\<rparr>
     else bnd (allocate peerID) (\<lambda>(rl, rp).
       bnd (putRef peerID \<lparr>mr_localID = rl, mr_globalID = gid, mr_out = False, mr_unread = True\<rparr>) (\<lambda>_.
       bnd (logUpdate peerID rp 1 UpdateNew (Some gid) []) (\<lambda>_.
       ret \<lparr>sent_GlobalID = gid, sent_Date = t, sent_SenderLocalID = sl, sent_SenderPts = sp,
            sent_RecipientLocalID = rl, sent_RecipientPts = rp, sent_SelfChat = False\<rparr>))))))))))"

definition other :: "int \<Rightarrow> memMessage \<Rightarrow> int" where
  "other self m = (if mm_from m = self then mm_peer m else mm_from m)"

definition message :: "int \<Rightarrow> memRef \<Rightarrow> memMessage \<Rightarrow> 'z memdb_scheme \<Rightarrow> Message" where
  "message self r m d = \<lparr>msg_GlobalID = mm_globalID m, msg_LocalID = mr_localID r,
     msg_FromUserID = mm_from m, msg_PeerUserID = other self m, msg_Out = mr_out r,
     msg_Text = mm_text m, msg_Date = mm_date m, msg_EditDate = mm_editDate m,
     msg_RandomID = mm_randomID m,
     msg_Media = (if mm_mediaFileID m \<noteq> 0 then map_of (files d) (mm_mediaFileID m) else None)\<rparr>"

text \<open>The messages of \<open>self\<close> with \<open>peer\<close> that satisfy \<open>p\<close>, in map order.\<close>

definition conversation ::
  "int \<Rightarrow> int \<Rightarrow> (memRef \<Rightarrow> memMessage \<Rightarrow> bool) \<Rightarrow> 'z memdb_scheme \<Rightarrow> Message list" where
  "conversation self peer p d = List.map_filter (\<lambda>r. case map_of (messages d) (mr_globalID r) of
       None \<Rightarrow> None
     | Some m \<Rightarrow> if mm_deleted m \<or> other self m \<noteq> peer \<or> \<not> p r m then None
                 else Some (message self r m d)) (mvals (getd (refs d) self))"

definition newest_first :: "Message list \<Rightarrow> Message list" where
  "newest_first ms = sort_key (\<lambda>m. - msg_LocalID m) ms"

definition GetHistory :: "int \<Rightarrow> int \<Rightarrow> int \<Rightarrow> int \<Rightarrow> ('z memdb_scheme, Message list) go" where
  "GetHistory self peer offsetID limit = gets (\<lambda>d. gotake limit (newest_first
     (conversation self peer (\<lambda>r m. \<not> (0 < offsetID \<and> offsetID \<le> mr_localID r)) d)))"

definition AddContact :: "int \<Rightarrow> int \<Rightarrow> string \<Rightarrow> string \<Rightarrow> ('z memdb_scheme, unit) go" where
  "AddContact ownerID contactID firstName lastName = modify (\<lambda>d. d\<lparr>contacts :=
     mput ownerID (mput contactID
       \<lparr>ct_UserID = contactID, ct_FirstName = firstName, ct_LastName = lastName\<rparr>
       (getd (contacts d) ownerID)) (contacts d)\<rparr>)"

definition DeleteContacts :: "int \<Rightarrow> int list \<Rightarrow> ('z memdb_scheme, unit) go" where
  "DeleteContacts ownerID contactIDs = loop (\<lambda>id _.
     modify (\<lambda>d. d\<lparr>contacts := mmod ownerID (mdel id) (contacts d)\<rparr>)) contactIDs ()"

definition Contacts :: "int \<Rightarrow> ('z memdb_scheme, Contact list) go" where
  "Contacts ownerID = gets (\<lambda>d. sort_key ct_UserID (mvals (getd (contacts d) ownerID)))"

definition SaveDraft :: "int \<Rightarrow> int \<Rightarrow> string \<Rightarrow> ('z memdb_scheme, int) go" where
  "SaveDraft userID peerID text =
     (if TrimSpace text = []
      then bnd (modify (\<lambda>d. d\<lparr>drafts := mmod userID (mdel peerID) (drafts d)\<rparr>)) (\<lambda>_. ret zero_time)
      else bnd now (\<lambda>t. bnd (modify (\<lambda>d. d\<lparr>drafts := mput userID (mput peerID
           \<lparr>dr_PeerUserID = peerID, dr_Text = text, dr_Date = t\<rparr>
           (getd (drafts d) userID)) (drafts d)\<rparr>)) (\<lambda>_. ret t)))"

text \<open>\<^verbatim>\<open>sort.Slice\<close> is not stable: drafts of equal date may come in any order, and
  \<open>Drafts\<close> takes the map's.\<close>

definition Drafts :: "int \<Rightarrow> ('z memdb_scheme, Draft list) go" where
  "Drafts userID = gets (\<lambda>d. sort_key (\<lambda>x. - dr_Date x) (mvals (getd (drafts d) userID)))"

definition SearchMessages :: "int \<Rightarrow> int \<Rightarrow> string \<Rightarrow> int \<Rightarrow> ('z memdb_scheme, Message list) go" where
  "SearchMessages self peer query limit = gets (\<lambda>d.
     let lc = ToLower (uc_lower d); q = lc (TrimSpace query) in
     if q = [] then [] else
     let limit' = if limit \<le> 0 \<or> 100 < limit then 100 else limit
     in gotake limit' (newest_first (conversation self peer (\<lambda>r m. contains (lc (mm_text m)) q) d)))"

definition MessageByGlobal :: "int \<Rightarrow> int \<Rightarrow> ('z memdb_scheme, Message option) go" where
  "MessageByGlobal self globalID = gets (\<lambda>d. case refByGlobal self globalID d of
       None \<Rightarrow> None
     | Some r \<Rightarrow> map_option (\<lambda>m. message self r m d) (map_of (messages d) globalID))"

definition setMessage :: "int \<Rightarrow> (memMessage \<Rightarrow> memMessage) \<Rightarrow> ('z memdb_scheme, unit) go" where
  "setMessage gid f = modify (\<lambda>d. d\<lparr>messages := mmod gid f (messages d)\<rparr>)"

text \<open>
  The message pointer is shared with the map, so \<^verbatim>\<open>m.peer\<close> read after the
  assignment is the stored field, and the two log entries carry the same id.
\<close>

definition EditMessage :: "int \<Rightarrow> int \<Rightarrow> string \<Rightarrow> ('z memdb_scheme, EditResult) go" where
  "EditMessage self localID text = bnd (gets (\<lambda>d. map_of (getd (refs d) self) localID)) (\<lambda>x.
     case x of None \<Rightarrow> fail ErrMessageID | Some r \<Rightarrow>
     bnd (gets (\<lambda>d. map_of (messages d) (mr_globalID r))) (\<lambda>y.
     case y of None \<Rightarrow> fail ErrMessageID | Some m \<Rightarrow>
     if mm_deleted m \<or> mm_from m \<noteq> self then fail ErrMessageID else
     bnd now (\<lambda>t.
     bnd (setMessage (mr_globalID r) (\<lambda>m. m\<lparr>mm_text := text, mm_editDate := t\<rparr>)) (\<lambda>_.
     bnd (allocatePts self 1) (\<lambda>sp.
     bnd (logUpdate self sp 1 UpdateEdit (Some (mm_globalID m)) []) (\<lambda>_.
     if mm_peer m = self
     then ret \<lparr>er_SelfLocalID = localID, er_SelfPts = sp, er_PeerUserID = mm_peer m,
            er_PeerLocalID = 0, er_PeerPts = 0, er_Date = mm_date m, er_EditDate = t\<rparr>
     else bnd (gets (refByGlobal (mm_peer m) (mm_globalID m))) (\<lambda>pr.
       bnd (allocatePts (mm_peer m) 1) (\<lambda>pp.
       bnd (logUpdate (mm_peer m) pp 1 UpdateEdit (Some (mm_globalID m)) []) (\<lambda>_.
       ret \<lparr>er_SelfLocalID = localID, er_SelfPts = sp, er_PeerUserID = mm_peer m,
            er_PeerLocalID = (case pr of None \<Rightarrow> 0 | Some pr \<Rightarrow> mr_localID pr), er_PeerPts = pp,
            er_Date = mm_date m, er_EditDate = t\<rparr>)))))))))"

definition markDeleted :: "int \<Rightarrow> int \<Rightarrow> int list \<Rightarrow> ('z memdb_scheme, int list) go" where
  "markDeleted self localID deleted =
     bnd (gets (\<lambda>d. map_of (getd (refs d) self) localID)) (\<lambda>x. case x of
       None \<Rightarrow> ret deleted
     | Some r \<Rightarrow> bnd (setMessage (mr_globalID r) (\<lambda>m. m\<lparr>mm_deleted := True\<rparr>)) (\<lambda>_.
         ret (deleted @ [localID])))"

definition DeleteMessages :: "int \<Rightarrow> int list \<Rightarrow> ('z memdb_scheme, DeleteResult) go" where
  "DeleteMessages self localIDs = bnd (loop (markDeleted self) localIDs []) (\<lambda>deleted.
     if deleted = []
     then ret \<lparr>del_Pts = 0, del_PtsCount = 0, del_LocalIDs = []\<rparr>
     else bnd (allocatePts self (int (length deleted))) (\<lambda>pts.
       bnd (logUpdate self pts (int (length deleted)) UpdateDelete None (EncodeDeleted deleted)) (\<lambda>_.
       ret \<lparr>del_Pts = pts, del_PtsCount = int (length deleted), del_LocalIDs = deleted\<rparr>)))"

section \<open>Dialogs\<close>

definition peerReadGlobal :: "'z memdb_scheme \<Rightarrow> int \<Rightarrow> int \<Rightarrow> bool" where
  "peerReadGlobal d peerID globalID = (case refByGlobal peerID globalID d of
       None \<Rightarrow> False
     | Some pr \<Rightarrow> \<not> mr_out pr \<and> \<not> mr_unread pr)"

definition new_dialog :: "int \<Rightarrow> Dialog" where
  "new_dialog peer = \<lparr>dlg_PeerUserID = peer, dlg_TopMessageID = 0, dlg_ReadInboxMaxID = 0,
     dlg_ReadOutboxMaxID = 0, dlg_UnreadCount = 0, dlg_Draft = None\<rparr>"

definition bump_dialog :: "(int \<Rightarrow> bool) \<Rightarrow> memRef \<Rightarrow> Dialog \<Rightarrow> Dialog" where
  "bump_dialog peerRead r dl = dl\<lparr>
     dlg_TopMessageID :=
       (if dlg_TopMessageID dl < mr_localID r then mr_localID r else dlg_TopMessageID dl),
     dlg_UnreadCount :=
       (if mr_unread r \<and> \<not> mr_out r then dlg_UnreadCount dl + 1 else dlg_UnreadCount dl),
     dlg_ReadInboxMaxID :=
       (if \<not> mr_out r \<and> \<not> mr_unread r \<and> dlg_ReadInboxMaxID dl < mr_localID r
        then mr_localID r else dlg_ReadInboxMaxID dl),
     dlg_ReadOutboxMaxID :=
       (if mr_out r \<and> dlg_ReadOutboxMaxID dl < mr_localID r \<and> peerRead (mr_globalID r)
        then mr_localID r else dlg_ReadOutboxMaxID dl)\<rparr>"

definition dialog_step ::
  "'z memdb_scheme \<Rightarrow> int \<Rightarrow> memRef \<Rightarrow> (int, Dialog) gomap \<Rightarrow> (int, Dialog) gomap" where
  "dialog_step d self r byPeer = (case map_of (messages d) (mr_globalID r) of
       None \<Rightarrow> byPeer
     | Some m \<Rightarrow> if mm_deleted m then byPeer else
        let peer = other self m;
            dl = (case map_of byPeer peer of None \<Rightarrow> new_dialog peer | Some dl \<Rightarrow> dl)
        in mput peer (bump_dialog (peerReadGlobal d peer) r dl) byPeer)"

definition GetDialogs :: "int \<Rightarrow> int \<Rightarrow> ('z memdb_scheme, Dialog list) go" where
  "GetDialogs self limit = gets (\<lambda>d. gotake limit (sort_key (\<lambda>dl. - dlg_TopMessageID dl)
     (mvals (fold (dialog_step d self) (mvals (getd (refs d) self)) []))))"

text \<open>The first loop of \<^verbatim>\<open>ReadHistory\<close> selects these refs and marks them read.\<close>

definition readable :: "'z memdb_scheme \<Rightarrow> int \<Rightarrow> int \<Rightarrow> int \<Rightarrow> memRef \<Rightarrow> bool" where
  "readable d self peer maxID r \<longleftrightarrow> \<not> (mr_out r \<or> maxID < mr_localID r) \<and>
     (case map_of (messages d) (mr_globalID r) of None \<Rightarrow> False | Some m \<Rightarrow> other self m = peer)"

definition outboxMax :: "int list \<Rightarrow> memRef list \<Rightarrow> int" where
  "outboxMax readGlobals rs = fold (\<lambda>pr mx.
     if mr_out pr \<and> mr_globalID pr \<in> set readGlobals \<and> mx < mr_localID pr
     then mr_localID pr else mx) rs 0"

definition unreadCount :: "'z memdb_scheme \<Rightarrow> int \<Rightarrow> int \<Rightarrow> int" where
  "unreadCount d self peer = int (length (filter (\<lambda>r. \<not> (mr_out r \<or> \<not> mr_unread r) \<and>
     (case map_of (messages d) (mr_globalID r) of None \<Rightarrow> False | Some m \<Rightarrow> other self m = peer))
     (mvals (getd (refs d) self))))"

definition markRead :: "int \<Rightarrow> int \<Rightarrow> int \<Rightarrow> ('z memdb_scheme, int list) go" where
  "markRead self peer maxID =
     bnd (gets (\<lambda>d. filter (readable d self peer maxID) (mvals (getd (refs d) self)))) (\<lambda>rs.
     bnd (modify (\<lambda>d. d\<lparr>refs := mmod self (map (\<lambda>(l, r).
       (l, if readable d self peer maxID r then r\<lparr>mr_unread := False\<rparr> else r))) (refs d)\<rparr>)) (\<lambda>_.
     ret (map mr_globalID rs)))"

definition ReadHistory :: "int \<Rightarrow> int \<Rightarrow> int \<Rightarrow> ('z memdb_scheme, ReadResult) go" where
  "ReadHistory self peer maxID =
     bnd (markRead self peer maxID) (\<lambda>readGlobals.
     bnd (gets (\<lambda>d. outboxMax readGlobals (mvals (getd (refs d) peer)))) (\<lambda>om.
     bnd (gets (\<lambda>d. unreadCount d self peer)) (\<lambda>uc.
     bnd (allocatePts self 1) (\<lambda>ip.
     bnd (logUpdate self ip 1 UpdateReadInbox None (EncodeRead peer maxID)) (\<lambda>_.
     if 0 < om \<and> peer \<noteq> self
     then bnd (allocatePts peer 1) (\<lambda>op.
       bnd (logUpdate peer op 1 UpdateReadOutbox None (EncodeRead self om)) (\<lambda>_.
       ret \<lparr>rr_InboxPts = ip, rr_UnreadCount = uc, rr_OutboxPts = op, rr_OutboxMaxID = om\<rparr>))
     else ret \<lparr>rr_InboxPts = ip, rr_UnreadCount = uc, rr_OutboxPts = 0, rr_OutboxMaxID = om\<rparr>)))))"

section \<open>Updates\<close>

definition GetState :: "int \<Rightarrow> ('z memdb_scheme, State) go" where
  "GetState self = bnd (gets (\<lambda>d. map_of (users d) self)) (\<lambda>x. case x of
       None \<Rightarrow> fail (ErrUserNotFound self)
     | Some mu \<Rightarrow> bnd now (\<lambda>t. ret \<lparr>st_Pts = mu_pts mu, st_Qts = 0, st_Seq = 0, st_Date = t,
         st_UnreadCount = 0\<rparr>))"

definition GetDifference ::
  "int \<Rightarrow> int \<Rightarrow> int \<Rightarrow> ('z memdb_scheme, UpdateLogEntry list \<times> int) go" where
  "GetDifference self sincePts limit = bnd (gets (\<lambda>d. map_of (users d) self)) (\<lambda>x. case x of
       None \<Rightarrow> fail (ErrUserNotFound self)
     | Some mu \<Rightarrow> gets (\<lambda>d. (gotake limit (sort_key ue_Pts
         (filter (\<lambda>e. sincePts < ue_Pts e) (getd (updates d) self))), mu_pts mu)))"

section \<open>Files\<close>

definition SaveFile :: "File \<Rightarrow> ('z memdb_scheme, File) go" where
  "SaveFile f = bnd genAccessHash (\<lambda>h. bnd (rand_read 16) (\<lambda>fr.
     bnd (modify (\<lambda>d. d\<lparr>fileSeq := fileSeq d + 1\<rparr>)) (\<lambda>_. bnd (gets fileSeq) (\<lambda>id. bnd now (\<lambda>t.
     let f' = f\<lparr>file_AccessHash := h, file_FileReference := fr,
       file_Kind := (if file_Kind f = [] then ''photo'' else file_Kind f),
       file_ID := id, file_CreatedAt := t\<rparr>
     in bnd (modify (\<lambda>d. d\<lparr>files := mput id f' (files d)\<rparr>)) (\<lambda>_. ret f'))))))"

definition FileByID :: "int \<Rightarrow> ('z memdb_scheme, File option) go" where
  "FileByID fid = gets (\<lambda>d. map_of (files d) fid)"

section \<open>BotFather flow and bot commands\<close>

definition BotFatherState :: "int \<Rightarrow> ('z memdb_scheme, BotFatherState) go" where
  "BotFatherState userID = gets (\<lambda>d. case map_of (botStates d) userID of
       None \<Rightarrow> zero_bot_state | Some s \<Rightarrow> s)"

definition SetBotFatherState :: "int \<Rightarrow> BotFatherState \<Rightarrow> ('z memdb_scheme, unit) go" where
  "SetBotFatherState userID s = modify (\<lambda>d. d\<lparr>botStates := mput userID s (botStates d)\<rparr>)"

definition ClearBotFatherState :: "int \<Rightarrow> ('z memdb_scheme, unit) go" where
  "ClearBotFatherState userID = modify (\<lambda>d. d\<lparr>botStates := mdel userID (botStates d)\<rparr>)"

definition botCommandsKey :: "int \<Rightarrow> string \<Rightarrow> string \<Rightarrow> string" where
  "botCommandsKey botUserID scope langCode = FormatInt botUserID @ chr 0 # scope @ chr 0 # langCode"

definition SetBotCommands :: "int \<Rightarrow> string \<Rightarrow> string \<Rightarrow> BotCommand list \<Rightarrow> ('z memdb_scheme, unit) go" where
  "SetBotCommands botUserID scope langCode commands = modify (\<lambda>d. d\<lparr>botCommands :=
     mput (botCommandsKey botUserID scope langCode) commands (botCommands d)\<rparr>)"

definition BotCommands :: "int \<Rightarrow> string \<Rightarrow> string \<Rightarrow> ('z memdb_scheme, BotCommand list) go" where
  "BotCommands botUserID scope langCode = gets (\<lambda>d.
     getd (botCommands d) (botCommandsKey botUserID scope langCode))"

definition ResetBotCommands :: "int \<Rightarrow> string \<Rightarrow> string \<Rightarrow> ('z memdb_scheme, unit) go" where
  "ResetBotCommands botUserID scope langCode = modify (\<lambda>d. d\<lparr>botCommands :=
     mdel (botCommandsKey botUserID scope langCode) (botCommands d)\<rparr>)"

end
