(* ===== verification/MemInv.thy ===== *)
theory MemInv imports MemDB begin

text \<open>
  The well-formedness invariant of the in-memory database, and the closed forms of
  the operations that change accounts, messages and the update log: what a call
  leaves in the state when the accounts it needs exist, and that it panics when
  they do not.
\<close>

section \<open>The invariant\<close>

definition users_ok :: "(int, memUser) gomap \<Rightarrow> int \<Rightarrow> bool" where
  "users_ok us seq \<longleftrightarrow> mwf us \<and> 0 \<le> seq \<and> seq < BotFatherID \<and> map_of us BotFatherID \<noteq> None \<and>
     (\<forall>k mu. map_of us k = Some mu \<longrightarrow> usr_ID (mu_u mu) = k \<and>
        (1 \<le> k \<and> k \<le> seq \<or> k = BotFatherID) \<and> 0 \<le> mu_pts mu \<and> 0 \<le> mu_lastMessageID mu)"

text \<open>No two accounts share a phone number or a username.\<close>

definition names_ok :: "(int, memUser) gomap \<Rightarrow> bool" where
  "names_ok us \<longleftrightarrow> (\<forall>k mu k' mu'. map_of us k = Some mu \<longrightarrow> map_of us k' = Some mu' \<longrightarrow> k \<noteq> k' \<longrightarrow>
     (usr_Phone (mu_u mu) \<noteq> [] \<longrightarrow> usr_Phone (mu_u mu) \<noteq> usr_Phone (mu_u mu')) \<and>
     (usr_Username (mu_u mu) \<noteq> [] \<longrightarrow> usr_Username (mu_u mu) \<noteq> usr_Username (mu_u mu')))"

definition msgs_ok :: "(int, memUser) gomap \<Rightarrow> (int, memMessage) gomap \<Rightarrow> int \<Rightarrow> bool" where
  "msgs_ok us ms seq \<longleftrightarrow> mwf ms \<and> 0 \<le> seq \<and>
     (\<forall>g m. map_of ms g = Some m \<longrightarrow> mm_globalID m = g \<and> 1 \<le> g \<and> g \<le> seq \<and>
        map_of us (mm_from m) \<noteq> None \<and> map_of us (mm_peer m) \<noteq> None)"

text \<open>
  A ref is stored under its local id, refers to a message of its owner, and is
  outgoing exactly when the owner sent the message.
\<close>

definition ref_ok :: "(int, memMessage) gomap \<Rightarrow> int \<Rightarrow> int \<Rightarrow> memRef \<Rightarrow> bool" where
  "ref_ok ms u l r \<longleftrightarrow> mr_localID r = l \<and> (\<exists>m. map_of ms (mr_globalID r) = Some m \<and>
     (mm_from m = u \<or> mm_peer m = u) \<and> (mr_out r \<longleftrightarrow> mm_from m = u) \<and> (mr_unread r \<longrightarrow> \<not> mr_out r))"

text \<open>
  The local ids of an account are \<open>1 .. lastMessageID\<close>, in the order of the global
  ids, and both participants have their copy of every message.
\<close>

definition last_of :: "(int, memUser) gomap \<Rightarrow> int \<Rightarrow> int" where
  "last_of us u = (case map_of us u of None \<Rightarrow> 0 | Some mu \<Rightarrow> mu_lastMessageID mu)"

definition refs_ok ::
  "(int, memUser) gomap \<Rightarrow> (int, memMessage) gomap \<Rightarrow> (int, (int, memRef) gomap) gomap \<Rightarrow> bool" where
  "refs_ok us ms rs \<longleftrightarrow> mwf rs \<and> (\<forall>u. mwf (getd rs u)) \<and>
     (\<forall>u l r. map_of (getd rs u) l = Some r \<longrightarrow> ref_ok ms u l r) \<and>
     (\<forall>u l. map_of (getd rs u) l \<noteq> None \<longleftrightarrow> 1 \<le> l \<and> l \<le> last_of us u) \<and>
     (\<forall>u l r l' r'. map_of (getd rs u) l = Some r \<longrightarrow> map_of (getd rs u) l' = Some r' \<longrightarrow>
        l < l' \<longrightarrow> mr_globalID r < mr_globalID r')"

definition copies_ok :: "(int, memMessage) gomap \<Rightarrow> (int, (int, memRef) gomap) gomap \<Rightarrow> bool" where
  "copies_ok ms rs \<longleftrightarrow> (\<forall>g m u. map_of ms g = Some m \<longrightarrow> u = mm_from m \<or> u = mm_peer m \<longrightarrow>
        (\<exists>l r. map_of (getd rs u) l = Some r \<and> mr_globalID r = g))"

text \<open>
  The entries of a log tile the interval from \<open>a\<close> to \<open>b\<close>: each covers the pts after
  the entry before it, with no gap and no overlap.
\<close>

fun tiles :: "int \<Rightarrow> UpdateLogEntry list \<Rightarrow> int \<Rightarrow> bool" where
  "tiles a [] b \<longleftrightarrow> a = b"
| "tiles a (e # es) b \<longleftrightarrow> 1 \<le> ue_PtsCount e \<and> ue_Pts e = a + ue_PtsCount e \<and> tiles (ue_Pts e) es b"

definition entry_ok :: "(int, memRef) gomap \<Rightarrow> UpdateLogEntry \<Rightarrow> bool" where
  "entry_ok my e \<longleftrightarrow>
     (ue_Type e \<in> {UpdateNew, UpdateEdit} \<and> ue_PtsCount e = 1 \<and>
        (\<exists>l r. map_of my l = Some r \<and> ue_GlobalID e = Some (mr_globalID r))) \<or>
     (ue_Type e = UpdateDelete \<and> ue_GlobalID e = None \<and>
        (\<exists>ids. ids \<noteq> [] \<and> ue_Extra e = EncodeDeleted ids \<and> ue_PtsCount e = int (length ids) \<and>
          (\<forall>l \<in> set ids. map_of my l \<noteq> None))) \<or>
     (ue_Type e \<in> {UpdateReadInbox, UpdateReadOutbox} \<and> ue_GlobalID e = None \<and> ue_PtsCount e = 1 \<and>
        (\<exists>p m. ue_Extra e = EncodeRead p m))"

definition pts_of :: "(int, memUser) gomap \<Rightarrow> int \<Rightarrow> int" where
  "pts_of us u = (case map_of us u of None \<Rightarrow> 0 | Some mu \<Rightarrow> mu_pts mu)"

definition log_ok :: "(int, memUser) gomap \<Rightarrow> (int, (int, memRef) gomap) gomap \<Rightarrow>
    (int, UpdateLogEntry list) gomap \<Rightarrow> bool" where
  "log_ok us rs ups \<longleftrightarrow> mwf ups \<and> (\<forall>u. tiles 0 (getd ups u) (pts_of us u)) \<and>
     (\<forall>u. \<forall>e \<in> set (getd ups u). entry_ok (getd rs u) e)"

definition files_ok :: "(int, File) gomap \<Rightarrow> int \<Rightarrow> bool" where
  "files_ok fs seq \<longleftrightarrow> mwf fs \<and> 0 \<le> seq \<and> (\<forall>k f. map_of fs k = Some f \<longrightarrow>
     file_ID f = k \<and> 1 \<le> k \<and> k \<le> seq \<and> file_AccessHash f \<noteq> 0 \<and> length (file_FileReference f) = 16)"

definition drafts_ok :: "(int, (int, Draft) gomap) gomap \<Rightarrow> bool" where
  "drafts_ok ds \<longleftrightarrow> mwf ds \<and> (\<forall>u. mwf (getd ds u)) \<and>
     (\<forall>u p x. map_of (getd ds u) p = Some x \<longrightarrow> dr_PeerUserID x = p \<and> TrimSpace (dr_Text x) \<noteq> [])"

definition contacts_ok :: "(int, (int, Contact) gomap) gomap \<Rightarrow> bool" where
  "contacts_ok cs \<longleftrightarrow> mwf cs \<and> (\<forall>u. mwf (getd cs u)) \<and>
     (\<forall>u p x. map_of (getd cs u) p = Some x \<longrightarrow> ct_UserID x = p)"

definition db_inv :: "'z memdb_scheme \<Rightarrow> bool" where
  "db_inv d \<longleftrightarrow> users_ok (users d) (userSeq d) \<and> names_ok (users d) \<and>
     msgs_ok (users d) (messages d) (msgSeq d) \<and>
     refs_ok (users d) (messages d) (refs d) \<and> copies_ok (messages d) (refs d) \<and> log_ok (users d) (refs d) (updates d) \<and>
     files_ok (files d) (fileSeq d) \<and> drafts_ok (drafts d) \<and> contacts_ok (contacts d) \<and>
     mwf (sessions d) \<and> mwf (tempKeys d) \<and> mwf (phoneCodes d) \<and> mwf (botStates d) \<and>
     mwf (botCommands d)"

lemmas db_inv_parts = db_inv_def users_ok_def names_ok_def msgs_ok_def refs_ok_def
  copies_ok_def log_ok_def
  files_ok_def drafts_ok_def contacts_ok_def

section \<open>Logs\<close>

lemma tiles_snoc [simp]:
  "tiles a (es @ [e]) b \<longleftrightarrow> 1 \<le> ue_PtsCount e \<and> tiles a es (ue_Pts e - ue_PtsCount e) \<and> ue_Pts e = b"
  by (induction es arbitrary: a) auto

lemma tiles_le: "tiles a es b \<Longrightarrow> a \<le> b"
  by (induction es arbitrary: a) force+

lemma tiles_range: "tiles a es b \<Longrightarrow> e \<in> set es \<Longrightarrow> a < ue_Pts e \<and> ue_Pts e \<le> b"
proof (induction es arbitrary: a)
  case (Cons x es)
  show ?case
  proof (cases "e = x")
    case True
    with Cons.prems tiles_le show ?thesis
      by fastforce
  next
    case False
    with Cons.prems have "e \<in> set es" "tiles (ue_Pts x) es b" "a < ue_Pts x"
      by auto
    with Cons.IH [of "ue_Pts x"] show ?thesis
      by simp
  qed
qed simp

lemma tiles_sorted: "tiles a es b \<Longrightarrow> sorted_wrt (<) (map ue_Pts es)"
proof (induction es arbitrary: a)
  case (Cons x es)
  then show ?case
    using tiles_range [of "ue_Pts x" es b] by auto
qed simp

text \<open>The entries after a pts value that the client has are a suffix of the log.\<close>

lemma tiles_filter:
  "tiles a es b \<Longrightarrow> \<exists>pre. es = pre @ filter (\<lambda>e. p < ue_Pts e) es"
proof (induction es arbitrary: a)
  case (Cons x es)
  show ?case
  proof (cases "p < ue_Pts x")
    case True
    have "p < ue_Pts e" if "e \<in> set es" for e
      using tiles_range [of "ue_Pts x" es b e] Cons.prems True that by (metis less_trans tiles.simps(2))
    then have "filter (\<lambda>e. p < ue_Pts e) es = es"
      by simp
    with True show ?thesis
      by simp
  next
    case False
    from Cons.IH [of "ue_Pts x"] Cons.prems
    obtain pre where "es = pre @ filter (\<lambda>e. p < ue_Pts e) es"
      by auto
    then have "x # es = (x # pre) @ filter (\<lambda>e. p < ue_Pts e) (x # es)"
      using False by simp
    then show ?thesis
      by blast
  qed
qed simp

lemma tiles_append: "tiles a (xs @ ys) b \<longleftrightarrow> (\<exists>m. tiles a xs m \<and> tiles m ys b)"
  by (induction xs arbitrary: a) auto

section \<open>Closed forms of the building blocks\<close>

lemma bnd_nextUserID [simp]:
  "bnd nextUserID f d = f (userSeq d + 1) (d\<lparr>userSeq := userSeq d + 1\<rparr>)"
  by (simp add: nextUserID_def bnd_def gets_def modify_def)

lemma bnd_allocate:
  "map_of (users d) u = Some mu \<Longrightarrow> bnd (allocate u) f d =
     f (mu_lastMessageID mu + 1, mu_pts mu + 1)
       (d\<lparr>users := mmod u (\<lambda>mu. mu\<lparr>mu_lastMessageID := mu_lastMessageID mu + 1,
          mu_pts := mu_pts mu + 1\<rparr>) (users d)\<rparr>)"
  by (simp add: allocate_def setUser_def bnd_def gets_def modify_def ret_def)

lemma bnd_allocatePts:
  "map_of (users d) u = Some mu \<Longrightarrow> bnd (allocatePts u c) f d =
     f (mu_pts mu + c) (d\<lparr>users := mmod u (\<lambda>mu. mu\<lparr>mu_pts := mu_pts mu + c\<rparr>) (users d)\<rparr>)"
  by (simp add: allocatePts_def setUser_def bnd_def gets_def modify_def ret_def)

lemma bnd_allocate_panic: "map_of (users d) u = None \<Longrightarrow> bnd (allocate u) f d = (Panic, d)"
  by (simp add: allocate_def bnd_def gets_def gopanic_def)

lemma bnd_allocatePts_panic: "map_of (users d) u = None \<Longrightarrow> bnd (allocatePts u c) f d = (Panic, d)"
  by (simp add: allocatePts_def bnd_def gets_def gopanic_def)

lemma bnd_putRef [simp]:
  "bnd (putRef u r) f d = f () (d\<lparr>refs :=
     mput u (mput (mr_localID r) r (getd (refs d) u)) (refs d)\<rparr>)"
  by (simp add: putRef_def)

lemma bnd_setMessage [simp]:
  "bnd (setMessage g h) f d = f () (d\<lparr>messages := mmod g h (messages d)\<rparr>)"
  by (simp add: setMessage_def)

definition log_entry :: "int \<Rightarrow> int \<Rightarrow> string \<Rightarrow> int option \<Rightarrow> bytes \<Rightarrow> int \<Rightarrow> UpdateLogEntry" where
  "log_entry pts c typ g extra t = \<lparr>ue_Pts = pts, ue_PtsCount = c, ue_Type = typ,
     ue_GlobalID = g, ue_Extra = extra, ue_Date = t\<rparr>"

lemma log_entry_sel [simp]:
  "ue_Pts (log_entry pts c typ g extra t) = pts" "ue_PtsCount (log_entry pts c typ g extra t) = c"
  "ue_Type (log_entry pts c typ g extra t) = typ" "ue_GlobalID (log_entry pts c typ g extra t) = g"
  "ue_Extra (log_entry pts c typ g extra t) = extra" "ue_Date (log_entry pts c typ g extra t) = t"
  by (simp_all add: log_entry_def)

lemma bnd_logUpdate [simp]:
  "bnd (logUpdate u pts c typ g extra) f d = f () (d\<lparr>clk_pos := Suc (clk_pos d), updates :=
     mput u (getd (updates d) u @ [log_entry pts c typ g extra (clk d (clk_pos d))]) (updates d)\<rparr>)"
  by (simp add: logUpdate_def bnd_def now_def modify_def log_entry_def)

lemma bnd_genAccessHash [simp]:
  "bnd genAccessHash f d = (let h = int64 (uint64_le (map (\<lambda>i. rnd d (rnd_pos d + i)) [0..<8]))
     in f (if h = 0 then 1 else h) (d\<lparr>rnd_pos := rnd_pos d + 8\<rparr>))"
  by (simp add: genAccessHash_def bnd_def rand_read_def Let_def)

lemma insertUser_apply [simp]:
  "insertUser u owner d = (Ok u, d\<lparr>users := mput (usr_ID u) (newMemUser u owner) (users d)\<rparr>)"
  by (simp add: insertUser_def)

section \<open>How the parts of the invariant change\<close>

lemma last_of_mmod: "last_of (mmod u f us) v =
    (if v = u \<and> map_of us u \<noteq> None then mu_lastMessageID (f (the (map_of us u))) else last_of us v)"
  by (auto simp: last_of_def split: option.splits)

lemma pts_of_mmod: "pts_of (mmod u f us) v =
    (if v = u \<and> map_of us u \<noteq> None then mu_pts (f (the (map_of us u))) else pts_of us v)"
  by (auto simp: pts_of_def split: option.splits)

lemma users_ok_mmod:
  assumes "users_ok us seq"
    and "\<And>mu. map_of us u = Some mu \<Longrightarrow> 0 \<le> mu_pts mu \<Longrightarrow> 0 \<le> mu_lastMessageID mu \<Longrightarrow>
      usr_ID (mu_u (f mu)) = usr_ID (mu_u mu) \<and> 0 \<le> mu_pts (f mu) \<and> 0 \<le> mu_lastMessageID (f mu)"
  shows "users_ok (mmod u f us) seq"
proof -
  have "usr_ID (mu_u mu) = k \<and> (1 \<le> k \<and> k \<le> seq \<or> k = BotFatherID) \<and>
      0 \<le> mu_pts mu \<and> 0 \<le> mu_lastMessageID mu" if "map_of (mmod u f us) k = Some mu" for k mu
  proof (cases "k = u")
    case True
    with that obtain mu0 where "map_of us u = Some mu0" "mu = f mu0"
      by auto
    moreover have "usr_ID (mu_u mu0) = u" "1 \<le> u \<and> u \<le> seq \<or> u = BotFatherID"
      "0 \<le> mu_pts mu0" "0 \<le> mu_lastMessageID mu0"
      using assms(1) calculation(1) unfolding users_ok_def by blast+
    ultimately show ?thesis
      using assms(2) [of mu0] True by simp
  next
    case False
    then have "map_of us k = Some mu"
      using that by simp
    with assms(1) show ?thesis
      unfolding users_ok_def by blast
  qed
  moreover have "mwf us" "0 \<le> seq" "seq < BotFatherID" "map_of us BotFatherID \<noteq> None"
    using assms(1) unfolding users_ok_def by blast+
  then have "map_of (mmod u f us) BotFatherID \<noteq> None"
    by simp
  ultimately show ?thesis
    using \<open>mwf us\<close> \<open>0 \<le> seq\<close> \<open>seq < BotFatherID\<close> unfolding users_ok_def mwf_mmod by blast
qed

lemma names_ok_mmod:
  assumes "names_ok us"
    and "\<And>mu. usr_Phone (mu_u (f mu)) = usr_Phone (mu_u mu) \<and>
      usr_Username (mu_u (f mu)) = usr_Username (mu_u mu)"
  shows "names_ok (mmod u f us)"
  using assms unfolding names_ok_def by (simp split: if_splits) metis

lemma msgs_ok_users:
  assumes "msgs_ok us ms seq" "\<And>k. map_of us k \<noteq> None \<Longrightarrow> map_of us' k \<noteq> None"
  shows "msgs_ok us' ms seq"
  using assms unfolding msgs_ok_def by blast

lemma msgs_ok_mmod:
  assumes "msgs_ok us ms seq"
    and "\<And>m. mm_globalID (f m) = mm_globalID m \<and> mm_from (f m) = mm_from m \<and> mm_peer (f m) = mm_peer m"
  shows "msgs_ok us (mmod g f ms) seq"
  using assms unfolding msgs_ok_def by auto

lemma msgs_ok_mput:
  assumes "msgs_ok us ms seq" "mm_globalID m = seq + 1"
    "map_of us (mm_from m) \<noteq> None" "map_of us (mm_peer m) \<noteq> None"
  shows "msgs_ok us (mput (seq + 1) m ms) (seq + 1)"
proof -
  have "mm_globalID x = g \<and> 1 \<le> g \<and> g \<le> seq + 1 \<and>
      map_of us (mm_from x) \<noteq> None \<and> map_of us (mm_peer x) \<noteq> None"
    if "map_of (mput (seq + 1) m ms) g = Some x" for g x
  proof (cases "g = seq + 1")
    case True
    with that assms show ?thesis
      by (simp add: msgs_ok_def)
  next
    case False
    with that assms(1) have "mm_globalID x = g \<and> 1 \<le> g \<and> g \<le> seq \<and>
      map_of us (mm_from x) \<noteq> None \<and> map_of us (mm_peer x) \<noteq> None"
      by (simp add: msgs_ok_def)
    then show ?thesis
      by simp
  qed
  with assms(1) show ?thesis
    unfolding msgs_ok_def by (intro conjI allI impI) (simp_all del: map_of_mput)
qed

lemma refs_ok_users:
  "(\<And>u. last_of us' u = last_of us u) \<Longrightarrow> refs_ok us' ms rs = refs_ok us ms rs"
  by (simp add: refs_ok_def)

lemma refs_okI:
  assumes "mwf rs" "\<And>u. mwf (getd rs u)"
    and "\<And>u l r. map_of (getd rs u) l = Some r \<Longrightarrow> ref_ok ms u l r"
    and "\<And>u l. map_of (getd rs u) l \<noteq> None \<longleftrightarrow> 1 \<le> l \<and> l \<le> last_of us u"
    and "\<And>u l r l' r'. map_of (getd rs u) l = Some r \<Longrightarrow> map_of (getd rs u) l' = Some r' \<Longrightarrow>
      l < l' \<Longrightarrow> mr_globalID r < mr_globalID r'"
  shows "refs_ok us ms rs"
  unfolding refs_ok_def
proof (intro conjI allI impI)
  show "mwf rs" "mwf (getd rs u)" for u
    by (rule assms)+
  show "ref_ok ms u l r" if "map_of (getd rs u) l = Some r" for u l r
    using that by (rule assms(3))
  show "(map_of (getd rs u) l \<noteq> None) = (1 \<le> l \<and> l \<le> last_of us u)" for u l
    by (rule assms(4))
  show "mr_globalID r < mr_globalID r'"
    if "map_of (getd rs u) l = Some r" "map_of (getd rs u) l' = Some r'" "l < l'" for u l r l' r'
    using that by (rule assms(5))
qed

lemma refs_ok_mmod:
  assumes "refs_ok us ms rs"
    and "\<And>m. mm_from (f m) = mm_from m \<and> mm_peer (f m) = mm_peer m"
  shows "refs_ok us (mmod g f ms) rs"
proof -
  have "ref_ok (mmod g f ms) u l r" if "ref_ok ms u l r" for u l r
    using that assms(2) unfolding ref_ok_def by auto
  with assms(1) show ?thesis
    unfolding refs_ok_def by blast
qed

lemma copies_ok_mmod:
  assumes "copies_ok ms rs"
    and "\<And>m. mm_from (f m) = mm_from m \<and> mm_peer (f m) = mm_peer m"
  shows "copies_ok (mmod g f ms) rs"
  unfolding copies_ok_def
proof (intro allI impI)
  fix k m u
  assume "map_of (mmod g f ms) k = Some m" "u = mm_from m \<or> u = mm_peer m"
  then obtain m' where "map_of ms k = Some m'" "u = mm_from m' \<or> u = mm_peer m'"
    using assms(2) by (auto split: if_splits)
  with assms(1) show "\<exists>l r. map_of (getd rs u) l = Some r \<and> mr_globalID r = k"
    unfolding copies_ok_def by blast
qed

lemma refs_ok_new_message:
  assumes "refs_ok us ms rs" "map_of ms g = None"
  shows "refs_ok us (mput g m ms) rs"
proof -
  have "ref_ok (mput g m ms) u l r" if "ref_ok ms u l r" for u l r
    using that assms(2) unfolding ref_ok_def by auto
  with assms(1) show ?thesis
    unfolding refs_ok_def by blast
qed

lemma refs_ok_add:
  assumes ok: "refs_ok us ms rs" and u: "map_of us u = Some mu" and pos: "0 \<le> mu_lastMessageID mu"
    and r: "ref_ok ms u (mu_lastMessageID mu + 1) r"
    and new: "\<And>l r'. map_of (getd rs u) l = Some r' \<Longrightarrow> mr_globalID r' < mr_globalID r"
    and f: "mu_lastMessageID (f mu) = mu_lastMessageID mu + 1"
  shows "refs_ok (mmod u f us) ms (mput u (mput (mu_lastMessageID mu + 1) r (getd rs u)) rs)"
proof -
  let ?l = "mu_lastMessageID mu + 1"
  have last: "last_of us u = mu_lastMessageID mu"
    using u by (simp add: last_of_def)
  have dom: "map_of (getd rs v) l \<noteq> None \<longleftrightarrow> 1 \<le> l \<and> l \<le> last_of us v" for v l
    using ok by (simp add: refs_ok_def)
  have upper: "l < ?l" if "map_of (getd rs u) l = Some r'" for l r'
    using that dom [of u l] last by simp
  have order: "mr_globalID x < mr_globalID y"
    if "map_of (mput ?l r (getd rs u)) a = Some x" "map_of (mput ?l r (getd rs u)) b = Some y" "a < b"
    for a b x y
    using that new [of a x] upper [of b y] ok
    by (auto simp: refs_ok_def split: if_splits)
  have dom': "map_of (mput ?l r (getd rs u)) l \<noteq> None \<longleftrightarrow> 1 \<le> l \<and> l \<le> last_of (mmod u f us) u" for l
    using dom [of u l] last u pos f by (auto simp: last_of_mmod)
  show ?thesis
    unfolding refs_ok_def
  proof (intro conjI allI impI)
    show "mwf (mput u (mput ?l r (getd rs u)) rs)"
      using ok by (simp add: refs_ok_def)
    show "mwf (getd (mput u (mput ?l r (getd rs u)) rs) v)" for v
      using ok by (simp add: refs_ok_def)
    show "ref_ok ms v l x" if "map_of (getd (mput u (mput ?l r (getd rs u)) rs) v) l = Some x" for v l x
      using that ok r by (auto simp: refs_ok_def split: if_splits)
    show "(map_of (getd (mput u (mput ?l r (getd rs u)) rs) v) l \<noteq> None) =
        (1 \<le> l \<and> l \<le> last_of (mmod u f us) v)" for v l
      using dom' [of l] dom [of v l] by (cases "v = u") (auto simp: last_of_mmod)
    show "mr_globalID x < mr_globalID y"
      if "map_of (getd (mput u (mput ?l r (getd rs u)) rs) v) a = Some x"
        "map_of (getd (mput u (mput ?l r (getd rs u)) rs) v) b = Some y" "a < b" for v a b x y
      using that order [of a x b y] ok by (cases "v = u") (auto simp: refs_ok_def)
  qed
qed

lemma entry_ok_mono:
  assumes "entry_ok my e"
    and "\<And>l r. map_of my l = Some r \<Longrightarrow> \<exists>r'. map_of my' l = Some r' \<and> mr_globalID r' = mr_globalID r"
  shows "entry_ok my' e"
  using assms unfolding entry_ok_def by (metis not_None_eq option.distinct(1))

lemma log_ok_refs:
  assumes "log_ok us rs ups"
    and "\<And>u l r. map_of (getd rs u) l = Some r \<Longrightarrow>
      \<exists>r'. map_of (getd rs' u) l = Some r' \<and> mr_globalID r' = mr_globalID r"
  shows "log_ok us rs' ups"
  using assms unfolding log_ok_def by (meson entry_ok_mono)

lemma log_ok_users:
  "(\<And>u. pts_of us' u = pts_of us u) \<Longrightarrow> log_ok us' rs ups = log_ok us rs ups"
  by (simp add: log_ok_def)

lemma log_ok_append:
  assumes "log_ok us rs ups" "map_of us u = Some mu" "mu_pts (f mu) = ue_Pts e"
    "ue_Pts e = mu_pts mu + ue_PtsCount e" "1 \<le> ue_PtsCount e" "entry_ok (getd rs u) e"
  shows "log_ok (mmod u f us) rs (mput u (getd ups u @ [e]) ups)"
proof -
  have "pts_of us u = mu_pts mu"
    using assms(2) by (simp add: pts_of_def)
  moreover have "tiles 0 (getd ups v) (pts_of us v)" for v
    using assms(1) by (simp add: log_ok_def)
  ultimately have "tiles 0 (getd (mput u (getd ups u @ [e]) ups) v) (pts_of (mmod u f us) v)" for v
    using assms(2-5) by (auto simp: pts_of_mmod) (metis add_diff_cancel_right')
  then show ?thesis
    using assms(1,6) by (auto simp: log_ok_def)
qed

end
