(* ===== verification/MemKeeps.thy ===== *)
theory MemKeeps imports MemInv begin

text \<open>
  Every method of the in-memory database keeps its invariant, as long as the user
  counter has not reached the fixed id of BotFather.
\<close>

definition db_ok :: "'z memdb_scheme \<Rightarrow> bool" where
  "db_ok d \<longleftrightarrow> (userSeq d < BotFatherID \<longrightarrow> db_inv d)"

lemma keeps_db_okI:
  assumes "\<And>d. userSeq (snd (m d)) = userSeq d"
    and "\<And>d. db_inv d \<Longrightarrow> fst (m d) \<noteq> Panic \<Longrightarrow> db_inv (snd (m d))"
  shows "keeps db_ok m"
  using assms unfolding keeps_def db_ok_def by metis

lemma keeps_db_ok_modify:
  assumes "\<And>d. userSeq (f d) = userSeq d" "\<And>d. db_inv d \<Longrightarrow> db_inv (f d)"
  shows "keeps db_ok (modify f)"
  by (rule keeps_db_okI) (simp_all add: modify_def assms)

lemma keeps_now [keeps_rules]: "keeps db_ok now"
  by (simp add: keeps_def now_def db_ok_def db_inv_def)

lemma keeps_rand_read [keeps_rules]: "keeps db_ok (rand_read n)"
  by (simp add: keeps_def rand_read_def db_ok_def db_inv_def)

lemma keeps_genAccessHash [keeps_rules]: "keeps db_ok genAccessHash"
  unfolding genAccessHash_def by (intro keeps_rules)

section \<open>Accounts\<close>

lemma db_inv_new_user:
  assumes inv: "db_inv d" and seq: "userSeq d + 1 < BotFatherID"
    and u: "usr_ID u = userSeq d + 1"
    and phone: "\<not> phoneTaken (usr_Phone u) d" and name: "\<not> usernameTaken (usr_Username u) d"
  shows "db_inv (d\<lparr>userSeq := userSeq d + 1, rnd_pos := a, clk_pos := b,
      users := mput (userSeq d + 1) (newMemUser u owner) (users d)\<rparr>)"
proof -
  let ?id = "userSeq d + 1"
  let ?us = "mput ?id (newMemUser u owner) (users d)"
  have ok: "users_ok (users d) (userSeq d)"
    using inv by (simp add: db_inv_def)
  have fresh: "map_of (users d) ?id = None"
  proof (rule ccontr)
    assume "map_of (users d) ?id \<noteq> None"
    then obtain mu where "map_of (users d) ?id = Some mu"
      by blast
    with ok have "1 \<le> ?id \<and> ?id \<le> userSeq d \<or> ?id = BotFatherID"
      unfolding users_ok_def by blast
    with seq show False
      by simp
  qed
  have 1: "users_ok ?us ?id"
  proof -
    have "usr_ID (mu_u mu) = k \<and> (1 \<le> k \<and> k \<le> ?id \<or> k = BotFatherID) \<and>
        0 \<le> mu_pts mu \<and> 0 \<le> mu_lastMessageID mu" if "map_of ?us k = Some mu" for k mu
    proof (cases "k = ?id")
      case True
      with that u ok show ?thesis
        by (auto simp: newMemUser_def users_ok_def)
    next
      case False
      with that have "map_of (users d) k = Some mu"
        by simp
      with ok have "usr_ID (mu_u mu) = k \<and> (1 \<le> k \<and> k \<le> userSeq d \<or> k = BotFatherID) \<and>
        0 \<le> mu_pts mu \<and> 0 \<le> mu_lastMessageID mu"
        unfolding users_ok_def by blast
      then show ?thesis
        by auto
    qed
    moreover have "mwf (users d)" "0 \<le> userSeq d" "map_of (users d) BotFatherID \<noteq> None"
      using ok unfolding users_ok_def by blast+
    then have "mwf ?us" "0 \<le> ?id" "map_of ?us BotFatherID \<noteq> None"
      by simp_all
    ultimately show ?thesis
      using seq unfolding users_ok_def by blast
  qed
  have in_vals: "mu \<in> set (mvals (users d))" if "map_of (users d) k = Some mu" for k mu
    using that by (force dest: map_of_SomeD)
  have 2: "names_ok ?us"
  proof -
    have new: "(usr_Phone u \<noteq> [] \<longrightarrow> usr_Phone (mu_u mu) \<noteq> usr_Phone u) \<and>
        (usr_Username u \<noteq> [] \<longrightarrow> usr_Username (mu_u mu) \<noteq> usr_Username u)"
      if "map_of (users d) k = Some mu" for k mu
      using phone name in_vals [OF that]
      by (auto simp: phoneTaken_def usernameTaken_def list_ex_iff)
    show ?thesis
      using inv new unfolding db_inv_def names_ok_def
      by (auto simp: newMemUser_def split: if_splits) metis+
  qed
  have last: "last_of ?us v = last_of (users d) v" for v
    using fresh by (simp add: last_of_def newMemUser_def)
  have pts: "pts_of ?us v = pts_of (users d) v" for v
    using fresh by (simp add: pts_of_def newMemUser_def)
  have 3: "msgs_ok ?us (messages d) (msgSeq d)"
    using inv by (auto simp: db_inv_def intro: msgs_ok_users [of "users d"])
  show ?thesis
    using inv 1 2 3 refs_ok_users [OF last] log_ok_users [OF pts]
    by (simp add: db_inv_def)
qed

lemma keeps_create:
  assumes "\<And>d. m d = (if c d then (Err (e d), d) else
     (Ok (u d), d\<lparr>userSeq := userSeq d + 1, rnd_pos := a d, clk_pos := b d,
       users := mput (userSeq d + 1) (newMemUser (u d) (w d)) (users d)\<rparr>))"
    and "\<And>d. usr_ID (u d) = userSeq d + 1"
    and "\<And>d. \<not> c d \<Longrightarrow> \<not> phoneTaken (usr_Phone (u d)) d \<and> \<not> usernameTaken (usr_Username (u d)) d"
  shows "keeps db_ok m"
proof (rule keepsI)
  fix d r d'
  assume ok: "db_ok d" and run: "m d = (r, d')"
  show "db_ok d'"
  proof (cases "c d")
    case True
    with ok run assms(1) [of d] show ?thesis
      by simp
  next
    case False
    then have d': "d' = d\<lparr>userSeq := userSeq d + 1, rnd_pos := a d, clk_pos := b d,
       users := mput (userSeq d + 1) (newMemUser (u d) (w d)) (users d)\<rparr>"
      using run assms(1) [of d] by simp
    show ?thesis
      unfolding db_ok_def
    proof
      assume "userSeq d' < BotFatherID"
      then have seq: "userSeq d + 1 < BotFatherID"
        by (simp add: d')
      with ok have "db_inv d"
        by (simp add: db_ok_def)
      then show "db_inv d'"
        unfolding d' using db_inv_new_user seq assms(2,3) False by blast
    qed
  qed
qed

lemma phoneTaken_Nil [simp]: "\<not> phoneTaken [] d"
  by (simp add: phoneTaken_def)

lemma usernameTaken_Nil [simp]: "\<not> usernameTaken [] d"
  by (simp add: usernameTaken_def)

abbreviation drawnHash :: "'z memdb_scheme \<Rightarrow> int" where
  "drawnHash d \<equiv> (let h = int64 (uint64_le (map (\<lambda>i. rnd d (rnd_pos d + i)) [0..<8]))
     in if h = 0 then 1 else h)"

lemma CreateUser_run: "CreateUser phone fn ln d = (if phoneTaken phone d
   then (Err (ErrPhoneExists phone), d)
   else let u = zero_user\<lparr>usr_ID := userSeq d + 1, usr_AccessHash := drawnHash d, usr_Phone := phone,
       usr_FirstName := fn, usr_LastName := ln, usr_CreatedAt := clk d (clk_pos d)\<rparr>
     in (Ok u, d\<lparr>userSeq := userSeq d + 1, rnd_pos := rnd_pos d + 8, clk_pos := Suc (clk_pos d),
       users := mput (userSeq d + 1) (newMemUser u 0) (users d)\<rparr>))"
  by (simp add: CreateUser_def Let_def del: upt.simps)

lemma CreateBot_run: "CreateBot token username fn d =
   (if tokenTaken token d \<or> usernameTaken username d
   then (Err (if tokenTaken token d then ErrTokenExists else ErrUsernameExists username), d)
   else let u = zero_user\<lparr>usr_ID := userSeq d + 1, usr_AccessHash := drawnHash d,
       usr_Username := username, usr_FirstName := fn, usr_IsBot := True, usr_BotToken := token,
       usr_CreatedAt := clk d (clk_pos d)\<rparr>
     in (Ok u, d\<lparr>userSeq := userSeq d + 1, rnd_pos := rnd_pos d + 8, clk_pos := Suc (clk_pos d),
       users := mput (userSeq d + 1) (newMemUser u 0) (users d)\<rparr>))"
  by (simp add: CreateBot_def Let_def del: upt.simps)

lemma CreateOwnedBot_run: "CreateOwnedBot username fn owner secret d =
   (if usernameTaken username d then (Err (ErrUsernameExists username), d)
   else let u = zero_user\<lparr>usr_ID := userSeq d + 1, usr_AccessHash := drawnHash d,
       usr_Username := username, usr_FirstName := fn, usr_IsBot := True,
       usr_BotToken := FormatInt (userSeq d + 1) @ '':'' @ secret,
       usr_CreatedAt := clk d (clk_pos d)\<rparr>
     in (Ok u, d\<lparr>userSeq := userSeq d + 1, rnd_pos := rnd_pos d + 8, clk_pos := Suc (clk_pos d),
       users := mput (userSeq d + 1) (newMemUser u owner) (users d)\<rparr>))"
  by (simp add: CreateOwnedBot_def Let_def del: upt.simps)

lemma keeps_CreateUser [keeps_rules]: "keeps db_ok (CreateUser phone fn ln)"
  by (rule keeps_create [where c = "phoneTaken phone", OF CreateUser_run [unfolded Let_def]])
    (simp_all add: zero_user_def)

lemma keeps_CreateBot [keeps_rules]: "keeps db_ok (CreateBot token username fn)"
  by (rule keeps_create [where c = "\<lambda>d. tokenTaken token d \<or> usernameTaken username d",
        OF CreateBot_run [unfolded Let_def]])
    (simp_all add: zero_user_def)

lemma keeps_CreateOwnedBot [keeps_rules]: "keeps db_ok (CreateOwnedBot username fn owner secret)"
  by (rule keeps_create [where c = "usernameTaken username", OF CreateOwnedBot_run [unfolded Let_def]])
    (simp_all add: zero_user_def)

lemma db_inv_setUser:
  assumes "db_inv d"
    and "\<And>mu. usr_ID (mu_u (f mu)) = usr_ID (mu_u mu)" "\<And>mu. mu_pts (f mu) = mu_pts mu"
    "\<And>mu. mu_lastMessageID (f mu) = mu_lastMessageID mu"
    and names: "names_ok (mmod uid f (users d))"
  shows "db_inv (d\<lparr>users := mmod uid f (users d)\<rparr>)"
proof -
  have "users_ok (mmod uid f (users d)) (userSeq d)"
    by (rule users_ok_mmod) (use assms in \<open>simp_all add: db_inv_def\<close>)
  moreover have "msgs_ok (mmod uid f (users d)) (messages d) (msgSeq d)"
    by (rule msgs_ok_users [of "users d"]) (use assms(1) in \<open>auto simp: db_inv_def\<close>)
  moreover have "last_of (mmod uid f (users d)) v = last_of (users d) v"
    "pts_of (mmod uid f (users d)) v = pts_of (users d) v" for v
    using assms(3,4) by (auto simp: last_of_mmod pts_of_mmod last_of_def pts_of_def split: option.split)
  ultimately show ?thesis
    using assms(1) names
      refs_ok_users [of "mmod uid f (users d)" "users d"]
      log_ok_users [of "mmod uid f (users d)" "users d"]
    by (simp add: db_inv_def)
qed

lemma names_ok_db: "db_inv d \<Longrightarrow> names_ok (users d)"
  by (simp add: db_inv_def)

lemma keeps_SetBotToken [keeps_rules]: "keeps db_ok (SetBotToken botID token)"
proof (rule keeps_db_okI)
  show "userSeq (snd (SetBotToken botID token d)) = userSeq d" for d :: "'a memdb_scheme"
    by (simp add: SetBotToken_def setUser_def modify_def split: option.split)
  show "db_inv (snd (SetBotToken botID token d))" if "db_inv d" for d :: "'a memdb_scheme"
  proof -
    have "db_inv (d\<lparr>users := mmod botID (\<lambda>mu. mu\<lparr>mu_u := (mu_u mu)\<lparr>usr_BotToken := token\<rparr>\<rparr>) (users d)\<rparr>)"
      by (rule db_inv_setUser [OF that], simp_all) (rule names_ok_mmod, simp_all add: that names_ok_db)
    with that show ?thesis
      by (simp add: SetBotToken_def setUser_def modify_def split: option.split)
  qed
qed

lemma setUser_const:
  "map_of us uid = Some mu \<Longrightarrow> mu' = f mu \<Longrightarrow> mmod uid (\<lambda>_. mu') us = mmod uid f us"
  by (induction us) (auto split: if_splits)

lemma mmod_cong_at:
  "map_of us uid = Some mu \<Longrightarrow> f mu = g mu \<Longrightarrow> mmod uid f us = mmod uid g us"
  by (induction us) (auto split: if_splits)

lemma keeps_SetProfile [keeps_rules]: "keeps db_ok (SetProfile uid fn ln ab)"
proof (rule keeps_db_okI)
  show "userSeq (snd (SetProfile uid fn ln ab d)) = userSeq d" for d :: "'a memdb_scheme"
    by (simp add: SetProfile_def setUser_def Let_def split: option.split)
  show "db_inv (snd (SetProfile uid fn ln ab d))" if inv: "db_inv d" for d :: "'a memdb_scheme"
  proof (cases "map_of (users d) uid")
    case None
    with inv show ?thesis
      by (simp add: SetProfile_def)
  next
    case (Some mu)
    have "db_inv (d\<lparr>users := mmod uid (\<lambda>mu. mu\<lparr>mu_u := setProfileFields fn ln ab (mu_u mu)\<rparr>) (users d)\<rparr>)"
      by (rule db_inv_setUser [OF inv], simp_all add: setProfileFields_def)
        (rule names_ok_mmod, simp_all add: inv names_ok_db)
    moreover have "mmod uid (\<lambda>mu. mu\<lparr>mu_u := setProfileFields fn ln ab (mu_u mu)\<rparr>) (users d)
        = mmod uid (\<lambda>m. m\<lparr>mu_u := setProfileFields fn ln ab (mu_u mu)\<rparr>) (users d)"
      by (rule mmod_cong_at [OF Some]) simp
    ultimately show ?thesis
      using Some by (simp add: SetProfile_def setUser_def Let_def)
  qed
qed

lemma SetUsername_run:
  "map_of (users d) uid = Some mu \<Longrightarrow> SetUsername uid name d =
     (if name \<noteq> [] \<and> (\<exists>(k, mu') \<in> set (users d). k \<noteq> uid \<and> usr_Username (mu_u mu') = name)
      then (Err (ErrUsernameExists name), d)
      else (Ok ((mu_u mu)\<lparr>usr_Username := name\<rparr>), d\<lparr>users :=
        mmod uid (\<lambda>mu. mu\<lparr>mu_u := (mu_u mu)\<lparr>usr_Username := name\<rparr>\<rparr>) (users d)\<rparr>))"
proof -
  assume *: "map_of (users d) uid = Some mu"
  have "mmod uid (\<lambda>m. m\<lparr>mu_u := (mu_u mu)\<lparr>usr_Username := n\<rparr>\<rparr>) (users d)
      = mmod uid (\<lambda>mu. mu\<lparr>mu_u := (mu_u mu)\<lparr>usr_Username := n\<rparr>\<rparr>) (users d)" for n
    by (rule mmod_cong_at [OF *]) simp
  with * show ?thesis
    by (simp add: SetUsername_def setUser_def Let_def list_ex_iff)
qed

lemma names_ok_rename:
  assumes "names_ok us"
    and "name \<noteq> [] \<Longrightarrow> \<not> (\<exists>(k, mu') \<in> set us. k \<noteq> uid \<and> usr_Username (mu_u mu') = name)"
  shows "names_ok (mmod uid (\<lambda>mu. mu\<lparr>mu_u := (mu_u mu)\<lparr>usr_Username := name\<rparr>\<rparr>) us)"
proof -
  have free: "usr_Username (mu_u mu) \<noteq> name" if "name \<noteq> []" "map_of us k = Some mu" "k \<noteq> uid" for k mu
    using assms(2) that map_of_SomeD [OF that(2)] by blast
  let ?us = "mmod uid (\<lambda>mu. mu\<lparr>mu_u := (mu_u mu)\<lparr>usr_Username := name\<rparr>\<rparr>) us"
  have old: "\<exists>m. map_of us k = Some m \<and> usr_Phone (mu_u mu) = usr_Phone (mu_u m) \<and>
      usr_Username (mu_u mu) = (if k = uid then name else usr_Username (mu_u m))"
    if "map_of ?us k = Some mu" for k mu
    using that by (auto split: if_splits)
  show ?thesis
    unfolding names_ok_def
  proof (intro allI impI)
    fix k mu k' mu'
    assume "map_of ?us k = Some mu" "map_of ?us k' = Some mu'" and ne: "k \<noteq> k'"
    then obtain m m' where m: "map_of us k = Some m" "map_of us k' = Some m'"
      "usr_Phone (mu_u mu) = usr_Phone (mu_u m)" "usr_Phone (mu_u mu') = usr_Phone (mu_u m')"
      "usr_Username (mu_u mu) = (if k = uid then name else usr_Username (mu_u m))"
      "usr_Username (mu_u mu') = (if k' = uid then name else usr_Username (mu_u m'))"
      using old by meson
    have "usr_Phone (mu_u m) \<noteq> [] \<longrightarrow> usr_Phone (mu_u m) \<noteq> usr_Phone (mu_u m')"
      "usr_Username (mu_u m) \<noteq> [] \<longrightarrow> usr_Username (mu_u m) \<noteq> usr_Username (mu_u m')"
      using assms(1) m(1,2) ne unfolding names_ok_def by blast+
    with m ne free [of k m] free [of k' m']
    show "(usr_Phone (mu_u mu) \<noteq> [] \<longrightarrow> usr_Phone (mu_u mu) \<noteq> usr_Phone (mu_u mu')) \<and>
        (usr_Username (mu_u mu) \<noteq> [] \<longrightarrow> usr_Username (mu_u mu) \<noteq> usr_Username (mu_u mu'))"
      by (auto split: if_splits)
  qed
qed

lemma keeps_SetUsername [keeps_rules]: "keeps db_ok (SetUsername uid name)"
proof (rule keeps_db_okI)
  show "userSeq (snd (SetUsername uid name d)) = userSeq d" for d :: "'a memdb_scheme"
    by (simp add: SetUsername_def setUser_def Let_def split: option.split)
  show "db_inv (snd (SetUsername uid name d))" if inv: "db_inv d" for d :: "'a memdb_scheme"
  proof (cases "map_of (users d) uid")
    case None
    with inv show ?thesis
      by (simp add: SetUsername_def)
  next
    case (Some mu)
    show ?thesis
    proof (cases "name \<noteq> [] \<and> (\<exists>(k, mu') \<in> set (users d). k \<noteq> uid \<and> usr_Username (mu_u mu') = name)")
      case True
      with inv show ?thesis
        by (simp add: SetUsername_run [OF Some])
    next
      case False
      then have "names_ok (mmod uid (\<lambda>mu. mu\<lparr>mu_u := (mu_u mu)\<lparr>usr_Username := name\<rparr>\<rparr>) (users d))"
        using names_ok_rename names_ok_db [OF inv] by blast
      from db_inv_setUser [OF inv _ _ _ this] show ?thesis
        unfolding SetUsername_run [OF Some] if_not_P [OF False] by simp
    qed
  qed
qed

lemmas user_reads = BotByToken_def BotsByOwner_def UserByID_def UserByPhone_def
  UserByUsername_def SearchUsers_def UsersByIDs_def SessionUserID_def GetHistory_def Contacts_def
  Drafts_def SearchMessages_def MessageByGlobal_def GetDialogs_def FileByID_def
  BotFatherState_def BotCommands_def

lemma keeps_reads [keeps_rules]:
  "keeps db_ok (BotByToken tok)" "keeps db_ok (BotsByOwner uid)" "keeps db_ok (UserByID uid)"
  "keeps db_ok (UserByPhone ph)" "keeps db_ok (UserByUsername un)" "keeps db_ok (SearchUsers q lim)"
  "keeps db_ok (UsersByIDs ids)" "keeps db_ok (SessionUserID key)"
  "keeps db_ok (GetHistory self peer off lim)" "keeps db_ok (Contacts uid)" "keeps db_ok (Drafts uid)"
  "keeps db_ok (SearchMessages self peer q lim)" "keeps db_ok (MessageByGlobal self gid)"
  "keeps db_ok (GetDialogs self lim)" "keeps db_ok (FileByID fid)" "keeps db_ok (BotFatherState uid)"
  "keeps db_ok (BotCommands uid sc lc)" "keeps db_ok Ready"
  unfolding user_reads Ready_def by (intro keeps_rules)+

section \<open>Messages\<close>

text \<open>
  One step of the update log: the account's pts goes up by the count of the new
  entry. The other parts of the state the step depends on may have changed before.
\<close>

definition bump :: "int \<Rightarrow> memUser \<Rightarrow> memUser" where
  "bump c mu = mu\<lparr>mu_pts := mu_pts mu + c\<rparr>"

definition bumpMsg :: "memUser \<Rightarrow> memUser" where
  "bumpMsg mu = mu\<lparr>mu_lastMessageID := mu_lastMessageID mu + 1, mu_pts := mu_pts mu + 1\<rparr>"

lemma bump_sel [simp]:
  "mu_u (bump c mu) = mu_u mu" "mu_pts (bump c mu) = mu_pts mu + c"
  "mu_lastMessageID (bump c mu) = mu_lastMessageID mu" "mu_botOwnerID (bump c mu) = mu_botOwnerID mu"
  "mu_u (bumpMsg mu) = mu_u mu" "mu_pts (bumpMsg mu) = mu_pts mu + 1"
  "mu_lastMessageID (bumpMsg mu) = mu_lastMessageID mu + 1" "mu_botOwnerID (bumpMsg mu) = mu_botOwnerID mu"
  by (simp_all add: bump_def bumpMsg_def)

lemma bump_abs:
  "(\<lambda>mu. mu\<lparr>mu_pts := mu_pts mu + c\<rparr>) = bump c"
  "(\<lambda>mu. mu\<lparr>mu_lastMessageID := mu_lastMessageID mu + 1, mu_pts := mu_pts mu + 1\<rparr>) = bumpMsg"
  by (simp_all add: bump_def bumpMsg_def fun_eq_iff)

definition logged :: "int \<Rightarrow> UpdateLogEntry \<Rightarrow> 'z memdb_scheme \<Rightarrow> 'z memdb_scheme" where
  "logged u e d = d\<lparr>users := mmod u (bump (ue_PtsCount e)) (users d), clk_pos := Suc (clk_pos d),
     updates := mput u (getd (updates d) u @ [e]) (updates d)\<rparr>"

lemma db_inv_logged:
  assumes inv: "db_inv d" and u: "map_of (users d) u = Some mu"
    and e: "ue_Pts e = mu_pts mu + ue_PtsCount e" "1 \<le> ue_PtsCount e" "entry_ok (getd (refs d) u) e"
  shows "db_inv (logged u e d)"
proof -
  let ?us = "mmod u (bump (ue_PtsCount e)) (users d)"
  have "users_ok ?us (userSeq d)" "names_ok ?us"
    using inv e by (auto simp: db_inv_def intro: users_ok_mmod names_ok_mmod)
  moreover have "msgs_ok ?us (messages d) (msgSeq d)"
    by (rule msgs_ok_users [of "users d"]) (use inv in \<open>auto simp: db_inv_def\<close>)
  moreover have "last_of ?us v = last_of (users d) v" for v
    by (auto simp: last_of_mmod last_of_def split: option.split)
  moreover have "log_ok ?us (refs d) (mput u (getd (updates d) u @ [e]) (updates d))"
    using log_ok_append [OF _ u, of "refs d" "updates d" "bump (ue_PtsCount e)" e] inv e
    by (simp add: db_inv_def)
  ultimately show ?thesis
    using inv refs_ok_users [of ?us "users d"] by (simp add: db_inv_def logged_def)
qed

lemma allocatePts_logUpdate:
  "map_of (users d) u = Some mu \<Longrightarrow>
   bnd (allocatePts u c) (\<lambda>p. bnd (logUpdate u p c typ g extra) (\<lambda>_. f p)) d =
     f (mu_pts mu + c) (logged u (log_entry (mu_pts mu + c) c typ g extra (clk d (clk_pos d))) d)"
  by (simp add: bnd_allocatePts logged_def bump_abs)

lemma logged_sel [simp]:
  "messages (logged u e d) = messages d" "refs (logged u e d) = refs d"
  "userSeq (logged u e d) = userSeq d" "msgSeq (logged u e d) = msgSeq d" "clk (logged u e d) = clk d"
  "users (logged u e d) = mmod u (bump (ue_PtsCount e)) (users d)"
  "updates (logged u e d) = mput u (getd (updates d) u @ [e]) (updates d)"
  "clk_pos (logged u e d) = Suc (clk_pos d)" "files (logged u e d) = files d"
  by (simp_all add: logged_def)

lemma db_inv_user_of_message:
  assumes "db_inv d" "map_of (messages d) g = Some m"
  obtains mf mp where "map_of (users d) (mm_from m) = Some mf" "map_of (users d) (mm_peer m) = Some mp"
  using assms unfolding db_inv_def msgs_ok_def by (metis not_None_eq)

lemma db_inv_setMessage:
  assumes "db_inv d"
    and "\<And>m. mm_globalID (f m) = mm_globalID m \<and> mm_from (f m) = mm_from m \<and> mm_peer (f m) = mm_peer m"
  shows "db_inv (d\<lparr>messages := mmod g f (messages d)\<rparr>)"
  using assms by (simp add: db_inv_def msgs_ok_mmod refs_ok_mmod copies_ok_mmod)

lemma db_inv_world [simp]: "db_inv (d\<lparr>clk_pos := a\<rparr>) = db_inv d" "db_inv (d\<lparr>rnd_pos := b\<rparr>) = db_inv d"
  by (simp_all add: db_inv_def)

subsection \<open>Sending\<close>

text \<open>What \<^verbatim>\<open>SendMessage\<close> does for one participant: a local id, a ref, a log entry.\<close>

definition delivered :: "int \<Rightarrow> int \<Rightarrow> bool \<Rightarrow> 'z memdb_scheme \<Rightarrow> 'z memdb_scheme" where
  "delivered u g out d = (let mu = the (map_of (users d) u); l = mu_lastMessageID mu + 1 in
     d\<lparr>users := mmod u bumpMsg (users d),
       refs := mput u (mput l \<lparr>mr_localID = l, mr_globalID = g, mr_out = out, mr_unread = \<not> out\<rparr>
         (getd (refs d) u)) (refs d), clk_pos := Suc (clk_pos d),
       updates := mput u (getd (updates d) u @
         [log_entry (mu_pts mu + 1) 1 UpdateNew (Some g) [] (clk d (clk_pos d))]) (updates d)\<rparr>)"

definition posted :: "int \<Rightarrow> int \<Rightarrow> string \<Rightarrow> int \<Rightarrow> int \<Rightarrow> 'z memdb_scheme \<Rightarrow> 'z memdb_scheme" where
  "posted fromID peerID text randomID mediaFileID d = d\<lparr>msgSeq := msgSeq d + 1,
     clk_pos := Suc (clk_pos d), messages := mput (msgSeq d + 1) \<lparr>mm_globalID = msgSeq d + 1,
       mm_from = fromID, mm_peer = peerID, mm_text = text, mm_date = clk d (clk_pos d),
       mm_editDate = zero_time, mm_randomID = randomID, mm_mediaFileID = mediaFileID,
       mm_deleted = False\<rparr> (messages d)\<rparr>"

lemma posted_sel [simp]:
  "users (posted f p t r mf d) = users d" "refs (posted f p t r mf d) = refs d"
  "updates (posted f p t r mf d) = updates d" "msgSeq (posted f p t r mf d) = msgSeq d + 1"
  "userSeq (posted f p t r mf d) = userSeq d" "files (posted f p t r mf d) = files d"
  by (simp_all add: posted_def)

lemma delivered_sel [simp]:
  "messages (delivered u g b d) = messages d" "msgSeq (delivered u g b d) = msgSeq d"
  "userSeq (delivered u g b d) = userSeq d" "users (delivered u g b d) = mmod u bumpMsg (users d)"
  "files (delivered u g b d) = files d"
  by (simp_all add: delivered_def Let_def)

lemma SendMessage_run:
  assumes "map_of (users d) f = Some mf" "map_of (users d) p = Some mp"
  shows "SendMessage f p t r md d = (if f = p
    then (Ok \<lparr>sent_GlobalID = msgSeq d + 1, sent_Date = clk d (clk_pos d),
        sent_SenderLocalID = mu_lastMessageID mf + 1, sent_SenderPts = mu_pts mf + 1,
        sent_RecipientLocalID = 0, sent_RecipientPts = 0, sent_SelfChat = True\<rparr>,
      delivered f (msgSeq d + 1) True (posted f p t r md d))
    else (Ok \<lparr>sent_GlobalID = msgSeq d + 1, sent_Date = clk d (clk_pos d),
        sent_SenderLocalID = mu_lastMessageID mf + 1, sent_SenderPts = mu_pts mf + 1,
        sent_RecipientLocalID = mu_lastMessageID mp + 1, sent_RecipientPts = mu_pts mp + 1,
        sent_SelfChat = False\<rparr>,
      delivered p (msgSeq d + 1) False (delivered f (msgSeq d + 1) True (posted f p t r md d))))"
proof (cases "f = p")
  case True
  with assms have "mp = mf"
    by simp
  with True assms show ?thesis
    by (simp add: SendMessage_def bnd_allocate bump_abs posted_def delivered_def Let_def)
next
  case False
  with assms show ?thesis
    by (simp add: SendMessage_def bnd_allocate bump_abs posted_def delivered_def Let_def)
qed

lemma SendMessage_panic:
  assumes "map_of (users d) f = None \<or> map_of (users d) p = None"
  shows "fst (SendMessage f p t r md d) = Panic"
proof (cases "map_of (users d) f")
  case None
  then show ?thesis
    by (simp add: SendMessage_def bnd_allocate_panic)
next
  case (Some mf)
  with assms have "map_of (users d) p = None" "f \<noteq> p"
    by auto
  with Some show ?thesis
    by (simp add: SendMessage_def bnd_allocate bnd_allocate_panic)
qed

lemma userSeq_SendMessage: "userSeq (snd (SendMessage f p t r md d)) = userSeq d"
proof (cases "map_of (users d) f")
  case None
  then show ?thesis
    by (simp add: SendMessage_def bnd_allocate_panic)
next
  case (Some mf)
  then show ?thesis
    by (cases "map_of (users d) p"; cases "f = p")
      (simp_all add: SendMessage_def bnd_allocate bnd_allocate_panic)
qed

text \<open>
  Between the deliveries a message lacks its second copy: \<open>db_inv'\<close> is the invariant
  without the two copies.
\<close>

definition db_inv' :: "'z memdb_scheme \<Rightarrow> bool" where
  "db_inv' d \<longleftrightarrow> users_ok (users d) (userSeq d) \<and> names_ok (users d) \<and>
     msgs_ok (users d) (messages d) (msgSeq d) \<and>
     refs_ok (users d) (messages d) (refs d) \<and> log_ok (users d) (refs d) (updates d) \<and>
     files_ok (files d) (fileSeq d) \<and> drafts_ok (drafts d) \<and> contacts_ok (contacts d) \<and>
     mwf (sessions d) \<and> mwf (tempKeys d) \<and> mwf (phoneCodes d) \<and> mwf (botStates d) \<and>
     mwf (botCommands d)"

lemma db_inv_split: "db_inv d \<longleftrightarrow> db_inv' d \<and> copies_ok (messages d) (refs d)"
  by (auto simp: db_inv_def db_inv'_def)

lemma msgs_ok_fresh: "msgs_ok us ms seq \<Longrightarrow> map_of ms (seq + 1) = None"
  unfolding msgs_ok_def by (metis add_le_same_cancel1 not_None_eq not_one_le_zero)

lemma db_inv'_posted:
  assumes "db_inv' d" "map_of (users d) f \<noteq> None" "map_of (users d) p \<noteq> None"
  shows "db_inv' (posted f p t r md d)"
  using assms msgs_ok_fresh [of "users d" "messages d" "msgSeq d"]
  by (simp add: db_inv'_def posted_def msgs_ok_mput refs_ok_new_message)

lemma db_inv'_delivered:
  assumes inv: "db_inv' d" and u: "map_of (users d) u = Some mu" and m: "map_of (messages d) g = Some m"
    and me: "mm_from m = u \<or> mm_peer m = u" "out \<longleftrightarrow> mm_from m = u"
    and new: "\<And>l r. map_of (getd (refs d) u) l = Some r \<Longrightarrow> mr_globalID r < g"
  shows "db_inv' (delivered u g out d)"
proof -
  let ?l = "mu_lastMessageID mu + 1"
  let ?r = "\<lparr>mr_localID = ?l, mr_globalID = g, mr_out = out, mr_unread = \<not> out\<rparr>"
  let ?e = "log_entry (mu_pts mu + 1) 1 UpdateNew (Some g) [] (clk d (clk_pos d))"
  let ?us = "mmod u bumpMsg (users d)"
  let ?rs = "mput u (mput ?l ?r (getd (refs d) u)) (refs d)"
  have last: "last_of (users d) u = mu_lastMessageID mu"
    using u by (simp add: last_of_def)
  have "0 \<le> mu_lastMessageID mu"
    using inv u unfolding db_inv'_def users_ok_def by blast
  then have refs: "refs_ok ?us (messages d) ?rs"
    using inv u m me new by (intro refs_ok_add) (auto simp: db_inv'_def ref_ok_def)
  have "map_of (getd (refs d) u) ?l \<noteq> None \<longleftrightarrow> 1 \<le> ?l \<and> ?l \<le> last_of (users d) u"
    using inv unfolding db_inv'_def refs_ok_def by blast
  then have free: "map_of (getd (refs d) u) ?l = None"
    by (simp add: last)
  have "log_ok (users d) ?rs (updates d)"
  proof (rule log_ok_refs)
    show "log_ok (users d) (refs d) (updates d)"
      using inv by (simp add: db_inv'_def)
    show "\<exists>r'. map_of (getd ?rs v) l = Some r' \<and> mr_globalID r' = mr_globalID r"
      if "map_of (getd (refs d) v) l = Some r" for v l r
      using that free by auto
  qed
  then have log: "log_ok ?us ?rs (mput u (getd (updates d) u @ [?e]) (updates d))"
    by (intro log_ok_append [OF _ u]) (auto simp: entry_ok_def)
  have "users_ok ?us (userSeq d)" "names_ok ?us"
    using inv by (auto simp: db_inv'_def intro: users_ok_mmod names_ok_mmod)
  moreover have "msgs_ok ?us (messages d) (msgSeq d)"
    by (rule msgs_ok_users [of "users d"]) (use inv in \<open>auto simp: db_inv'_def\<close>)
  ultimately show ?thesis
    using inv refs log u by (simp add: db_inv'_def delivered_def Let_def)
qed

end
