(* ===== verification/MemCalls.thy ===== *)
theory MemCalls imports MemKeeps begin

text \<open>
  The invariant across the calls that send, edit, delete and read messages, and the
  calls of the remaining tables.
\<close>

lemma db_inv_SendMessage:
  fixes d :: "'z memdb_scheme"
  assumes inv: "db_inv d" and f: "map_of (users d) f = Some mf" and p: "map_of (users d) p = Some mp"
  shows "db_inv (snd (SendMessage f p t r md d))"
proof -
  let ?g = "msgSeq d + 1"
  let ?d1 = "posted f p t r md d"
  let ?d2 = "delivered f ?g True ?d1"
  have inv': "db_inv' d" and copies: "copies_ok (messages d) (refs d)"
    using inv by (simp_all add: db_inv_split)
  have d1: "db_inv' ?d1"
    using db_inv'_posted [OF inv'] f p by simp
  obtain m where m: "map_of (messages ?d1) ?g = Some m" "mm_from m = f" "mm_peer m = p"
    by (simp add: posted_def)
  have old: "mr_globalID x < ?g" if x: "map_of (getd (refs d) v) l = Some x" for v l x
  proof -
    have "ref_ok (messages d) v l x"
      using inv' x by (simp add: db_inv'_def refs_ok_def)
    then obtain y where "map_of (messages d) (mr_globalID x) = Some y"
      by (auto simp: ref_ok_def)
    then have "mr_globalID x \<le> msgSeq d"
      using inv' unfolding db_inv'_def msgs_ok_def by blast
    then show ?thesis
      by simp
  qed
  have d2: "db_inv' ?d2"
    using db_inv'_delivered [OF d1, of f mf ?g m True] f m old by simp
  have copy: "\<exists>l r. map_of (getd (refs d) u) l = Some r \<and> mr_globalID r = k"
    if "map_of (messages d) k = Some x" "u = mm_from x \<or> u = mm_peer x" for k x u
    using copies that unfolding copies_ok_def by blast
  have lastf: "map_of (getd (refs d) v) (mu_lastMessageID mv + 1) = None"
    if "map_of (users d) v = Some mv" for v mv
  proof -
    have "map_of (getd (refs d) v) (mu_lastMessageID mv + 1) \<noteq> None \<longleftrightarrow>
        1 \<le> mu_lastMessageID mv + 1 \<and> mu_lastMessageID mv + 1 \<le> last_of (users d) v"
      using inv' unfolding db_inv'_def refs_ok_def by blast
    then show ?thesis
      using that by (simp add: last_of_def)
  qed
  have new: "\<exists>l r. map_of (getd (refs (delivered v ?g b e)) v) l = Some r \<and> mr_globalID r = ?g" for v b and e :: "'z memdb_scheme"
    by (simp add: delivered_def Let_def) (meson memRef.select_convs(2))
  have keep: "\<exists>l r. map_of (getd (refs (delivered v ?g b e)) u) l = Some r \<and> mr_globalID r = k"
    if ex: "\<exists>l r. map_of (getd (refs e) u) l = Some r \<and> mr_globalID r = k"
      and free: "map_of (getd (refs e) v) (mu_lastMessageID (the (map_of (users e) v)) + 1) = None"
    for v b and e :: "'z memdb_scheme" and u k
  proof -
    obtain l x where l: "map_of (getd (refs e) u) l = Some x" "mr_globalID x = k"
      using ex by blast
    with free have "\<not> (u = v \<and> l = mu_lastMessageID (the (map_of (users e) v)) + 1)"
      by auto
    with l show ?thesis
      by (intro exI [of _ l] exI [of _ x]) (auto simp: delivered_def Let_def)
  qed
  have msgs: "map_of (messages ?d1) k = (if k = ?g then Some m else map_of (messages d) k)" for k
    using m(1) by (simp add: posted_def)
  show ?thesis
  proof (cases "f = p")
    case True
    have "copies_ok (messages ?d1) (refs ?d2)"
      unfolding copies_ok_def msgs
      using new keep [of ?d1] copy lastf [OF f] f m True by (auto split: if_splits)
    with d2 show ?thesis
      unfolding SendMessage_run [OF f p] if_P [OF True] by (simp add: db_inv_split)
  next
    case False
    let ?d3 = "delivered p ?g False ?d2"
    have refs2: "getd (refs ?d2) p = getd (refs d) p"
      using False by (simp add: delivered_def Let_def)
    have d3: "db_inv' ?d3"
      using db_inv'_delivered [OF d2, of p mp ?g m False] False p m old refs2 by simp
    have last2: "map_of (getd (refs ?d2) p) (mu_lastMessageID (the (map_of (users ?d2) p)) + 1) = None"
      using lastf [OF p] refs2 False p by simp
    have "copies_ok (messages ?d1) (refs ?d3)"
      unfolding copies_ok_def msgs
    proof (intro allI impI)
      fix k x u
      assume k: "(if k = ?g then Some m else map_of (messages d) k) = Some x" "u = mm_from x \<or> u = mm_peer x"
      show "\<exists>l r. map_of (getd (refs ?d3) u) l = Some r \<and> mr_globalID r = k"
      proof (cases "k = ?g \<and> u = p")
        case True
        then show ?thesis
          using new by blast
      next
        case False
        with k m have "\<exists>l r. map_of (getd (refs ?d2) u) l = Some r \<and> mr_globalID r = k"
          using new [of f True ?d1] keep [of ?d1 u k f True] copy lastf [OF f] f by (auto split: if_splits)
        then show ?thesis
          using keep [OF _ last2] by blast
      qed
    qed
    with d3 show ?thesis
      unfolding SendMessage_run [OF f p] if_not_P [OF False] by (simp add: db_inv_split)
  qed
qed

lemma keeps_SendMessage [keeps_rules]: "keeps db_ok (SendMessage f p t r md)"
proof (rule keeps_db_okI)
  show "userSeq (snd (SendMessage f p t r md d)) = userSeq d" for d :: "'a memdb_scheme"
    by (rule userSeq_SendMessage)
  show "db_inv (snd (SendMessage f p t r md d))"
    if "db_inv d" "fst (SendMessage f p t r md d) \<noteq> Panic" for d :: "'a memdb_scheme"
    using db_inv_SendMessage [OF that(1)] SendMessage_panic [of d f p t r md] that(2)
    by (cases "map_of (users d) f"; cases "map_of (users d) p") simp_all
qed

section \<open>Editing\<close>

definition editable :: "int \<Rightarrow> int \<Rightarrow> 'z memdb_scheme \<Rightarrow> (memRef \<times> memMessage) option" where
  "editable self l d = (case map_of (getd (refs d) self) l of None \<Rightarrow> None | Some r \<Rightarrow>
     (case map_of (messages d) (mr_globalID r) of None \<Rightarrow> None | Some m \<Rightarrow>
       if mm_deleted m \<or> mm_from m \<noteq> self then None else Some (r, m)))"

definition edited :: "int \<Rightarrow> string \<Rightarrow> 'z memdb_scheme \<Rightarrow> 'z memdb_scheme" where
  "edited g text d = d\<lparr>clk_pos := Suc (clk_pos d), messages := mmod g (\<lambda>m. m\<lparr>mm_text := text,
     mm_editDate := clk d (clk_pos d)\<rparr>) (messages d)\<rparr>"

lemma edited_sel [simp]:
  "users (edited g text d) = users d" "refs (edited g text d) = refs d"
  "userSeq (edited g text d) = userSeq d" "updates (edited g text d) = updates d"
  "clk (edited g text d) = clk d" "clk_pos (edited g text d) = Suc (clk_pos d)"
  "files (edited g text d) = files d" "msgSeq (edited g text d) = msgSeq d"
  by (simp_all add: edited_def)

definition edit_entry :: "int \<Rightarrow> int \<Rightarrow> int \<Rightarrow> UpdateLogEntry" where
  "edit_entry pts g t = log_entry pts 1 UpdateEdit (Some g) [] t"

lemma EditMessage_invalid: "editable self l d = None \<Longrightarrow> EditMessage self l text d = (Err ErrMessageID, d)"
  by (auto simp: editable_def EditMessage_def split: option.splits if_splits)

lemma editableD:
  assumes "editable self l d = Some (r, m)"
  shows "map_of (getd (refs d) self) l = Some r" "map_of (messages d) (mr_globalID r) = Some m"
    "\<not> mm_deleted m" "mm_from m = self"
  using assms by (auto simp: editable_def split: option.splits if_splits)

lemma EditMessage_run:
  assumes e: "editable self l d = Some (r, m)" and u: "map_of (users d) self = Some mu"
    and p: "map_of (users d) (mm_peer m) = Some mp"
  shows "EditMessage self l text d =
    (let d0 = edited (mr_globalID r) text d; g = mm_globalID m; t = clk_pos d;
         d1 = logged self (edit_entry (mu_pts mu + 1) g (clk d (t + 1))) d0 in
     if mm_peer m = self
     then (Ok \<lparr>er_SelfLocalID = l, er_SelfPts = mu_pts mu + 1, er_PeerUserID = mm_peer m,
       er_PeerLocalID = 0, er_PeerPts = 0, er_Date = mm_date m, er_EditDate = clk d t\<rparr>, d1)
     else (Ok \<lparr>er_SelfLocalID = l, er_SelfPts = mu_pts mu + 1, er_PeerUserID = mm_peer m,
       er_PeerLocalID = (case refByGlobal (mm_peer m) g d of None \<Rightarrow> 0 | Some pr \<Rightarrow> mr_localID pr),
       er_PeerPts = mu_pts mp + 1, er_Date = mm_date m, er_EditDate = clk d t\<rparr>,
       logged (mm_peer m) (edit_entry (mu_pts mp + 1) g (clk d (t + 2))) d1))"
  using editableD [OF e] u p
  by (simp add: EditMessage_def Let_def allocatePts_logUpdate edited_def [symmetric] edit_entry_def
      bnd_allocatePts bump_abs) (auto simp: logged_def edited_def refByGlobal_def)

lemma userSeq_EditMessage: "userSeq (snd (EditMessage self l text d)) = userSeq d"
proof (cases "editable self l d")
  case None
  then show ?thesis
    by (simp add: EditMessage_invalid)
next
  case (Some rm)
  obtain r m where "rm = (r, m)"
    by (cases rm)
  with Some have e: "editable self l d = Some (r, m)"
    by simp
  show ?thesis
    using editableD [OF e]
    by (cases "map_of (users d) self"; cases "map_of (users d) (mm_peer m)"; cases "mm_peer m = self")
      (simp_all add: EditMessage_def bnd_allocatePts bnd_allocatePts_panic)
qed

lemma db_inv_copy:
  assumes "db_inv d" "map_of (messages d) g = Some m" "u = mm_from m \<or> u = mm_peer m"
  obtains l r where "map_of (getd (refs d) u) l = Some r" "mr_globalID r = g"
  using assms unfolding db_inv_def copies_ok_def by blast

lemma db_inv_edited: "db_inv d \<Longrightarrow> db_inv (edited g text d)"
proof -
  assume "db_inv d"
  then have "db_inv (d\<lparr>messages := mmod g (\<lambda>m. m\<lparr>mm_text := text, mm_editDate := clk d (clk_pos d)\<rparr>) (messages d)\<rparr>)"
    by (rule db_inv_setMessage) simp
  then show ?thesis
    by (simp add: edited_def db_inv_def)
qed

lemma db_inv_EditMessage:
  assumes inv: "db_inv d"
  shows "db_inv (snd (EditMessage self l text d))"
proof (cases "editable self l d")
  case None
  with inv show ?thesis
    by (simp add: EditMessage_invalid)
next
  case (Some rm)
  obtain r m where "rm = (r, m)"
    by (cases rm)
  with Some have e: "editable self l d = Some (r, m)"
    by simp
  note m = editableD [OF e]
  obtain mu mp where u: "map_of (users d) self = Some mu" and p: "map_of (users d) (mm_peer m) = Some mp"
    using db_inv_user_of_message [OF inv m(2)] m(4) by metis
  have gid: "mm_globalID m = mr_globalID r"
    using inv m(2) unfolding db_inv_def msgs_ok_def by blast
  let ?d0 = "edited (mr_globalID r) text d"
  let ?d1 = "logged self (edit_entry (mu_pts mu + 1) (mm_globalID m) (clk d (clk_pos d + 1))) ?d0"
  have d0: "db_inv ?d0"
    by (rule db_inv_edited [OF inv])
  have d1: "db_inv ?d1"
    by (rule db_inv_logged [OF d0, of self mu])
      (use u m(1) gid in \<open>auto simp: edit_entry_def entry_ok_def\<close>)
  show ?thesis
  proof (cases "mm_peer m = self")
    case True
    with d1 show ?thesis
      by (simp add: EditMessage_run [OF e u p] Let_def)
  next
    case False
    obtain l' r' where copy: "map_of (getd (refs d) (mm_peer m)) l' = Some r'" "mr_globalID r' = mr_globalID r"
      using db_inv_copy [OF inv m(2)] by blast
    have "db_inv (logged (mm_peer m) (edit_entry (mu_pts mp + 1) (mm_globalID m) (clk d (clk_pos d + 2))) ?d1)"
      by (rule db_inv_logged [OF d1, of "mm_peer m" mp])
        (use p False copy gid in \<open>auto simp: edit_entry_def entry_ok_def intro!: exI [of _ l'] exI [of _ r']\<close>)
    with False show ?thesis
      by (simp add: EditMessage_run [OF e u p] Let_def)
  qed
qed

lemma keeps_EditMessage [keeps_rules]: "keeps db_ok (EditMessage self l text)"
  by (rule keeps_db_okI) (auto simp: userSeq_EditMessage db_inv_EditMessage)

section \<open>Deleting\<close>

definition deleted_ids :: "int \<Rightarrow> int list \<Rightarrow> 'z memdb_scheme \<Rightarrow> int list" where
  "deleted_ids self ids d = filter (\<lambda>l. map_of (getd (refs d) self) l \<noteq> None) ids"

fun mark_all :: "(int, memRef) gomap \<Rightarrow> int list \<Rightarrow> (int, memMessage) gomap \<Rightarrow> (int, memMessage) gomap" where
  "mark_all my [] ms = ms"
| "mark_all my (l # ls) ms = mark_all my ls (case map_of my l of None \<Rightarrow> ms
     | Some r \<Rightarrow> mmod (mr_globalID r) (\<lambda>m. m\<lparr>mm_deleted := True\<rparr>) ms)"

lemma loop_markDeleted:
  "loop (markDeleted self) ids acc d = (Ok (acc @ deleted_ids self ids d),
     d\<lparr>messages := mark_all (getd (refs d) self) ids (messages d)\<rparr>)"
proof (induction ids arbitrary: acc d)
  case (Cons l ids)
  show ?case
  proof (cases "map_of (getd (refs d) self) l")
    case None
    then show ?thesis
      using Cons [of acc d] by (simp add: markDeleted_def deleted_ids_def bnd_def gets_def ret_def)
  next
    case (Some r)
    then show ?thesis
      using Cons [of "acc @ [l]" "d\<lparr>messages := mmod (mr_globalID r) (\<lambda>m. m\<lparr>mm_deleted := True\<rparr>) (messages d)\<rparr>"]
      by (simp add: markDeleted_def deleted_ids_def bnd_def gets_def ret_def setMessage_def modify_def)
  qed
qed (simp add: deleted_ids_def)

lemma DeleteMessages_none:
  "deleted_ids self ids d = [] \<Longrightarrow> DeleteMessages self ids d =
     (Ok \<lparr>del_Pts = 0, del_PtsCount = 0, del_LocalIDs = []\<rparr>,
      d\<lparr>messages := mark_all (getd (refs d) self) ids (messages d)\<rparr>)"
  by (simp add: DeleteMessages_def bnd_def [of "loop _ _ _"] loop_markDeleted)

definition delete_entry :: "int \<Rightarrow> int list \<Rightarrow> int \<Rightarrow> UpdateLogEntry" where
  "delete_entry pts ids t = log_entry pts (int (length ids)) UpdateDelete None (EncodeDeleted ids) t"

lemma DeleteMessages_some:
  assumes "deleted_ids self ids d = dl" "dl \<noteq> []" "map_of (users d) self = Some mu"
  shows "DeleteMessages self ids d = (let pts = mu_pts mu + int (length dl) in
     (Ok \<lparr>del_Pts = pts, del_PtsCount = int (length dl), del_LocalIDs = dl\<rparr>,
      logged self (delete_entry pts dl (clk d (clk_pos d)))
        (d\<lparr>messages := mark_all (getd (refs d) self) ids (messages d)\<rparr>)))"
  using assms
  by (simp add: DeleteMessages_def bnd_def [of "loop _ _ _"] loop_markDeleted allocatePts_logUpdate
      delete_entry_def Let_def)

lemma userSeq_DeleteMessages: "userSeq (snd (DeleteMessages self ids d)) = userSeq d"
  by (cases "deleted_ids self ids d = []"; cases "map_of (users d) self")
    (simp_all add: DeleteMessages_none DeleteMessages_some Let_def
      DeleteMessages_def bnd_def [of "loop _ _ _"] loop_markDeleted bnd_allocatePts_panic
      allocatePts_logUpdate)

lemma mark_all_keep:
  assumes "\<And>ms g. I ms \<Longrightarrow> I (mmod g (\<lambda>m. m\<lparr>mm_deleted := True\<rparr>) ms)" "I ms"
  shows "I (mark_all my ls ms)"
  using assms(2) by (induction ls arbitrary: ms) (auto split: option.splits intro: assms(1))

lemma db_inv_mark_all: "db_inv d \<Longrightarrow> db_inv (d\<lparr>messages := mark_all my ls (messages d)\<rparr>)"
proof -
  assume inv: "db_inv d"
  let ?I = "\<lambda>ms. db_inv (d\<lparr>messages := ms\<rparr>)"
  show ?thesis
  proof (rule mark_all_keep [where I = ?I])
    show "?I (mmod g (\<lambda>m. m\<lparr>mm_deleted := True\<rparr>) ms)" if "?I ms" for g ms
      using db_inv_setMessage [OF that, of "\<lambda>m. m\<lparr>mm_deleted := True\<rparr>" g] by simp
  qed (simp add: inv)
qed

lemma map_of_mark_all:
  "map_of (mark_all my ls ms) g = map_option (\<lambda>m. if \<exists>l \<in> set ls. \<exists>r. map_of my l = Some r \<and> mr_globalID r = g
     then m\<lparr>mm_deleted := True\<rparr> else m) (map_of ms g)"
proof (induction ls arbitrary: ms)
  case Nil
  then show ?case
    by (simp add: option.map_ident)
next
  case (Cons l ls)
  show ?case
  proof (cases "map_of my l")
    case None
    with Cons show ?thesis
      by simp
  next
    case (Some r)
    with Cons show ?thesis
      by (cases "map_of ms g") auto
  qed
qed

lemma db_inv_DeleteMessages:
  assumes inv: "db_inv d" and ok: "fst (DeleteMessages self ids d) \<noteq> Panic"
  shows "db_inv (snd (DeleteMessages self ids d))"
proof (cases "deleted_ids self ids d = []")
  case True
  with db_inv_mark_all [OF inv] show ?thesis
    by (simp add: DeleteMessages_none)
next
  case False
  show ?thesis
  proof (cases "map_of (users d) self")
    case None
    with False ok show ?thesis
      by (simp add: DeleteMessages_def bnd_def [of "loop _ _ _"] loop_markDeleted bnd_allocatePts_panic)
  next
    case (Some mu)
    let ?dl = "deleted_ids self ids d"
    let ?d0 = "d\<lparr>messages := mark_all (getd (refs d) self) ids (messages d)\<rparr>"
    let ?e = "delete_entry (mu_pts mu + int (length ?dl)) ?dl (clk d (clk_pos d))"
    have "entry_ok (getd (refs ?d0) self) ?e"
      using False by (auto simp: entry_ok_def delete_entry_def deleted_ids_def)
    moreover have "1 \<le> int (length ?dl)"
      using False by (cases ?dl) auto
    moreover have "db_inv ?d0"
      by (rule db_inv_mark_all [OF inv])
    ultimately have "db_inv (logged self ?e ?d0)"
      using Some by (intro db_inv_logged) (auto simp: delete_entry_def)
    then show ?thesis
      by (simp add: DeleteMessages_some [OF refl False Some] Let_def)
  qed
qed

lemma keeps_DeleteMessages [keeps_rules]: "keeps db_ok (DeleteMessages self ids)"
  by (rule keeps_db_okI) (auto simp: userSeq_DeleteMessages db_inv_DeleteMessages)

section \<open>Reading\<close>

definition read_refs :: "int \<Rightarrow> int \<Rightarrow> int \<Rightarrow> 'z memdb_scheme \<Rightarrow> 'z memdb_scheme" where
  "read_refs self peer maxID d = d\<lparr>refs := mmod self (map (\<lambda>(l, r).
       (l, if readable d self peer maxID r then r\<lparr>mr_unread := False\<rparr> else r))) (refs d)\<rparr>"

lemma read_refs_sel [simp]:
  "users (read_refs s p m d) = users d" "messages (read_refs s p m d) = messages d"
  "userSeq (read_refs s p m d) = userSeq d" "updates (read_refs s p m d) = updates d"
  "clk (read_refs s p m d) = clk d" "clk_pos (read_refs s p m d) = clk_pos d"
  "msgSeq (read_refs s p m d) = msgSeq d" "files (read_refs s p m d) = files d"
  "fileSeq (read_refs s p m d) = fileSeq d" "drafts (read_refs s p m d) = drafts d"
  "contacts (read_refs s p m d) = contacts d" "sessions (read_refs s p m d) = sessions d"
  "tempKeys (read_refs s p m d) = tempKeys d" "phoneCodes (read_refs s p m d) = phoneCodes d"
  "botStates (read_refs s p m d) = botStates d" "botCommands (read_refs s p m d) = botCommands d"
  by (simp_all add: read_refs_def)

lemma getd_read_refs: "getd (refs (read_refs s p m d)) u = (if u = s
    then map (\<lambda>(l, r). (l, if readable d s p m r then r\<lparr>mr_unread := False\<rparr> else r)) (getd (refs d) s)
    else getd (refs d) u)"
  by (auto simp: read_refs_def getd_def split: option.split)

lemma map_of_read_refs: "map_of (getd (refs (read_refs s p m d)) u) l =
    map_option (\<lambda>r. if u = s \<and> readable d s p m r then r\<lparr>mr_unread := False\<rparr> else r)
      (map_of (getd (refs d) u) l)"
  by (simp add: getd_read_refs map_of_map option.map_ident)

lemma db_inv_read_refs:
  assumes inv: "db_inv d"
  shows "db_inv (read_refs s p m d)"
proof -
  let ?d = "read_refs s p m d"
  have old: "\<exists>r. map_of (getd (refs d) u) l = Some r \<and> mr_globalID r' = mr_globalID r \<and>
      mr_localID r' = mr_localID r \<and> mr_out r' = mr_out r \<and> (mr_unread r' \<longrightarrow> mr_unread r)"
    if r': "map_of (getd (refs ?d) u) l = Some r'" for u l r'
  proof -
    obtain r where "map_of (getd (refs d) u) l = Some r"
      "r' = (if u = s \<and> readable d s p m r then r\<lparr>mr_unread := False\<rparr> else r)"
      using r' unfolding map_of_read_refs by blast
    then show ?thesis
      by simp
  qed
  have new: "\<exists>r'. map_of (getd (refs ?d) u) l = Some r' \<and> mr_globalID r' = mr_globalID r"
    if "map_of (getd (refs d) u) l = Some r" for u l r
    using that by (simp add: map_of_read_refs)
  have refs: "refs_ok (users d) (messages d) (refs d)" "copies_ok (messages d) (refs d)"
    "log_ok (users d) (refs d) (updates d)"
    using inv by (simp_all add: db_inv_def)
  have "mwf (refs d)" "mwf (getd (refs d) u)"
    "map_of (getd (refs d) u) l \<noteq> None \<longleftrightarrow> 1 \<le> l \<and> l \<le> last_of (users d) u" for u l
    using refs(1) unfolding refs_ok_def by blast+
  note base = this
  have "refs_ok (users d) (messages d) (refs ?d)"
  proof (rule refs_okI)
    show "mwf (getd (refs ?d) u)" for u
      using base(2) [of u] base(2) [of s] by (simp add: getd_read_refs mwf_def comp_def case_prod_beta)
    show "mwf (refs ?d)"
      using base(1) by (simp add: read_refs_def)
    show "ref_ok (messages d) u l r'" if r': "map_of (getd (refs ?d) u) l = Some r'" for u l r'
    proof -
      obtain r where "map_of (getd (refs d) u) l = Some r" "mr_globalID r' = mr_globalID r"
        "mr_localID r' = mr_localID r" "mr_out r' = mr_out r" "mr_unread r' \<longrightarrow> mr_unread r"
        using old [OF r'] by blast
      moreover from this(1) have "ref_ok (messages d) u l r"
        using refs(1) unfolding refs_ok_def by blast
      ultimately show ?thesis
        by (auto simp: ref_ok_def)
    qed
    show "(map_of (getd (refs ?d) u) l \<noteq> None) = (1 \<le> l \<and> l \<le> last_of (users d) u)" for u l
      using base(3) [of u l] by (simp add: map_of_read_refs)
    show "mr_globalID x < mr_globalID y"
      if x: "map_of (getd (refs ?d) u) a = Some x" and y: "map_of (getd (refs ?d) u) b = Some y"
        and "a < b" for u a b x y
    proof -
      obtain x' where x': "map_of (getd (refs d) u) a = Some x'" "mr_globalID x = mr_globalID x'"
        using old [OF x] by blast
      obtain y' where y': "map_of (getd (refs d) u) b = Some y'" "mr_globalID y = mr_globalID y'"
        using old [OF y] by blast
      have "mr_globalID x' < mr_globalID y'"
        using refs(1) x'(1) y'(1) \<open>a < b\<close> unfolding refs_ok_def by blast
      with x' y' show ?thesis
        by simp
    qed
  qed
  moreover have "copies_ok (messages d) (refs ?d)"
    unfolding copies_ok_def
  proof (intro allI impI)
    fix g x u
    assume "map_of (messages d) g = Some x" "u = mm_from x \<or> u = mm_peer x"
    then obtain l r where "map_of (getd (refs d) u) l = Some r" "mr_globalID r = g"
      using refs(2) unfolding copies_ok_def by blast
    with new [of u l r] show "\<exists>l r. map_of (getd (refs ?d) u) l = Some r \<and> mr_globalID r = g"
      by auto
  qed
  moreover have "log_ok (users d) (refs ?d) (updates d)"
    using refs(3) new by (rule log_ok_refs)
  ultimately show ?thesis
    using inv by (simp add: db_inv_def)
qed

definition read_entry :: "string \<Rightarrow> int \<Rightarrow> int \<Rightarrow> int \<Rightarrow> int \<Rightarrow> UpdateLogEntry" where
  "read_entry typ pts peer maxID t = log_entry pts 1 typ None (EncodeRead peer maxID) t"

lemma bnd_markRead: "bnd (markRead s p m) f d = f (map mr_globalID
     (filter (readable d s p m) (mvals (getd (refs d) s)))) (read_refs s p m d)"
  by (simp add: markRead_def read_refs_def bnd_def gets_def modify_def ret_def)

definition outbox_read :: "int \<Rightarrow> int \<Rightarrow> int \<Rightarrow> 'z memdb_scheme \<Rightarrow> int" where
  "outbox_read self peer maxID d = outboxMax
     (map mr_globalID (filter (readable d self peer maxID) (mvals (getd (refs d) self))))
     (mvals (getd (refs (read_refs self peer maxID d)) peer))"

lemma ReadHistory_run:
  assumes u: "map_of (users d) self = Some mu" and p: "map_of (users d) peer = Some mp"
  shows "ReadHistory self peer maxID d =
    (let om = outbox_read self peer maxID d; d0 = read_refs self peer maxID d;
         uc = unreadCount d0 self peer; t = clk_pos d;
         d1 = logged self (read_entry UpdateReadInbox (mu_pts mu + 1) peer maxID (clk d t)) d0 in
     if 0 < om \<and> peer \<noteq> self
     then (Ok \<lparr>rr_InboxPts = mu_pts mu + 1, rr_UnreadCount = uc, rr_OutboxPts = mu_pts mp + 1,
            rr_OutboxMaxID = om\<rparr>,
          logged peer (read_entry UpdateReadOutbox (mu_pts mp + 1) self om (clk d (t + 1))) d1)
     else (Ok \<lparr>rr_InboxPts = mu_pts mu + 1, rr_UnreadCount = uc, rr_OutboxPts = 0,
            rr_OutboxMaxID = om\<rparr>, d1))"
  using u p
  by (simp add: ReadHistory_def bnd_markRead Let_def allocatePts_logUpdate read_entry_def
      outbox_read_def)

lemma userSeq_ReadHistory: "userSeq (snd (ReadHistory self peer maxID d)) = userSeq d"
  by (cases "map_of (users d) self"; cases "map_of (users d) peer";
      cases "0 < outbox_read self peer maxID d"; cases "peer = self")
    (simp_all add: ReadHistory_def bnd_markRead outbox_read_def bnd_allocatePts bnd_allocatePts_panic)

lemma db_inv_ReadHistory:
  assumes inv: "db_inv d" and ok: "fst (ReadHistory self peer maxID d) \<noteq> Panic"
  shows "db_inv (snd (ReadHistory self peer maxID d))"
proof -
  obtain mu where u: "map_of (users d) self = Some mu"
    using ok by (cases "map_of (users d) self")
      (auto simp: ReadHistory_def bnd_markRead bnd_allocatePts_panic)
  let ?om = "outbox_read self peer maxID d"
  let ?d0 = "read_refs self peer maxID d"
  let ?e = "read_entry UpdateReadInbox (mu_pts mu + 1) peer maxID (clk d (clk_pos d))"
  have d0: "db_inv ?d0"
    by (rule db_inv_read_refs [OF inv])
  have d1: "db_inv (logged self ?e ?d0)"
    by (rule db_inv_logged [OF d0, of self mu]) (use u in \<open>auto simp: read_entry_def entry_ok_def\<close>)
  show ?thesis
  proof (cases "0 < ?om \<and> peer \<noteq> self")
    case False
    with d1 show ?thesis
      using u by (auto simp: ReadHistory_def bnd_markRead Let_def allocatePts_logUpdate read_entry_def
          outbox_read_def [symmetric])
  next
    case True
    then obtain mp where p: "map_of (users d) peer = Some mp"
      using ok u by (cases "map_of (users d) peer")
        (auto simp: ReadHistory_def bnd_markRead bnd_allocatePts bnd_allocatePts_panic outbox_read_def [symmetric])
    have "db_inv (logged peer (read_entry UpdateReadOutbox (mu_pts mp + 1) self ?om (clk d (clk_pos d + 1)))
        (logged self ?e ?d0))"
      by (rule db_inv_logged [OF d1, of peer mp])
        (use p True in \<open>auto simp: read_entry_def entry_ok_def\<close>)
    with True show ?thesis
      by (simp add: ReadHistory_run [OF u p] Let_def)
  qed
qed

lemma keeps_ReadHistory [keeps_rules]: "keeps db_ok (ReadHistory self peer maxID)"
  by (rule keeps_db_okI) (auto simp: userSeq_ReadHistory db_inv_ReadHistory)

section \<open>The remaining tables\<close>

lemma keeps_tables [keeps_rules]:
  "keeps db_ok (BindSession key uid)" "keeps db_ok (Unbind key)"
  "keeps db_ok (BindTempAuthKey tk pk t)" "keeps db_ok (SetBotFatherState uid st)"
  "keeps db_ok (ClearBotFatherState uid)" "keeps db_ok (SetBotCommands uid sc lc cmds)"
  "keeps db_ok (ResetBotCommands uid sc lc)"
  unfolding BindSession_def Unbind_def BindTempAuthKey_def SetBotFatherState_def
    ClearBotFatherState_def SetBotCommands_def ResetBotCommands_def
  by (rule keeps_db_ok_modify; simp add: db_inv_def)+

lemma keeps_SavePhoneCode [keeps_rules]: "keeps db_ok (SavePhoneCode ph h c ttl)"
  unfolding SavePhoneCode_def
  by (intro keeps_rules keeps_db_ok_modify) (simp_all add: db_inv_def)

lemma keeps_timed_reads [keeps_rules]:
  "keeps db_ok (PhoneCode ph h)" "keeps db_ok (PermAuthKey key)" "keeps db_ok (GetState uid)"
  "keeps db_ok (GetDifference uid since lim)"
  unfolding PhoneCode_def PermAuthKey_def GetState_def GetDifference_def by (intro keeps_rules)+

lemma contacts_ok_add:
  "contacts_ok cs \<Longrightarrow> ct_UserID c = p \<Longrightarrow> contacts_ok (mput u (mput p c (getd cs u)) cs)"
  by (auto simp: contacts_ok_def split: if_splits)

lemma contacts_ok_del: "contacts_ok cs \<Longrightarrow> contacts_ok (mmod u (mdel p) cs)"
  by (auto simp: contacts_ok_def getd_mmod split: if_splits)

lemma drafts_ok_add:
  "drafts_ok ds \<Longrightarrow> dr_PeerUserID x = p \<Longrightarrow> TrimSpace (dr_Text x) \<noteq> [] \<Longrightarrow>
    drafts_ok (mput u (mput p x (getd ds u)) ds)"
  by (auto simp: drafts_ok_def split: if_splits)

lemma drafts_ok_del: "drafts_ok ds \<Longrightarrow> drafts_ok (mmod u (mdel p) ds)"
  by (auto simp: drafts_ok_def getd_mmod split: if_splits)

lemma keeps_AddContact [keeps_rules]: "keeps db_ok (AddContact u p fn ln)"
  unfolding AddContact_def by (rule keeps_db_ok_modify) (simp_all add: db_inv_def contacts_ok_add)

lemma keeps_DeleteContacts [keeps_rules]: "keeps db_ok (DeleteContacts u ps)"
  unfolding DeleteContacts_def
  by (intro keeps_loop keeps_db_ok_modify) (simp_all add: db_inv_def contacts_ok_del)

lemma keeps_SaveDraft [keeps_rules]: "keeps db_ok (SaveDraft u p text)"
proof (cases "TrimSpace text = []")
  case True
  then show ?thesis
    unfolding SaveDraft_def
    by simp (intro keeps_rules keeps_db_ok_modify, simp_all add: db_inv_def drafts_ok_del)
next
  case False
  then show ?thesis
    unfolding SaveDraft_def
    by simp (intro keeps_rules keeps_db_ok_modify, simp_all add: db_inv_def drafts_ok_add)
qed

lemma hash_nonzero: "(let h = x in if h = 0 then 1 else h) \<noteq> (0 :: int)"
  by (simp add: Let_def)

lemma files_ok_add:
  assumes "files_ok fs seq" "file_ID f = seq + 1" "file_AccessHash f \<noteq> 0" "length (file_FileReference f) = 16"
  shows "files_ok (mput (seq + 1) f fs) (seq + 1)"
  using assms by (auto simp: files_ok_def) force+

lemma keeps_SaveFile [keeps_rules]: "keeps db_ok (SaveFile f)"
proof (rule keeps_db_okI)
  show "userSeq (snd (SaveFile f d)) = userSeq d" for d :: "'a memdb_scheme"
    by (simp add: SaveFile_def Let_def del: upt.simps)
  show "db_inv (snd (SaveFile f d))" if "db_inv d" for d :: "'a memdb_scheme"
    using that by (simp add: SaveFile_def Let_def db_inv_def files_ok_add del: upt.simps)
qed

end
