(* ===== verification/MemReach.thy ===== *)
theory MemReach imports MemCalls begin

text \<open>
  The calls of the database interface as one datatype, their sequences, the states
  a database can reach from \<open>NewDB\<close>, and that each of them satisfies the invariant.
\<close>

section \<open>Sequences of calls\<close>

text \<open>
  The methods of the \<^verbatim>\<open>teled.DB\<close> interface as one type of calls. The database takes
  its mutex in every method, so an execution is a sequence of calls in any order
  with any arguments; a panic ends it.
\<close>

datatype (plugins only: code) db_call =
    CallCreateUser string string string
  | CallCreateBot string string string
  | CallCreateOwnedBot string string int string
  | CallSetBotToken int string
  | CallBotByToken string
  | CallBotsByOwner int
  | CallUserByID int
  | CallUserByPhone string
  | CallUserByUsername string
  | CallSetProfile int "string option" "string option" "string option"
  | CallSearchUsers string int
  | CallSetUsername int string
  | CallUsersByIDs "int list"
  | CallSavePhoneCode string string string int
  | CallPhoneCode string string
  | CallBindSession bytes int
  | CallSessionUserID bytes
  | CallUnbind bytes
  | CallBindTempAuthKey bytes bytes int
  | CallPermAuthKey bytes
  | CallSendMessage int int string int int
  | CallGetHistory int int int int
  | CallAddContact int int string string
  | CallDeleteContacts int "int list"
  | CallContacts int
  | CallSaveDraft int int string
  | CallDrafts int
  | CallSearchMessages int int string int
  | CallMessageByGlobal int int
  | CallEditMessage int int string
  | CallDeleteMessages int "int list"
  | CallGetDialogs int int
  | CallReadHistory int int int
  | CallGetState int
  | CallGetDifference int int int
  | CallSaveFile File
  | CallFileByID int
  | CallBotFatherState int
  | CallSetBotFatherState int BotFatherState
  | CallClearBotFatherState int
  | CallSetBotCommands int string string "BotCommand list"
  | CallBotCommands int string string
  | CallResetBotCommands int string string
  | CallReady

primrec db_exec :: "db_call \<Rightarrow> ('z memdb_scheme, unit) go" where
  "db_exec (CallCreateUser a b c) = bnd (CreateUser a b c) (\<lambda>_. ret ())"
| "db_exec (CallCreateBot a b c) = bnd (CreateBot a b c) (\<lambda>_. ret ())"
| "db_exec (CallCreateOwnedBot a b c d) = bnd (CreateOwnedBot a b c d) (\<lambda>_. ret ())"
| "db_exec (CallSetBotToken a b) = bnd (SetBotToken a b) (\<lambda>_. ret ())"
| "db_exec (CallBotByToken a) = bnd (BotByToken a) (\<lambda>_. ret ())"
| "db_exec (CallBotsByOwner a) = bnd (BotsByOwner a) (\<lambda>_. ret ())"
| "db_exec (CallUserByID a) = bnd (UserByID a) (\<lambda>_. ret ())"
| "db_exec (CallUserByPhone a) = bnd (UserByPhone a) (\<lambda>_. ret ())"
| "db_exec (CallUserByUsername a) = bnd (UserByUsername a) (\<lambda>_. ret ())"
| "db_exec (CallSetProfile a b c d) = bnd (SetProfile a b c d) (\<lambda>_. ret ())"
| "db_exec (CallSearchUsers a b) = bnd (SearchUsers a b) (\<lambda>_. ret ())"
| "db_exec (CallSetUsername a b) = bnd (SetUsername a b) (\<lambda>_. ret ())"
| "db_exec (CallUsersByIDs a) = bnd (UsersByIDs a) (\<lambda>_. ret ())"
| "db_exec (CallSavePhoneCode a b c d) = bnd (SavePhoneCode a b c d) (\<lambda>_. ret ())"
| "db_exec (CallPhoneCode a b) = bnd (PhoneCode a b) (\<lambda>_. ret ())"
| "db_exec (CallBindSession a b) = bnd (BindSession a b) (\<lambda>_. ret ())"
| "db_exec (CallSessionUserID a) = bnd (SessionUserID a) (\<lambda>_. ret ())"
| "db_exec (CallUnbind a) = bnd (Unbind a) (\<lambda>_. ret ())"
| "db_exec (CallBindTempAuthKey a b c) = bnd (BindTempAuthKey a b c) (\<lambda>_. ret ())"
| "db_exec (CallPermAuthKey a) = bnd (PermAuthKey a) (\<lambda>_. ret ())"
| "db_exec (CallSendMessage a b c d e) = bnd (SendMessage a b c d e) (\<lambda>_. ret ())"
| "db_exec (CallGetHistory a b c d) = bnd (GetHistory a b c d) (\<lambda>_. ret ())"
| "db_exec (CallAddContact a b c d) = bnd (AddContact a b c d) (\<lambda>_. ret ())"
| "db_exec (CallDeleteContacts a b) = bnd (DeleteContacts a b) (\<lambda>_. ret ())"
| "db_exec (CallContacts a) = bnd (Contacts a) (\<lambda>_. ret ())"
| "db_exec (CallSaveDraft a b c) = bnd (SaveDraft a b c) (\<lambda>_. ret ())"
| "db_exec (CallDrafts a) = bnd (Drafts a) (\<lambda>_. ret ())"
| "db_exec (CallSearchMessages a b c d) = bnd (SearchMessages a b c d) (\<lambda>_. ret ())"
| "db_exec (CallMessageByGlobal a b) = bnd (MessageByGlobal a b) (\<lambda>_. ret ())"
| "db_exec (CallEditMessage a b c) = bnd (EditMessage a b c) (\<lambda>_. ret ())"
| "db_exec (CallDeleteMessages a b) = bnd (DeleteMessages a b) (\<lambda>_. ret ())"
| "db_exec (CallGetDialogs a b) = bnd (GetDialogs a b) (\<lambda>_. ret ())"
| "db_exec (CallReadHistory a b c) = bnd (ReadHistory a b c) (\<lambda>_. ret ())"
| "db_exec (CallGetState a) = bnd (GetState a) (\<lambda>_. ret ())"
| "db_exec (CallGetDifference a b c) = bnd (GetDifference a b c) (\<lambda>_. ret ())"
| "db_exec (CallSaveFile a) = bnd (SaveFile a) (\<lambda>_. ret ())"
| "db_exec (CallFileByID a) = bnd (FileByID a) (\<lambda>_. ret ())"
| "db_exec (CallBotFatherState a) = bnd (BotFatherState a) (\<lambda>_. ret ())"
| "db_exec (CallSetBotFatherState a b) = bnd (SetBotFatherState a b) (\<lambda>_. ret ())"
| "db_exec (CallClearBotFatherState a) = bnd (ClearBotFatherState a) (\<lambda>_. ret ())"
| "db_exec (CallSetBotCommands a b c d) = bnd (SetBotCommands a b c d) (\<lambda>_. ret ())"
| "db_exec (CallBotCommands a b c) = bnd (BotCommands a b c) (\<lambda>_. ret ())"
| "db_exec (CallResetBotCommands a b c) = bnd (ResetBotCommands a b c) (\<lambda>_. ret ())"
| "db_exec CallReady = bnd Ready (\<lambda>_. ret ())"

lemma keeps_db_exec: "keeps db_ok (db_exec c)"
  by (cases c) (simp_all, (intro keeps_rules)+)

inductive db_step :: "'z memdb_scheme \<Rightarrow> 'z memdb_scheme \<Rightarrow> bool" where
  "db_exec c d = (r, d') \<Longrightarrow> r \<noteq> Panic \<Longrightarrow> db_step d d'"

inductive_cases db_stepE: "db_step d d'"

inductive db_reachable :: "'z memdb_scheme \<Rightarrow> bool" where
  db_start: "snd (NewDB w) = d \<Longrightarrow> db_reachable d"
| db_next: "db_reachable d \<Longrightarrow> db_step d d' \<Longrightarrow> db_reachable d'"

text \<open>An execution as a function: \<open>None\<close> when a call panics.\<close>

fun db_run :: "db_call list \<Rightarrow> 'z memdb_scheme \<Rightarrow> 'z memdb_scheme option" where
  "db_run [] d = Some d"
| "db_run (c # cs) d = (case db_exec c d of (Panic, _) \<Rightarrow> None | (_, d') \<Rightarrow> db_run cs d')"

lemma db_run_reachable: "db_run cs d = Some d' \<Longrightarrow> db_reachable d \<Longrightarrow> db_reachable d'"
proof (induction cs arbitrary: d)
  case (Cons c cs)
  obtain r e where e: "db_exec c d = (r, e)"
    by (cases "db_exec c d")
  with Cons.prems(1) have "r \<noteq> Panic" "db_run cs e = Some d'"
    by (auto split: outcome.splits)
  with Cons.IH Cons.prems(2) e show ?case
    by (blast intro: db_step.intros db_next)
qed simp

lemma db_ok_step: "db_step d d' \<Longrightarrow> db_ok d \<Longrightarrow> db_ok d'"
  by (elim db_stepE) (metis keepsD keeps_db_exec)

lemma db_inv_NewDB: "db_inv (snd (NewDB w))"
  by (simp add: NewDB_def modify_def db_inv_def users_ok_def names_ok_def msgs_ok_def refs_ok_def
      copies_ok_def log_ok_def files_ok_def drafts_ok_def contacts_ok_def newMemUser_def
      BotFatherID_def last_of_def pts_of_def mwf_def)

lemma db_ok_reachable: "db_reachable d \<Longrightarrow> db_ok d"
proof (induction rule: db_reachable.induct)
  case (db_start w d)
  with db_inv_NewDB [of w] show ?case
    by (simp add: db_ok_def)
qed (rule db_ok_step)

text \<open>C1: In every state the database can reach by calls of its interface, in any
  order and with any arguments, as long as the account counter has not run into the
  reserved BotFather id, the invariant holds: every account has a gap-free log and
  gap-free local ids, refs and messages agree, both participants hold their copy.\<close>

theorem db_inv_reachable: "db_reachable d \<Longrightarrow> userSeq d < BotFatherID \<Longrightarrow> db_inv d"
  using db_ok_reachable by (auto simp: db_ok_def)

end
