(* ===== verification/MemViews.thy ===== *)
theory MemViews imports MemReach begin

text \<open>
  What the clients of the database see: the mailbox of an account with a
  correspondent, newest message first, and what each call that changes messages
  does to all mailboxes. \<open>mailbox\<close> is the abstraction function of a refinement: the
  calls on canonical messages, refs and counters act on mailboxes as the list
  operations below.
\<close>

definition mailbox :: "int \<Rightarrow> int \<Rightarrow> 'z memdb_scheme \<Rightarrow> Message list" where
  "mailbox self peer d = newest_first (conversation self peer (\<lambda>_ _. True) d)"

text \<open>The message a ref shows in the mailbox with \<open>peer\<close>, if any.\<close>

definition shown :: "int \<Rightarrow> int \<Rightarrow> 'z memdb_scheme \<Rightarrow> memRef \<Rightarrow> Message option" where
  "shown self peer d r = (case map_of (messages d) (mr_globalID r) of
       None \<Rightarrow> None
     | Some m \<Rightarrow> if mm_deleted m \<or> other self m \<noteq> peer then None else Some (message self r m d))"

lemma conversation_shown: "conversation self peer (\<lambda>_ _. True) d =
    List.map_filter (shown self peer d) (mvals (getd (refs d) self))"
  unfolding conversation_def
  by (rule map_filter_cong) (auto simp: shown_def split: option.split)

lemma shown_localID: "shown self peer d r = Some x \<Longrightarrow> msg_LocalID x = mr_localID r"
  by (auto simp: shown_def message_def split: option.splits if_splits)

lemma refs_localIDs:
  assumes "db_inv d"
  shows "map mr_localID (mvals (getd (refs d) u)) = mkeys (getd (refs d) u)"
    "distinct (map mr_localID (mvals (getd (refs d) u)))"
proof -
  have wf: "mwf (getd (refs d) u)"
    using assms unfolding db_inv_def refs_ok_def by blast
  have "mr_localID r = l" if "(l, r) \<in> set (getd (refs d) u)" for l r
  proof -
    have "map_of (getd (refs d) u) l = Some r"
      using that wf by (simp add: mwf_map_of)
    then have "ref_ok (messages d) u l r"
      using assms unfolding db_inv_def refs_ok_def by blast
    then show ?thesis
      by (simp add: ref_ok_def)
  qed
  then show "map mr_localID (mvals (getd (refs d) u)) = mkeys (getd (refs d) u)"
    by auto
  with wf show "distinct (map mr_localID (mvals (getd (refs d) u)))"
    unfolding mwf_def by metis
qed

lemma distinct_conversation:
  "db_inv d \<Longrightarrow> distinct (map msg_LocalID (conversation self peer (\<lambda>_ _. True) d))"
  unfolding conversation_shown
  by (rule distinct_map_filter [where g = mr_localID], erule shown_localID, rule refs_localIDs(2))

section \<open>History\<close>

lemma newest_first_filter: "filter P (newest_first ms) = newest_first (filter P ms)"
  by (simp add: newest_first_def filter_sort)

lemma conversation_filter:
  assumes "\<And>r m. p r m = P (message self r m d)"
  shows "conversation self peer p d = filter P (conversation self peer (\<lambda>_ _. True) d)"
  unfolding conversation_def filter_map_filter
  by (rule map_filter_cong) (auto simp: assms split: option.split)

lemma GetHistory_mailbox: "GetHistory self peer off lim d =
    (Ok (gotake lim (filter (\<lambda>m. \<not> (0 < off \<and> off \<le> msg_LocalID m)) (mailbox self peer d))), d)"
proof -
  have "conversation self peer (\<lambda>r m. \<not> (0 < off \<and> off \<le> mr_localID r)) d =
      filter (\<lambda>m. \<not> (0 < off \<and> off \<le> msg_LocalID m)) (conversation self peer (\<lambda>_ _. True) d)"
    by (rule conversation_filter) (simp add: message_def)
  then show ?thesis
    by (simp add: GetHistory_def gets_def mailbox_def newest_first_filter)
qed

lemma mailbox_sorted: "sorted (rev (map msg_LocalID (mailbox self peer d)))"
  unfolding mailbox_def newest_first_def by (rule sorted_desc_sort_key)

lemma mailbox_distinct: "db_inv d \<Longrightarrow> distinct (map msg_LocalID (mailbox self peer d))"
  using distinct_conversation [of d self peer]
  by (simp add: mailbox_def newest_first_def distinct_map)

lemma mailbox_in: "x \<in> set (mailbox self peer d) \<longleftrightarrow>
    (\<exists>r \<in> set (mvals (getd (refs d) self)). shown self peer d r = Some x)"
  by (simp add: mailbox_def newest_first_def conversation_shown set_map_filter)

text \<open>C2: The history of a conversation does not depend on the order in which Go
  visits the map of refs: two databases that differ only in the order of that map
  give the same result for every offset and limit.\<close>

theorem history_order_free:
  assumes "db_inv d" and "mset (getd rs self) = mset (getd (refs d) self)"
  shows "fst (GetHistory self peer off lim (d\<lparr>refs := rs\<rparr>)) = fst (GetHistory self peer off lim d)"
proof -
  let ?d = "d\<lparr>refs := rs\<rparr>"
  have same: "shown self peer ?d = shown self peer d"
    by (simp add: shown_def fun_eq_iff message_def split: option.split)
  have ms: "mset (mvals (getd rs self)) = mset (mvals (getd (refs d) self))"
    using assms(2) by simp
  have "distinct (map mr_localID (mvals (getd rs self)))"
    using refs_localIDs(2) [OF assms(1), of self] ms by (metis mset_map mset_eq_imp_distinct_iff)
  then have "distinct (map msg_LocalID (conversation self peer (\<lambda>_ _. True) ?d))"
    unfolding conversation_shown by (intro distinct_map_filter [where g = mr_localID])
      (auto intro: shown_localID)
  moreover have "set (conversation self peer (\<lambda>_ _. True) ?d) = set (conversation self peer (\<lambda>_ _. True) d)"
    using mset_eq_setD [OF ms] by (simp add: conversation_shown set_map_filter same)
  ultimately have "mailbox self peer ?d = mailbox self peer d"
    unfolding mailbox_def newest_first_def
    using distinct_conversation [OF assms(1), of self peer]
    by (intro sort_key_unique) (simp_all add: distinct_map inj_on_def)
  then show ?thesis
    by (simp add: GetHistory_mailbox)
qed

section \<open>How mailboxes change\<close>

lemma mailbox_same:
  assumes "mvals (getd (refs d') u) = mvals (getd (refs d) u)"
    and "\<And>r. r \<in> set (mvals (getd (refs d) u)) \<Longrightarrow> shown u q d' r = shown u q d r"
  shows "mailbox u q d' = mailbox u q d"
  unfolding mailbox_def conversation_shown assms(1)
  by (rule arg_cong [where f = newest_first]) (rule map_filter_cong [OF assms(2)])

lemma mailbox_snoc:
  assumes "db_inv d" "mvals (getd (refs d') u) = mvals (getd (refs d) u) @ [r]"
    and same: "\<And>x. x \<in> set (mvals (getd (refs d) u)) \<Longrightarrow> shown u q d' x = shown u q d x"
    and last: "\<And>x. x \<in> set (mvals (getd (refs d) u)) \<Longrightarrow> mr_localID x < mr_localID r"
  shows "mailbox u q d' = (case shown u q d' r of None \<Rightarrow> [] | Some m \<Rightarrow> [m]) @ mailbox u q d"
proof -
  let ?old = "conversation u q (\<lambda>_ _. True) d"
  have old: "List.map_filter (shown u q d') (mvals (getd (refs d) u)) = ?old"
    unfolding conversation_shown by (rule map_filter_cong [OF same])
  then have conv: "conversation u q (\<lambda>_ _. True) d' = ?old @ List.map_filter (shown u q d') [r]"
    unfolding conversation_shown [of u q d'] assms(2) by simp
  show ?thesis
  proof (cases "shown u q d' r")
    case None
    with conv show ?thesis
      by (simp add: mailbox_def List.map_filter_simps)
  next
    case (Some m)
    have "msg_LocalID y < msg_LocalID m" if y: "y \<in> set ?old" for y
    proof -
      obtain x where "x \<in> set (mvals (getd (refs d) u))" "shown u q d x = Some y"
        using y unfolding conversation_shown set_map_filter by blast
      with last [of x] shown_localID [of u q d x y] shown_localID [OF Some] show ?thesis
        by simp
    qed
    moreover have "distinct (map (\<lambda>m. - msg_LocalID m) ?old)"
      using distinct_conversation [OF assms(1), of u q] by (simp add: distinct_map inj_on_def)
    ultimately have "newest_first (?old @ [m]) = m # newest_first ?old"
      unfolding newest_first_def by (intro sort_key_snoc) auto
    with Some conv show ?thesis
      by (simp add: mailbox_def List.map_filter_simps)
  qed
qed

lemma ref_of_val:
  assumes "db_inv d" "r \<in> set (mvals (getd (refs d) u))"
  shows "map_of (getd (refs d) u) (mr_localID r) = Some r" "ref_ok (messages d) u (mr_localID r) r"
    "1 \<le> mr_localID r" "mr_localID r \<le> last_of (users d) u"
proof -
  have ok: "refs_ok (users d) (messages d) (refs d)"
    using assms(1) by (simp add: db_inv_def)
  then have wf: "mwf (getd (refs d) u)"
    unfolding refs_ok_def by blast
  with assms(2) obtain l where l: "map_of (getd (refs d) u) l = Some r"
    using mvals_map_of [OF wf] by auto
  then have "ref_ok (messages d) u l r" "1 \<le> l \<and> l \<le> last_of (users d) u"
    using ok unfolding refs_ok_def by blast+
  moreover from this(1) have "mr_localID r = l"
    by (simp add: ref_ok_def)
  ultimately show "map_of (getd (refs d) u) (mr_localID r) = Some r"
    "ref_ok (messages d) u (mr_localID r) r"
    "1 \<le> mr_localID r" "mr_localID r \<le> last_of (users d) u"
    using l by simp_all
qed

lemma val_of_ref: "map_of (getd (refs d) u) l = Some r \<Longrightarrow> r \<in> set (mvals (getd (refs d) u))"
  by (force dest: map_of_SomeD)

lemma ref_message:
  assumes "db_inv d" "r \<in> set (mvals (getd (refs d) u))"
  obtains m where "map_of (messages d) (mr_globalID r) = Some m" "mm_globalID m = mr_globalID r"
    "mr_globalID r \<le> msgSeq d" "mm_from m = u \<or> mm_peer m = u" "mr_out r \<longleftrightarrow> mm_from m = u"
    "mr_unread r \<longrightarrow> \<not> mr_out r"
proof -
  from ref_of_val(2) [OF assms] obtain m where m: "map_of (messages d) (mr_globalID r) = Some m"
    "mm_from m = u \<or> mm_peer m = u" "mr_out r \<longleftrightarrow> mm_from m = u" "mr_unread r \<longrightarrow> \<not> mr_out r"
    by (auto simp: ref_ok_def)
  have "msgs_ok (users d) (messages d) (msgSeq d)"
    using assms(1) by (simp add: db_inv_def)
  with m(1) have "mm_globalID m = mr_globalID r" "mr_globalID r \<le> msgSeq d"
    unfolding msgs_ok_def by blast+
  with m that show thesis
    by blast
qed

lemma free_local_id:
  assumes "db_inv d" "map_of (users d) u = Some mu"
  shows "map_of (getd (refs d) u) (mu_lastMessageID mu + 1) = None"
proof -
  have "map_of (getd (refs d) u) (mu_lastMessageID mu + 1) \<noteq> None \<longleftrightarrow>
      1 \<le> mu_lastMessageID mu + 1 \<and> mu_lastMessageID mu + 1 \<le> last_of (users d) u"
    using assms(1) unfolding db_inv_def refs_ok_def by blast
  with assms(2) show ?thesis
    by (simp add: last_of_def)
qed

section \<open>Sending\<close>

definition sent_copy ::
  "int \<Rightarrow> int \<Rightarrow> string \<Rightarrow> int \<Rightarrow> File option \<Rightarrow> SentMessage \<Rightarrow> Message" where
  "sent_copy fromID peerID text randomID media sent = \<lparr>msg_GlobalID = sent_GlobalID sent,
     msg_LocalID = sent_SenderLocalID sent, msg_FromUserID = fromID, msg_PeerUserID = peerID,
     msg_Out = True, msg_Text = text, msg_Date = sent_Date sent, msg_EditDate = zero_time,
     msg_RandomID = randomID, msg_Media = media\<rparr>"

definition received_copy ::
  "int \<Rightarrow> string \<Rightarrow> int \<Rightarrow> File option \<Rightarrow> SentMessage \<Rightarrow> Message" where
  "received_copy fromID text randomID media sent = \<lparr>msg_GlobalID = sent_GlobalID sent,
     msg_LocalID = sent_RecipientLocalID sent, msg_FromUserID = fromID, msg_PeerUserID = fromID,
     msg_Out = False, msg_Text = text, msg_Date = sent_Date sent, msg_EditDate = zero_time,
     msg_RandomID = randomID, msg_Media = media\<rparr>"

definition media_of :: "int \<Rightarrow> 'z memdb_scheme \<Rightarrow> File option" where
  "media_of fid d = (if fid \<noteq> 0 then map_of (files d) fid else None)"

lemma SendMessage_Ok_users:
  assumes "SendMessage f p t r md d = (Ok sent, d')"
  obtains mf mp where "map_of (users d) f = Some mf" "map_of (users d) p = Some mp"
  using assms SendMessage_panic [of d f p t r md]
  by (cases "map_of (users d) f"; cases "map_of (users d) p") simp_all

lemma shown_old:
  assumes "db_inv d" "r \<in> set (mvals (getd (refs d) u))"
    and "\<And>g. g \<le> msgSeq d \<Longrightarrow> map_of (messages d') g = map_of (messages d) g" "files d' = files d"
  shows "shown u q d' r = shown u q d r"
proof -
  obtain m where "map_of (messages d) (mr_globalID r) = Some m" "mr_globalID r \<le> msgSeq d"
    using ref_message [OF assms(1,2)] by metis
  with assms(3,4) show ?thesis
    by (simp add: shown_def message_def)
qed

lemma mvals_mput_free: "map_of m k = None \<Longrightarrow> mvals (mput k v m) = mvals m @ [v]"
  by (simp add: mput_notin)

lemma SendMessage_mailbox:
  assumes inv: "db_inv d" and run: "SendMessage f p t r md d = (Ok sent, d')"
  shows "mailbox u q d' =
    (if u = f \<and> q = p then [sent_copy f p t r (media_of md d) sent]
     else if u = p \<and> q = f then [received_copy f t r (media_of md d) sent] else [])
    @ mailbox u q d"
proof -
  obtain mf mp where f: "map_of (users d) f = Some mf" and p: "map_of (users d) p = Some mp"
    using SendMessage_Ok_users [OF run] .
  let ?g = "msgSeq d + 1"
  let ?d1 = "delivered f ?g True (posted f p t r md d)"
  let ?d2 = "delivered p ?g False ?d1"
  have d': "d' = (if f = p then ?d1 else ?d2)"
    using run unfolding SendMessage_run [OF f p] by (simp split: if_splits)
  have free: "map_of (getd (refs d) f) (mu_lastMessageID mf + 1) = None"
    "map_of (getd (refs d) p) (mu_lastMessageID mp + 1) = None"
    using free_local_id [OF inv] f p by blast+
  have old: "shown u q d' x = shown u q d x" if "x \<in> set (mvals (getd (refs d) u))" for u q x
    by (rule shown_old [OF inv that]) (simp_all add: d' posted_def)
  have last: "mr_localID x < mu_lastMessageID mu + 1"
    if "x \<in> set (mvals (getd (refs d) u))" "map_of (users d) u = Some mu" for u x mu
    using ref_of_val(4) [OF inv that(1)] that(2) by (simp add: last_of_def)
  have new: "map_of (messages d') ?g = Some \<lparr>mm_globalID = ?g, mm_from = f, mm_peer = p, mm_text = t,
      mm_date = clk d (clk_pos d), mm_editDate = zero_time, mm_randomID = r, mm_mediaFileID = md,
      mm_deleted = False\<rparr>" and fs: "files d' = files d"
    by (simp_all add: d' posted_def)
  consider "u = f" | "u = p" "u \<noteq> f" | "u \<noteq> f" "u \<noteq> p"
    by blast
  then show ?thesis
  proof cases
    case 1
    let ?r = "\<lparr>mr_localID = mu_lastMessageID mf + 1, mr_globalID = ?g, mr_out = True, mr_unread = False\<rparr>"
    have "mvals (getd (refs d') f) = mvals (getd (refs d) f) @ [?r]"
      using f free(1) by (cases "f = p") (simp_all add: d' delivered_def Let_def mvals_mput_free)
    from mailbox_snoc [OF inv this old] last [OF _ f] have "mailbox f q d' =
        (case shown f q d' ?r of None \<Rightarrow> [] | Some m \<Rightarrow> [m]) @ mailbox f q d"
      by simp
    moreover have "shown f q d' ?r = (if q = p then Some (sent_copy f p t r (media_of md d) sent) else None)"
      using run unfolding SendMessage_run [OF f p]
      by (auto simp: shown_def new message_def fs other_def sent_copy_def media_of_def split: if_splits)
    ultimately show ?thesis
      using 1 by auto
  next
    case 2
    let ?r = "\<lparr>mr_localID = mu_lastMessageID mp + 1, mr_globalID = ?g, mr_out = False, mr_unread = True\<rparr>"
    have "mvals (getd (refs d') p) = mvals (getd (refs d) p) @ [?r]"
      using 2 p free(2) by (simp add: d' delivered_def Let_def mvals_mput_free)
    from mailbox_snoc [OF inv this old] last [OF _ p] have "mailbox p q d' =
        (case shown p q d' ?r of None \<Rightarrow> [] | Some m \<Rightarrow> [m]) @ mailbox p q d"
      by simp
    moreover have "shown p q d' ?r = (if q = f then Some (received_copy f t r (media_of md d) sent) else None)"
      using run 2 unfolding SendMessage_run [OF f p]
      by (auto simp: shown_def new message_def fs other_def received_copy_def media_of_def split: if_splits)
    ultimately show ?thesis
      using 2 by auto
  next
    case 3
    have "mvals (getd (refs d') u) = mvals (getd (refs d) u)"
      using 3 by (simp add: d' delivered_def Let_def)
    from mailbox_same [OF this old] 3 show ?thesis
      by simp
  qed
qed

text \<open>C3: Sending a direct message puts one new copy on top of the sender's history
  with the recipient and one on top of the recipient's history with the sender (a
  single copy in a chat with oneself), with the ids the call returns, and changes no
  other history of any account.\<close>

theorem SendMessage_mailboxes:
  assumes "db_inv d" "SendMessage f p t r md d = (Ok sent, d')"
  shows "mailbox u q d' =
    (if u = f \<and> q = p then [sent_copy f p t r (media_of md d) sent]
     else if u = p \<and> q = f then [received_copy f t r (media_of md d) sent] else [])
    @ mailbox u q d"
  by (rule SendMessage_mailbox [OF assms])

end
