(* ===== verification/MemEdits.thy ===== *)
theory MemEdits imports MemViews begin

text \<open>
  Editing, deleting and reading, on mailboxes: who may edit, what an edit and a
  deletion change for both participants, and which messages become read.
\<close>

section \<open>Editing\<close>

lemma shown_edited:
  assumes inv: "db_inv d" and r: "r \<in> set (mvals (getd (refs d) u))"
    and ms: "messages d' = mmod g (\<lambda>m. m\<lparr>mm_text := text, mm_editDate := t\<rparr>) (messages d)"
    and fs: "files d' = files d"
  shows "shown u q d' r = map_option (\<lambda>m. if msg_GlobalID m = g
    then m\<lparr>msg_Text := text, msg_EditDate := t\<rparr> else m) (shown u q d r)"
proof -
  obtain m where m: "map_of (messages d) (mr_globalID r) = Some m" "mm_globalID m = mr_globalID r"
    using ref_message [OF inv r] by metis
  then have "map_of (messages d') (mr_globalID r) =
      Some (if mr_globalID r = g then m\<lparr>mm_text := text, mm_editDate := t\<rparr> else m)"
    by (cases "mr_globalID r = g") (auto simp: ms)
  with m show ?thesis
    by (simp add: shown_def message_def fs other_def)
qed

lemma newest_first_map:
  "(\<And>m. msg_LocalID (h m) = msg_LocalID m) \<Longrightarrow> newest_first (map h ms) = map h (newest_first ms)"
proof -
  assume h: "\<And>m. msg_LocalID (h m) = msg_LocalID m"
  have "insort_key (\<lambda>m. - msg_LocalID m) (h x) (map h ys) = map h (insort_key (\<lambda>m. - msg_LocalID m) x ys)"
    for x ys by (induction ys) (simp_all add: h)
  then show ?thesis
    by (induction ms) (simp_all add: newest_first_def)
qed

lemma mailbox_map:
  assumes "mvals (getd (refs d') u) = mvals (getd (refs d) u)"
    and "\<And>r. r \<in> set (mvals (getd (refs d) u)) \<Longrightarrow> shown u q d' r = map_option h (shown u q d r)"
    and h: "\<And>m. msg_LocalID (h m) = msg_LocalID m"
  shows "mailbox u q d' = map h (mailbox u q d)"
proof -
  have "conversation u q (\<lambda>_ _. True) d' = map h (conversation u q (\<lambda>_ _. True) d)"
    unfolding conversation_shown assms(1) map_map_filter by (rule map_filter_cong [OF assms(2)])
  then show ?thesis
    by (simp add: mailbox_def newest_first_map h)
qed

lemma mailbox_filter:
  assumes "mvals (getd (refs d') u) = mvals (getd (refs d) u)"
    and "\<And>r. r \<in> set (mvals (getd (refs d) u)) \<Longrightarrow> shown u q d' r =
      (case shown u q d r of None \<Rightarrow> None | Some m \<Rightarrow> if P m then Some m else None)"
  shows "mailbox u q d' = filter P (mailbox u q d)"
proof -
  have "conversation u q (\<lambda>_ _. True) d' = filter P (conversation u q (\<lambda>_ _. True) d)"
    unfolding conversation_shown assms(1) filter_map_filter by (rule map_filter_cong [OF assms(2)])
  then show ?thesis
    by (simp add: mailbox_def newest_first_filter)
qed

text \<open>The message an account may edit under a local id: its own, not deleted.\<close>

lemma editable_mailbox:
  assumes inv: "db_inv d" and e: "editable self l d = Some (r, m)"
  shows "message self r m d \<in> set (mailbox self (mm_peer m) d)"
    "msg_LocalID (message self r m d) = l" "msg_FromUserID (message self r m d) = self"
    "msg_GlobalID (message self r m d) = mr_globalID r"
proof -
  note m = editableD [OF e]
  have r: "r \<in> set (mvals (getd (refs d) self))"
    using val_of_ref [OF m(1)] .
  have "shown self (mm_peer m) d r = Some (message self r m d)"
    using m by (simp add: shown_def other_def)
  with r show "message self r m d \<in> set (mailbox self (mm_peer m) d)"
    by (auto simp: mailbox_in)
  have "ref_ok (messages d) self l r"
    using inv m(1) unfolding db_inv_def refs_ok_def by blast
  then show "msg_LocalID (message self r m d) = l"
    by (simp add: message_def ref_ok_def)
  show "msg_FromUserID (message self r m d) = self"
    using m by (simp add: message_def)
  show "msg_GlobalID (message self r m d) = mr_globalID r"
    using inv m(2) unfolding db_inv_def msgs_ok_def by (metis message_def Message.select_convs(1))
qed

lemma mailbox_editable:
  assumes inv: "db_inv d" and x: "x \<in> set (mailbox self q d)" "msg_FromUserID x = self"
  shows "editable self (msg_LocalID x) d \<noteq> None"
proof -
  obtain r where r: "r \<in> set (mvals (getd (refs d) self))" "shown self q d r = Some x"
    using x(1) by (auto simp: mailbox_in)
  then obtain m where "map_of (messages d) (mr_globalID r) = Some m" "\<not> mm_deleted m" "x = message self r m d"
    by (auto simp: shown_def split: option.splits if_splits)
  moreover have "map_of (getd (refs d) self) (msg_LocalID x) = Some r"
    using ref_of_val(1) [OF inv r(1)] shown_localID [OF r(2)] by simp
  ultimately show ?thesis
    using x(2) by (simp add: editable_def message_def)
qed

text \<open>C4: An edit is refused with the message-id error exactly when the local id does not
  name a message in one of the caller's histories that the caller sent; deleted
  messages and messages of the peer cannot be edited. A refused edit changes nothing.\<close>

theorem EditMessage_refused_iff:
  assumes "db_inv d"
  shows "EditMessage self l text d = (Err ErrMessageID, d) \<longleftrightarrow>
    \<not> (\<exists>q. \<exists>x \<in> set (mailbox self q d). msg_LocalID x = l \<and> msg_FromUserID x = self)"
proof (cases "editable self l d")
  case None
  then have "\<not> (\<exists>q. \<exists>x \<in> set (mailbox self q d). msg_LocalID x = l \<and> msg_FromUserID x = self)"
    using mailbox_editable [OF assms] by blast
  with None show ?thesis
    by (simp add: EditMessage_invalid)
next
  case (Some rm)
  obtain r m where "rm = (r, m)"
    by (cases rm)
  with Some have e: "editable self l d = Some (r, m)"
    by simp
  obtain mu mp where "map_of (users d) self = Some mu" "map_of (users d) (mm_peer m) = Some mp"
    using db_inv_user_of_message [OF assms editableD(2) [OF e]] editableD(4) [OF e] by metis
  from EditMessage_run [OF e this] have "fst (EditMessage self l text d) \<noteq> Err ErrMessageID"
    by (simp add: Let_def)
  with editable_mailbox [OF assms e] show ?thesis
    by auto
qed

lemma EditMessage_mailbox:
  assumes inv: "db_inv d" and run: "EditMessage self l text d = (Ok res, d')"
  shows "\<exists>x \<in> set (mailbox self (er_PeerUserID res) d). msg_LocalID x = l \<and> msg_FromUserID x = self \<and>
    (\<forall>u q. mailbox u q d' = map (\<lambda>m. if msg_GlobalID m = msg_GlobalID x
       then m\<lparr>msg_Text := text, msg_EditDate := er_EditDate res\<rparr> else m) (mailbox u q d)) \<and>
    (er_PeerUserID res \<noteq> self \<longrightarrow> (\<exists>r. map_of (getd (refs d) (er_PeerUserID res)) (er_PeerLocalID res) = Some r \<and>
       mr_globalID r = msg_GlobalID x))"
proof -
  obtain r m where e: "editable self l d = Some (r, m)"
    using run EditMessage_invalid [of self l d] by (cases "editable self l d") auto
  note m = editableD [OF e]
  obtain mu mp where u: "map_of (users d) self = Some mu" and p: "map_of (users d) (mm_peer m) = Some mp"
    using db_inv_user_of_message [OF inv m(2)] m(4) by metis
  have gid: "mm_globalID m = mr_globalID r"
    using inv m(2) unfolding db_inv_def msgs_ok_def by blast
  have res: "er_PeerUserID res = mm_peer m" "er_EditDate res = clk d (clk_pos d)"
    "mm_peer m \<noteq> self \<Longrightarrow> er_PeerLocalID res =
      (case refByGlobal (mm_peer m) (mr_globalID r) d of None \<Rightarrow> 0 | Some pr \<Rightarrow> mr_localID pr)"
    using run unfolding EditMessage_run [OF e u p] by (auto simp: Let_def gid split: if_splits)
  have d': "messages d' = mmod (mr_globalID r) (\<lambda>m. m\<lparr>mm_text := text, mm_editDate := er_EditDate res\<rparr>) (messages d)"
    "refs d' = refs d" "files d' = files d"
    using run unfolding EditMessage_run [OF e u p] res(2)
    by (auto simp: Let_def edited_def split: if_splits)
  have box: "mailbox v q d' = map (\<lambda>m. if msg_GlobalID m = mr_globalID r
      then m\<lparr>msg_Text := text, msg_EditDate := er_EditDate res\<rparr> else m) (mailbox v q d)" for v q
    by (rule mailbox_map) (simp_all add: d' shown_edited [OF inv _ d'(1,3)])
  have peer: "\<exists>r'. map_of (getd (refs d) (mm_peer m)) (er_PeerLocalID res) = Some r' \<and>
      mr_globalID r' = mr_globalID r" if ne: "mm_peer m \<noteq> self"
  proof -
    obtain l' r' where copy: "map_of (getd (refs d) (mm_peer m)) l' = Some r'" "mr_globalID r' = mr_globalID r"
      using db_inv_copy [OF inv m(2)] by blast
    then obtain pr where "refByGlobal (mm_peer m) (mr_globalID r) d = Some pr"
      using val_of_ref [OF copy(1)] by (cases "refByGlobal (mm_peer m) (mr_globalID r) d")
        (auto simp: refByGlobal_def find_None_iff)
    moreover from this have "pr \<in> set (mvals (getd (refs d) (mm_peer m)))" "mr_globalID pr = mr_globalID r"
      unfolding refByGlobal_def find_Some_iff by (metis nth_mem)+
    ultimately show ?thesis
      using ref_of_val(1) [OF inv] res(3) [OF ne] by auto
  qed
  show ?thesis
    using editable_mailbox [OF inv e] box peer unfolding res(1)
    by (intro bexI [of _ "message self r m d"]) simp_all
qed

text \<open>C5: An accepted edit changes the text and the edit date of that one message in the
  histories of both participants, keeps every other message, and reports the peer's
  own local id of it.\<close>

theorem EditMessage_mailboxes:
  assumes inv: "db_inv d" and run: "EditMessage self l text d = (Ok res, d')"
  shows "\<exists>x \<in> set (mailbox self (er_PeerUserID res) d). msg_LocalID x = l \<and> msg_FromUserID x = self \<and>
    (\<forall>u q. mailbox u q d' = map (\<lambda>m. if msg_GlobalID m = msg_GlobalID x
       then m\<lparr>msg_Text := text, msg_EditDate := er_EditDate res\<rparr> else m) (mailbox u q d)) \<and>
    (er_PeerUserID res \<noteq> self \<longrightarrow> (\<exists>r. map_of (getd (refs d) (er_PeerUserID res)) (er_PeerLocalID res) = Some r \<and>
       mr_globalID r = msg_GlobalID x))"
  by (rule EditMessage_mailbox [OF assms])

section \<open>Deleting\<close>

lemma DeleteMessages_mailbox:
  assumes inv: "db_inv d" and run: "DeleteMessages self ids d = (Ok res, d')"
  shows "mailbox u q d' = filter (\<lambda>m. \<not> (\<exists>l \<in> set ids. \<exists>r. map_of (getd (refs d) self) l = Some r \<and>
      mr_globalID r = msg_GlobalID m)) (mailbox u q d) \<and>
    del_LocalIDs res = filter (\<lambda>l. 1 \<le> l \<and> l \<le> last_of (users d) self) ids \<and>
    pts_of (users d') u = pts_of (users d) u + (if u = self then int (length (del_LocalIDs res)) else 0)"
proof -
  let ?dl = "deleted_ids self ids d"
  have dom: "map_of (getd (refs d) self) l \<noteq> None \<longleftrightarrow> 1 \<le> l \<and> l \<le> last_of (users d) self" for l
    using inv unfolding db_inv_def refs_ok_def by blast
  then have dl: "?dl = filter (\<lambda>l. 1 \<le> l \<and> l \<le> last_of (users d) self) ids"
    unfolding deleted_ids_def by (rule filter_cong [OF refl])
  have "map_of (users d) self \<noteq> None" if "?dl \<noteq> []"
  proof
    assume None: "map_of (users d) self = None"
    with dl that show False
      by (simp add: last_of_def)
  qed
  then have res: "messages d' = mark_all (getd (refs d) self) ids (messages d)"
    "refs d' = refs d" "files d' = files d" "del_LocalIDs res = ?dl"
    "pts_of (users d') u = pts_of (users d) u + (if u = self then int (length ?dl) else 0)" for u
    using run
    by (cases "?dl = []"; auto simp: DeleteMessages_none DeleteMessages_some [OF refl] Let_def
        pts_of_mmod pts_of_def delete_entry_def split: option.splits)+
  have "shown u q d' r = (case shown u q d r of None \<Rightarrow> None | Some x \<Rightarrow>
      if \<not> (\<exists>l \<in> set ids. \<exists>r. map_of (getd (refs d) self) l = Some r \<and> mr_globalID r = msg_GlobalID x)
      then Some x else None)" if r: "r \<in> set (mvals (getd (refs d) u))" for r
  proof -
    obtain m where "map_of (messages d) (mr_globalID r) = Some m" "mm_globalID m = mr_globalID r"
      using ref_message [OF inv r] by metis
    then show ?thesis
      by (auto simp: shown_def res(1,3) map_of_mark_all message_def other_def)
  qed
  with mailbox_filter [of d' u d q] have "mailbox u q d' = filter (\<lambda>m. \<not> (\<exists>l \<in> set ids. \<exists>r.
      map_of (getd (refs d) self) l = Some r \<and> mr_globalID r = msg_GlobalID m)) (mailbox u q d)"
    by (simp add: res(2))
  with res(4,5) dl show ?thesis
    by simp
qed

text \<open>C6: Deleting by local ids removes the canonical messages behind these ids from the
  histories of both participants, and nothing else; the ids the call reports are the
  requested ones the caller has, and only the caller's pts advances, by their number.\<close>

theorem DeleteMessages_mailboxes:
  assumes inv: "db_inv d" and run: "DeleteMessages self ids d = (Ok res, d')"
  shows "mailbox u q d' = filter (\<lambda>m. \<not> (\<exists>l \<in> set ids. \<exists>r. map_of (getd (refs d) self) l = Some r \<and>
      mr_globalID r = msg_GlobalID m)) (mailbox u q d) \<and>
    del_LocalIDs res = filter (\<lambda>l. 1 \<le> l \<and> l \<le> last_of (users d) self) ids \<and>
    pts_of (users d') u = pts_of (users d) u + (if u = self then int (length (del_LocalIDs res)) else 0)"
  by (rule DeleteMessages_mailbox [OF assms])

end
