(* ===== verification/MemSync.thy ===== *)
theory MemSync imports MemEdits begin

text \<open>
  Synchronisation: update logs only grow, and \<^verbatim>\<open>GetDifference\<close> gives a client that
  has seen the log up to some pts exactly the entries appended since.
\<close>

section \<open>Logs are append-only\<close>

lemmas db_ops = CreateUser_def CreateBot_def CreateOwnedBot_def SetBotToken_def SetProfile_def
  SetUsername_def SavePhoneCode_def PhoneCode_def BindSession_def Unbind_def BindTempAuthKey_def
  PermAuthKey_def SendMessage_def AddContact_def DeleteContacts_def SaveDraft_def EditMessage_def
  DeleteMessages_def ReadHistory_def GetState_def GetDifference_def SaveFile_def
  SetBotFatherState_def ClearBotFatherState_def SetBotCommands_def ResetBotCommands_def Ready_def

lemmas db_parts = nextUserID_def insertUser_def genAccessHash_def setUser_def allocate_def
  allocatePts_def putRef_def setMessage_def markDeleted_def markRead_def Let_def

text \<open>
  An assertion about the update logs alone. What \<^verbatim>\<open>logUpdate\<close> keeps, every call keeps:
  no other statement of the program writes the logs.
\<close>

locale log_assertion =
  fixes I :: "'z memdb_scheme \<Rightarrow> bool"
  assumes only_logs: "updates d' = updates d \<Longrightarrow> I d \<Longrightarrow> I d'"
    and append: "keeps I (logUpdate u p c typ g x)"
begin

lemma quiet_modify: "(\<And>d. updates (f d) = updates d) \<Longrightarrow> keeps I (modify f)"
  by (rule keeps_modify) (rule only_logs)

lemma quiet_now: "keeps I now"
  by (rule keepsI) (auto simp: now_def intro: only_logs)

lemma quiet_rand: "keeps I (rand_read n)"
  by (rule keepsI) (auto simp: rand_read_def intro: only_logs)

lemma quiet_mark: "keeps I (markDeleted self l acc)"
  unfolding markDeleted_def setMessage_def by (intro keeps_rules quiet_modify) simp

lemmas quiet = keeps_rules append quiet_now quiet_rand quiet_modify quiet_mark

lemma every_call: "keeps I (db_exec c)"
  by (cases c; simp only: db_exec.simps db_ops db_parts user_reads; (intro quiet; simp)?)

lemma every_step: "db_step d d' \<Longrightarrow> I d \<Longrightarrow> I d'"
  by (elim db_stepE) (metis keepsD every_call)

lemma every_execution: "db_step\<^sup>*\<^sup>* d d' \<Longrightarrow> I d \<Longrightarrow> I d'"
  by (induction rule: rtranclp_induct) (auto intro: every_step)

end

definition log_from :: "int \<Rightarrow> UpdateLogEntry list \<Rightarrow> 'z memdb_scheme \<Rightarrow> bool" where
  "log_from u es d \<longleftrightarrow> prefix es (getd (updates d) u)"

interpretation grows: log_assertion "log_from u es" for u es
proof
  show "log_from u es d'" if "updates d' = updates d" "log_from u es d" for d d' :: "'a memdb_scheme"
    using that by (simp add: log_from_def)
  show "keeps (log_from u es) (logUpdate v p c ty g x)" for v p c ty g x
    by (rule keepsI) (auto simp: logUpdate_def now_def bnd_def modify_def log_from_def)
qed

section \<open>Differences\<close>

lemma difference_run:
  assumes inv: "db_inv d" and u: "map_of (users d) u = Some mu"
  shows "GetDifference u since lim d =
    (Ok (gotake lim (filter (\<lambda>e. since < ue_Pts e) (getd (updates d) u)), mu_pts mu), d)"
proof -
  have "tiles 0 (getd (updates d) u) (pts_of (users d) u)"
    using inv unfolding db_inv_def log_ok_def by blast
  then have "sorted_wrt (<) (map ue_Pts (getd (updates d) u))"
    by (rule tiles_sorted)
  then have "sorted (map ue_Pts (filter (\<lambda>e. since < ue_Pts e) (getd (updates d) u)))"
    using strict_sorted_imp_sorted sorted_filter by blast
  then show ?thesis
    using u by (simp add: GetDifference_def sort_key_id_if_sorted)
qed

lemma log_tiles:
  "db_inv d \<Longrightarrow> map_of (users d) u = Some mu \<Longrightarrow> tiles 0 (getd (updates d) u) (mu_pts mu)"
  unfolding db_inv_def log_ok_def by (metis option.simps(5) pts_of_def)

lemma tiles_functional: "tiles a es b \<Longrightarrow> tiles a es b' \<Longrightarrow> b = b'"
  by (induction es arbitrary: a) auto


end
