(* ===== verification/MemDialogs.thy ===== *)
theory MemDialogs imports MemEdits begin

text \<open>
  Unread state and the dialog list: which local ids are unread, what reading a
  history changes, and that the dialog list agrees with the mailboxes.
\<close>

section \<open>Unread messages\<close>

definition unread_in :: "int \<Rightarrow> int \<Rightarrow> 'z memdb_scheme \<Rightarrow> memRef \<Rightarrow> bool" where
  "unread_in u q d r \<longleftrightarrow> \<not> mr_out r \<and> mr_unread r \<and>
     (case map_of (messages d) (mr_globalID r) of None \<Rightarrow> False | Some m \<Rightarrow> other u m = q)"

definition unread :: "int \<Rightarrow> int \<Rightarrow> 'z memdb_scheme \<Rightarrow> int set" where
  "unread u q d = {l. \<exists>r. map_of (getd (refs d) u) l = Some r \<and> unread_in u q d r}"

lemma distinct_map_filter_keys: "mwf m \<Longrightarrow> distinct (map fst (filter P m))"
  unfolding mwf_def by (induction m) auto

lemma card_map_of:
  assumes "mwf m"
  shows "card {l. \<exists>r. map_of m l = Some r \<and> P r} = length (filter P (mvals m))"
proof -
  have "{l. \<exists>r. map_of m l = Some r \<and> P r} = fst ` set (filter (\<lambda>(l, r). P r) m)"
    using mwf_map_of [OF assms] by force
  also have "card \<dots> = length (map fst (filter (\<lambda>(l, r). P r) m))"
    using distinct_card [of "map fst (filter (\<lambda>(l, r). P r) m)"] distinct_map_filter_keys [OF assms]
    by simp
  also have "\<dots> = length (filter P (mvals m))"
    by (simp add: filter_map comp_def case_prod_unfold)
  finally show ?thesis .
qed

lemma mwf_refs: "db_inv d \<Longrightarrow> mwf (getd (refs d) u)"
  unfolding db_inv_def refs_ok_def by blast

lemma unreadCount_card: "db_inv d \<Longrightarrow> unreadCount d u q = int (card (unread u q d))"
  unfolding unread_def card_map_of [OF mwf_refs] unreadCount_def unread_in_def
  by (simp cong: filter_cong)

lemma fold_max_if:
  "fold (\<lambda>r mx. if P r \<and> mx < f r then f r else mx) rs (a :: int) =
     Max (insert a (f ` {r \<in> set rs. P r}))"
proof (induction rs arbitrary: a)
  case (Cons r rs)
  have fin: "finite (f ` {r \<in> set rs. P r})"
    by simp
  show ?case
  proof (cases "P r")
    case True
    have "f ` {x \<in> set (r # rs). P x} = insert (f r) (f ` {x \<in> set rs. P x})"
      using True by auto
    moreover have "Max (insert a (insert (f r) S)) = Max (insert (max a (f r)) S)" if "finite S" for S
      using that by (cases "S = {}") (simp_all add: max.assoc)
    moreover have "(if P r \<and> a < f r then f r else a) = max a (f r)"
      using True by (simp add: max_def)
    ultimately show ?thesis
      using Cons [of "max a (f r)"] fin by (simp only: fold_Cons comp_apply)
  next
    case False
    then have "{x \<in> set (r # rs). P x} = {x \<in> set rs. P x}"
      by auto
    with False Cons [of a] show ?thesis
      by simp
  qed
qed simp

section \<open>Reading a history\<close>

lemma shown_read_refs: "shown u q (read_refs s p mx d) r = shown u q d r"
  by (simp add: shown_def message_def split: option.split)

lemma shown_unread: "shown u q d (r\<lparr>mr_unread := b\<rparr>) = shown u q d r"
  by (simp add: shown_def message_def split: option.split)

lemma mailbox_read_refs: "mailbox u q (read_refs s p mx d) = mailbox u q d"
proof -
  have "List.map_filter (shown u q d) (mvals (getd (refs (read_refs s p mx d)) u)) =
      List.map_filter (shown u q d) (mvals (getd (refs d) u))"
    by (auto simp: getd_read_refs List.map_filter_def filter_map comp_def case_prod_beta shown_unread
        if_distrib [of "shown u q d"] cong: if_cong)
  then show ?thesis
    unfolding mailbox_def conversation_shown shown_read_refs [abs_def] by simp
qed

lemma mailbox_cong:
  "refs d' = refs d \<Longrightarrow> messages d' = messages d \<Longrightarrow> files d' = files d \<Longrightarrow> mailbox u q d' = mailbox u q d"
  by (rule mailbox_same) (simp_all add: shown_def message_def split: option.split)

lemma unread_cong:
  "refs d' = refs d \<Longrightarrow> messages d' = messages d \<Longrightarrow> unread u q d' = unread u q d"
  by (simp add: unread_def unread_in_def)

lemma unread_read_refs:
  "unread u q (read_refs s p mx d) = (if u = s \<and> q = p then {l \<in> unread u q d. mx < l} else unread u q d)"
  if inv: "db_inv d"
proof -
  have key: "mr_localID r = l" if "map_of (getd (refs d) u) l = Some r" for l r
    using ref_of_val(1) [OF inv val_of_ref [OF that]] that inv
    unfolding db_inv_def refs_ok_def ref_ok_def by blast
  have "(\<exists>r. map_of (getd (refs (read_refs s p mx d)) u) l = Some r \<and> unread_in u q (read_refs s p mx d) r)
      \<longleftrightarrow> (\<exists>r. map_of (getd (refs d) u) l = Some r \<and> unread_in u q d r \<and> \<not> (u = s \<and> q = p \<and> l \<le> mx))" for l
  proof (cases "map_of (getd (refs d) u) l")
    case (Some r)
    with key [OF Some] show ?thesis
      by (auto simp: map_of_read_refs unread_in_def readable_def split: option.splits if_splits)
  qed (simp add: map_of_read_refs)
  then show ?thesis
    by (auto simp: unread_def)
qed

lemma ReadHistory_mailbox:
  assumes inv: "db_inv d" and run: "ReadHistory self peer maxID d = (Ok res, d')"
  shows "unread u q d' = (if u = self \<and> q = peer then {l \<in> unread u q d. maxID < l} else unread u q d) \<and>
    mailbox u q d' = mailbox u q d \<and> rr_UnreadCount res = int (card (unread self peer d'))"
proof -
  let ?d0 = "read_refs self peer maxID d"
  have d0: "db_inv ?d0"
    by (rule db_inv_read_refs [OF inv])
  obtain mu where u: "map_of (users d) self = Some mu"
    using run by (cases "map_of (users d) self") (auto simp: ReadHistory_def bnd_markRead bnd_allocatePts_panic)
  have d': "refs d' = refs ?d0" "messages d' = messages ?d0" "files d' = files ?d0"
    "rr_UnreadCount res = unreadCount ?d0 self peer"
    using run u
    by (cases "map_of (users d) peer"; auto simp: ReadHistory_def bnd_markRead bnd_allocatePts
        bnd_allocatePts_panic split: if_splits)+
  show ?thesis
    using unread_cong [OF d'(1,2)] mailbox_cong [OF d'(1-3)] d'(4) unreadCount_card [OF d0]
    by (simp add: unread_read_refs [OF inv] mailbox_read_refs)
qed

text \<open>C8: Reading a conversation up to an id makes exactly the caller's incoming messages
  up to that id read; no other message of any account changes its unread state or its
  place in a history, and the count returned is what remains unread there.\<close>

theorem ReadHistory_unread:
  assumes inv: "db_inv d" and run: "ReadHistory self peer maxID d = (Ok res, d')"
  shows "unread u q d' = (if u = self \<and> q = peer then {l \<in> unread u q d. maxID < l} else unread u q d) \<and>
    mailbox u q d' = mailbox u q d \<and> rr_UnreadCount res = int (card (unread self peer d'))"
  by (rule ReadHistory_mailbox [OF assms])

section \<open>The dialog list\<close>

text \<open>What the loop of \<^verbatim>\<open>GetDialogs\<close> leaves for one peer: a fold over that peer's refs.\<close>

lemma dialog_fold:
  "map_of (fold (dialog_step d self) rs acc) q =
    (case filter (\<lambda>r. shown self q d r \<noteq> None) rs of
       [] \<Rightarrow> map_of acc q
     | xs \<Rightarrow> Some (fold (bump_dialog (peerReadGlobal d q)) xs
         (case map_of acc q of None \<Rightarrow> new_dialog q | Some dl \<Rightarrow> dl)))"
proof (induction rs arbitrary: acc)
  case (Cons r rs)
  show ?case
  proof (cases "shown self q d r")
    case None
    then have "map_of (dialog_step d self r acc) q = map_of acc q"
      by (auto simp: dialog_step_def shown_def Let_def split: option.splits if_splits)
    with None Cons [of "dialog_step d self r acc"] show ?thesis
      by (cases "filter (\<lambda>r. shown self q d r \<noteq> None) rs") simp_all
  next
    case (Some x)
    then have "map_of (dialog_step d self r acc) q = Some (bump_dialog (peerReadGlobal d q) r
        (case map_of acc q of None \<Rightarrow> new_dialog q | Some dl \<Rightarrow> dl))"
      by (auto simp: dialog_step_def shown_def Let_def split: option.splits if_splits)
    with Some Cons [of "dialog_step d self r acc"] show ?thesis
      by (simp split: list.split)
  qed
qed simp

lemma mwf_dialog_fold: "mwf acc \<Longrightarrow> mwf (fold (dialog_step d self) rs acc)"
  by (induction rs arbitrary: acc) (auto simp: dialog_step_def Let_def split: option.split)

lemma bump_fold_peer: "dlg_PeerUserID (fold (bump_dialog f) rs dl) = dlg_PeerUserID dl"
  by (induction rs arbitrary: dl) (simp_all add: bump_dialog_def)

lemma bump_fold_top: "dlg_TopMessageID (fold (bump_dialog f) rs dl) =
    Max (insert (dlg_TopMessageID dl) (mr_localID ` set rs))"
proof -
  have "dlg_TopMessageID (fold (bump_dialog f) rs dl) =
      fold (\<lambda>r mx. if True \<and> mx < mr_localID r then mr_localID r else mx) rs (dlg_TopMessageID dl)"
    by (induction rs arbitrary: dl) (simp_all add: bump_dialog_def)
  then show ?thesis
    unfolding fold_max_if by simp
qed

lemma bump_fold_unread: "dlg_UnreadCount (fold (bump_dialog f) rs dl) =
    dlg_UnreadCount dl + int (length (filter (\<lambda>r. mr_unread r \<and> \<not> mr_out r) rs))"
  by (induction rs arbitrary: dl) (simp_all add: bump_dialog_def)

lemma bump_fold_inbox: "dlg_ReadInboxMaxID (fold (bump_dialog f) rs dl) =
    Max (insert (dlg_ReadInboxMaxID dl) (mr_localID ` {r \<in> set rs. \<not> mr_out r \<and> \<not> mr_unread r}))"
proof -
  have "dlg_ReadInboxMaxID (fold (bump_dialog f) rs dl) =
      fold (\<lambda>r mx. if (\<not> mr_out r \<and> \<not> mr_unread r) \<and> mx < mr_localID r then mr_localID r else mx)
        rs (dlg_ReadInboxMaxID dl)"
    by (induction rs arbitrary: dl) (simp_all add: bump_dialog_def)
  then show ?thesis
    unfolding fold_max_if .
qed

lemma bump_fold_outbox: "dlg_ReadOutboxMaxID (fold (bump_dialog f) rs dl) =
    Max (insert (dlg_ReadOutboxMaxID dl) (mr_localID ` {r \<in> set rs. mr_out r \<and> f (mr_globalID r)}))"
proof -
  have "dlg_ReadOutboxMaxID (fold (bump_dialog f) rs dl) =
      fold (\<lambda>r mx. if (mr_out r \<and> f (mr_globalID r)) \<and> mx < mr_localID r then mr_localID r else mx)
        rs (dlg_ReadOutboxMaxID dl)"
    by (induction rs arbitrary: dl) (simp_all add: bump_dialog_def conj_commute conj_left_commute)
  then show ?thesis
    unfolding fold_max_if .
qed

definition live_refs :: "int \<Rightarrow> int \<Rightarrow> 'z memdb_scheme \<Rightarrow> memRef list" where
  "live_refs self q d = filter (\<lambda>r. shown self q d r \<noteq> None) (mvals (getd (refs d) self))"

definition dialog_of :: "int \<Rightarrow> int \<Rightarrow> 'z memdb_scheme \<Rightarrow> Dialog" where
  "dialog_of self q d = fold (bump_dialog (peerReadGlobal d q)) (live_refs self q d) (new_dialog q)"

definition dialog_map :: "int \<Rightarrow> 'z memdb_scheme \<Rightarrow> (int, Dialog) gomap" where
  "dialog_map self d = fold (dialog_step d self) (mvals (getd (refs d) self)) []"

lemma dialog_map_of: "map_of (dialog_map self d) q =
    (if live_refs self q d = [] then None else Some (dialog_of self q d))"
  by (simp add: dialog_map_def dialog_fold live_refs_def dialog_of_def split: list.split)

lemma live_refs_in: "r \<in> set (live_refs self q d) \<longleftrightarrow>
    r \<in> set (mvals (getd (refs d) self)) \<and> (\<exists>x. shown self q d r = Some x)"
  by (simp add: live_refs_def)

lemma live_refs_mailbox: "live_refs self q d = [] \<longleftrightarrow> mailbox self q d = []"
proof -
  have "(\<exists>r. r \<in> set (live_refs self q d)) \<longleftrightarrow> (\<exists>x. x \<in> set (mailbox self q d))"
    unfolding live_refs_in mailbox_in by blast
  then show ?thesis
    by (metis list.set_intros(1) list.exhaust empty_iff empty_set)
qed

lemma live_refs_ids: "mr_localID ` set (live_refs self q d) = msg_LocalID ` set (mailbox self q d)"
proof (intro equalityI subsetI)
  fix l assume "l \<in> mr_localID ` set (live_refs self q d)"
  then obtain r x where "l = mr_localID r" "r \<in> set (mvals (getd (refs d) self))" "shown self q d r = Some x"
    unfolding image_iff by (auto simp only: live_refs_in)
  then have "x \<in> set (mailbox self q d)" "l = msg_LocalID x"
    unfolding mailbox_in using shown_localID by (blast, metis)
  then show "l \<in> msg_LocalID ` set (mailbox self q d)"
    by blast
next
  fix l assume "l \<in> msg_LocalID ` set (mailbox self q d)"
  then obtain r x where "l = msg_LocalID x" "r \<in> set (mvals (getd (refs d) self))" "shown self q d r = Some x"
    unfolding image_iff by (auto simp only: mailbox_in)
  then have "r \<in> set (live_refs self q d)" "l = mr_localID r"
    unfolding live_refs_in using shown_localID by (blast, metis)
  then show "l \<in> mr_localID ` set (live_refs self q d)"
    by blast
qed

lemma Max_mailbox:
  assumes "mailbox self q d \<noteq> []"
  shows "Max (msg_LocalID ` set (mailbox self q d)) = msg_LocalID (hd (mailbox self q d))"
proof -
  obtain x xs where m: "mailbox self q d = x # xs"
    using assms by (cases "mailbox self q d") auto
  have "\<forall>y \<in> set xs. msg_LocalID y \<le> msg_LocalID x"
    using mailbox_sorted [of self q d] unfolding m by (simp add: sorted_append)
  then show ?thesis
    unfolding m by (auto intro!: Max_eqI)
qed

lemma dialog_of_peer [simp]: "dlg_PeerUserID (dialog_of self q d) = q"
  by (simp add: dialog_of_def bump_fold_peer new_dialog_def)

lemma dialog_of_top:
  assumes inv: "db_inv d" and ne: "mailbox self q d \<noteq> []"
  shows "dlg_TopMessageID (dialog_of self q d) = msg_LocalID (hd (mailbox self q d))"
proof -
  have "live_refs self q d \<noteq> []"
    using ne live_refs_mailbox by blast
  then obtain r where r: "r \<in> set (live_refs self q d)"
    by (cases "live_refs self q d") auto
  then have "0 < mr_localID r"
    using ref_of_val(3) [OF inv, of r self] by (simp add: live_refs_def)
  also have "mr_localID r \<le> Max (mr_localID ` set (live_refs self q d))"
    using r by (intro Max_ge) auto
  finally have "Max (insert 0 (mr_localID ` set (live_refs self q d))) = Max (mr_localID ` set (live_refs self q d))"
    using r by (subst Max_insert) (auto simp del: Max_less_iff)
  then show ?thesis
    unfolding dialog_of_def bump_fold_top using Max_mailbox [OF ne]
    by (simp add: new_dialog_def live_refs_ids)
qed

lemma unread_shown:
  assumes inv: "db_inv d"
  shows "{l. \<exists>r. map_of (getd (refs d) self) l = Some r \<and>
      (shown self q d r \<noteq> None \<and> mr_unread r \<and> \<not> mr_out r)} =
    {l \<in> unread self q d. \<exists>x \<in> set (mailbox self q d). msg_LocalID x = l}" (is "?A = ?B")
proof (intro equalityI subsetI)
  fix l assume "l \<in> ?A"
  then obtain r x where r: "map_of (getd (refs d) self) l = Some r" "shown self q d r = Some x"
    "mr_unread r" "\<not> mr_out r"
    by blast
  have "mr_localID r = l"
    using inv r(1) unfolding db_inv_def refs_ok_def ref_ok_def by blast
  then have "x \<in> set (mailbox self q d)" "msg_LocalID x = l"
    using val_of_ref [OF r(1)] r(2) shown_localID [OF r(2)] unfolding mailbox_in by auto
  moreover have "unread_in self q d r"
    using r by (auto simp: unread_in_def shown_def split: option.splits if_splits)
  ultimately show "l \<in> ?B"
    using r(1) by (auto simp: unread_def)
next
  fix l assume "l \<in> ?B"
  then obtain r x where r: "map_of (getd (refs d) self) l = Some r" "unread_in self q d r"
    and x: "x \<in> set (mailbox self q d)" "msg_LocalID x = l"
    by (auto simp: unread_def)
  then obtain r' where r': "r' \<in> set (mvals (getd (refs d) self))" "shown self q d r' = Some x"
    by (auto simp only: mailbox_in)
  then have "r' = r"
    using ref_of_val(1) [OF inv r'(1)] shown_localID [OF r'(2)] x(2) r(1) by simp
  with r r' show "l \<in> ?A"
    by (auto simp: unread_in_def)
qed

lemma dialog_of_unread:
  assumes inv: "db_inv d"
  shows "dlg_UnreadCount (dialog_of self q d) = int (card {l \<in> unread self q d.
    \<exists>x \<in> set (mailbox self q d). msg_LocalID x = l})"
proof -
  have "dlg_UnreadCount (dialog_of self q d) = int (length (filter
      (\<lambda>r. shown self q d r \<noteq> None \<and> mr_unread r \<and> \<not> mr_out r) (mvals (getd (refs d) self))))"
    unfolding dialog_of_def bump_fold_unread live_refs_def
    by (simp add: new_dialog_def conj_commute conj_left_commute)
  then show ?thesis
    unfolding unread_shown [OF inv, symmetric] card_map_of [OF mwf_refs [OF inv]] .
qed

lemma dialog_map_wf: "mwf (dialog_map self d)"
  by (simp add: dialog_map_def mwf_dialog_fold)

lemma dialog_map_peers: "map dlg_PeerUserID (mvals (dialog_map self d)) = mkeys (dialog_map self d)"
proof -
  have "dlg_PeerUserID dl = q" if "(q, dl) \<in> set (dialog_map self d)" for q dl
    using that unfolding mwf_map_of [OF dialog_map_wf] by (auto simp: dialog_map_of split: if_splits)
  then show ?thesis
    by auto
qed

lemma dialog_map_keys: "set (mkeys (dialog_map self d)) = {q. mailbox self q d \<noteq> []}"
proof -
  have "q \<in> set (mkeys (dialog_map self d)) \<longleftrightarrow> map_of (dialog_map self d) q \<noteq> None" for q
    by (simp add: map_of_eq_None_iff)
  then have "q \<in> set (mkeys (dialog_map self d)) \<longleftrightarrow> mailbox self q d \<noteq> []" for q
    by (simp only: dialog_map_of live_refs_mailbox) simp
  then show ?thesis
    by blast
qed

text \<open>C12: The dialog list has one entry for each correspondent with whom there is a
  visible message, and none for anyone else; its top message is the newest message of
  that history, its unread count the number of visible incoming messages not yet
  read; entries come with the newest activity first.\<close>

theorem GetDialogs_histories:
  assumes inv: "db_inv d" and run: "GetDialogs self 0 d = (Ok ds, d')"
  shows "d' = d \<and> distinct (map dlg_PeerUserID ds) \<and>
    dlg_PeerUserID ` set ds = {q. mailbox self q d \<noteq> []} \<and>
    sorted (rev (map dlg_TopMessageID ds)) \<and>
    (\<forall>dl \<in> set ds. dlg_TopMessageID dl = msg_LocalID (hd (mailbox self (dlg_PeerUserID dl) d)) \<and>
       dlg_UnreadCount dl = int (card {l \<in> unread self (dlg_PeerUserID dl) d.
         \<exists>x \<in> set (mailbox self (dlg_PeerUserID dl) d). msg_LocalID x = l}))"
proof -
  let ?m = "dialog_map self d"
  have ds: "ds = sort_key (\<lambda>dl. - dlg_TopMessageID dl) (mvals ?m)" and d': "d' = d"
    using run by (auto simp: GetDialogs_def gotake_def dialog_map_def)
  have "distinct (map dlg_PeerUserID (mvals ?m))"
    unfolding dialog_map_peers using dialog_map_wf unfolding mwf_def .
  then have dist: "distinct (map dlg_PeerUserID ds)"
    unfolding ds by (simp only: distinct_map distinct_sort set_sort)
  have peers: "dlg_PeerUserID ` set ds = {q. mailbox self q d \<noteq> []}"
    using dialog_map_keys dialog_map_peers by (metis ds set_map set_sort)
  have "dl = dialog_of self (dlg_PeerUserID dl) d" if dl: "dl \<in> set ds" for dl
  proof -
    have "dl \<in> set (mvals ?m)"
      using dl unfolding ds by (simp only: set_sort)
    then obtain q where "map_of ?m q = Some dl"
      unfolding mvals_map_of [OF dialog_map_wf] by blast
    then show ?thesis
      by (auto simp: dialog_map_of split: if_splits)
  qed
  note entry = this [symmetric]
  have "dlg_TopMessageID dl = msg_LocalID (hd (mailbox self (dlg_PeerUserID dl) d)) \<and>
      dlg_UnreadCount dl = int (card {l \<in> unread self (dlg_PeerUserID dl) d.
        \<exists>x \<in> set (mailbox self (dlg_PeerUserID dl) d). msg_LocalID x = l})" if dl: "dl \<in> set ds" for dl
  proof -
    have "mailbox self (dlg_PeerUserID dl) d \<noteq> []"
      using dl peers by blast
    from dialog_of_top [OF inv this] dialog_of_unread [OF inv, of self "dlg_PeerUserID dl"]
    show ?thesis
      unfolding entry [OF dl] by blast
  qed
  then show ?thesis
    using dist peers d' unfolding ds by (intro conjI ballI sorted_desc_sort_key) blast+
qed

end
