(* ===== verification/Samples.thy ===== *)
theory Samples imports MemSync MemDialogs begin

text \<open>
  A sample execution of the in-memory database, and the instances of the properties
  at concrete inputs.
\<close>

section \<open>A sample execution\<close>

definition sample_world :: memdb where
  "sample_world = \<lparr>clk = int, clk_pos = 0, rnd = (\<lambda>_. CHR ''a''), rnd_pos = 0,
     uc_lower = (\<lambda>s. s), uc_fold = (=), uc_letter = (\<lambda>_. False), sha256 = (\<lambda>_. replicate 32 (chr 0)),
     users = [], userSeq = 0, messages = [], msgSeq = 0, refs = [], updates = [], files = [],
     fileSeq = 0, sessions = [], tempKeys = [], phoneCodes = [], drafts = [], contacts = [],
     botStates = [], botCommands = []\<rparr>"

text \<open>Two accounts; then a message each way, an edit, a note to self, a read, one more message.\<close>

definition sample0 :: memdb where
  "sample0 = snd (CreateUser ''200'' ''Bob'' [] (snd (CreateUser ''100'' ''Ann'' []
     (snd (NewDB sample_world)))))"

definition sample1 :: memdb where
  "sample1 = snd (SendMessage 2 1 ''yo'' 8 0 (snd (SendMessage 1 2 ''hi'' 7 0 sample0)))"

definition sample2 :: memdb where
  "sample2 = snd (SendMessage 1 1 ''note'' 9 0 (snd (EditMessage 1 1 ''hi!'' sample1)))"

definition sample_db :: memdb where
  "sample_db = snd (SendMessage 1 2 ''more'' 10 0 (snd (ReadHistory 2 1 5 sample2)))"

fun is_ok :: "'a outcome \<times> 's \<Rightarrow> bool" where
  "is_ok (Ok x, s) = True"
| "is_ok (r, s) = False"

lemma is_okE: "is_ok r \<Longrightarrow> \<exists>x s. r = (Ok x, s)"
  by (cases r rule: is_ok.cases) auto

lemma is_ok_fst: "is_ok r \<Longrightarrow> fst r \<noteq> Panic"
  by (cases r rule: is_ok.cases) auto

lemma sample_ok:
  "is_ok (SendMessage 1 2 ''hi'' 7 0 sample0) \<and>
   is_ok (SendMessage 2 1 ''yo'' 8 0 (snd (SendMessage 1 2 ''hi'' 7 0 sample0))) \<and>
   is_ok (EditMessage 1 1 ''hi!'' sample1) \<and>
   is_ok (SendMessage 1 1 ''note'' 9 0 (snd (EditMessage 1 1 ''hi!'' sample1))) \<and>
   is_ok (ReadHistory 2 1 5 sample2) \<and>
   is_ok (SendMessage 1 2 ''more'' 10 0 (snd (ReadHistory 2 1 5 sample2))) \<and>
   is_ok (DeleteMessages 2 [1, 99] sample1) \<and>
   userSeq sample_db = 2 \<and>
   (map_of (users sample_db) 1 \<noteq> None \<and> map_of (users sample_db) 2 \<noteq> None)"
  by code_simp

lemmas sample_no_panic = sample_ok [THEN conjunct1, THEN is_ok_fst]
  sample_ok [THEN conjunct2, THEN conjunct1, THEN is_ok_fst]
  sample_ok [THEN conjunct2, THEN conjunct2, THEN conjunct1, THEN is_ok_fst]
  sample_ok [THEN conjunct2, THEN conjunct2, THEN conjunct2, THEN conjunct1, THEN is_ok_fst]
  sample_ok [THEN conjunct2, THEN conjunct2, THEN conjunct2, THEN conjunct2, THEN conjunct1, THEN is_ok_fst]
  sample_ok [THEN conjunct2, THEN conjunct2, THEN conjunct2, THEN conjunct2, THEN conjunct2, THEN conjunct1, THEN is_ok_fst]

lemma db_step_call:
  assumes "db_exec c = bnd m (\<lambda>_. ret ())" "fst (m d) \<noteq> Panic"
  shows "db_step d (snd (m d))"
proof -
  obtain r d' where m: "m d = (r, d')"
    by (cases "m d")
  then have "db_exec c d = (case r of Ok x \<Rightarrow> Ok () | Err e \<Rightarrow> Err e | Panic \<Rightarrow> Panic, d')"
    using assms(1) by (simp add: bnd_def ret_def split: outcome.split)
  moreover have "(case r of Ok x \<Rightarrow> Ok () | Err e \<Rightarrow> Err e | Panic \<Rightarrow> Panic) \<noteq> Panic"
    using assms(2) m by (cases r) simp_all
  ultimately have "db_step d d'"
    by (rule db_step.intros)
  with m show ?thesis
    by simp
qed

lemma db_reachable_call:
  "db_reachable d \<Longrightarrow> db_exec c = bnd m (\<lambda>_. ret ()) \<Longrightarrow> fst (m d) \<noteq> Panic \<Longrightarrow> db_reachable (snd (m d))"
  by (blast intro: db_next db_step_call)

lemma sample_reachable0: "db_reachable sample0"
proof -
  have "db_reachable (snd (CreateUser a b c d))" if "db_reachable d" for a b c and d :: memdb
    using that by (intro db_reachable_call [where c = "CallCreateUser a b c"])
      (simp, simp, simp add: CreateUser_run [of a b c d] Let_def)
  then show ?thesis
    unfolding sample0_def by (blast intro: db_start)
qed

lemma sample_reachables:
  shows "db_reachable sample1" and "db_reachable sample2" and "db_reachable sample_db"
proof -
  have send: "db_reachable (snd (SendMessage a b c e f d))"
    if "db_reachable d" "fst (SendMessage a b c e f d) \<noteq> Panic" for a b c e f and d :: memdb
    using that by (intro db_reachable_call [where c = "CallSendMessage a b c e f"]) simp_all
  have edit: "db_reachable (snd (EditMessage a b c d))"
    if "db_reachable d" "fst (EditMessage a b c d) \<noteq> Panic" for a b c and d :: memdb
    using that by (intro db_reachable_call [where c = "CallEditMessage a b c"]) simp_all
  have read: "db_reachable (snd (ReadHistory a b c d))"
    if "db_reachable d" "fst (ReadHistory a b c d) \<noteq> Panic" for a b c and d :: memdb
    using that by (intro db_reachable_call [where c = "CallReadHistory a b c"]) simp_all
  show one: "db_reachable sample1"
    using sample_no_panic sample_reachable0 unfolding sample1_def by (blast intro: send)
  then show two: "db_reachable sample2"
    using sample_no_panic unfolding sample2_def by (blast intro: send edit)
  then show "db_reachable sample_db"
    using sample_no_panic unfolding sample_db_def by (blast intro: send read)
qed

lemmas sample_reachable = sample_reachables(3)

lemma sample_userSeq: "userSeq sample_db = 2"
  using sample_ok by blast

lemma sample_users: "map_of (users sample_db) 1 \<noteq> None" "map_of (users sample_db) 2 \<noteq> None"
  using sample_ok by blast+

lemma sample_inv: "db_inv sample_db"
  using db_ok_reachable [OF sample_reachable]
  by (simp add: db_ok_def sample_userSeq BotFatherID_def)

lemma userSeq_small: "userSeq sample0 = 2" "userSeq sample1 = 2" "userSeq sample2 = 2"
  by code_simp+

lemma sample_invs: "db_inv sample0" "db_inv sample1" "db_inv sample2"
  using sample_reachable0 [THEN db_ok_reachable] sample_reachables [THEN db_ok_reachable]
  by (simp_all add: db_ok_def userSeq_small BotFatherID_def)

theorem db_inv_reachable_witness: "db_inv sample_db"
  by (rule db_inv_reachable [OF sample_reachable]) (simp add: sample_userSeq BotFatherID_def)

theorem history_order_free_witness:
  "fst (GetHistory 1 2 0 10 (sample_db\<lparr>refs := map (\<lambda>(u, m). (u, rev m)) (refs sample_db)\<rparr>)) =
     fst (GetHistory 1 2 0 10 sample_db)"
proof (rule history_order_free)
  show "db_inv sample_db"
    by (rule sample_inv)
  show "mset (getd (map (\<lambda>(u, m). (u, rev m)) (refs sample_db)) 1) = mset (getd (refs sample_db) 1)"
    by (auto simp: getd_def map_of_map split: option.split)
qed

theorem SendMessage_mailboxes_witness:
  "\<exists>sent d'. SendMessage 1 2 ''new'' 11 0 sample_db = (Ok sent, d') \<and>
     mailbox 2 1 d' = received_copy 1 ''new'' 11 None sent # mailbox 2 1 sample_db \<and>
     mailbox 1 1 d' = mailbox 1 1 sample_db"
proof -
  obtain m1 m2 where "map_of (users sample_db) 1 = Some m1" "map_of (users sample_db) 2 = Some m2"
    using sample_users by blast
  then obtain sent d' where run: "SendMessage 1 2 ''new'' 11 0 sample_db = (Ok sent, d')"
    by (simp add: SendMessage_run)
  show ?thesis
    using run SendMessage_mailboxes [OF sample_inv run, of 2 1]
      SendMessage_mailboxes [OF sample_inv run, of 1 1]
    by (simp add: media_of_def)
qed

theorem EditMessage_refused_iff_witness:
  "EditMessage 1 2 ''hm'' sample1 = (Err ErrMessageID, sample1) \<longleftrightarrow>
    \<not> (\<exists>q. \<exists>x \<in> set (mailbox 1 q sample1). msg_LocalID x = 2 \<and> msg_FromUserID x = 1)"
  by (rule EditMessage_refused_iff [OF sample_invs(2)])

theorem EditMessage_mailboxes_witness:
  "\<exists>res d' (x :: Message). EditMessage 1 1 ''hi!'' sample1 = (Ok res, d') \<and> msg_LocalID x = 1 \<and>
    mailbox 2 1 d' = map (\<lambda>m. if msg_GlobalID m = msg_GlobalID x
       then m\<lparr>msg_Text := ''hi!'', msg_EditDate := er_EditDate res\<rparr> else m) (mailbox 2 1 sample1)"
proof -
  obtain res d' where run: "EditMessage 1 1 ''hi!'' sample1 = (Ok res, d')"
    using sample_ok is_okE by blast
  obtain x :: Message where x: "msg_LocalID x = 1" and mb: "\<And>u q. mailbox u q d' = map (\<lambda>m. if msg_GlobalID m = msg_GlobalID x
      then m\<lparr>msg_Text := ''hi!'', msg_EditDate := er_EditDate res\<rparr> else m) (mailbox u q sample1)"
    using EditMessage_mailboxes [OF sample_invs(2) run] by blast
  show ?thesis
    using run x mb [of 2 1] by (intro exI [of _ res] exI [of _ d'] exI [of _ x] conjI)
qed

theorem DeleteMessages_mailboxes_witness:
  "\<exists>res d'. DeleteMessages 2 [1, 99] sample1 = (Ok res, d') \<and>
    del_LocalIDs res = filter (\<lambda>l. 1 \<le> l \<and> l \<le> last_of (users sample1) 2) [1, 99]"
proof -
  obtain res d' where run: "DeleteMessages 2 [1, 99] sample1 = (Ok res, d')"
    using sample_ok is_okE by blast
  then show ?thesis
    using DeleteMessages_mailboxes [OF sample_invs(2) run, of 2 1] by blast
qed


theorem ReadHistory_unread_witness:
  "\<exists>res d'. ReadHistory 2 1 5 sample2 = (Ok res, d') \<and>
    unread 2 1 d' = {l \<in> unread 2 1 sample2. 5 < l} \<and> mailbox 1 2 d' = mailbox 1 2 sample2"
proof -
  obtain res d' where run: "ReadHistory 2 1 5 sample2 = (Ok res, d')"
    using sample_ok is_okE by blast
  then show ?thesis
    using ReadHistory_unread [OF sample_invs(3) run, of 2 1] ReadHistory_unread [OF sample_invs(3) run, of 1 2]
    by simp
qed

theorem GetDialogs_histories_witness:
  "\<exists>ds. GetDialogs 1 0 sample_db = (Ok ds, sample_db) \<and>
    dlg_PeerUserID ` set ds = {q. mailbox 1 q sample_db \<noteq> []}"
proof -
  obtain ds where run: "GetDialogs 1 0 sample_db = (Ok ds, sample_db)"
    by (simp add: GetDialogs_def)
  then show ?thesis
    using GetDialogs_histories [OF sample_inv run] by blast
qed

end
