(* ===== verification/Entities.thy ===== *)
theory Entities imports GoStd begin

text \<open>
  \<^verbatim>\<open>internal/rpc/entities.go\<close>: the links, mentions and hashtags of a message text, with
  offsets in UTF-16 units. The text is decoded into runes the way Go does (an invalid
  byte is U+FFFD of width one); the three regular expressions are matchers on the
  runes that give the length of the leftmost-first match, and \<open>find_all\<close> is
  \<^verbatim>\<open>FindAllStringIndex\<close>. Positions are rune indices, which are in the same order as the
  byte offsets of the code.
\<close>

section \<open>UTF-8\<close>

definition cont :: "nat \<Rightarrow> nat \<Rightarrow> nat \<Rightarrow> bool" where
  "cont lo hi b \<longleftrightarrow> lo \<le> b \<and> b \<le> hi"

text \<open>\<^verbatim>\<open>utf8.DecodeRune\<close> on the bytes of a non-empty string: the rune and its width.\<close>

definition decode_rune :: "nat list \<Rightarrow> nat \<times> nat" where
  "decode_rune bs = (let b = hd bs; b1 = (if length bs > 1 then bs ! 1 else 0);
       b2 = (if length bs > 2 then bs ! 2 else 0); b3 = (if length bs > 3 then bs ! 3 else 0) in
     if b < 128 then (b, 1)
     else if 194 \<le> b \<and> b \<le> 223 \<and> cont 128 191 b1 then ((b - 192) * 64 + (b1 - 128), 2)
     else if 224 \<le> b \<and> b \<le> 239 \<and> cont (if b = 224 then 160 else 128) (if b = 237 then 159 else 191) b1
        \<and> cont 128 191 b2 then ((b - 224) * 4096 + (b1 - 128) * 64 + (b2 - 128), 3)
     else if 240 \<le> b \<and> b \<le> 244 \<and> cont (if b = 240 then 144 else 128) (if b = 244 then 143 else 191) b1
        \<and> cont 128 191 b2 \<and> cont 128 191 b3
     then ((b - 240) * 262144 + (b1 - 128) * 4096 + (b2 - 128) * 64 + (b3 - 128), 4)
     else (65533, 1))"

lemma decode_rune_width: "1 \<le> snd (decode_rune bs)"
  by (simp add: decode_rune_def Let_def)

function runes_of :: "nat list \<Rightarrow> nat list" where
  "runes_of [] = []"
| "runes_of (b # bs) = fst (decode_rune (b # bs)) # runes_of (drop (snd (decode_rune (b # bs))) (b # bs))"
  by pat_completeness auto
termination
proof (relation "measure length")
  fix b bs
  show "(drop (snd (decode_rune (b # bs))) (b # bs), b # bs) \<in> measure length"
    using decode_rune_width [of "b # bs"] by simp
qed simp

definition runes :: "string \<Rightarrow> nat list" where
  "runes s = runes_of (map of_char s)"

definition utf16_width :: "nat \<Rightarrow> nat" where
  "utf16_width r = (if r > 65535 then 2 else 1)"

definition utf16Len :: "nat list \<Rightarrow> nat" where
  "utf16Len rs = sum_list (map utf16_width rs)"

section \<open>The expressions\<close>

definition rune_digit :: "nat \<Rightarrow> bool" where
  "rune_digit r \<longleftrightarrow> 48 \<le> r \<and> r \<le> 57"

definition rune_alpha :: "nat \<Rightarrow> bool" where
  "rune_alpha r \<longleftrightarrow> 65 \<le> r \<and> r \<le> 90 \<or> 97 \<le> r \<and> r \<le> 122"

definition word_rune :: "nat \<Rightarrow> bool" where
  "word_rune r \<longleftrightarrow> rune_alpha r \<or> rune_digit r \<or> r = 95"

definition tag_rune :: "(nat \<Rightarrow> bool) \<Rightarrow> nat \<Rightarrow> bool" where
  "tag_rune uc r \<longleftrightarrow> (if r < 128 then word_rune r else uc r)"

definition nonspace_rune :: "nat \<Rightarrow> bool" where
  "nonspace_rune r \<longleftrightarrow> r \<notin> {9, 10, 12, 13, 32}"

text \<open>The runes that match a letter under \<^verbatim>\<open>(?i)\<close>: both cases, and U+017F for s.\<close>

definition fold_rune :: "char \<Rightarrow> nat \<Rightarrow> bool" where
  "fold_rune c r \<longleftrightarrow> r = of_char c \<or> (is_lower c \<and> r + 32 = of_char c) \<or> (c = CHR ''s'' \<and> r = 383)"

text \<open>The rest after a literal, when the runes start with it.\<close>

fun literal :: "string \<Rightarrow> nat list \<Rightarrow> nat list option" where
  "literal [] rs = Some rs"
| "literal (c # cs) [] = None"
| "literal (c # cs) (r # rs) = (if fold_rune c r then literal cs rs else None)"

text \<open>\<^verbatim>\<open>(?i)(?:https?://|www\.)\S+\<close>\<close>

definition url_prefix :: "nat list \<Rightarrow> nat list option" where
  "url_prefix rs = (case literal ''https://'' rs of Some t \<Rightarrow> Some t | None \<Rightarrow>
     (case literal ''http://'' rs of Some t \<Rightarrow> Some t | None \<Rightarrow> literal ''www.'' rs))"

definition match_url :: "nat list \<Rightarrow> nat option" where
  "match_url rs = (case url_prefix rs of None \<Rightarrow> None | Some t \<Rightarrow>
     (let n = length (takeWhile nonspace_rune t) in
      if n = 0 then None else Some (length rs - length t + n)))"

text \<open>\<^verbatim>\<open>@[A-Za-z0-9_]{1,32}\<close> and \<^verbatim>\<open>#[\p{L}0-9_]+\<close>\<close>

fun match_mention :: "nat list \<Rightarrow> nat option" where
  "match_mention [] = None"
| "match_mention (r # rs) = (let n = min 32 (length (takeWhile word_rune rs)) in
     if r = 64 \<and> n > 0 then Some (Suc n) else None)"

fun match_hashtag :: "(nat \<Rightarrow> bool) \<Rightarrow> nat list \<Rightarrow> nat option" where
  "match_hashtag uc [] = None"
| "match_hashtag uc (r # rs) = (let n = length (takeWhile (tag_rune uc) rs) in
     if r = 35 \<and> n > 0 then Some (Suc n) else None)"

text \<open>All matches from left to right, without overlap, as rune ranges.\<close>

fun find_all :: "(nat list \<Rightarrow> nat option) \<Rightarrow> nat \<Rightarrow> nat \<Rightarrow> nat list \<Rightarrow> (nat \<times> nat) list" where
  "find_all m i skip [] = []"
| "find_all m i (Suc skip) (r # rs) = find_all m (Suc i) skip rs"
| "find_all m i 0 (r # rs) = (case m (r # rs) of
       None \<Rightarrow> find_all m (Suc i) 0 rs
     | Some n \<Rightarrow> (i, i + n) # find_all m (Suc i) (n - 1) rs)"

section \<open>Entities\<close>

datatype entity_kind = EntityURL | EntityMention | EntityHashtag

record entity =
  ent_Kind :: entity_kind
  ent_Offset :: nat
  ent_Length :: nat

record span =
  sp_start :: nat
  sp_end :: nat
  sp_kind :: entity_kind

text \<open>The runes of \<^verbatim>\<open>urlTrailing\<close>.\<close>

definition urlTrailing :: "nat list" where
  "urlTrailing = map of_char ''.,!?;:)]}'' @ [39, 34, 187, 8230]"

definition trim_url :: "nat list \<Rightarrow> nat \<times> nat \<Rightarrow> nat \<times> nat" where
  "trim_url rs se = (case se of (s, e) \<Rightarrow>
     (s, s + length (dropWhile (\<lambda>r. r \<in> set urlTrailing) (rev (take (e - s) (drop s rs))))))"

definition add_spans :: "entity_kind \<Rightarrow> (nat \<times> nat) list \<Rightarrow> span list" where
  "add_spans kind locs = map (\<lambda>(s, e). \<lparr>sp_start = s, sp_end = e, sp_kind = kind\<rparr>)
     (filter (\<lambda>(s, e). s < e) locs)"

fun drop_overlaps :: "nat \<Rightarrow> span list \<Rightarrow> span list" where
  "drop_overlaps lastEnd [] = []"
| "drop_overlaps lastEnd (sp # sps) = (if sp_start sp < lastEnd then drop_overlaps lastEnd sps
     else sp # drop_overlaps (sp_end sp) sps)"

definition span_entity :: "nat list \<Rightarrow> span \<Rightarrow> entity" where
  "span_entity rs sp = \<lparr>ent_Kind = sp_kind sp, ent_Offset = utf16Len (take (sp_start sp) rs),
     ent_Length = utf16Len (take (sp_end sp - sp_start sp) (drop (sp_start sp) rs))\<rparr>"

definition messageEntities :: "(nat \<Rightarrow> bool) \<Rightarrow> string \<Rightarrow> entity list" where
  "messageEntities uc txt = (let rs = runes txt;
       spans = add_spans EntityURL (map (trim_url rs) (find_all match_url 0 0 rs))
         @ add_spans EntityMention (find_all match_mention 0 0 rs)
         @ add_spans EntityHashtag (find_all (match_hashtag uc) 0 0 rs)
     in map (span_entity rs) (drop_overlaps 0 (sort_key sp_start spans)))"

section \<open>The entities lie in the text, in order, without overlap\<close>

lemma utf16Len_append [simp]: "utf16Len (xs @ ys) = utf16Len xs + utf16Len ys"
  by (simp add: utf16Len_def)

lemma utf16Len_pos: "xs \<noteq> [] \<Longrightarrow> 0 < utf16Len xs"
  by (cases xs) (simp_all add: utf16Len_def utf16_width_def)

lemma utf16Len_take_mono: "i \<le> j \<Longrightarrow> utf16Len (take i rs) \<le> utf16Len (take j rs)"
  by (metis le_add1 le_add_diff_inverse take_add utf16Len_append)

lemma literal_length: "literal cs rs = Some t \<Longrightarrow> length rs = length cs + length t"
  by (induction cs rs rule: literal.induct) (auto split: if_splits)

lemma match_url_bounds: "match_url rs = Some n \<Longrightarrow> 0 < n \<and> n \<le> length rs"
proof -
  assume "match_url rs = Some n"
  then obtain t where t: "url_prefix rs = Some t" "0 < length (takeWhile nonspace_rune t)"
    "n = length rs - length t + length (takeWhile nonspace_rune t)"
    by (auto simp: match_url_def Let_def split: option.splits if_splits)
  then have "length t \<le> length rs"
    by (auto simp: url_prefix_def split: option.splits dest!: literal_length)
  with t length_takeWhile_le [of nonspace_rune t] show ?thesis
    by linarith
qed

lemma match_mention_bounds: "match_mention rs = Some n \<Longrightarrow> 0 < n \<and> n \<le> length rs"
  using length_takeWhile_le [of word_rune "tl rs"]
  by (cases rs) (auto simp: Let_def split: if_splits)

lemma match_hashtag_bounds: "match_hashtag uc rs = Some n \<Longrightarrow> 0 < n \<and> n \<le> length rs"
  using length_takeWhile_le [of "tag_rune uc" "tl rs"]
  by (cases rs) (auto simp: Let_def split: if_splits)

lemma find_all_range:
  "(\<And>rs n. m rs = Some n \<Longrightarrow> 0 < n \<and> n \<le> length rs) \<Longrightarrow> (s, e) \<in> set (find_all m i skip rs) \<Longrightarrow>
    s < e \<and> e \<le> i + length rs"
proof (induction m i skip rs rule: find_all.induct)
  case (3 m i r rs)
  show ?case
  proof (cases "m (r # rs)")
    case None
    with 3 show ?thesis
      by simp
  next
    case (Some n)
    with 3(2) [OF Some 3(3)] 3(3) [OF Some] 3(4) show ?thesis
      by auto
  qed
qed auto

lemma add_spans_in:
  "sp \<in> set (add_spans k locs) \<Longrightarrow> (sp_start sp, sp_end sp) \<in> set locs \<and> sp_start sp < sp_end sp"
  by (auto simp: add_spans_def)

lemma spans_bounds:
  assumes "sp \<in> set (add_spans EntityURL (map (trim_url rs) (find_all match_url 0 0 rs))
      @ add_spans EntityMention (find_all match_mention 0 0 rs)
      @ add_spans EntityHashtag (find_all (match_hashtag uc) 0 0 rs))"
  shows "sp_start sp < sp_end sp \<and> sp_end sp \<le> length rs"
proof -
  have url: "e \<le> length rs" if "(s, e) = trim_url rs (s', e')" "(s', e') \<in> set (find_all match_url 0 0 rs)" for s e s' e'
  proof -
    have "s' < e' \<and> e' \<le> length rs"
      using find_all_range [OF match_url_bounds that(2)] by simp
    moreover have "length (dropWhile (\<lambda>r. r \<in> set urlTrailing) (rev (take (e' - s') (drop s' rs)))) \<le> e' - s'"
      by (rule order_trans [OF length_dropWhile_le]) simp
    moreover have "e = s' + length (dropWhile (\<lambda>r. r \<in> set urlTrailing) (rev (take (e' - s') (drop s' rs))))"
      using that(1) by (simp add: trim_url_def)
    ultimately show ?thesis
      by linarith
  qed
  from assms consider
      "sp \<in> set (add_spans EntityURL (map (trim_url rs) (find_all match_url 0 0 rs)))"
    | "sp \<in> set (add_spans EntityMention (find_all match_mention 0 0 rs))"
    | "sp \<in> set (add_spans EntityHashtag (find_all (match_hashtag uc) 0 0 rs))"
    by auto
  then show ?thesis
  proof cases
    case 1
    then show ?thesis
      using add_spans_in [OF 1] url by auto
  next
    case 2
    then show ?thesis
      using add_spans_in [OF 2] find_all_range [OF match_mention_bounds] by fastforce
  next
    case 3
    then show ?thesis
      using add_spans_in [OF 3] find_all_range [OF match_hashtag_bounds] by fastforce
  qed
qed

text \<open>Consecutive entities, from an offset on: each starts where or after the one before ends.\<close>

fun laid_out :: "nat \<Rightarrow> entity list \<Rightarrow> nat \<Rightarrow> bool" where
  "laid_out a [] b \<longleftrightarrow> a \<le> b"
| "laid_out a (x # xs) b \<longleftrightarrow> a \<le> ent_Offset x \<and> 0 < ent_Length x \<and> laid_out (ent_Offset x + ent_Length x) xs b"

lemma drop_overlaps_laid_out:
  assumes "\<And>sp. sp \<in> set sps \<Longrightarrow> sp_start sp < sp_end sp \<and> sp_end sp \<le> length rs" "a \<le> length rs"
  shows "laid_out (utf16Len (take a rs)) (map (span_entity rs) (drop_overlaps a sps)) (utf16Len rs)"
  using assms
proof (induction a sps rule: drop_overlaps.induct)
  case (1 a)
  then show ?case
    using utf16Len_take_mono [of a "length rs" rs] by simp
next
  case (2 a sp sps)
  have sp: "sp_start sp < sp_end sp" "sp_end sp \<le> length rs"
    using 2(3) [of sp] by simp_all
  show ?case
  proof (cases "sp_start sp < a")
    case True
    with 2 show ?thesis
      by simp
  next
    case False
    have "take (sp_end sp) rs = take (sp_start sp) rs @ take (sp_end sp - sp_start sp) (drop (sp_start sp) rs)"
      using sp by (metis le_add_diff_inverse less_imp_le take_add)
    then have "utf16Len (take (sp_end sp) rs) = ent_Offset (span_entity rs sp) + ent_Length (span_entity rs sp)"
      by (simp add: span_entity_def)
    moreover have "0 < ent_Length (span_entity rs sp)"
      using sp by (auto simp: span_entity_def intro!: utf16Len_pos)
    moreover have "utf16Len (take a rs) \<le> ent_Offset (span_entity rs sp)"
      using False utf16Len_take_mono [of a "sp_start sp" rs] by (simp add: span_entity_def)
    ultimately show ?thesis
      using 2(2) [OF False] 2(3) sp False by simp
  qed
qed

text \<open>C13: The entities of a text come in order of their offsets, are not empty, do not
  overlap and end inside the text, measured in UTF-16 units.\<close>

theorem messageEntities_laid_out:
  "laid_out 0 (messageEntities uc txt) (utf16Len (runes txt))"
proof -
  let ?rs = "runes txt"
  let ?sps = "add_spans EntityURL (map (trim_url ?rs) (find_all match_url 0 0 ?rs))
      @ add_spans EntityMention (find_all match_mention 0 0 ?rs)
      @ add_spans EntityHashtag (find_all (match_hashtag uc) 0 0 ?rs)"
  have "laid_out (utf16Len (take 0 ?rs)) (map (span_entity ?rs) (drop_overlaps 0 (sort_key sp_start ?sps))) (utf16Len ?rs)"
    by (rule drop_overlaps_laid_out) (simp_all only: set_sort spans_bounds)
  then show ?thesis
    by (simp add: messageEntities_def Let_def utf16Len_def)
qed

end
