(* ===== verification/Wire.thy ===== *)
theory Wire imports Entities MemDB begin

text \<open>
  What the handlers exchange with clients: the parts of the \<^verbatim>\<open>tg\<close> classes that the code
  reads or fills in. A class is a datatype with the constructors the code makes or
  switches on; \<open>...Other\<close> stands for every constructor it does not know. A peer is the
  user id inside \<^verbatim>\<open>tg.PeerUser\<close>, the only peer class the code makes. Flag words follow
  from the fields (\<^verbatim>\<open>SetFlags\<close>) and are left out.
\<close>

section \<open>Requests\<close>

datatype input_peer = InputPeerSelf | InputPeerUser int int | InputPeerOther

datatype input_user = InputUserSelf | InputUser int int | InputUserOther

datatype input_dialog_peer = InputDialogPeer input_peer | InputDialogPeerOther

datatype input_file = InputFile int | InputFileBig int | InputFileOther

datatype input_media =
    InputMediaUploadedPhoto input_file
  | InputMediaUploadedDocument input_file
  | InputMediaOther

datatype input_location =
    InputPhotoFileLocation int int
  | InputDocumentFileLocation int int
  | InputLocationOther

record phone_contact =
  ic_ClientID :: int
  ic_Phone :: string
  ic_FirstName :: string
  ic_LastName :: string

section \<open>Replies\<close>

datatype user_status = UserStatusOnline int | UserStatusRecently | UserStatusOffline int

record tg_user =
  tu_ID :: int
  tu_AccessHash :: int
  tu_FirstName :: string
  tu_LastName :: string
  tu_Self :: bool
  tu_Status :: user_status
  tu_Username :: string
  tu_Phone :: string
  tu_Bot :: bool
  tu_BotInfoVersion :: int

datatype user_class = UserFilled tg_user | UserEmpty int

record tg_photo =
  ph_ID :: int
  ph_AccessHash :: int
  ph_FileReference :: bytes
  ph_Date :: int
  ph_DCID :: int
  ph_Size :: int

record tg_message =
  tm_ID :: int
  tm_Out :: bool
  tm_FromID :: int
  tm_PeerID :: int
  tm_Message :: string
  tm_Date :: int
  tm_EditDate :: int
  tm_Media :: "tg_photo option"
  tm_Entities :: "entity list"

datatype draft_class = DraftMessageEmpty | DraftMessage string int "entity list"

record tg_dialog =
  td_Peer :: int
  td_TopMessage :: int
  td_ReadInboxMaxID :: int
  td_ReadOutboxMaxID :: int
  td_UnreadCount :: int
  td_Draft :: "draft_class option"

record tg_state =
  ts_Pts :: int
  ts_Qts :: int
  ts_Seq :: int
  ts_Date :: int
  ts_UnreadCount :: int

text \<open>The last two numbers of an update are its pts and its count.\<close>

datatype update_class =
    UpdateMessageID int int
  | UpdateNewMessage tg_message int int
  | UpdateEditMessage tg_message int int
  | UpdateDeleteMessages "int list" int int
  | UpdateReadHistoryInbox int int int int int
  | UpdateReadHistoryOutbox int int int int
  | UpdateDraftMessage int draft_class

record tg_updates =
  up_Updates :: "update_class list"
  up_Users :: "user_class list"
  up_Date :: int

datatype authorization = Authorization tg_user | SignUpRequired

record tg_messages =
  ms_Messages :: "tg_message list"
  ms_Users :: "user_class list"

record tg_dialogs =
  ds_Dialogs :: "tg_dialog list"
  ds_Messages :: "tg_message list"
  ds_Users :: "user_class list"
  ds_State :: "tg_state option"

record tg_contacts =
  cs_UserIDs :: "int list"
  cs_ClientIDs :: "int list"
  cs_Users :: "user_class list"

datatype difference_class =
    DifferenceEmpty int
  | Difference "tg_message list" "update_class list" "user_class list" tg_state

section \<open>Conversions without state\<close>

definition photoMedia :: "File \<Rightarrow> tg_photo" where
  "photoMedia f = \<lparr>ph_ID = file_ID f, ph_AccessHash = file_AccessHash f,
     ph_FileReference = file_FileReference f, ph_Date = Unix (file_CreatedAt f), ph_DCID = 1,
     ph_Size = file_Size f\<rparr>"

text \<open>The first argument is the class \<^verbatim>\<open>\p{L}\<close> of the environment, for the entities.\<close>

definition dmMessage :: "(nat \<Rightarrow> bool) \<Rightarrow> Message \<Rightarrow> tg_message" where
  "dmMessage uc m = \<lparr>tm_ID = msg_LocalID m, tm_Out = msg_Out m, tm_FromID = msg_FromUserID m,
     tm_PeerID = msg_PeerUserID m, tm_Message = msg_Text m, tm_Date = Unix (msg_Date m),
     tm_EditDate = (if msg_EditDate m \<noteq> zero_time then Unix (msg_EditDate m) else 0),
     tm_Media = map_option photoMedia (msg_Media m), tm_Entities = messageEntities uc (msg_Text m)\<rparr>"

definition draftMessage :: "(nat \<Rightarrow> bool) \<Rightarrow> Draft \<Rightarrow> draft_class" where
  "draftMessage uc d = DraftMessage (dr_Text d) (Unix (dr_Date d)) (messageEntities uc (dr_Text d))"

definition draftUpdate :: "int \<Rightarrow> draft_class \<Rightarrow> update_class" where
  "draftUpdate peerID draft = UpdateDraftMessage peerID draft"

definition tgState :: "State \<Rightarrow> tg_state" where
  "tgState st = \<lparr>ts_Pts = st_Pts st, ts_Qts = st_Qts st, ts_Seq = st_Seq st,
     ts_Date = Unix (st_Date st), ts_UnreadCount = st_UnreadCount st\<rparr>"

fun inputFileID :: "input_file \<Rightarrow> int option" where
  "inputFileID (InputFile i) = Some i"
| "inputFileID (InputFileBig i) = Some i"
| "inputFileID InputFileOther = None"

fun uploadedFileID :: "input_media \<Rightarrow> int option" where
  "uploadedFileID (InputMediaUploadedPhoto f) = inputFileID f"
| "uploadedFileID (InputMediaUploadedDocument f) = inputFileID f"
| "uploadedFileID InputMediaOther = None"

fun locationID :: "input_location \<Rightarrow> (int \<times> int) option" where
  "locationID (InputPhotoFileLocation i h) = Some (i, h)"
| "locationID (InputDocumentFileLocation i h) = Some (i, h)"
| "locationID InputLocationOther = None"

end
