(* ===== verification/KeyValue.thy ===== *)
theory KeyValue imports MemDB begin

text \<open>
  The interface of a table: a lookup that sees the last write under a key and nothing
  else. What its clients need is proved from these laws; each table of the model is an
  interpretation, with the operations of the code as the parameters.
\<close>

locale kv_store =
  fixes get :: "'s \<Rightarrow> 'k \<Rightarrow> 'v option" and put :: "'k \<Rightarrow> 'v \<Rightarrow> 's \<Rightarrow> 's"
  assumes get_put: "get (put k v s) k' = (if k' = k then Some v else get s k')"
begin

lemma get_puts: "get (fold (\<lambda>(k, v). put k v) kvs s) k =
    (case map_of (rev kvs) k of None \<Rightarrow> get s k | Some v \<Rightarrow> Some v)"
  by (induction kvs arbitrary: s) (auto simp: get_put map_add_def split: option.splits)

text \<open>Writes under distinct keys may come in any order.\<close>

lemma puts_order:
  assumes "distinct (map fst kvs)" "mset kvs = mset kvs'"
  shows "get (fold (\<lambda>(k, v). put k v) kvs s) k = get (fold (\<lambda>(k, v). put k v) kvs' s) k"
proof -
  have "distinct (map fst kvs')"
    using assms by (metis mset_eq_imp_distinct_iff mset_map)
  moreover have "set (rev kvs) = set (rev kvs')"
    using mset_eq_setD [OF assms(2)] by simp
  ultimately have "map_of (rev kvs) = map_of (rev kvs')"
    using assms(1) by (subst map_of_inject_set) (simp_all only: rev_map [symmetric] distinct_rev)
  then show ?thesis
    by (simp add: get_puts)
qed

lemma put_twice: "get (put k v (put k v' s)) k' = get (put k v s) k'"
  by (simp add: get_put)

end

locale kv_table = kv_store +
  fixes del :: "'k \<Rightarrow> 's \<Rightarrow> 's"
  assumes get_del: "get (del k s) k' = (if k' = k then None else get s k')"
begin

lemma del_put: "get (del k (put k v s)) k' = get (del k s) k'"
  by (simp add: get_put get_del)

lemma get_dels: "get (fold del ks s) k = (if k \<in> set ks then None else get s k)"
  by (induction ks arbitrary: s) (auto simp: get_del)

text \<open>A key that is written and never deleted or overwritten keeps its value.\<close>

lemma survives: "k \<notin> set ks \<Longrightarrow> k \<notin> fst ` set kvs \<Longrightarrow>
    get (fold (\<lambda>(k, v). put k v) kvs (fold del ks (put k v s))) k = Some v"
  by (simp add: get_puts get_dels get_put map_of_eq_None_iff [THEN iffD2] rev_map split: option.split)

end

text \<open>The answer of a lookup that returns an option or an error.\<close>

definition answer :: "'a option outcome \<times> 's \<Rightarrow> 'a option" where
  "answer r = (case fst r of Ok x \<Rightarrow> x | _ \<Rightarrow> None)"

definition found :: "'a outcome \<times> 's \<Rightarrow> 'a option" where
  "found r = (case fst r of Ok x \<Rightarrow> Some x | _ \<Rightarrow> None)"

section \<open>The tables of the database\<close>

interpretation session_table: kv_table
  "\<lambda>d key. answer (SessionUserID key d)" "\<lambda>key uid d. snd (BindSession key uid d)"
  "\<lambda>key d. snd (Unbind key d)"
  by unfold_locales (simp_all add: answer_def SessionUserID_def BindSession_def Unbind_def)

interpretation flow_table: kv_table
  "\<lambda>d uid. map_of (botStates d) uid" "\<lambda>uid st d. snd (SetBotFatherState uid st d)"
  "\<lambda>uid d. snd (ClearBotFatherState uid d)"
  by unfold_locales (simp_all add: SetBotFatherState_def ClearBotFatherState_def)

lemma botCommandsKey_inj:
  "chr 0 \<notin> set sc \<Longrightarrow> chr 0 \<notin> set sc' \<Longrightarrow>
    botCommandsKey uid sc lc = botCommandsKey uid' sc' lc' \<longleftrightarrow> uid = uid' \<and> sc = sc' \<and> lc = lc'"
  unfolding botCommandsKey_def
  using separated_inj [OF FormatInt_no_nul FormatInt_no_nul, of uid "sc @ chr 0 # lc" uid' "sc' @ chr 0 # lc'"]
    separated_inj [of "chr 0" sc sc' lc lc'] FormatInt_inj by auto

lemma phoneCodeKey_inj:
  "chr 0 \<notin> set p \<Longrightarrow> chr 0 \<notin> set p' \<Longrightarrow>
    phoneCodeKey p h = phoneCodeKey p' h' \<longleftrightarrow> p = p' \<and> h = h'"
  unfolding phoneCodeKey_def using separated_inj [of "chr 0" p p' h h'] by auto

text \<open>The command lists by bot, scope and language; scopes are hexadecimal texts.\<close>

definition scope_key :: "int \<times> bytes \<times> string \<Rightarrow> string" where
  "scope_key k = (case k of (b, scope, lang) \<Rightarrow> botCommandsKey b (hex scope) lang)"

lemma hex_no_nul: "chr 0 \<notin> set (hex bs)"
proof -
  have digit: "hex_digit n \<in> set ''0123456789abcdef''" if "n < 16" for n
    unfolding hex_digit_def using that by (intro nth_mem) (simp add: eval_nat_numeral)
  have "(of_char b :: nat) div 16 < 16" for b :: char
    by (simp add: less_mult_imp_div_less)
  then have "set (hex bs) \<subseteq> set ''0123456789abcdef''"
    using digit by (induction bs) (auto simp: hex_def)
  moreover have "chr 0 \<notin> set ''0123456789abcdef''"
    by (simp add: chr_def char_of_def)
  ultimately show ?thesis
    by blast
qed

lemma hex_key_inj [simp]:
  "botCommandsKey b (hex s) l = botCommandsKey b' (hex s') l' \<longleftrightarrow> b = b' \<and> s = s' \<and> l = l'"
  using botCommandsKey_inj [OF hex_no_nul hex_no_nul] hex_inj by metis

interpretation command_table: kv_table
  "\<lambda>d k. map_of (botCommands d) (scope_key k)"
  "\<lambda>(b, scope, lang) cmds d. snd (SetBotCommands b (hex scope) lang cmds d)"
  "\<lambda>(b, scope, lang) d. snd (ResetBotCommands b (hex scope) lang d)"
  by unfold_locales
    (auto simp: SetBotCommands_def ResetBotCommands_def scope_key_def split: prod.splits)

text \<open>Drafts by account and peer, contacts by owner and contact.\<close>

interpretation draft_table: kv_table
  "\<lambda>d (u, p). map_of (getd (drafts d) u) p"
  "\<lambda>(u, p) x d. d\<lparr>drafts := mput u (mput p x (getd (drafts d) u)) (drafts d)\<rparr>"
  "\<lambda>(u, p) d. d\<lparr>drafts := mmod u (mdel p) (drafts d)\<rparr>"
  by unfold_locales (auto simp: getd_mmod getd_def split: prod.splits option.splits)

interpretation contact_table: kv_store
  "\<lambda>d (u, p). map_option (\<lambda>c. (ct_FirstName c, ct_LastName c)) (map_of (getd (contacts d) u) p)"
  "\<lambda>(u, p) (fn, ln) d. snd (AddContact u p fn ln d)"
  by unfold_locales (auto simp: AddContact_def split: prod.splits)

end
