(* ===== verification/ObjStore.thy ===== *)
theory ObjStore imports KeyValue begin

text \<open>
  The in-memory object store of \<^verbatim>\<open>memory/objstore.go\<close>. Stored and returned slices are
  copies, so a byte list is a faithful value. \<^verbatim>\<open>GetRange\<close> adds two 64-bit integers: the
  sum is written with its wrap-around, and a slice expression out of order panics.
\<close>

record objstore =
  objs :: "(string, bytes) gomap"

definition NewObjectStore :: objstore where
  "NewObjectStore = \<lparr>objs = []\<rparr>"

definition ObjPut :: "string \<Rightarrow> bytes \<Rightarrow> (objstore, unit) go" where
  "ObjPut key content = modify (\<lambda>s. s\<lparr>objs := mput key content (objs s)\<rparr>)"

definition ObjGet :: "string \<Rightarrow> (objstore, bytes) go" where
  "ObjGet key = bnd (gets (\<lambda>s. map_of (objs s) key)) (\<lambda>x. case x of
       None \<Rightarrow> fail (ErrObjectNotFound key)
     | Some content \<Rightarrow> ret content)"

text \<open>\<^verbatim>\<open>data[offset:end]\<close> for an offset that is in range and an end that is not beyond it.\<close>

definition slice :: "bytes \<Rightarrow> int \<Rightarrow> int \<Rightarrow> (objstore, bytes) go" where
  "slice content lo hi = (if hi < lo then gopanic
     else ret (take (nat (hi - lo)) (drop (nat lo) content)))"

definition ObjGetRange :: "string \<Rightarrow> int \<Rightarrow> int \<Rightarrow> (objstore, bytes) go" where
  "ObjGetRange key offset len = bnd (gets (\<lambda>s. map_of (objs s) key)) (\<lambda>x. case x of
       None \<Rightarrow> fail (ErrObjectNotFound key)
     | Some content \<Rightarrow>
        let n = int (length content) in
        if offset < 0 \<or> n < offset then fail (ErrOffsetRange offset)
        else let e = int64 (offset + len); e' = (if len < 0 \<or> n < e then n else e)
          in slice content offset e')"

definition ObjStat :: "string \<Rightarrow> (objstore, int) go" where
  "ObjStat key = bnd (gets (\<lambda>s. map_of (objs s) key)) (\<lambda>x. case x of
       None \<Rightarrow> fail (ErrObjectNotFound key)
     | Some content \<Rightarrow> ret (int (length content)))"

definition ObjDelete :: "string \<Rightarrow> (objstore, unit) go" where
  "ObjDelete key = modify (\<lambda>s. s\<lparr>objs := mdel key (objs s)\<rparr>)"

interpretation object_table: kv_table
  "\<lambda>s key. found (ObjGet key s)" "\<lambda>key content s. snd (ObjPut key content s)"
  "\<lambda>key s. snd (ObjDelete key s)"
  by unfold_locales (simp_all add: found_def ObjGet_def ObjPut_def ObjDelete_def split: option.split)

section \<open>The interface\<close>

text \<open>
  \<^verbatim>\<open>teled.ObjectStore\<close>: the operations of a store, and a call of one of them with its answer.
\<close>

record 's object_ops =
  op_put :: "string \<Rightarrow> bytes \<Rightarrow> ('s, unit) go"
  op_get :: "string \<Rightarrow> ('s, bytes) go"
  op_range :: "string \<Rightarrow> int \<Rightarrow> int \<Rightarrow> ('s, bytes) go"
  op_stat :: "string \<Rightarrow> ('s, int) go"
  op_delete :: "string \<Rightarrow> ('s, unit) go"

definition mem_ops :: "objstore object_ops" where
  "mem_ops = \<lparr>op_put = ObjPut, op_get = ObjGet, op_range = ObjGetRange, op_stat = ObjStat, op_delete = ObjDelete\<rparr>"

datatype store_call =
    StorePut string bytes
  | StoreGet string
  | StoreRange string int int
  | StoreStat string
  | StoreDelete string

datatype store_answer = Done | Content bytes | Size int

primrec store_key :: "store_call \<Rightarrow> string" where
  "store_key (StorePut k content) = k"
| "store_key (StoreGet k) = k"
| "store_key (StoreRange k offset len) = k"
| "store_key (StoreStat k) = k"
| "store_key (StoreDelete k) = k"

primrec call_store :: "'s object_ops \<Rightarrow> store_call \<Rightarrow> ('s, store_answer) go" where
  "call_store ops (StorePut k content) = bnd (op_put ops k content) (\<lambda>_. ret Done)"
| "call_store ops (StoreGet k) = bnd (op_get ops k) (\<lambda>b. ret (Content b))"
| "call_store ops (StoreRange k offset len) = bnd (op_range ops k offset len) (\<lambda>b. ret (Content b))"
| "call_store ops (StoreStat k) = bnd (op_stat ops k) (\<lambda>n. ret (Size n))"
| "call_store ops (StoreDelete k) = bnd (op_delete ops k) (\<lambda>_. ret Done)"

primrec run_store :: "'s object_ops \<Rightarrow> store_call list \<Rightarrow> 's \<Rightarrow> store_answer outcome list \<times> 's" where
  "run_store ops [] s = ([], s)"
| "run_store ops (c # cs) s = (let (x, s') = call_store ops c s; (xs, s'') = run_store ops cs s' in (x # xs, s''))"

section \<open>Ranges\<close>

lemma int64_small: "0 \<le> x \<Longrightarrow> x < 2 ^ 63 \<Longrightarrow> int64 x = x"
  by (rule int64_id) (simp add: int64_range_def)

lemma ObjGetRange_run:
  assumes "map_of (objs s) key = Some content" "0 \<le> offset" "offset \<le> int (length content)"
    "0 \<le> len" "offset + len < 2 ^ 63"
  shows "ObjGetRange key offset len s = (Ok (take (nat len) (drop (nat offset) content)), s)"
proof -
  have "int64 (offset + len) = offset + len"
    using assms by (intro int64_small) simp_all
  with assms show ?thesis
    by (auto simp: ObjGetRange_def slice_def Let_def min_def)
qed

text \<open>C14: Reading an object in consecutive chunks of any positive size gives back its
  bytes: the chunks, joined, are the content, and the last one is short or empty.\<close>

theorem ObjGetRange_chunks:
  assumes "map_of (objs s) key = Some content" "int (length content) < 2 ^ 62" "int L < 2 ^ 62"
    "length content \<le> n * L" "(n - 1) * L \<le> length content"
  shows "concat (map (\<lambda>i. the (found (ObjGetRange key (int (i * L)) (int L) s))) [0..<n]) = content"
proof -
  have "ObjGetRange key (int (i * L)) (int L) s = (Ok (take L (drop (i * L) content)), s)" if "i < n" for i
  proof -
    have "i * L \<le> (n - 1) * L"
      using that by (intro mult_le_mono1) simp
    then have "i * L \<le> length content"
      using assms(5) by linarith
    moreover from this have "int (i * L) \<le> int (length content)"
      by (simp only: of_nat_le_iff)
    then have "int (i * L) + int L < 2 ^ 62 + 2 ^ 62"
      by (intro add_strict_mono) (use assms(2,3) in \<open>simp_all only: order_le_less_trans\<close>)
    then have "int (i * L) + int L < 2 ^ 63"
      by simp
    ultimately show ?thesis
      using assms(1) by (subst ObjGetRange_run) (simp_all only: nat_int of_nat_0_le_iff of_nat_le_iff)
  qed
  then have "map (\<lambda>i. the (found (ObjGetRange key (int (i * L)) (int L) s))) [0..<n] =
      map (\<lambda>i. take L (drop (i * L) content)) [0..<n]"
    by (intro map_cong) (simp_all add: found_def)
  moreover have "concat (map (\<lambda>i. take L (drop (i * L) content)) [0..<m]) = take (m * L) content" for m
  proof (induction m)
    case (Suc m)
    then show ?case
      by (simp add: take_add add.commute [of L])
  qed simp
  ultimately have "concat (map (\<lambda>i. the (found (ObjGetRange key (int (i * L)) (int L) s))) [0..<n]) = take (n * L) content"
    by (simp only:)
  then show ?thesis
    by (simp only: take_all [OF assms(4)])
qed

theorem ObjGetRange_chunks_witness:
  "concat (map (\<lambda>i. the (found (ObjGetRange ''k'' (int (i * 2)) (int 2) \<lparr>objs = [(''k'', ''abcde'')]\<rparr>))) [0..<3]) = ''abcde''"
  by (rule ObjGetRange_chunks) simp_all

lemma ObjGetRange_fits:
  assumes size: "\<And>content. map_of (objs s) key = Some content \<Longrightarrow> int (length content) < 2 ^ 62"
    and len: "len < 2 ^ 31"
  shows "fst (ObjGetRange key offset len s) \<noteq> Panic"
proof (cases "map_of (objs s) key")
  case (Some content)
  then have n: "int (length content) < 2 ^ 62"
    using size by simp
  show ?thesis
  proof (cases "0 \<le> offset \<and> offset \<le> int (length content) \<and> 0 \<le> len")
    case True
    then have "offset < 2 ^ 62"
      using n by linarith
    then have "offset + len < 2 ^ 62 + 2 ^ 31"
      using len by (rule add_strict_mono)
    then have "offset + len < 2 ^ 63"
      by simp
    then show ?thesis
      using ObjGetRange_run [OF Some, of offset len] True by simp
  next
    case False
    then show ?thesis
      using Some by (auto simp: ObjGetRange_def slice_def Let_def)
  qed
qed (simp add: ObjGetRange_def)

text \<open>The range of an object is never a panic when the limit is a 32-bit integer, as
  in the requests clients can send for objects below 4 EiB; with a 64-bit length the
  sum can wrap around, and then the slice expression panics.\<close>

theorem ObjGetRange_no_panic:
  "(\<forall>key offset len s. (\<forall>content. map_of (objs s) key = Some content \<longrightarrow> int (length content) < 2 ^ 62) \<longrightarrow>
      len < 2 ^ 31 \<longrightarrow> fst (ObjGetRange key offset len s) \<noteq> Panic) \<and>
   fst (ObjGetRange ''k'' 1 (2 ^ 63 - 1) \<lparr>objs = [(''k'', ''ab'')]\<rparr>) = Panic"
proof (intro conjI allI impI)
  fix key :: string and offset len :: int and s :: objstore
  assume "\<forall>content. map_of (objs s) key = Some content \<longrightarrow> int (length content) < 2 ^ 62" "len < 2 ^ 31"
  then show "fst (ObjGetRange key offset len s) \<noteq> Panic"
    by (intro ObjGetRange_fits) simp_all
next
  have "int64 (1 + (2 ^ 63 - 1)) = - (2 ^ 63)"
    by (simp add: int64_def)
  then show "fst (ObjGetRange ''k'' 1 (2 ^ 63 - 1) \<lparr>objs = [(''k'', ''ab'')]\<rparr>) = Panic"
    by (simp add: ObjGetRange_def slice_def Let_def)
qed

theorem ObjGetRange_no_panic_witness:
  "fst (ObjGetRange ''k'' 1 4096 \<lparr>objs = [(''k'', ''ab'')]\<rparr>) \<noteq> Panic"
  using ObjGetRange_no_panic [THEN conjunct1, rule_format, where key = "''k''" and offset = 1 and len = 4096
      and s = "\<lparr>objs = [(''k'', ''ab'')]\<rparr>"]
  by simp

end
