(* ===== verification/Staging.thy ===== *)
theory Staging imports KeyValue begin

text \<open>
  Uploads in progress, \<^verbatim>\<open>internal/rpc/staging.go\<close>: parts by number until the media is
  sent. \<^verbatim>\<open>file\<close> returns a pointer into the map, so \<^verbatim>\<open>put\<close> on it changes the staged entry.
\<close>

record stagedFile =
  sf_parts :: "(int, bytes) gomap"
  sf_max :: int

type_synonym stagingKey = "int \<times> int"

type_synonym uploadStaging = "(stagingKey, stagedFile) gomap"

definition empty_staged :: stagedFile where
  "empty_staged = \<lparr>sf_parts = [], sf_max = 0\<rparr>"

definition staged_put :: "int \<Rightarrow> bytes \<Rightarrow> stagedFile \<Rightarrow> stagedFile" where
  "staged_put part content f = f\<lparr>sf_parts := mput part content (sf_parts f),
     sf_max := (if sf_max f < part then part else sf_max f)\<rparr>"

definition assemble :: "stagedFile \<Rightarrow> bytes" where
  "assemble f = concat (map (\<lambda>i. getd (sf_parts f) i) [0..sf_max f])"

definition newUploadStaging :: uploadStaging where
  "newUploadStaging = []"

definition staging_file :: "stagingKey \<Rightarrow> uploadStaging \<Rightarrow> uploadStaging" where
  "staging_file key u = (case map_of u key of None \<Rightarrow> mput key empty_staged u | Some _ \<Rightarrow> u)"

definition staging_take :: "stagingKey \<Rightarrow> uploadStaging \<Rightarrow> stagedFile option \<times> uploadStaging" where
  "staging_take key u = (case map_of u key of None \<Rightarrow> (None, u) | Some f \<Rightarrow> (Some f, mdel key u))"

text \<open>\<^verbatim>\<open>h.staging.file(key).put(part, bytes)\<close>\<close>

definition stage_part :: "stagingKey \<Rightarrow> int \<Rightarrow> bytes \<Rightarrow> uploadStaging \<Rightarrow> uploadStaging" where
  "stage_part key part content u = mmod key (staged_put part content) (staging_file key u)"

interpretation part_table: kv_store
  "\<lambda>f i. map_of (sf_parts f) i" "\<lambda>i content f. staged_put i content f"
  by unfold_locales (simp add: staged_put_def)

abbreviation put_parts :: "(int \<times> bytes) list \<Rightarrow> stagedFile \<Rightarrow> stagedFile" where
  "put_parts ps f \<equiv> fold (\<lambda>(i, content). staged_put i content) ps f"

lemma sf_max_puts: "sf_max (put_parts ps f) = fold (\<lambda>p mx. max mx (fst p)) ps (sf_max f)"
  by (induction ps arbitrary: f) (auto simp: staged_put_def max_def)

lemma fold_max_set: "fold (\<lambda>p mx. max mx (fst p)) ps (a :: int) = Max (insert a (fst ` set ps))"
proof (induction ps arbitrary: a)
  case (Cons p ps)
  have "Max (insert (max a x) S) = Max (insert a (insert x S))" if "finite S" for S and x :: int
    using that by (cases "S = {}") (simp_all add: max.assoc)
  with Cons [of "max a (fst p)"] show ?case
    by simp
qed simp

text \<open>The assembled upload does not depend on the order in which the parts arrive:
  parts with distinct numbers, in any order, assemble to the same bytes.\<close>

theorem assemble_order_free:
  assumes "distinct (map fst ps)" "mset ps = mset qs"
  shows "assemble (put_parts ps f) = assemble (put_parts qs f)"
proof -
  have "getd (sf_parts (put_parts ps f)) i = getd (sf_parts (put_parts qs f)) i" for i
    using part_table.puts_order [OF assms, of f i] by (simp add: getd_def)
  moreover have "sf_max (put_parts ps f) = sf_max (put_parts qs f)"
    unfolding sf_max_puts fold_max_set mset_eq_setD [OF assms(2)] ..
  ultimately show ?thesis
    by (simp add: assemble_def)
qed

theorem assemble_order_free_witness:
  "assemble (put_parts [(0, ''ab''), (1, ''cd''), (2, ''e'')] empty_staged) =
   assemble (put_parts [(2, ''e''), (0, ''ab''), (1, ''cd'')] empty_staged)"
  by (rule assemble_order_free) simp_all

lemma mvals_concat: "concat (map (\<lambda>i. getd m i) [a..b]) = concat (map (\<lambda>i. getd m' i) [a..b])"
  if "\<And>i. a \<le> i \<Longrightarrow> i \<le> b \<Longrightarrow> getd m i = getd m' i"
  using that by (auto intro!: arg_cong [where f = concat])

text \<open>C28: Parts numbered from zero without a gap assemble to their concatenation, in whatever
  order they arrive and however often one of them is sent again.\<close>

theorem assemble_parts:
  assumes "cs \<noteq> []" "set ps = set (zip (map int [0..<length cs]) cs)"
  shows "assemble (put_parts ps empty_staged) = concat cs"
proof -
  let ?zs = "zip (map int [0..<length cs]) cs"
  let ?f = "put_parts ps empty_staged"
  have "fst ` set ps = int ` {0..<length cs}"
    unfolding assms(2) by (metis length_map list.set_map map_fst_zip set_upt length_upt diff_zero)
  then have "sf_max ?f = Max (insert 0 (int ` {0..<length cs}))"
    by (simp add: sf_max_puts fold_max_set empty_staged_def)
  also have "\<dots> = int (length cs) - 1"
  proof (rule Max_eqI)
    have "0 < length cs"
      using assms by simp
    then show "int (length cs) - 1 \<in> insert 0 (int ` {0..<length cs})"
      by (intro insertI2 image_eqI [of _ _ "length cs - 1"]) (simp_all add: of_nat_diff Suc_leI)
    show "y \<le> int (length cs) - 1" if "y \<in> insert 0 (int ` {0..<length cs})" for y
      using that \<open>0 < length cs\<close> by auto
  qed simp
  finally have mx: "sf_max ?f = int (length cs) - 1" .
  have part: "getd (sf_parts ?f) (int i) = cs ! i" if "i < length cs" for i
  proof -
    have "(int i, cs ! i) \<in> set ?zs"
      using that by (auto simp: in_set_zip intro!: exI [of _ i])
    then have "(int i, cs ! i) \<in> set (rev ps)"
      by (simp add: assms(2))
    then obtain c where c: "map_of (rev ps) (int i) = Some c"
      by (metis not_Some_eq map_of_eq_None_iff image_eqI fst_conv)
    then have "(int i, c) \<in> set ?zs"
      using assms(2) by (metis map_of_SomeD set_rev)
    then have "c = cs ! i"
      by (auto simp: in_set_zip)
    with c show ?thesis
      using part_table.get_puts [of ps empty_staged "int i"] by (simp add: getd_def)
  qed
  have "[0..int (length cs) - 1] = map int [0..<length cs]"
    by (intro nth_equalityI) (simp_all add: nth_upto)
  then have "assemble ?f = concat (map (\<lambda>i. getd (sf_parts ?f) (int i)) [0..<length cs])"
    by (simp add: assemble_def mx comp_def)
  also have "map (\<lambda>i. getd (sf_parts ?f) (int i)) [0..<length cs] = cs"
    using part by (intro nth_equalityI) simp_all
  finally show ?thesis .
qed

theorem assemble_parts_witness:
  "assemble (put_parts [(1, ''c''), (0, ''ab''), (1, ''c'')] empty_staged) = ''abc''"
  using assemble_parts [of "[''ab'', ''c'']" "[(1, ''c''), (0, ''ab''), (1, ''c'')]"] by (simp add: insert_commute)

end
