(* ===== verification/Server.thy ===== *)
theory Server imports Wire ObjStore Staging MemReach begin

text \<open>
  The handler of the RPC layer: its state (the database, the object store, the uploads
  in progress and the live sessions), \<^verbatim>\<open>internal/rpc/handler.go\<close>, \<^verbatim>\<open>registry.go\<close> and
  \<^verbatim>\<open>convert.go\<close>, and \<^verbatim>\<open>push\<close> of \<^verbatim>\<open>messages.go\<close>. Logging, tracing and metrics have no
  effect on the state and are left out, the clock readings they make with them.
\<close>

section \<open>State\<close>

text \<open>\<^verbatim>\<open>mtproto.Session\<close>: the session id and the id of its auth key.\<close>

record Session =
  ses_ID :: int
  ses_KeyID :: bytes

text \<open>
  \<open>hasDB\<close> says whether a database is configured (\<^verbatim>\<open>h.db != nil\<close>). \<^verbatim>\<open>mtproto.Server.Send\<close>
  writes to a connection: whether the n-th call succeeds is part of the environment
  (\<open>send_ok\<close>), and \<open>pushed\<close> is what was sent, in order. \<open>enc_scope_default\<close> is the
  library's encoding of the default bot command scope, \<open>zone_offset\<close> the time zone database.
\<close>

record server = memdb +
  hasDB :: bool
  store :: "objstore option"
  reg_m :: "(int, (int, Session) gomap) gomap"
  reg_lastSeen :: "(int, int) gomap"
  staging :: uploadStaging
  enc_scope_default :: bytes
  zone_offset :: "string \<Rightarrow> int \<Rightarrow> int option"
  send_ok :: "nat \<Rightarrow> bool"
  send_pos :: nat
  pushed :: "(Session \<times> tg_updates) list"

text \<open>What a handler reads from its context: the request's session and the server.\<close>

record ctx =
  ctx_session :: "Session option"
  ctx_server :: bool

section \<open>Live sessions\<close>

definition track :: "int \<Rightarrow> Session \<Rightarrow> ('z server_scheme, unit) go" where
  "track userID s =
     bnd (modify (\<lambda>h. h\<lparr>reg_m := mput userID (mput (ses_ID s) s (getd (reg_m h) userID)) (reg_m h)\<rparr>)) (\<lambda>_.
     bnd now (\<lambda>t. modify (\<lambda>h. h\<lparr>reg_lastSeen := mput userID t (reg_lastSeen h)\<rparr>)))"

definition lastSeenAt :: "int \<Rightarrow> 'z server_scheme \<Rightarrow> int option" where
  "lastSeenAt userID h = map_of (reg_lastSeen h) userID"

definition untrack :: "int \<Rightarrow> int \<Rightarrow> ('z server_scheme, unit) go" where
  "untrack userID sessionID = modify (\<lambda>h. case map_of (reg_m h) userID of
       None \<Rightarrow> h
     | Some ss \<Rightarrow> h\<lparr>reg_m := (if mdel sessionID ss = [] then mdel userID (reg_m h)
                            else mput userID (mdel sessionID ss) (reg_m h))\<rparr>)"

definition reg_get :: "int \<Rightarrow> 'z server_scheme \<Rightarrow> Session list" where
  "reg_get userID h = mvals (getd (reg_m h) userID)"

section \<open>Errors\<close>

definition requireDB :: "('z server_scheme, unit) go" where
  "requireDB = bnd (gets hasDB) (\<lambda>b. if b then ret () else fail (RpcError 500 ''NOT_IMPLEMENTED''))"

text \<open>\<open>internal m\<close> is \<^verbatim>\<open>if err != nil { return h.internal(...) }\<close> after the call \<open>m\<close>.\<close>

definition internal :: "('s, 'a) go \<Rightarrow> ('s, 'a) go" where
  "internal m = on_err m (\<lambda>_. fail (RpcError 500 ''INTERNAL''))"

definition requireStore :: "('z server_scheme, unit) go" where
  "requireStore = bnd (gets store) (\<lambda>x. case x of
       None \<Rightarrow> fail (RpcError 500 ''NOT_IMPLEMENTED'')
     | Some _ \<Rightarrow> ret ())"

text \<open>A call of the object store, which panics when there is none (a nil interface).\<close>

definition withStore :: "(objstore, 'a) go \<Rightarrow> ('z server_scheme, 'a) go" where
  "withStore m = (\<lambda>h. case store h of
       None \<Rightarrow> (Panic, h)
     | Some o' \<Rightarrow> (case m o' of (r, o'') \<Rightarrow> (r, h\<lparr>store := Some o''\<rparr>)))"

section \<open>The caller\<close>

definition callerKeyID :: "ctx \<Rightarrow> bytes option" where
  "callerKeyID c = map_option ses_KeyID (ctx_session c)"

definition effectiveKeyID :: "bytes \<Rightarrow> ('z server_scheme, bytes) go" where
  "effectiveKeyID keyID = bnd (gets hasDB) (\<lambda>b. if \<not> b then ret keyID else
     bnd (PermAuthKey keyID) (\<lambda>perm. case perm of Some p \<Rightarrow> ret p | None \<Rightarrow> ret keyID))"

definition callerUser :: "ctx \<Rightarrow> ('z server_scheme, User option) go" where
  "callerUser c = bnd (gets hasDB) (\<lambda>b. case callerKeyID c of
       None \<Rightarrow> ret None
     | Some keyID \<Rightarrow> if \<not> b then ret None else
        bnd (effectiveKeyID keyID) (\<lambda>k. bnd (SessionUserID k) (\<lambda>uid. case uid of
          None \<Rightarrow> ret None
        | Some u \<Rightarrow> UserByID u)))"

definition requireCaller :: "ctx \<Rightarrow> ('z server_scheme, User) go" where
  "requireCaller c = bnd requireDB (\<lambda>_. bnd (internal (callerUser c)) (\<lambda>u. case u of
       None \<Rightarrow> fail (RpcError 401 ''AUTH_KEY_UNREGISTERED'')
     | Some u \<Rightarrow> ret u))"

definition bindCaller :: "ctx \<Rightarrow> int \<Rightarrow> ('z server_scheme, unit) go" where
  "bindCaller c userID = (case callerKeyID c of
       None \<Rightarrow> fail ErrNoSession
     | Some keyID \<Rightarrow> bnd (effectiveKeyID keyID) (\<lambda>k. BindSession k userID))"

section \<open>Users on the wire\<close>

definition onlineWindow :: int where "onlineWindow = seconds 60"

definition userStatus :: "int \<Rightarrow> bool \<Rightarrow> ('z server_scheme, user_status) go" where
  "userStatus userID self = bnd now (\<lambda>t.
     if self then ret (UserStatusOnline (Unix (t + onlineWindow))) else
     bnd (gets (lastSeenAt userID)) (\<lambda>x. case x of
       None \<Rightarrow> ret UserStatusRecently
     | Some ts \<Rightarrow> if t - ts < onlineWindow then ret (UserStatusOnline (Unix (ts + onlineWindow)))
         else ret (UserStatusOffline (Unix ts))))"

definition tgUser :: "User \<Rightarrow> bool \<Rightarrow> ('z server_scheme, tg_user) go" where
  "tgUser u self = bnd (userStatus (usr_ID u) self) (\<lambda>st. ret
     \<lparr>tu_ID = usr_ID u, tu_AccessHash = usr_AccessHash u, tu_FirstName = usr_FirstName u,
      tu_LastName = usr_LastName u, tu_Self = self, tu_Status = st, tu_Username = usr_Username u,
      tu_Phone = usr_Phone u, tu_Bot = usr_IsBot u,
      tu_BotInfoVersion = (if usr_IsBot u then 1 else 0)\<rparr>)"

text \<open>The users of a reply, in order.\<close>

definition tgUsers :: "(User \<times> bool) list \<Rightarrow> ('z server_scheme, user_class list) go" where
  "tgUsers us = collect (\<lambda>(u, self). bnd (tgUser u self) (\<lambda>t. ret (UserFilled t))) us"

section \<open>Resolving peers\<close>

definition resolvePeerUser :: "User \<Rightarrow> input_peer \<Rightarrow> ('z server_scheme, User) go" where
  "resolvePeerUser caller peer = (case peer of
       InputPeerSelf \<Rightarrow> ret caller
     | InputPeerUser uid hash \<Rightarrow> bnd (internal (UserByID uid)) (\<lambda>x. case x of
         None \<Rightarrow> fail (RpcError 400 ''PEER_ID_INVALID'')
       | Some u \<Rightarrow> if usr_AccessHash u \<noteq> hash then fail (RpcError 400 ''PEER_ID_INVALID'') else ret u)
     | InputPeerOther \<Rightarrow> fail (RpcError 400 ''PEER_ID_INVALID''))"

definition resolveInputUser :: "User \<Rightarrow> input_user \<Rightarrow> ('z server_scheme, User) go" where
  "resolveInputUser caller i = (case i of
       InputUserSelf \<Rightarrow> ret caller
     | InputUser uid hash \<Rightarrow> bnd (internal (UserByID uid)) (\<lambda>x. case x of
         None \<Rightarrow> fail (RpcError 400 ''USER_ID_INVALID'')
       | Some u \<Rightarrow> if usr_AccessHash u \<noteq> hash then fail (RpcError 400 ''USER_ID_INVALID'') else ret u)
     | InputUserOther \<Rightarrow> fail (RpcError 400 ''USER_ID_INVALID''))"

section \<open>Pushing updates\<close>

definition server_send :: "Session \<Rightarrow> tg_updates \<Rightarrow> ('z server_scheme, unit) go" where
  "server_send s wrap = bnd (gets (\<lambda>h. send_ok h (send_pos h))) (\<lambda>b.
     bnd (modify (\<lambda>h. h\<lparr>send_pos := Suc (send_pos h)\<rparr>)) (\<lambda>_.
     if b then modify (\<lambda>h. h\<lparr>pushed := pushed h @ [(s, wrap)]\<rparr>) else fail ErrSend))"

definition push :: "ctx \<Rightarrow> int \<Rightarrow> user_class list \<Rightarrow> int \<Rightarrow> update_class list \<Rightarrow> ('z server_scheme, unit) go" where
  "push c userID us date ups = bnd (gets (reg_get userID)) (\<lambda>ss.
     if \<not> ctx_server c \<or> ss = [] then ret () else
     loop (\<lambda>s _. on_err (server_send s \<lparr>up_Updates = ups, up_Users = us, up_Date = date\<rparr>)
       (\<lambda>_. untrack userID (ses_ID s))) ss ())"

section \<open>Incoming requests\<close>

text \<open>
  A request of session \<open>s\<close>: the session of a logged-in user is registered for pushes,
  errors of the lookup ignored, and the request is handed to its handler.
\<close>

definition request_ctx :: "Session \<Rightarrow> ctx" where
  "request_ctx s = \<lparr>ctx_session = Some s, ctx_server = True\<rparr>"

definition trackCaller :: "Session \<Rightarrow> ('z server_scheme, unit) go" where
  "trackCaller s = bnd (gets hasDB) (\<lambda>b. if \<not> b then ret () else
     on_err (bnd (effectiveKeyID (ses_KeyID s)) (\<lambda>k. bnd (SessionUserID k) (\<lambda>x. case x of
         None \<Rightarrow> ret ()
       | Some uid \<Rightarrow> track uid s))) (\<lambda>_. ret ()))"

definition OnMessage :: "Session \<Rightarrow> (ctx \<Rightarrow> ('z server_scheme, 'a) go) \<Rightarrow> ('z server_scheme, 'a) go" where
  "OnMessage s handle = bnd (trackCaller s) (\<lambda>_. handle (request_ctx s))"

end
