(* ===== verification/RpcAuth.thy ===== *)
theory RpcAuth imports Server begin

text \<open>
  Logging in and out, \<^verbatim>\<open>internal/rpc/auth.go\<close>: login codes, sign-in and sign-up, bot
  tokens, temporary keys.
\<close>

section \<open>Phone numbers and codes\<close>

definition devPhoneCode :: string where "devPhoneCode = ''12345''"

definition codeTTL :: int where "codeTTL = seconds 600"

text \<open>The loop writes the digits of the string; a rune above 127 has no byte that is one.\<close>

definition normalizePhone :: "string \<Rightarrow> string" where
  "normalizePhone phone = filter is_digit phone"

text \<open>The submatch of \<^verbatim>\<open>^\+?99966([1-9])\d{4}$\<close>.\<close>

definition testPhone :: "string \<Rightarrow> char option" where
  "testPhone phone = (let p = (if prefix ''+'' phone then tl phone else phone) in
     if length p = 10 \<and> prefix ''99966'' p \<and> list_all is_digit p \<and> p ! 5 \<noteq> CHR ''0''
     then Some (p ! 5) else None)"

definition phoneCode :: "string \<Rightarrow> string" where
  "phoneCode phone = (case testPhone phone of Some x \<Rightarrow> replicate 5 x | None \<Rightarrow> devPhoneCode)"

section \<open>Handlers\<close>

record sent_code =
  sc_Length :: int
  sc_PhoneCodeHash :: string
  sc_Timeout :: int

definition authSendCode :: "ctx \<Rightarrow> string \<Rightarrow> ('z server_scheme, sent_code) go" where
  "authSendCode c phoneNumber = bnd requireDB (\<lambda>_. bnd (rand_read 16) (\<lambda>raw.
     let codeHash = hex raw; phone = normalizePhone phoneNumber; code = phoneCode phone in
     bnd (internal (SavePhoneCode phone codeHash code codeTTL)) (\<lambda>_.
     ret \<lparr>sc_Length = int (length code), sc_PhoneCodeHash = codeHash, sc_Timeout = 600\<rparr>)))"

definition checkCode :: "string \<Rightarrow> string \<Rightarrow> string \<Rightarrow> ('z server_scheme, unit) go" where
  "checkCode phone codeHash code = bnd (internal (PhoneCode phone codeHash)) (\<lambda>x. case x of
       None \<Rightarrow> fail (RpcError 400 ''PHONE_CODE_EXPIRED'')
     | Some want \<Rightarrow> if code \<noteq> want then fail (RpcError 400 ''PHONE_CODE_INVALID'') else ret ())"

definition authSignIn :: "ctx \<Rightarrow> string \<Rightarrow> string \<Rightarrow> string \<Rightarrow> ('z server_scheme, authorization) go" where
  "authSignIn c phoneNumber codeHash code = bnd requireDB (\<lambda>_.
     let phone = normalizePhone phoneNumber in
     bnd (checkCode phone codeHash code) (\<lambda>_.
     bnd (internal (UserByPhone phone)) (\<lambda>x. case x of
       None \<Rightarrow> ret SignUpRequired
     | Some u \<Rightarrow> bnd (internal (bindCaller c (usr_ID u))) (\<lambda>_.
         bnd (tgUser u True) (\<lambda>t. ret (Authorization t))))))"

definition authSignUp ::
  "ctx \<Rightarrow> string \<Rightarrow> string \<Rightarrow> string \<Rightarrow> string \<Rightarrow> ('z server_scheme, authorization) go" where
  "authSignUp c phoneNumber codeHash firstName lastName = bnd requireDB (\<lambda>_.
     let phone = normalizePhone phoneNumber in
     bnd (checkCode phone codeHash (phoneCode phone)) (\<lambda>_.
     bnd (internal (UserByPhone phone)) (\<lambda>x. case x of
       Some _ \<Rightarrow> fail (RpcError 400 ''PHONE_NUMBER_OCCUPIED'')
     | None \<Rightarrow> bnd (internal (CreateUser phone firstName lastName)) (\<lambda>u.
         bnd (internal (bindCaller c (usr_ID u))) (\<lambda>_.
         bnd (tgUser u True) (\<lambda>t. ret (Authorization t)))))))"

definition authImportBotAuthorization :: "ctx \<Rightarrow> string \<Rightarrow> ('z server_scheme, authorization) go" where
  "authImportBotAuthorization c token = bnd requireDB (\<lambda>_. case Cut (CHR '':'') token of
       None \<Rightarrow> fail (RpcError 400 ''ACCESS_TOKEN_INVALID'')
     | Some (i, secret) \<Rightarrow> if i = [] \<or> secret = [] then fail (RpcError 400 ''ACCESS_TOKEN_INVALID'') else
       bnd (internal (BotByToken token)) (\<lambda>found.
       bnd (case found of Some b \<Rightarrow> ret b | None \<Rightarrow> internal (CreateBot token [] (''Bot '' @ i))) (\<lambda>b.
       bnd (internal (bindCaller c (usr_ID b))) (\<lambda>_.
       bnd (tgUser b True) (\<lambda>t. ret (Authorization t))))))"

definition authBindTempAuthKey :: "ctx \<Rightarrow> int \<Rightarrow> int \<Rightarrow> ('z server_scheme, bool) go" where
  "authBindTempAuthKey c permAuthKeyID expiresAt = bnd requireDB (\<lambda>_. case callerKeyID c of
       None \<Rightarrow> fail (RpcError 400 ''ENCRYPTED_MESSAGE_INVALID'')
     | Some tempID \<Rightarrow>
        bnd (internal (BindTempAuthKey tempID (put_uint64_le permAuthKeyID) (seconds expiresAt))) (\<lambda>_.
        ret True))"

definition authLogOut :: "ctx \<Rightarrow> ('z server_scheme, unit) go" where
  "authLogOut c = bnd (gets hasDB) (\<lambda>b. if \<not> b then ret () else case callerKeyID c of
       None \<Rightarrow> ret ()
     | Some keyID \<Rightarrow> bnd (on_err (effectiveKeyID keyID) (\<lambda>_. ret keyID)) (\<lambda>k. internal (Unbind k)))"

end
