(* ===== verification/RpcUsers.thy ===== *)
theory RpcUsers imports RpcAuth begin

text \<open>
  Profiles, contacts and user names: \<^verbatim>\<open>internal/rpc/users.go\<close>, \<^verbatim>\<open>contacts.go\<close> and
  \<^verbatim>\<open>account.go\<close>.
\<close>

section \<open>Users\<close>

definition getUser :: "User option \<Rightarrow> input_user \<Rightarrow> ('z server_scheme, user_class) go" where
  "getUser caller i = (case i of
       InputUserSelf \<Rightarrow> (case caller of
         None \<Rightarrow> fail (RpcError 401 ''AUTH_KEY_UNREGISTERED'')
       | Some u \<Rightarrow> bnd (tgUser u True) (\<lambda>t. ret (UserFilled t)))
     | InputUser uid hash \<Rightarrow> bnd (internal (UserByID uid)) (\<lambda>x. case x of
         None \<Rightarrow> ret (UserEmpty uid)
       | Some u \<Rightarrow> if usr_AccessHash u \<noteq> hash then ret (UserEmpty uid)
           else bnd (tgUser u (case caller of None \<Rightarrow> False | Some cu \<Rightarrow> usr_ID u = usr_ID cu))
             (\<lambda>t. ret (UserFilled t)))
     | InputUserOther \<Rightarrow> ret (UserEmpty 0))"

definition usersGetUsers :: "ctx \<Rightarrow> input_user list \<Rightarrow> ('z server_scheme, user_class list) go" where
  "usersGetUsers c ids = bnd requireDB (\<lambda>_. bnd (internal (callerUser c)) (\<lambda>caller.
     collect (getUser caller) ids))"

record user_full =
  uf_ID :: int
  uf_About :: string
  uf_Users :: "user_class list"

definition usersGetFullUser :: "ctx \<Rightarrow> input_user \<Rightarrow> ('z server_scheme, user_full) go" where
  "usersGetFullUser c i = bnd requireDB (\<lambda>_. bnd (internal (callerUser c)) (\<lambda>caller.
     bnd (case i of
         InputUserSelf \<Rightarrow> (case caller of
           None \<Rightarrow> fail (RpcError 401 ''AUTH_KEY_UNREGISTERED'')
         | Some u \<Rightarrow> ret u)
       | InputUser uid hash \<Rightarrow> bnd (internal (UserByID uid)) (\<lambda>x. case x of
           None \<Rightarrow> fail (RpcError 400 ''USER_ID_INVALID'')
         | Some u \<Rightarrow> if usr_AccessHash u \<noteq> hash then fail (RpcError 400 ''USER_ID_INVALID'') else ret u)
       | InputUserOther \<Rightarrow> fail (RpcError 400 ''USER_ID_INVALID'')) (\<lambda>target.
     bnd (tgUsers [(target, case caller of None \<Rightarrow> False | Some cu \<Rightarrow> usr_ID target = usr_ID cu)]) (\<lambda>us.
     ret \<lparr>uf_ID = usr_ID target, uf_About = usr_About target, uf_Users = us\<rparr>))))"

section \<open>Contacts\<close>

definition contactsResolveUsername :: "ctx \<Rightarrow> string \<Rightarrow> ('z server_scheme, tg_contacts) go" where
  "contactsResolveUsername c username = bnd requireDB (\<lambda>_.
     bnd (internal (UserByUsername username)) (\<lambda>x. case x of
       None \<Rightarrow> fail (RpcError 400 ''USERNAME_NOT_OCCUPIED'')
     | Some u \<Rightarrow> bnd (tgUsers [(u, False)]) (\<lambda>us.
         ret \<lparr>cs_UserIDs = [usr_ID u], cs_ClientIDs = [], cs_Users = us\<rparr>)))"

definition contactsSearchDefaultLimit :: int where "contactsSearchDefaultLimit = 20"

definition contactsSearch :: "ctx \<Rightarrow> string \<Rightarrow> int \<Rightarrow> ('z server_scheme, tg_contacts) go" where
  "contactsSearch c q limit = bnd requireDB (\<lambda>_.
     let limit' = if limit \<le> 0 \<or> contactsSearchDefaultLimit < limit
         then contactsSearchDefaultLimit else limit in
     bnd (internal (SearchUsers (TrimPrefix q ''@'') limit')) (\<lambda>us.
     bnd (tgUsers (map (\<lambda>u. (u, False)) us)) (\<lambda>out.
     ret \<lparr>cs_UserIDs = map usr_ID us, cs_ClientIDs = [], cs_Users = out\<rparr>)))"

definition contactsGetContacts :: "ctx \<Rightarrow> ('z server_scheme, tg_contacts) go" where
  "contactsGetContacts c = bnd (requireCaller c) (\<lambda>caller.
     bnd (internal (Contacts (usr_ID caller))) (\<lambda>cs.
     bnd (loop (\<lambda>x (ids, us). bnd (internal (UserByID (ct_UserID x))) (\<lambda>y. case y of
         None \<Rightarrow> ret (ids, us)
       | Some u \<Rightarrow> bnd (tgUser u False) (\<lambda>t. ret (ids @ [ct_UserID x], us @ [UserFilled t])))) cs ([], [])) (\<lambda>(ids, us).
     ret \<lparr>cs_UserIDs = ids, cs_ClientIDs = [], cs_Users = us\<rparr>)))"

text \<open>The accumulator is the imported list, the users and the set \<^verbatim>\<open>seen\<close>.\<close>

definition importContact ::
  "User \<Rightarrow> phone_contact \<Rightarrow> (int \<times> int) list \<times> user_class list \<times> int list \<Rightarrow>
   ('z server_scheme, (int \<times> int) list \<times> user_class list \<times> int list) go" where
  "importContact caller x acc = (case acc of (imported, us, seen) \<Rightarrow>
     bnd (internal (UserByPhone (normalizePhone (ic_Phone x)))) (\<lambda>y. case y of
       None \<Rightarrow> ret acc
     | Some u \<Rightarrow> if usr_ID u = usr_ID caller then ret acc else
        bnd (internal (AddContact (usr_ID caller) (usr_ID u) (ic_FirstName x) (ic_LastName x))) (\<lambda>_.
        if usr_ID u \<in> set seen then ret (imported @ [(usr_ID u, ic_ClientID x)], us, seen)
        else bnd (tgUser u False) (\<lambda>t. ret (imported @ [(usr_ID u, ic_ClientID x)],
          us @ [UserFilled t], usr_ID u # seen)))))"

definition contactsImportContacts :: "ctx \<Rightarrow> phone_contact list \<Rightarrow> ('z server_scheme, tg_contacts) go" where
  "contactsImportContacts c xs = bnd (requireCaller c) (\<lambda>caller.
     bnd (loop (importContact caller) xs ([], [], [])) (\<lambda>(imported, us, seen).
     ret \<lparr>cs_UserIDs = map fst imported, cs_ClientIDs = map snd imported, cs_Users = us\<rparr>))"

definition contactsAddContact ::
  "ctx \<Rightarrow> input_user \<Rightarrow> string \<Rightarrow> string \<Rightarrow> ('z server_scheme, tg_updates) go" where
  "contactsAddContact c i firstName lastName = bnd (requireCaller c) (\<lambda>caller.
     bnd (resolveInputUser caller i) (\<lambda>target.
     bnd (internal (AddContact (usr_ID caller) (usr_ID target) firstName lastName)) (\<lambda>_.
     bnd (tgUsers [(target, False)]) (\<lambda>us. bnd now (\<lambda>t.
     ret \<lparr>up_Updates = [], up_Users = us, up_Date = Unix t\<rparr>)))))"

definition deletedContact ::
  "User \<Rightarrow> input_user \<Rightarrow> int list \<times> user_class list \<Rightarrow> ('z server_scheme, int list \<times> user_class list) go" where
  "deletedContact caller i acc = bnd (attempt (resolveInputUser caller i)) (\<lambda>r. case r of
       Inl _ \<Rightarrow> ret acc
     | Inr u \<Rightarrow> bnd (tgUser u False) (\<lambda>t. ret (fst acc @ [usr_ID u], snd acc @ [UserFilled t])))"

definition contactsDeleteContacts :: "ctx \<Rightarrow> input_user list \<Rightarrow> ('z server_scheme, tg_updates) go" where
  "contactsDeleteContacts c is = bnd (requireCaller c) (\<lambda>caller.
     bnd (loop (deletedContact caller) is ([], [])) (\<lambda>(contactIDs, us).
     bnd (internal (DeleteContacts (usr_ID caller) contactIDs)) (\<lambda>_. bnd now (\<lambda>t.
     ret \<lparr>up_Updates = [], up_Users = us, up_Date = Unix t\<rparr>))))"

section \<open>The account\<close>

definition accountUpdateProfile ::
  "ctx \<Rightarrow> string option \<Rightarrow> string option \<Rightarrow> string option \<Rightarrow> ('z server_scheme, tg_user) go" where
  "accountUpdateProfile c firstName lastName about = bnd (requireCaller c) (\<lambda>caller.
     bnd (internal (SetProfile (usr_ID caller) firstName lastName about)) (\<lambda>u. tgUser u True))"

definition is_letter :: "char \<Rightarrow> bool" where
  "is_letter c \<longleftrightarrow> is_lower c \<or> is_upper c"

definition is_name_char :: "char \<Rightarrow> bool" where
  "is_name_char c \<longleftrightarrow> is_letter c \<or> is_digit c \<or> c = CHR ''_''"

text \<open>\<^verbatim>\<open>^[a-zA-Z][a-zA-Z0-9_]{4,31}$\<close>\<close>

definition usernameRe :: "string \<Rightarrow> bool" where
  "usernameRe s \<longleftrightarrow> s \<noteq> [] \<and> is_letter (hd s) \<and> list_all is_name_char (tl s) \<and>
     4 \<le> length (tl s) \<and> length (tl s) \<le> 31"

definition accountCheckUsername :: "ctx \<Rightarrow> string \<Rightarrow> ('z server_scheme, bool) go" where
  "accountCheckUsername c username = bnd (requireCaller c) (\<lambda>caller.
     if \<not> usernameRe username then fail (RpcError 400 ''USERNAME_INVALID'') else
     bnd (internal (UserByUsername username)) (\<lambda>x.
     ret (case x of None \<Rightarrow> True | Some u \<Rightarrow> usr_ID u = usr_ID caller)))"

definition accountUpdateUsername :: "ctx \<Rightarrow> string \<Rightarrow> ('z server_scheme, tg_user) go" where
  "accountUpdateUsername c username = bnd (requireCaller c) (\<lambda>caller.
     if username \<noteq> [] \<and> \<not> usernameRe username then fail (RpcError 400 ''USERNAME_INVALID'') else
     if username = usr_Username caller then fail (RpcError 400 ''USERNAME_NOT_MODIFIED'') else
     bnd (if username = [] then ret () else
       bnd (internal (UserByUsername username)) (\<lambda>x. case x of
         None \<Rightarrow> ret ()
       | Some u \<Rightarrow> if usr_ID u \<noteq> usr_ID caller then fail (RpcError 400 ''USERNAME_OCCUPIED'') else ret ())) (\<lambda>_.
     bnd (internal (SetUsername (usr_ID caller) username)) (\<lambda>u. tgUser u True)))"

end
