(* ===== verification/RpcBots.thy ===== *)
theory RpcBots imports RpcUsers begin

text \<open>
  Bots: the command lists of \<^verbatim>\<open>internal/rpc/bots.go\<close> and the BotFather conversation of
  \<^verbatim>\<open>internal/rpc/botfather.go\<close>.
\<close>

section \<open>Bot commands\<close>

definition requireBot :: "ctx \<Rightarrow> ('z server_scheme, User) go" where
  "requireBot c = bnd (requireCaller c) (\<lambda>caller.
     if \<not> usr_IsBot caller then fail (RpcError 400 ''USER_BOT_REQUIRED'') else ret caller)"

text \<open>
  A scope is given by its MTProto encoding, which the library makes and which cannot fail;
  \<open>None\<close> is a nil scope, keyed as \<^verbatim>\<open>BotCommandScopeDefault\<close> (\<open>enc_scope_default\<close>).
\<close>

definition scopeKey :: "bytes option \<Rightarrow> 'z server_scheme \<Rightarrow> string" where
  "scopeKey scope h = hex (case scope of None \<Rightarrow> enc_scope_default h | Some b \<Rightarrow> b)"

definition botsSetBotCommands ::
  "ctx \<Rightarrow> bytes option \<Rightarrow> string \<Rightarrow> BotCommand list \<Rightarrow> ('z server_scheme, bool) go" where
  "botsSetBotCommands c scope lang commands = bnd (requireBot c) (\<lambda>b.
     bnd (gets (scopeKey scope)) (\<lambda>k.
     bnd (internal (SetBotCommands (usr_ID b) k lang commands)) (\<lambda>_. ret True)))"

definition botsGetBotCommands ::
  "ctx \<Rightarrow> bytes option \<Rightarrow> string \<Rightarrow> ('z server_scheme, BotCommand list) go" where
  "botsGetBotCommands c scope lang = bnd (requireBot c) (\<lambda>b.
     bnd (gets (scopeKey scope)) (\<lambda>k. internal (BotCommands (usr_ID b) k lang)))"

definition botsResetBotCommands :: "ctx \<Rightarrow> bytes option \<Rightarrow> string \<Rightarrow> ('z server_scheme, bool) go" where
  "botsResetBotCommands c scope lang = bnd (requireBot c) (\<lambda>b.
     bnd (gets (scopeKey scope)) (\<lambda>k.
     bnd (internal (ResetBotCommands (usr_ID b) k lang)) (\<lambda>_. ret True)))"

section \<open>BotFather: texts\<close>

definition nl :: string where "nl = [chr 10]"

definition bfIntro :: string where
  "bfIntro = ''I can help you create and manage Telegram bots. Use /newbot to create a new bot.'' @ nl @ nl
     @ ''Commands:'' @ nl @ ''/newbot - create a new bot'' @ nl @ ''/mybots - list your bots'' @ nl
     @ ''/token - show a bot's token'' @ nl @ ''/revoke - revoke a bot's token'' @ nl
     @ ''/cancel - cancel the current operation''"

definition bfAskName :: string where
  "bfAskName = ''Alright, a new bot. How are we going to call it? Please choose a name for your bot.''"

definition bfAskUsername :: string where
  "bfAskUsername = ''Good. Now let's choose a username for your bot. It must end in `bot`. Like this, for example: TetrisBot or tetris_bot.''"

definition bfAskRevoke :: string where
  "bfAskRevoke = ''Choose a bot to revoke the token. Send its username, for example @tetris_bot.''"

definition bfCancelled :: string where "bfCancelled = ''Canceled.''"

definition bfNothingToDo :: string where
  "bfNothingToDo = ''There is no active command to cancel.''"

definition bfNoBots :: string where
  "bfNoBots = ''You don't have any bots yet. Use /newbot to create one.''"

definition bfBadName :: string where
  "bfBadName = ''Sorry, this name is invalid. Please choose a name for your bot.''"

definition bfNotUnderstood :: string where
  "bfNotUnderstood = ''I don't understand. Please use /help to see the list of commands.''"

definition bfBadUsername :: string where
  "bfBadUsername = ''Sorry, this username is invalid. A username must be 5-32 characters long, ''
     @ ''start with a letter, use only letters, digits and underscores, and end in `bot`.''"

definition bfTaken :: string where
  "bfTaken = ''Sorry, this username is already taken. Please try something different.''"

definition bfNotOwned :: string where
  "bfNotOwned = ''You don't own a bot with that username. Send the username of one of your bots.''"

definition bfDone :: "string \<Rightarrow> string \<Rightarrow> string" where
  "bfDone username token = ''Done! Congratulations on your new bot. You will find it at t.me/'' @ username
     @ ''.'' @ nl @ nl @ ''Use this token to access the HTTP API:'' @ nl @ token @ nl @ nl
     @ ''Keep your token secure and store it safely, it can be used by anyone to control your bot.''"

definition bfRevoked :: "string \<Rightarrow> string \<Rightarrow> string" where
  "bfRevoked username token = ''Token revoked. The previous token has stopped working.'' @ nl @ nl
     @ ''New token for @'' @ username @ '':'' @ nl @ token"

section \<open>BotFather: rules\<close>

definition validBotName :: "string \<Rightarrow> bool" where
  "validBotName name \<longleftrightarrow> name \<noteq> [] \<and> length name \<le> 64 \<and> \<not> prefix ''/'' name"

text \<open>The user-facing error of an invalid name, \<open>None\<close> for a valid one.\<close>

definition validBotUsername :: "(string \<Rightarrow> string) \<Rightarrow> string \<Rightarrow> string option" where
  "validBotUsername uc u =
     (if length u < 5 \<or> 32 < length u then Some bfBadUsername
      else if \<not> is_letter (hd u) then Some bfBadUsername
      else if \<not> list_all is_name_char u then Some bfBadUsername
      else if \<not> suffix ''bot'' (ToLower uc u) then Some bfBadUsername
      else None)"

definition botTokenSecret :: "('z server_scheme, string) go" where
  "botTokenSecret = bnd (rand_read 26) (\<lambda>raw. ret (base64_raw_url raw))"

text \<open>The command at the head of a text: lower case, without arguments and \<^verbatim>\<open>@botname\<close>.\<close>

definition botCommand :: "(string \<Rightarrow> string) \<Rightarrow> string \<Rightarrow> string option" where
  "botCommand uc txt = (if \<not> prefix ''/'' txt then None
     else Some (ToLower uc (takeWhile (\<lambda>ch. ch \<noteq> CHR ''@'') (first_field txt))))"

section \<open>BotFather: the conversation\<close>

definition botFatherListBots :: "User \<Rightarrow> ('z server_scheme, string list) go" where
  "botFatherListBots caller = bnd (BotsByOwner (usr_ID caller)) (\<lambda>bots.
     if bots = [] then ret [bfNoBots] else
     ret [''Here are your bots:'' @ nl
       @ concat (map (\<lambda>b. nl @ ''@'' @ usr_Username b @ nl @ usr_BotToken b) bots)])"

definition botFatherCommand :: "User \<Rightarrow> string \<Rightarrow> ('z server_scheme, string list) go" where
  "botFatherCommand caller cmd =
     (if cmd = ''/start'' \<or> cmd = ''/help'' then ret [bfIntro]
      else if cmd = ''/newbot'' then
        bnd (SetBotFatherState (usr_ID caller) (zero_bot_state\<lparr>bf_Step := BotFatherStepNewBotName\<rparr>)) (\<lambda>_.
        ret [bfAskName])
      else if cmd = ''/mybots'' \<or> cmd = ''/token'' then botFatherListBots caller
      else if cmd = ''/revoke'' then
        bnd (BotsByOwner (usr_ID caller)) (\<lambda>bots. if bots = [] then ret [bfNoBots] else
        bnd (SetBotFatherState (usr_ID caller) (zero_bot_state\<lparr>bf_Step := BotFatherStepRevokeSelect\<rparr>)) (\<lambda>_.
        ret [bfAskRevoke]))
      else if cmd = ''/cancel'' then
        bnd (BotFatherState (usr_ID caller)) (\<lambda>st. if bf_Step st = [] then ret [bfNothingToDo] else
        bnd (ClearBotFatherState (usr_ID caller)) (\<lambda>_. ret [bfCancelled]))
      else ret [bfNotUnderstood])"

definition botFatherSetName :: "User \<Rightarrow> string \<Rightarrow> ('z server_scheme, string list) go" where
  "botFatherSetName caller name = (if \<not> validBotName name then ret [bfBadName] else
     bnd (SetBotFatherState (usr_ID caller)
       \<lparr>bf_Step = BotFatherStepNewBotUsername, bf_DraftName = name\<rparr>) (\<lambda>_. ret [bfAskUsername]))"

definition botFatherCreate :: "User \<Rightarrow> string \<Rightarrow> string \<Rightarrow> ('z server_scheme, string list) go" where
  "botFatherCreate caller name username0 = (let username = TrimPrefix username0 ''@'' in
     bnd (gets uc_lower) (\<lambda>uc. case validBotUsername uc username of Some msg \<Rightarrow> ret [msg] | None \<Rightarrow>
     bnd (UserByUsername username) (\<lambda>taken. if taken \<noteq> None then ret [bfTaken] else
     bnd botTokenSecret (\<lambda>secret.
     bnd (CreateOwnedBot username name (usr_ID caller) secret) (\<lambda>b.
     bnd (ClearBotFatherState (usr_ID caller)) (\<lambda>_.
     ret [bfDone (usr_Username b) (usr_BotToken b)]))))))"

definition botFatherRevoke :: "User \<Rightarrow> string \<Rightarrow> ('z server_scheme, string list) go" where
  "botFatherRevoke caller username0 = (let username = TrimPrefix username0 ''@'' in
     bnd (BotsByOwner (usr_ID caller)) (\<lambda>bots. bnd (gets uc_fold) (\<lambda>uc.
     case find (\<lambda>b. EqualFold uc (usr_Username b) username) bots of
       None \<Rightarrow> ret [bfNotOwned]
     | Some target \<Rightarrow> bnd botTokenSecret (\<lambda>secret.
        let token = FormatInt (usr_ID target) @ '':'' @ secret in
        bnd (SetBotToken (usr_ID target) token) (\<lambda>_.
        bnd (ClearBotFatherState (usr_ID caller)) (\<lambda>_.
        ret [bfRevoked (usr_Username target) token]))))))"

definition botFatherEngine :: "User \<Rightarrow> string \<Rightarrow> ('z server_scheme, string list) go" where
  "botFatherEngine caller txt0 = (let txt = TrimSpace txt0 in
     bnd (gets uc_lower) (\<lambda>uc. case botCommand uc txt of Some cmd \<Rightarrow> botFatherCommand caller cmd | None \<Rightarrow>
     bnd (BotFatherState (usr_ID caller)) (\<lambda>st.
     if bf_Step st = BotFatherStepNewBotName then botFatherSetName caller txt
     else if bf_Step st = BotFatherStepNewBotUsername then botFatherCreate caller (bf_DraftName st) txt
     else if bf_Step st = BotFatherStepRevokeSelect then botFatherRevoke caller txt
     else ret [bfNotUnderstood])))"

text \<open>One reply of BotFather, stored and pushed.\<close>

definition botFatherReply :: "ctx \<Rightarrow> User \<Rightarrow> User \<Rightarrow> string \<Rightarrow> ('z server_scheme, unit) go" where
  "botFatherReply c caller botFather reply =
     bnd (SendMessage (usr_ID botFather) (usr_ID caller) reply 0 0) (\<lambda>sent.
     bnd (gets uc_letter) (\<lambda>uc.
     bnd (tgUsers [(botFather, False), (caller, True)]) (\<lambda>us.
     push c (usr_ID caller) us (Unix (sent_Date sent))
       [UpdateNewMessage (dmMessage uc \<lparr>msg_GlobalID = 0, msg_LocalID = sent_RecipientLocalID sent,
          msg_FromUserID = usr_ID botFather, msg_PeerUserID = usr_ID botFather, msg_Out = False,
          msg_Text = reply, msg_Date = sent_Date sent, msg_EditDate = zero_time, msg_RandomID = 0,
          msg_Media = None\<rparr>) (sent_RecipientPts sent) 1])))"

text \<open>Errors are logged and end the conversation turn; they do not reach the client.\<close>

definition handleBotFather :: "ctx \<Rightarrow> User \<Rightarrow> User \<Rightarrow> string \<Rightarrow> ('z server_scheme, unit) go" where
  "handleBotFather c caller botFather txt =
     on_err (bnd (botFatherEngine caller txt) (\<lambda>replies.
       loop (\<lambda>reply _. botFatherReply c caller botFather reply) replies ())) (\<lambda>_. ret ())"

end
