(* ===== verification/RpcMessages.thy ===== *)
theory RpcMessages imports RpcBots begin

text \<open>
  Direct messages: \<^verbatim>\<open>internal/rpc/messages.go\<close>, \<^verbatim>\<open>messages_more.go\<close> and \<^verbatim>\<open>drafts.go\<close>.
\<close>

section \<open>Sending\<close>

text \<open>The \<^verbatim>\<open>teled.Message\<close> literals of the handlers: the other fields are zero.\<close>

definition view_of :: "int \<Rightarrow> int \<Rightarrow> int \<Rightarrow> bool \<Rightarrow> string \<Rightarrow> int \<Rightarrow> int \<Rightarrow> File option \<Rightarrow> Message" where
  "view_of localID from peer out txt date editDate media = \<lparr>msg_GlobalID = 0, msg_LocalID = localID,
     msg_FromUserID = from, msg_PeerUserID = peer, msg_Out = out, msg_Text = txt, msg_Date = date,
     msg_EditDate = editDate, msg_RandomID = 0, msg_Media = media\<rparr>"

definition deliver :: "ctx \<Rightarrow> User \<Rightarrow> User \<Rightarrow> SentMessage \<Rightarrow> string \<Rightarrow> ('z server_scheme, unit) go" where
  "deliver c from peer sent txt = (if sent_SelfChat sent then ret () else
     bnd (gets uc_letter) (\<lambda>uc.
     bnd (tgUsers [(from, False), (peer, True)]) (\<lambda>us.
     push c (usr_ID peer) us (Unix (sent_Date sent))
       [UpdateNewMessage (dmMessage uc (view_of (sent_RecipientLocalID sent) (usr_ID from) (usr_ID from)
          False txt (sent_Date sent) zero_time None)) (sent_RecipientPts sent) 1])))"

definition messagesSendMessage ::
  "ctx \<Rightarrow> input_peer \<Rightarrow> string \<Rightarrow> int \<Rightarrow> ('z server_scheme, tg_updates) go" where
  "messagesSendMessage c inPeer txt randomID = bnd (requireCaller c) (\<lambda>caller.
     bnd (resolvePeerUser caller inPeer) (\<lambda>peer.
     bnd (internal (SendMessage (usr_ID caller) (usr_ID peer) txt randomID 0)) (\<lambda>sent.
     bnd (gets uc_letter) (\<lambda>uc.
     bnd (deliver c caller peer sent txt) (\<lambda>_.
     bnd (if usr_ID peer = BotFatherID then handleBotFather c caller peer txt else ret ()) (\<lambda>_.
     bnd (tgUsers [(caller, True), (peer, False)]) (\<lambda>us.
     ret \<lparr>up_Updates = [UpdateMessageID (sent_SenderLocalID sent) randomID,
          UpdateNewMessage (dmMessage uc (view_of (sent_SenderLocalID sent) (usr_ID caller) (usr_ID peer)
            True txt (sent_Date sent) zero_time None)) (sent_SenderPts sent) 1],
        up_Users = us, up_Date = Unix (sent_Date sent)\<rparr>)))))))"

section \<open>Reading histories\<close>

definition historyMaxLimit :: int where "historyMaxLimit = 100"

definition historyDefaultLimit :: int where "historyDefaultLimit = 100"

definition history_limit :: "int \<Rightarrow> int" where
  "history_limit limit = (if limit \<le> 0 \<or> historyMaxLimit < limit then historyDefaultLimit else limit)"

definition messagesGetHistory ::
  "ctx \<Rightarrow> input_peer \<Rightarrow> int \<Rightarrow> int \<Rightarrow> ('z server_scheme, tg_messages) go" where
  "messagesGetHistory c inPeer offsetID limit = bnd (requireCaller c) (\<lambda>caller.
     bnd (resolvePeerUser caller inPeer) (\<lambda>peer.
     bnd (internal (GetHistory (usr_ID caller) (usr_ID peer) offsetID (history_limit limit))) (\<lambda>msgs.
     bnd (gets uc_letter) (\<lambda>uc.
     bnd (tgUsers [(caller, True), (peer, False)]) (\<lambda>us.
     ret \<lparr>ms_Messages = map (dmMessage uc) msgs, ms_Users = us\<rparr>)))))"

definition messagesGetSavedHistory :: "ctx \<Rightarrow> int \<Rightarrow> int \<Rightarrow> ('z server_scheme, tg_messages) go" where
  "messagesGetSavedHistory c offsetID limit = bnd (requireCaller c) (\<lambda>caller.
     bnd (internal (GetHistory (usr_ID caller) (usr_ID caller) offsetID (history_limit limit))) (\<lambda>msgs.
     bnd (gets uc_letter) (\<lambda>uc.
     bnd (tgUsers [(caller, True)]) (\<lambda>us.
     ret \<lparr>ms_Messages = map (dmMessage uc) msgs, ms_Users = us\<rparr>))))"

definition messagesSearch ::
  "ctx \<Rightarrow> input_peer \<Rightarrow> string \<Rightarrow> int \<Rightarrow> ('z server_scheme, tg_messages) go" where
  "messagesSearch c inPeer q limit = bnd (requireCaller c) (\<lambda>caller.
     bnd (resolvePeerUser caller inPeer) (\<lambda>peer.
     bnd (internal (SearchMessages (usr_ID caller) (usr_ID peer) q (history_limit limit))) (\<lambda>msgs.
     bnd (gets uc_letter) (\<lambda>uc.
     bnd (tgUsers [(caller, True), (peer, False)]) (\<lambda>us.
     ret \<lparr>ms_Messages = map (dmMessage uc) msgs, ms_Users = us\<rparr>)))))"

section \<open>Dialogs\<close>

definition dialogsDefaultLimit :: int where "dialogsDefaultLimit = 100"

definition draftByPeer :: "Draft list \<Rightarrow> (int, Draft) gomap" where
  "draftByPeer ds = fold (\<lambda>d. mput (dr_PeerUserID d) d) ds []"

definition tgDialog :: "(nat \<Rightarrow> bool) \<Rightarrow> (int, Draft) gomap \<Rightarrow> int \<Rightarrow> Dialog \<Rightarrow> tg_dialog" where
  "tgDialog uc dbp peer dl = \<lparr>td_Peer = peer, td_TopMessage = dlg_TopMessageID dl,
     td_ReadInboxMaxID = dlg_ReadInboxMaxID dl, td_ReadOutboxMaxID = dlg_ReadOutboxMaxID dl,
     td_UnreadCount = dlg_UnreadCount dl, td_Draft = map_option (draftMessage uc) (map_of dbp peer)\<rparr>"

text \<open>The newest message of a conversation, as a list of at most one.\<close>

definition topMessage :: "int \<Rightarrow> int \<Rightarrow> ('z server_scheme, tg_message list) go" where
  "topMessage self peer = bnd (internal (GetHistory self peer 0 1)) (\<lambda>top.
     bnd (gets uc_letter) (\<lambda>uc. ret (map (dmMessage uc) (take 1 top))))"

definition dialogEntry :: "int \<Rightarrow> (int, Draft) gomap \<Rightarrow> Dialog \<Rightarrow>
   user_class list \<times> tg_dialog list \<times> tg_message list \<times> int list \<Rightarrow>
   ('z server_scheme, user_class list \<times> tg_dialog list \<times> tg_message list \<times> int list) go" where
  "dialogEntry self dbp dl acc = (case acc of (us, ds, ms, seen) \<Rightarrow>
     bnd (internal (UserByID (dlg_PeerUserID dl))) (\<lambda>x. case x of None \<Rightarrow> ret acc | Some peer \<Rightarrow>
     bnd (tgUser peer False) (\<lambda>t.
     bnd (topMessage self (dlg_PeerUserID dl)) (\<lambda>top.
     bnd (gets uc_letter) (\<lambda>uc.
     ret (us @ [UserFilled t], ds @ [tgDialog uc dbp (dlg_PeerUserID dl) dl], ms @ top,
       dlg_PeerUserID dl # seen))))))"

definition draftEntry :: "int list \<Rightarrow> Draft \<Rightarrow> user_class list \<times> tg_dialog list \<Rightarrow>
   ('z server_scheme, user_class list \<times> tg_dialog list) go" where
  "draftEntry seen dr acc = (if dr_PeerUserID dr \<in> set seen then ret acc else
     bnd (internal (UserByID (dr_PeerUserID dr))) (\<lambda>x. case x of None \<Rightarrow> ret acc | Some peer \<Rightarrow>
     bnd (tgUser peer False) (\<lambda>t. bnd (gets uc_letter) (\<lambda>uc.
     ret (fst acc @ [UserFilled t], snd acc @ [\<lparr>td_Peer = dr_PeerUserID dr, td_TopMessage = 0,
       td_ReadInboxMaxID = 0, td_ReadOutboxMaxID = 0, td_UnreadCount = 0,
       td_Draft = Some (draftMessage uc dr)\<rparr>])))))"

definition messagesGetDialogs :: "ctx \<Rightarrow> int \<Rightarrow> ('z server_scheme, tg_dialogs) go" where
  "messagesGetDialogs c limit = bnd (requireCaller c) (\<lambda>caller.
     let limit' = if limit \<le> 0 \<or> dialogsDefaultLimit < limit then dialogsDefaultLimit else limit in
     bnd (internal (GetDialogs (usr_ID caller) limit')) (\<lambda>dialogs.
     bnd (internal (Drafts (usr_ID caller))) (\<lambda>drs.
     bnd (tgUsers [(caller, True)]) (\<lambda>us0.
     bnd (loop (dialogEntry (usr_ID caller) (draftByPeer drs)) dialogs (us0, [], [], [])) (\<lambda>(us, ds, ms, seen).
     bnd (loop (draftEntry seen) drs (us, [])) (\<lambda>(us', draftOnly).
     ret \<lparr>ds_Dialogs = draftOnly @ ds, ds_Messages = ms, ds_Users = us', ds_State = None\<rparr>))))))"

definition peerDialogEntry :: "User \<Rightarrow> (int, Dialog) gomap \<Rightarrow> (int, Draft) gomap \<Rightarrow> input_dialog_peer \<Rightarrow>
   user_class list \<times> tg_dialog list \<times> tg_message list \<times> int list \<Rightarrow>
   ('z server_scheme, user_class list \<times> tg_dialog list \<times> tg_message list \<times> int list) go" where
  "peerDialogEntry caller byPeer dbp p acc = (case p of
       InputDialogPeerOther \<Rightarrow> ret acc
     | InputDialogPeer inPeer \<Rightarrow> bnd (attempt (resolvePeerUser caller inPeer)) (\<lambda>r. case r of
         Inl _ \<Rightarrow> ret acc
       | Inr peer \<Rightarrow> (case acc of (us, ds, ms, seen) \<Rightarrow>
          let dl = (case map_of byPeer (usr_ID peer) of None \<Rightarrow> new_dialog 0 | Some dl \<Rightarrow> dl) in
          bnd (gets uc_letter) (\<lambda>uc.
          bnd (topMessage (usr_ID caller) (usr_ID peer)) (\<lambda>top.
          let ds' = ds @ [tgDialog uc dbp (usr_ID peer) dl] in
          if usr_ID peer \<in> set seen then ret (us, ds', ms @ top, seen)
          else bnd (tgUser peer False) (\<lambda>t.
            ret (us @ [UserFilled t], ds', ms @ top, usr_ID peer # seen)))))))"

definition messagesGetPeerDialogs :: "ctx \<Rightarrow> input_dialog_peer list \<Rightarrow> ('z server_scheme, tg_dialogs) go" where
  "messagesGetPeerDialogs c peers = bnd (requireCaller c) (\<lambda>caller.
     bnd (internal (GetDialogs (usr_ID caller) dialogsDefaultLimit)) (\<lambda>dialogs.
     let byPeer = fold (\<lambda>d. mput (dlg_PeerUserID d) d) dialogs [] in
     bnd (internal (Drafts (usr_ID caller))) (\<lambda>drs.
     bnd (internal (GetState (usr_ID caller))) (\<lambda>st.
     bnd (tgUsers [(caller, True)]) (\<lambda>us0.
     bnd (loop (peerDialogEntry caller byPeer (draftByPeer drs)) peers (us0, [], [], [usr_ID caller]))
       (\<lambda>(us, ds, ms, seen).
     ret \<lparr>ds_Dialogs = ds, ds_Messages = ms, ds_Users = us, ds_State = Some (tgState st)\<rparr>))))))"

section \<open>Reading, editing, deleting\<close>

definition messagesReadHistory :: "ctx \<Rightarrow> input_peer \<Rightarrow> int \<Rightarrow> ('z server_scheme, int \<times> int) go" where
  "messagesReadHistory c inPeer maxID = bnd (requireCaller c) (\<lambda>caller.
     bnd (resolvePeerUser caller inPeer) (\<lambda>peer.
     bnd (internal (ReadHistory (usr_ID caller) (usr_ID peer) maxID)) (\<lambda>res.
     bnd now (\<lambda>t.
     bnd (tgUsers [(caller, True), (peer, False)]) (\<lambda>us.
     bnd (push c (usr_ID caller) us (Unix t)
       [UpdateReadHistoryInbox (usr_ID peer) maxID (rr_UnreadCount res) (rr_InboxPts res) 1]) (\<lambda>_.
     bnd (if 0 < rr_OutboxMaxID res then
         bnd (tgUsers [(caller, False), (peer, True)]) (\<lambda>us'.
         push c (usr_ID peer) us' (Unix t)
           [UpdateReadHistoryOutbox (usr_ID caller) (rr_OutboxMaxID res) (rr_OutboxPts res) 1])
       else ret ()) (\<lambda>_.
     ret (rr_InboxPts res, 1))))))))"

definition messagesEditMessage ::
  "ctx \<Rightarrow> input_peer \<Rightarrow> int \<Rightarrow> string \<Rightarrow> ('z server_scheme, tg_updates) go" where
  "messagesEditMessage c inPeer mid txt = bnd (requireCaller c) (\<lambda>caller.
     bnd (resolvePeerUser caller inPeer) (\<lambda>peer.
     bnd (on_err (EditMessage (usr_ID caller) mid txt) (\<lambda>e. if e = ErrMessageID
         then fail (RpcError 400 ''MESSAGE_ID_INVALID'') else fail (RpcError 500 ''INTERNAL''))) (\<lambda>res.
     bnd (gets uc_letter) (\<lambda>uc.
     bnd (if er_PeerLocalID res \<noteq> 0 then
         bnd (tgUsers [(caller, False), (peer, True)]) (\<lambda>us.
         push c (usr_ID peer) us (Unix (er_EditDate res))
           [UpdateEditMessage (dmMessage uc (view_of (er_PeerLocalID res) (usr_ID caller) (usr_ID caller)
              False txt (er_Date res) (er_EditDate res) None)) (er_PeerPts res) 1])
       else ret ()) (\<lambda>_.
     bnd (tgUsers [(caller, True), (peer, False)]) (\<lambda>us.
     ret \<lparr>up_Updates = [UpdateEditMessage (dmMessage uc (view_of (er_SelfLocalID res) (usr_ID caller)
            (usr_ID peer) True txt (er_Date res) (er_EditDate res) None)) (er_SelfPts res) 1],
        up_Users = us, up_Date = Unix (er_EditDate res)\<rparr>))))))"

definition messagesDeleteMessages :: "ctx \<Rightarrow> int list \<Rightarrow> ('z server_scheme, int \<times> int) go" where
  "messagesDeleteMessages c ids = bnd (requireCaller c) (\<lambda>caller.
     bnd (internal (DeleteMessages (usr_ID caller) ids)) (\<lambda>res. ret (del_Pts res, del_PtsCount res)))"

section \<open>Drafts\<close>

definition messagesSaveDraft :: "ctx \<Rightarrow> input_peer \<Rightarrow> string \<Rightarrow> ('z server_scheme, bool) go" where
  "messagesSaveDraft c inPeer txt = bnd (requireCaller c) (\<lambda>caller.
     bnd (resolvePeerUser caller inPeer) (\<lambda>peer.
     bnd (internal (SaveDraft (usr_ID caller) (usr_ID peer) txt)) (\<lambda>date.
     bnd (gets uc_letter) (\<lambda>uc.
     let draft = if TrimSpace txt \<noteq> [] then draftMessage uc \<lparr>dr_PeerUserID = usr_ID peer,
         dr_Text = txt, dr_Date = date\<rparr> else DraftMessageEmpty in
     bnd (tgUsers [(caller, True), (peer, False)]) (\<lambda>us. bnd now (\<lambda>t.
     bnd (push c (usr_ID caller) us (Unix t) [draftUpdate (usr_ID peer) draft]) (\<lambda>_. ret True)))))))"

definition allDraftsEntry :: "Draft \<Rightarrow> update_class list \<times> user_class list \<times> int list \<Rightarrow>
   ('z server_scheme, update_class list \<times> user_class list \<times> int list) go" where
  "allDraftsEntry d acc = (case acc of (ups, us, seen) \<Rightarrow> bnd (gets uc_letter) (\<lambda>uc.
     let ups' = ups @ [draftUpdate (dr_PeerUserID d) (draftMessage uc d)] in
     if dr_PeerUserID d \<in> set seen then ret (ups', us, seen) else
     bnd (attempt (UserByID (dr_PeerUserID d))) (\<lambda>r. case r of
       Inr (Some u) \<Rightarrow> bnd (tgUser u False) (\<lambda>t. ret (ups', us @ [UserFilled t], dr_PeerUserID d # seen))
     | _ \<Rightarrow> ret (ups', us, seen))))"

definition messagesGetAllDrafts :: "ctx \<Rightarrow> ('z server_scheme, tg_updates) go" where
  "messagesGetAllDrafts c = bnd (requireCaller c) (\<lambda>caller.
     bnd (internal (Drafts (usr_ID caller))) (\<lambda>drs.
     bnd (tgUsers [(caller, True)]) (\<lambda>us0.
     bnd (loop allDraftsEntry drs ([], us0, [usr_ID caller])) (\<lambda>(ups, us, seen).
     bnd now (\<lambda>t. ret \<lparr>up_Updates = ups, up_Users = us, up_Date = Unix t\<rparr>)))))"

end
