(* ===== verification/RpcMedia.thy ===== *)
theory RpcMedia imports RpcMessages begin

text \<open>
  Media, \<^verbatim>\<open>internal/rpc/media.go\<close>, and the update stream, \<^verbatim>\<open>internal/rpc/updates.go\<close>.
\<close>

section \<open>Media\<close>

definition maxPartSize :: nat where "maxPartSize = 512 * 1024"

definition uploadSaveFilePart :: "ctx \<Rightarrow> int \<Rightarrow> int \<Rightarrow> bytes \<Rightarrow> ('z server_scheme, bool) go" where
  "uploadSaveFilePart c fileID part content = bnd (requireCaller c) (\<lambda>caller.
     if content = [] \<or> maxPartSize < length content then fail (RpcError 400 ''FILE_PART_INVALID'') else
     bnd (modify (\<lambda>h. h\<lparr>staging := stage_part (usr_ID caller, fileID) part content (staging h)\<rparr>)) (\<lambda>_.
     ret True))"

definition uploadSaveBigFilePart :: "ctx \<Rightarrow> int \<Rightarrow> int \<Rightarrow> bytes \<Rightarrow> ('z server_scheme, bool) go" where
  "uploadSaveBigFilePart c fileID part content = bnd (requireCaller c) (\<lambda>caller.
     if content = [] \<or> maxPartSize < length content then fail (RpcError 400 ''FILE_PART_INVALID'') else
     bnd (modify (\<lambda>h. h\<lparr>staging := stage_part (usr_ID caller, fileID) part content (staging h)\<rparr>)) (\<lambda>_.
     ret True))"

definition takeStaged :: "stagingKey \<Rightarrow> ('z server_scheme, stagedFile option) go" where
  "takeStaged key = (\<lambda>h. case staging_take key (staging h) of (f, u) \<Rightarrow> (Ok f, h\<lparr>staging := u\<rparr>))"

definition new_file :: "int \<Rightarrow> string \<Rightarrow> bytes \<Rightarrow> bytes \<Rightarrow> File" where
  "new_file owner key content digest = \<lparr>file_ID = 0, file_OwnerUserID = owner, file_AccessHash = 0,
     file_ObjectKey = key, file_Size = int (length content), file_Mime = [], file_SHA256 = digest,
     file_FileReference = [], file_Kind = ''photo'', file_CreatedAt = zero_time\<rparr>"

text \<open>The content goes to the store under the hex of its hash, then the file is recorded.\<close>

definition save_content :: "int \<Rightarrow> bytes \<Rightarrow> ('z server_scheme, File) go" where
  "save_content owner content = bnd (gets (\<lambda>h. sha256 h content)) (\<lambda>digest.
     bnd (internal (withStore (ObjPut (hex digest) content))) (\<lambda>_.
     internal (SaveFile (new_file owner (hex digest) content digest))))"

text \<open>What happens once the message is stored: the push to the peer and the reply.\<close>

definition media_sent ::
  "ctx \<Rightarrow> User \<Rightarrow> User \<Rightarrow> string \<Rightarrow> int \<Rightarrow> File \<Rightarrow> SentMessage \<Rightarrow> ('z server_scheme, tg_updates) go" where
  "media_sent c caller peer txt randomID fl sent = bnd (gets uc_letter) (\<lambda>uc.
     bnd (if sent_SelfChat sent then ret () else
         bnd (tgUsers [(caller, False), (peer, True)]) (\<lambda>us.
         push c (usr_ID peer) us (Unix (sent_Date sent))
           [UpdateNewMessage (dmMessage uc (view_of (sent_RecipientLocalID sent) (usr_ID caller)
              (usr_ID caller) False txt (sent_Date sent) zero_time (Some fl)))
              (sent_RecipientPts sent) 1])) (\<lambda>_.
     bnd (tgUsers [(caller, True), (peer, False)]) (\<lambda>us.
     ret \<lparr>up_Updates = [UpdateMessageID (sent_SenderLocalID sent) randomID,
          UpdateNewMessage (dmMessage uc (view_of (sent_SenderLocalID sent) (usr_ID caller) (usr_ID peer)
            True txt (sent_Date sent) zero_time (Some fl))) (sent_SenderPts sent) 1],
        up_Users = us, up_Date = Unix (sent_Date sent)\<rparr>)))"

definition messagesSendMedia ::
  "ctx \<Rightarrow> input_peer \<Rightarrow> input_media \<Rightarrow> string \<Rightarrow> int \<Rightarrow> ('z server_scheme, tg_updates) go" where
  "messagesSendMedia c inPeer media txt randomID = bnd (requireCaller c) (\<lambda>caller.
     bnd requireStore (\<lambda>_.
     bnd (resolvePeerUser caller inPeer) (\<lambda>peer.
     case uploadedFileID media of None \<Rightarrow> fail (RpcError 400 ''MEDIA_INVALID'') | Some fileID \<Rightarrow>
     bnd (takeStaged (usr_ID caller, fileID)) (\<lambda>staged.
     case staged of None \<Rightarrow> fail (RpcError 400 ''FILE_REFERENCE_EMPTY'') | Some f \<Rightarrow>
     bnd (save_content (usr_ID caller) (assemble f)) (\<lambda>fl.
     bnd (internal (SendMessage (usr_ID caller) (usr_ID peer) txt randomID (file_ID fl))) (\<lambda>sent.
     media_sent c caller peer txt randomID fl sent))))))"

definition uploadGetFile ::
  "ctx \<Rightarrow> input_location \<Rightarrow> int \<Rightarrow> int \<Rightarrow> ('z server_scheme, bytes) go" where
  "uploadGetFile c loc offset limit = bnd (requireCaller c) (\<lambda>_. bnd requireStore (\<lambda>_.
     case locationID loc of None \<Rightarrow> fail (RpcError 400 ''LOCATION_INVALID'') | Some (fid, hash) \<Rightarrow>
     bnd (internal (FileByID fid)) (\<lambda>x. case x of
       None \<Rightarrow> fail (RpcError 400 ''FILE_ID_INVALID'')
     | Some f \<Rightarrow> if file_AccessHash f \<noteq> hash then fail (RpcError 400 ''FILE_ID_INVALID'') else
         internal (withStore (ObjGetRange (file_ObjectKey f) offset limit)))))"

section \<open>Updates\<close>

definition differenceLimit :: int where "differenceLimit = 1000"

definition updatesGetState :: "ctx \<Rightarrow> ('z server_scheme, tg_state) go" where
  "updatesGetState c = bnd (requireCaller c) (\<lambda>caller.
     bnd (internal (GetState (usr_ID caller))) (\<lambda>st. ret (tgState st)))"

definition messageByGlobal :: "int \<Rightarrow> UpdateLogEntry \<Rightarrow> ('z server_scheme, Message option) go" where
  "messageByGlobal self e = (case ue_GlobalID e of
       None \<Rightarrow> ret None
     | Some g \<Rightarrow> on_err (MessageByGlobal self g) (\<lambda>_. ret None))"

text \<open>The set of user ids; the order of the list is the map's.\<close>

definition add_id :: "int \<Rightarrow> int list \<Rightarrow> int list" where
  "add_id i ids = (if i \<in> set ids then ids else ids @ [i])"

text \<open>One entry of the log: the accumulator is the messages, the updates and the user ids.\<close>

definition differenceEntry :: "int \<Rightarrow> UpdateLogEntry \<Rightarrow> tg_message list \<times> update_class list \<times> int list \<Rightarrow>
   ('z server_scheme, tg_message list \<times> update_class list \<times> int list) go" where
  "differenceEntry self e acc = (case acc of (ms, ups, ids) \<Rightarrow> bnd (gets uc_letter) (\<lambda>uc.
     if ue_Type e = UpdateNew then
       bnd (messageByGlobal self e) (\<lambda>x. case x of
         None \<Rightarrow> ret acc
       | Some m \<Rightarrow> ret (ms @ [dmMessage uc m], ups, add_id (msg_PeerUserID m) (add_id (msg_FromUserID m) ids)))
     else if ue_Type e = UpdateEdit then
       bnd (messageByGlobal self e) (\<lambda>x. case x of
         None \<Rightarrow> ret acc
       | Some m \<Rightarrow> ret (ms, ups @ [UpdateEditMessage (dmMessage uc m) (ue_Pts e) (ue_PtsCount e)],
           add_id (msg_PeerUserID m) (add_id (msg_FromUserID m) ids)))
     else if ue_Type e = UpdateDelete then
       ret (ms, ups @ [UpdateDeleteMessages (DecodeDeleted (ue_Extra e)) (ue_Pts e) (ue_PtsCount e)], ids)
     else if ue_Type e = UpdateReadInbox then
       (case DecodeRead (ue_Extra e) of (peer, maxID) \<Rightarrow>
         ret (ms, ups @ [UpdateReadHistoryInbox peer maxID 0 (ue_Pts e) (ue_PtsCount e)], add_id peer ids))
     else if ue_Type e = UpdateReadOutbox then
       (case DecodeRead (ue_Extra e) of (peer, maxID) \<Rightarrow>
         ret (ms, ups @ [UpdateReadHistoryOutbox peer maxID (ue_Pts e) (ue_PtsCount e)], add_id peer ids))
     else ret acc))"

definition usersByIDs :: "int \<Rightarrow> int list \<Rightarrow> ('z server_scheme, user_class list) go" where
  "usersByIDs self ids = bnd (UsersByIDs ids) (\<lambda>us. tgUsers (map (\<lambda>u. (u, usr_ID u = self)) us))"

definition updatesGetDifference :: "ctx \<Rightarrow> int \<Rightarrow> ('z server_scheme, difference_class) go" where
  "updatesGetDifference c pts = bnd (requireCaller c) (\<lambda>caller.
     bnd (internal (GetDifference (usr_ID caller) pts differenceLimit)) (\<lambda>(entries, currentPts).
     if entries = [] then bnd now (\<lambda>t. ret (DifferenceEmpty (Unix t))) else
     bnd (loop (differenceEntry (usr_ID caller)) entries ([], [], [usr_ID caller])) (\<lambda>(ms, ups, ids).
     bnd (internal (usersByIDs (usr_ID caller) ids)) (\<lambda>us. bnd now (\<lambda>t.
     ret (Difference ms ups us (tgState \<lparr>st_Pts = currentPts, st_Qts = 0, st_Seq = 0, st_Date = t,
       st_UnreadCount = 0\<rparr>)))))))"

end
