(* ===== verification/RpcHelp.thy ===== *)
theory RpcHelp imports Server begin

text \<open>
  The list of time zones, \<^verbatim>\<open>internal/rpc/help.go\<close>. The offset of a zone at an instant comes
  from the time zone database (\<open>zone_offset\<close> of the state); the hash is 32-bit arithmetic.
\<close>

text \<open>The identifiers and names; the name of the eighth is written as its UTF-8 bytes.\<close>

definition timezoneIDs :: "(string \<times> string) list" where
  "timezoneIDs =
    [(''UTC'', ''UTC''), (''Pacific/Honolulu'', ''Honolulu''), (''America/Anchorage'', ''Anchorage''),
     (''America/Los_Angeles'', ''Los Angeles''), (''America/Denver'', ''Denver''),
     (''America/Chicago'', ''Chicago''), (''America/New_York'', ''New York''),
     (''America/Sao_Paulo'', ''S'' @ [chr 195, chr 163] @ ''o Paulo''),
     (''Atlantic/Reykjavik'', ''Reykjavik''), (''Europe/London'', ''London''),
     (''Europe/Paris'', ''Paris''), (''Europe/Berlin'', ''Berlin''), (''Europe/Madrid'', ''Madrid''),
     (''Europe/Rome'', ''Rome''), (''Europe/Kyiv'', ''Kyiv''), (''Europe/Istanbul'', ''Istanbul''),
     (''Europe/Moscow'', ''Moscow''), (''Asia/Dubai'', ''Dubai''), (''Asia/Karachi'', ''Karachi''),
     (''Asia/Kolkata'', ''Kolkata''), (''Asia/Dhaka'', ''Dhaka''), (''Asia/Bangkok'', ''Bangkok''),
     (''Asia/Shanghai'', ''Shanghai''), (''Asia/Singapore'', ''Singapore''), (''Asia/Tokyo'', ''Tokyo''),
     (''Asia/Seoul'', ''Seoul''), (''Australia/Sydney'', ''Sydney''),
     (''Pacific/Auckland'', ''Auckland'')]"

record timezone =
  tz_ID :: string
  tz_Name :: string
  tz_UtcOffset :: int

definition hash_bytes :: "string \<Rightarrow> 32 word \<Rightarrow> 32 word" where
  "hash_bytes s h = fold (\<lambda>b h. h * 31 + of_nat (of_char b)) s h"

definition hash_zone :: "timezone \<Rightarrow> 32 word \<Rightarrow> 32 word" where
  "hash_zone z h = hash_bytes (tz_ID z) h * 31 + word_of_int (tz_UtcOffset z)"

definition timezonesHash :: "timezone list \<Rightarrow> int" where
  "timezonesHash zones = uint (and (fold hash_zone zones 0) 0x7fffffff)"

datatype timezones_reply = TimezonesNotModified | TimezonesList "timezone list" int

definition timezones_at :: "(string \<Rightarrow> int \<Rightarrow> int option) \<Rightarrow> int \<Rightarrow> timezone list" where
  "timezones_at offset t = map (\<lambda>(i, name). \<lparr>tz_ID = i, tz_Name = name,
     tz_UtcOffset = (case offset i t of None \<Rightarrow> 0 | Some x \<Rightarrow> x)\<rparr>) timezoneIDs"

definition helpGetTimezonesList :: "ctx \<Rightarrow> int \<Rightarrow> ('z server_scheme, timezones_reply) go" where
  "helpGetTimezonesList c h = bnd now (\<lambda>t. bnd (gets zone_offset) (\<lambda>offset.
     let zones = timezones_at offset t; listHash = timezonesHash zones in
     if h = listHash then ret TimezonesNotModified else ret (TimezonesList zones listHash)))"

section \<open>The hash\<close>

lemma timezonesHash_mod: "timezonesHash zones = uint (fold hash_zone zones 0) mod 2 ^ 31"
proof -
  have "(0x7fffffff :: 32 word) = mask 31"
    by (simp add: mask_eq_exp_minus_1)
  then show ?thesis
    unfolding timezonesHash_def by (metis take_bit_eq_mask take_bit_eq_mod unsigned_take_bit_eq)
qed

lemma uint_mod_add: "uint (w + word_of_int k :: 32 word) mod 2 ^ 31 = (uint w + k) mod 2 ^ 31"
proof -
  have "uint (w + word_of_int k) = (uint w + k) mod 2 ^ 32"
    by (simp add: uint_word_ariths uint_word_of_int mod_add_right_eq)
  then show ?thesis
    by (simp add: mod_mod_cancel)
qed

lemma timezonesHash_shift:
  assumes "0 < k" "k < 2 ^ 31"
  shows "timezonesHash (zs @ [z\<lparr>tz_UtcOffset := tz_UtcOffset z + k\<rparr>]) \<noteq> timezonesHash (zs @ [z])"
proof
  let ?w = "hash_zone z (fold hash_zone zs 0)"
  have "fold hash_zone (zs @ [z\<lparr>tz_UtcOffset := tz_UtcOffset z + k\<rparr>]) 0 = ?w + word_of_int k"
    by (simp add: hash_zone_def)
  moreover have "fold hash_zone (zs @ [z]) 0 = ?w"
    by simp
  moreover assume "timezonesHash (zs @ [z\<lparr>tz_UtcOffset := tz_UtcOffset z + k\<rparr>]) = timezonesHash (zs @ [z])"
  ultimately have "(uint ?w + k) mod 2 ^ 31 = uint ?w mod 2 ^ 31"
    unfolding timezonesHash_mod by (simp only: uint_mod_add)
  then have "k mod 2 ^ 31 = 0"
    by (metis add_diff_cancel_left' mod_0 mod_diff_eq right_minus_eq)
  with assms show False
    by simp
qed



end
