(* ===== verification/Rpc.thy ===== *)
theory Rpc imports RpcMedia RpcHelp begin

text \<open>
  The registered RPCs: \<^verbatim>\<open>register.go\<close> as one datatype of requests and their dispatch to
  the handlers. The handlers that answer with a constant and touch no state are named by
  their method (\<open>canned_methods\<close>); every other method reaches \<^verbatim>\<open>fallback\<close>. A server serves
  its requests one after the other here: handlers run concurrently in the code, but each
  database call is atomic under its mutex.
\<close>

section \<open>Requests and replies\<close>

datatype (plugins only: code) request =
    ReqAuthSendCode string
  | ReqAuthSignIn string string string
  | ReqAuthSignUp string string string string
  | ReqAuthLogOut
  | ReqAuthBindTempAuthKey int int
  | ReqAuthImportBotAuthorization string
  | ReqBotsSetBotCommands "bytes option" string "BotCommand list"
  | ReqBotsGetBotCommands "bytes option" string
  | ReqBotsResetBotCommands "bytes option" string
  | ReqUsersGetUsers "input_user list"
  | ReqUsersGetFullUser input_user
  | ReqContactsResolveUsername string
  | ReqContactsGetContacts
  | ReqContactsSearch string int
  | ReqContactsImportContacts "phone_contact list"
  | ReqContactsAddContact input_user string string
  | ReqContactsDeleteContacts "input_user list"
  | ReqAccountCheckUsername string
  | ReqAccountUpdateUsername string
  | ReqMessagesSendMessage input_peer string int
  | ReqMessagesGetHistory input_peer int int
  | ReqMessagesGetDialogs int
  | ReqMessagesGetSavedHistory int int
  | ReqMessagesSaveDraft input_peer string
  | ReqMessagesGetAllDrafts
  | ReqMessagesReadHistory input_peer int
  | ReqMessagesEditMessage input_peer int string
  | ReqMessagesDeleteMessages "int list"
  | ReqMessagesGetPeerDialogs "input_dialog_peer list"
  | ReqUpdatesGetState
  | ReqUpdatesGetDifference int
  | ReqUploadSaveFilePart int int bytes
  | ReqUploadSaveBigFilePart int int bytes
  | ReqMessagesSendMedia input_peer input_media string int
  | ReqUploadGetFile input_location int int
  | ReqMessagesSearch input_peer string int
  | ReqAccountUpdateProfile "string option" "string option" "string option"
  | ReqHelpGetTimezonesList int
  | ReqMethod string

datatype (plugins only: code) reply =
    ReplySentCode sent_code
  | ReplyAuthorized authorization
  | ReplyLoggedOut
  | ReplyBool bool
  | ReplyCommands "BotCommand list"
  | ReplyUsers "user_class list"
  | ReplyFullUser user_full
  | ReplyContacts tg_contacts
  | ReplyUpdates tg_updates
  | ReplyUser tg_user
  | ReplyMessages tg_messages
  | ReplyDialogs tg_dialogs
  | ReplyAffected "int \<times> int"
  | ReplyState tg_state
  | ReplyDifference difference_class
  | ReplyFile bytes
  | ReplyTimezones timezones_reply
  | ReplyCanned string

definition canned_methods :: "string list" where
  "canned_methods =
    [''HelpGetConfig'', ''HelpGetNearestDC'', ''HelpGetAppConfig'',
     ''HelpGetCountriesList'', ''HelpGetTermsOfServiceUpdate'',
     ''HelpGetPremiumPromo'', ''HelpGetPromoData'', ''HelpDismissSuggestion'',
     ''HelpAcceptTermsOfService'', ''AuthExportLoginToken'', ''AccountGetNotifySettings'',
     ''AccountGetGlobalPrivacySettings'', ''AccountGetPrivacy'',
     ''AccountGetConnectedBots'', ''MessagesGetDialogFilters'',
     ''MessagesGetAvailableReactions'', ''MessagesGetStickerSet'',
     ''MessagesGetAttachMenuBots'', ''MessagesGetPinnedDialogs'', ''MessagesGetStickers'',
     ''MessagesGetAllStickers'', ''MessagesGetEmojiStickers'',
     ''MessagesGetFavedStickers'', ''MessagesGetFeaturedStickers'',
     ''MessagesGetFeaturedEmojiStickers'', ''MessagesGetRecentStickers'',
     ''MessagesGetSavedGifs'', ''ChannelsGetMessages'', ''MessagesGetTopReactions'',
     ''MessagesGetRecentReactions'', ''MessagesGetDefaultTagReactions'',
     ''MessagesGetSavedReactionTags'', ''AccountGetReactionsNotifySettings'',
     ''MessagesGetAvailableEffects'', ''MessagesGetEmojiGroups'',
     ''MessagesGetEmojiStickerGroups'', ''MessagesGetEmojiKeywordsLanguages'',
     ''AccountGetDefaultEmojiStatuses'', ''AccountGetCollectibleEmojiStatuses'',
     ''MessagesGetQuickReplies'', ''AicomposeGetTones'',
     ''PaymentsGetStarGiftActiveAuctions'', ''PaymentsGetSavedStarGifts'',
     ''HelpGetPeerColors'', ''HelpGetPeerProfileColors'', ''AccountGetThemes'',
     ''StoriesGetAllStories'', ''StoriesGetStoriesArchive'', ''StoriesGetPinnedStories'',
     ''MessagesGetPinnedSavedDialogs'', ''MessagesGetSuggestedDialogFilters'',
     ''MessagesGetPeerSettings'', ''MessagesGetScheduledHistory'', ''MessagesGetWebPage'',
     ''MessagesGetWebPagePreview'', ''ContactsGetTopPeers'', ''AccountGetPassword'',
     ''AccountGetContentSettings'', ''AccountGetContactSignUpNotification'']"

definition fallback :: "('z server_scheme, 'a) go" where
  "fallback = fail (RpcError 500 ''NOT_IMPLEMENTED'')"

definition reply_with :: "('a \<Rightarrow> reply) \<Rightarrow> ('z server_scheme, 'a) go \<Rightarrow> ('z server_scheme, reply) go" where
  "reply_with f m = bnd m (\<lambda>x. ret (f x))"

primrec dispatch :: "request \<Rightarrow> ctx \<Rightarrow> ('z server_scheme, reply) go" where
  "dispatch (ReqAuthSendCode a) c = reply_with ReplySentCode (authSendCode c a)"
| "dispatch (ReqAuthSignIn a b d) c = reply_with ReplyAuthorized (authSignIn c a b d)"
| "dispatch (ReqAuthSignUp a b d e) c = reply_with ReplyAuthorized (authSignUp c a b d e)"
| "dispatch ReqAuthLogOut c = reply_with (\<lambda>_. ReplyLoggedOut) (authLogOut c)"
| "dispatch (ReqAuthBindTempAuthKey a b) c = reply_with ReplyBool (authBindTempAuthKey c a b)"
| "dispatch (ReqAuthImportBotAuthorization a) c = reply_with ReplyAuthorized (authImportBotAuthorization c a)"
| "dispatch (ReqBotsSetBotCommands a b d) c = reply_with ReplyBool (botsSetBotCommands c a b d)"
| "dispatch (ReqBotsGetBotCommands a b) c = reply_with ReplyCommands (botsGetBotCommands c a b)"
| "dispatch (ReqBotsResetBotCommands a b) c = reply_with ReplyBool (botsResetBotCommands c a b)"
| "dispatch (ReqUsersGetUsers a) c = reply_with ReplyUsers (usersGetUsers c a)"
| "dispatch (ReqUsersGetFullUser a) c = reply_with ReplyFullUser (usersGetFullUser c a)"
| "dispatch (ReqContactsResolveUsername a) c = reply_with ReplyContacts (contactsResolveUsername c a)"
| "dispatch ReqContactsGetContacts c = reply_with ReplyContacts (contactsGetContacts c)"
| "dispatch (ReqContactsSearch a b) c = reply_with ReplyContacts (contactsSearch c a b)"
| "dispatch (ReqContactsImportContacts a) c = reply_with ReplyContacts (contactsImportContacts c a)"
| "dispatch (ReqContactsAddContact a b d) c = reply_with ReplyUpdates (contactsAddContact c a b d)"
| "dispatch (ReqContactsDeleteContacts a) c = reply_with ReplyUpdates (contactsDeleteContacts c a)"
| "dispatch (ReqAccountCheckUsername a) c = reply_with ReplyBool (accountCheckUsername c a)"
| "dispatch (ReqAccountUpdateUsername a) c = reply_with ReplyUser (accountUpdateUsername c a)"
| "dispatch (ReqMessagesSendMessage a b d) c = reply_with ReplyUpdates (messagesSendMessage c a b d)"
| "dispatch (ReqMessagesGetHistory a b d) c = reply_with ReplyMessages (messagesGetHistory c a b d)"
| "dispatch (ReqMessagesGetDialogs a) c = reply_with ReplyDialogs (messagesGetDialogs c a)"
| "dispatch (ReqMessagesGetSavedHistory a b) c = reply_with ReplyMessages (messagesGetSavedHistory c a b)"
| "dispatch (ReqMessagesSaveDraft a b) c = reply_with ReplyBool (messagesSaveDraft c a b)"
| "dispatch ReqMessagesGetAllDrafts c = reply_with ReplyUpdates (messagesGetAllDrafts c)"
| "dispatch (ReqMessagesReadHistory a b) c = reply_with ReplyAffected (messagesReadHistory c a b)"
| "dispatch (ReqMessagesEditMessage a b d) c = reply_with ReplyUpdates (messagesEditMessage c a b d)"
| "dispatch (ReqMessagesDeleteMessages a) c = reply_with ReplyAffected (messagesDeleteMessages c a)"
| "dispatch (ReqMessagesGetPeerDialogs a) c = reply_with ReplyDialogs (messagesGetPeerDialogs c a)"
| "dispatch ReqUpdatesGetState c = reply_with ReplyState (updatesGetState c)"
| "dispatch (ReqUpdatesGetDifference a) c = reply_with ReplyDifference (updatesGetDifference c a)"
| "dispatch (ReqUploadSaveFilePart a b d) c = reply_with ReplyBool (uploadSaveFilePart c a b d)"
| "dispatch (ReqUploadSaveBigFilePart a b d) c = reply_with ReplyBool (uploadSaveBigFilePart c a b d)"
| "dispatch (ReqMessagesSendMedia a b d e) c = reply_with ReplyUpdates (messagesSendMedia c a b d e)"
| "dispatch (ReqUploadGetFile a b d) c = reply_with ReplyFile (uploadGetFile c a b d)"
| "dispatch (ReqMessagesSearch a b d) c = reply_with ReplyMessages (messagesSearch c a b d)"
| "dispatch (ReqAccountUpdateProfile a b d) c = reply_with ReplyUser (accountUpdateProfile c a b d)"
| "dispatch (ReqHelpGetTimezonesList a) c = reply_with ReplyTimezones (helpGetTimezonesList c a)"
| "dispatch (ReqMethod a) c = (if a \<in> set canned_methods then ret (ReplyCanned a) else fallback)"

text \<open>
  A request as it arrives: the fields that are 32-bit integers in the protocol are in
  their range. Only the part number and the limit of a download matter.
\<close>

definition int32 :: "int \<Rightarrow> bool" where
  "int32 i \<longleftrightarrow> - (2 ^ 31) \<le> i \<and> i < 2 ^ 31"

fun wire_ok :: "request \<Rightarrow> bool" where
  "wire_ok (ReqUploadSaveFilePart fid part content) = int32 part"
| "wire_ok (ReqUploadSaveBigFilePart fid part content) = int32 part"
| "wire_ok (ReqUploadGetFile loc offset limit) = int32 limit"
| "wire_ok r = True"

section \<open>Executions\<close>

text \<open>A server with a database and an object store, as \<^verbatim>\<open>New\<close> builds it.\<close>

definition New :: "'z server_scheme \<Rightarrow> 'z server_scheme" where
  "New h = (snd (NewDB h))\<lparr>hasDB := True, store := Some NewObjectStore, reg_m := [], reg_lastSeen := [],
     staging := newUploadStaging\<rparr>"

definition serve :: "Session \<Rightarrow> request \<Rightarrow> ('z server_scheme, reply) go" where
  "serve s r = OnMessage s (dispatch r)"

inductive server_step :: "'z server_scheme \<Rightarrow> 'z server_scheme \<Rightarrow> bool" where
  "wire_ok r \<Longrightarrow> serve s r h = (out, h') \<Longrightarrow> out \<noteq> Panic \<Longrightarrow> server_step h h'"

inductive_cases server_stepE: "server_step h h'"

inductive server_reachable :: "'z server_scheme \<Rightarrow> bool" where
  server_start: "server_reachable (New h)"
| server_next: "server_reachable h \<Longrightarrow> server_step h h' \<Longrightarrow> server_reachable h'"

end
