(* ===== verification/RpcKeeps.thy ===== *)
theory RpcKeeps imports Rpc begin

text \<open>Every request keeps the invariant of the database.\<close>

lemma keeps_db_ok_server:
  "(\<And>h. users (f h) = users h \<and> userSeq (f h) = userSeq h \<and> messages (f h) = messages h \<and>
     msgSeq (f h) = msgSeq h \<and> refs (f h) = refs h \<and> updates (f h) = updates h \<and> files (f h) = files h \<and>
     fileSeq (f h) = fileSeq h \<and> sessions (f h) = sessions h \<and> tempKeys (f h) = tempKeys h \<and>
     phoneCodes (f h) = phoneCodes h \<and> drafts (f h) = drafts h \<and> contacts (f h) = contacts h \<and>
     botStates (f h) = botStates h \<and> botCommands (f h) = botCommands h) \<Longrightarrow>
   keeps db_ok (modify f :: ('z server_scheme, unit) go)"
  by (rule keeps_modify) (simp add: db_ok_def db_inv_def)

lemma keeps_server_state [keeps_rules]:
  "keeps db_ok (track uid s :: ('z server_scheme, unit) go)"
  "keeps db_ok (untrack uid sid :: ('z server_scheme, unit) go)"
  "keeps db_ok (server_send s w :: ('z server_scheme, unit) go)"
  "keeps db_ok (takeStaged key :: ('z server_scheme, stagedFile option) go)"
  "keeps db_ok (modify (\<lambda>h. h\<lparr>staging := stg h\<rparr>) :: ('z server_scheme, unit) go)"
proof -
  show "keeps db_ok (takeStaged key :: ('z server_scheme, stagedFile option) go)"
    by (simp add: keeps_def takeStaged_def staging_take_def db_ok_def db_inv_def split: option.split)
qed (unfold track_def untrack_def server_send_def,
    (intro keeps_rules keeps_db_ok_server; simp split: option.split)+)

lemma keeps_withStore [keeps_rules]: "keeps db_ok (withStore m :: ('z server_scheme, 'a) go)"
  by (simp add: keeps_def withStore_def db_ok_def db_inv_def split: option.split prod.split)

lemma keeps_internal [keeps_rules]: "keeps I m \<Longrightarrow> keeps I (internal m)"
  unfolding internal_def by (intro keeps_rules)

lemma keeps_helpers [keeps_rules]:
  "keeps db_ok (requireDB :: ('z server_scheme, unit) go)"
  "keeps db_ok (requireStore :: ('z server_scheme, unit) go)"
  "keeps db_ok (effectiveKeyID k :: ('z server_scheme, bytes) go)"
  "keeps db_ok (userStatus uid self :: ('z server_scheme, user_status) go)"
  unfolding requireDB_def requireStore_def effectiveKeyID_def userStatus_def
  by (intro keeps_rules)+

lemma keeps_callers [keeps_rules]:
  "keeps db_ok (callerUser c :: ('z server_scheme, User option) go)"
  "keeps db_ok (bindCaller c uid :: ('z server_scheme, unit) go)"
  "keeps db_ok (tgUser u self :: ('z server_scheme, tg_user) go)"
  unfolding callerUser_def bindCaller_def tgUser_def by (intro keeps_rules)+

lemma keeps_case_input_peer [keeps_rules]:
  "keeps I a \<Longrightarrow> (\<And>u h. keeps I (b u h)) \<Longrightarrow> keeps I d \<Longrightarrow>
    keeps I (case p of InputPeerSelf \<Rightarrow> a | InputPeerUser u h \<Rightarrow> b u h | InputPeerOther \<Rightarrow> d)"
  by (cases p) simp_all

lemma keeps_case_input_user [keeps_rules]:
  "keeps I a \<Longrightarrow> (\<And>u h. keeps I (b u h)) \<Longrightarrow> keeps I d \<Longrightarrow>
    keeps I (case p of InputUserSelf \<Rightarrow> a | InputUser u h \<Rightarrow> b u h | InputUserOther \<Rightarrow> d)"
  by (cases p) simp_all

lemma keeps_case_dialog_peer [keeps_rules]:
  "(\<And>q. keeps I (a q)) \<Longrightarrow> keeps I b \<Longrightarrow>
    keeps I (case p of InputDialogPeer q \<Rightarrow> a q | InputDialogPeerOther \<Rightarrow> b)"
  by (cases p) simp_all

lemma keeps_resolvers [keeps_rules]:
  "keeps db_ok (requireCaller c :: ('z server_scheme, User) go)"
  "keeps db_ok (tgUsers us :: ('z server_scheme, user_class list) go)"
  "keeps db_ok (resolvePeerUser u peer :: ('z server_scheme, User) go)"
  "keeps db_ok (resolveInputUser u i :: ('z server_scheme, User) go)"
  "keeps db_ok (push c uid out date ups :: ('z server_scheme, unit) go)"
  unfolding requireCaller_def tgUsers_def resolvePeerUser_def resolveInputUser_def push_def
  by (intro keeps_rules)+

lemmas handler_defs = authSendCode_def authSignIn_def authSignUp_def
  authImportBotAuthorization_def authBindTempAuthKey_def authLogOut_def usersGetUsers_def
  usersGetFullUser_def contactsResolveUsername_def contactsSearch_def contactsGetContacts_def
  contactsImportContacts_def contactsAddContact_def contactsDeleteContacts_def
  accountUpdateProfile_def accountCheckUsername_def accountUpdateUsername_def
  botsSetBotCommands_def botsGetBotCommands_def botsResetBotCommands_def
  messagesSendMessage_def messagesGetHistory_def messagesGetSavedHistory_def messagesSearch_def
  messagesGetDialogs_def messagesGetPeerDialogs_def messagesReadHistory_def
  messagesEditMessage_def messagesDeleteMessages_def messagesSaveDraft_def messagesGetAllDrafts_def
  uploadSaveFilePart_def uploadSaveBigFilePart_def messagesSendMedia_def media_sent_def uploadGetFile_def
  updatesGetState_def updatesGetDifference_def helpGetTimezonesList_def

lemmas botfather_defs = botTokenSecret_def botFatherListBots_def botFatherCommand_def
  botFatherSetName_def botFatherCreate_def botFatherRevoke_def botFatherEngine_def
  botFatherReply_def handleBotFather_def

lemma keeps_handleBotFather [keeps_rules]:
  "keeps db_ok (handleBotFather c u b txt :: ('z server_scheme, unit) go)"
  unfolding botfather_defs by (intro keeps_rules)

lemma keeps_deliver [keeps_rules]:
  "keeps db_ok (deliver c u p sent txt :: ('z server_scheme, unit) go)"
  unfolding deliver_def by (intro keeps_rules)

lemma keeps_entries [keeps_rules]:
  "keeps db_ok (getUser cu i :: ('z server_scheme, user_class) go)"
  "keeps db_ok (importContact u x acc1 :: ('z server_scheme, _) go)"
  "keeps db_ok (deletedContact u i acc2 :: ('z server_scheme, _) go)"
  "keeps db_ok (topMessage self p :: ('z server_scheme, tg_message list) go)"
  "keeps db_ok (allDraftsEntry d acc3 :: ('z server_scheme, _) go)"
  "keeps db_ok (draftEntry seen d acc4 :: ('z server_scheme, _) go)"
  "keeps db_ok (messageByGlobal self e :: ('z server_scheme, Message option) go)"
  "keeps db_ok (usersByIDs self ids :: ('z server_scheme, user_class list) go)"
  "keeps db_ok (checkCode ph hash code :: ('z server_scheme, unit) go)"
  "keeps db_ok (requireBot c :: ('z server_scheme, User) go)"
  unfolding getUser_def importContact_def deletedContact_def topMessage_def allDraftsEntry_def
    draftEntry_def messageByGlobal_def usersByIDs_def checkCode_def requireBot_def
  by (intro keeps_rules)+

lemma keeps_save_content [keeps_rules]:
  "keeps db_ok (save_content ow content :: ('z server_scheme, File) go)"
  unfolding save_content_def by (intro keeps_rules)

lemma keeps_dialog_entries [keeps_rules]:
  "keeps db_ok (dialogEntry self dbp dl acc :: ('z server_scheme, _) go)"
  "keeps db_ok (peerDialogEntry u bp dbp p acc :: ('z server_scheme, _) go)"
  "keeps db_ok (differenceEntry self e acc' :: ('z server_scheme, _) go)"
  unfolding dialogEntry_def peerDialogEntry_def differenceEntry_def by (intro keeps_rules)+

lemma keeps_dispatch: "keeps db_ok (dispatch r c :: ('z server_scheme, reply) go)"
  by (cases r; simp only: dispatch.simps reply_with_def fallback_def handler_defs; intro keeps_rules)

lemma keeps_serve: "keeps db_ok (serve s r :: ('z server_scheme, reply) go)"
  unfolding serve_def OnMessage_def trackCaller_def by (intro keeps_rules keeps_dispatch)

lemma db_ok_server: "server_reachable h \<Longrightarrow> db_ok h"
proof (induction rule: server_reachable.induct)
  case (server_start h)
  then show ?case
    using db_inv_NewDB [of h] by (simp add: New_def db_ok_def db_inv_def)
next
  case (server_next h h')
  then show ?case
    by (elim server_stepE) (metis keepsD keeps_serve)
qed

end
