(* ===== verification/RpcSafe.thy ===== *)
theory RpcSafe imports RpcKeeps begin

text \<open>
  What the layers of the server promise each other: sessions, messages and live sessions
  refer to existing accounts, and every file is backed by the object whose hash it records.
  From this no request panics, whatever the requests before it were. \<open>gives A F m\<close> says that
  \<open>m\<close> does not panic from a state with this invariant in which the accounts \<open>A\<close> exist, keeps
  the invariant, and returns results that mention existing accounts only (\<open>F\<close>).
\<close>

section \<open>The invariant\<close>

definition known :: "'z server_scheme \<Rightarrow> int \<Rightarrow> bool" where
  "known h u \<longleftrightarrow> map_of (users h) u \<noteq> None"

definition backed :: "'z server_scheme \<Rightarrow> File \<Rightarrow> bool" where
  "backed h f \<longleftrightarrow> (\<exists>o' content. store h = Some o' \<and> map_of (objs o') (file_ObjectKey f) = Some content \<and>
     sha256 h content = file_SHA256 f \<and> file_ObjectKey f = hex (file_SHA256 f))"

text \<open>Staged parts have at most 512 KiB and 32-bit numbers, so an upload stays below 2^51 bytes.\<close>

definition staged_ok :: "stagedFile \<Rightarrow> bool" where
  "staged_ok f \<longleftrightarrow> 0 \<le> sf_max f \<and> sf_max f < 2 ^ 31 \<and>
     (\<forall>i content. map_of (sf_parts f) i = Some content \<longrightarrow> length content \<le> maxPartSize)"

text \<open>Live sessions are filed under their own ids.\<close>

definition filed :: "(int, Session) gomap \<Rightarrow> bool" where
  "filed ss \<longleftrightarrow> mwf ss \<and> (\<forall>i s. map_of ss i = Some s \<longrightarrow> ses_ID s = i)"

definition sane :: "int set \<Rightarrow> 'z server_scheme \<Rightarrow> bool" where
  "sane A h \<longleftrightarrow> hasDB h \<and> store h \<noteq> None \<and> mwf (users h) \<and>
     (\<forall>i mu. map_of (users h) i = Some mu \<longrightarrow> usr_ID (mu_u mu) = i) \<and>
     (\<forall>g m. map_of (messages h) g = Some m \<longrightarrow> known h (mm_from m) \<and> known h (mm_peer m)) \<and>
     (\<forall>k u. map_of (sessions h) k = Some u \<longrightarrow> known h u) \<and>
     (\<forall>u. filed (getd (reg_m h) u) \<and> (getd (reg_m h) u \<noteq> [] \<longrightarrow> known h u)) \<and>
     (\<forall>i f. map_of (files h) i = Some f \<longrightarrow> backed h f) \<and>
     (\<forall>k f. map_of (staging h) k = Some f \<longrightarrow> staged_ok f) \<and>
     (\<forall>o' k content. store h = Some o' \<longrightarrow> map_of (objs o') k = Some content \<longrightarrow>
        int (length content) < 2 ^ 62) \<and>
     (\<forall>u \<in> A. known h u)"

definition gives :: "int set \<Rightarrow> ('a \<Rightarrow> int set) \<Rightarrow> ('z server_scheme, 'a) go \<Rightarrow> bool" where
  "gives A F m \<longleftrightarrow> (\<forall>h. sane A h \<longrightarrow> (case m h of
       (Ok x, h') \<Rightarrow> sane (A \<union> F x) h' | (Err e, h') \<Rightarrow> sane A h' | (Panic, h') \<Rightarrow> False))"

abbreviation safe :: "int set \<Rightarrow> ('z server_scheme, 'a) go \<Rightarrow> bool" where
  "safe A m \<equiv> gives A (\<lambda>_. {}) m"

named_theorems gives_rules

lemma sane_mono: "sane B h \<Longrightarrow> A \<subseteq> B \<Longrightarrow> sane A h"
  unfolding sane_def by blast

lemma sane_known: "sane A h \<Longrightarrow> u \<in> A \<Longrightarrow> known h u"
  unfolding sane_def by blast

lemma sane_Un: "sane (A \<union> B) h \<longleftrightarrow> sane A h \<and> (\<forall>u \<in> B. known h u)"
  unfolding sane_def by blast

lemma givesI:
  fixes m :: "('z server_scheme, 'a) go"
  assumes "\<And>h r h'. sane A h \<Longrightarrow> m h = (r, h') \<Longrightarrow> r \<noteq> Panic \<and> sane A h' \<and>
    (\<forall>x. r = Ok x \<longrightarrow> (\<forall>u \<in> F x. known h' u))"
  shows "gives A F m"
  unfolding gives_def
proof (intro allI impI)
  fix h :: "'z server_scheme"
  assume h: "sane A h"
  obtain r h' where m: "m h = (r, h')"
    by (cases "m h")
  show "case m h of (Ok x, h') \<Rightarrow> sane (A \<union> F x) h' | (Err e, h') \<Rightarrow> sane A h' | (Panic, h') \<Rightarrow> False"
    using assms [OF h m] m by (cases r) (auto simp: sane_Un)
qed

lemma givesD:
  assumes "gives A F m" "sane A h" "m h = (r, h')"
  shows "r \<noteq> Panic \<and> sane A h' \<and> (\<forall>x. r = Ok x \<longrightarrow> (\<forall>u \<in> F x. known h' u))"
proof -
  have "case m h of (Ok x, h') \<Rightarrow> sane (A \<union> F x) h' | (Err e, h') \<Rightarrow> sane A h' | (Panic, h') \<Rightarrow> False"
    using assms(1,2) by (simp add: gives_def)
  then show ?thesis
    using assms(3) by (cases r) (auto simp: sane_Un)
qed

section \<open>Rules for the combinators\<close>

lemma gives_bnd [gives_rules]:
  assumes "gives A F m" "\<And>x. gives (A \<union> F x) G (f x)"
  shows "gives A G (bnd m f)"
proof (rule givesI)
  fix h r h'
  assume h: "sane A h" and run: "bnd m f h = (r, h')"
  obtain r1 h1 where m: "m h = (r1, h1)"
    by (cases "m h")
  note one = givesD [OF assms(1) h m]
  show "r \<noteq> Panic \<and> sane A h' \<and> (\<forall>x. r = Ok x \<longrightarrow> (\<forall>u \<in> G x. known h' u))"
  proof (cases r1)
    case (Ok x)
    with one have h1: "sane (A \<union> F x) h1"
      by (simp add: sane_Un)
    have "f x h1 = (r, h')"
      using run m Ok by (simp add: bnd_Ok)
    from givesD [OF assms(2) h1 this] show ?thesis
      by (simp add: sane_Un)
  next
    case (Err e)
    with one run m show ?thesis
      by (auto simp: bnd_Err)
  qed (use one in simp)
qed

lemma gives_weaken: "gives A F m \<Longrightarrow> (\<And>x. G x \<subseteq> F x) \<Longrightarrow> gives A G m"
  by (rule givesI) (meson givesD subsetD)

lemma gives_ret: "F x \<subseteq> A \<Longrightarrow> gives A F (ret x)"
  by (simp add: gives_def sane_Un) (meson sane_known subsetD)

lemma gives_ret0 [gives_rules]: "safe A (ret x)"
  by (rule gives_ret) simp

lemma gives_fail [gives_rules]: "gives A F (fail e)"
  by (simp add: gives_def)

lemma gives_gets [gives_rules]: "safe A (gets f)"
  by (simp add: gives_def)

lemma gives_modify: "(\<And>h. sane A h \<Longrightarrow> sane A (f h)) \<Longrightarrow> safe A (modify f)"
  by (simp add: gives_def)

lemma gives_on_err [gives_rules]:
  assumes "gives A F m" "\<And>e. gives A F (f e)"
  shows "gives A F (on_err m f)"
proof (rule givesI)
  fix h r h'
  assume h: "sane A h" and run: "on_err m f h = (r, h')"
  obtain r1 h1 where m: "m h = (r1, h1)"
    by (cases "m h")
  note one = givesD [OF assms(1) h m]
  show "r \<noteq> Panic \<and> sane A h' \<and> (\<forall>x. r = Ok x \<longrightarrow> (\<forall>u \<in> F x. known h' u))"
  proof (cases r1)
    case (Err e)
    then have "f e h1 = (r, h')"
      using run m by (simp add: on_err_def)
    with one show ?thesis
      using givesD [OF assms(2)] by blast
  qed (use one run m in \<open>auto simp: on_err_def\<close>)
qed

lemma gives_attempt [gives_rules]:
  assumes "gives A F m"
  shows "gives A (\<lambda>r. case r of Inl e \<Rightarrow> {} | Inr x \<Rightarrow> F x) (attempt m)"
proof (rule givesI)
  fix h r h'
  assume h: "sane A h" and run: "attempt m h = (r, h')"
  obtain r1 h1 where m: "m h = (r1, h1)"
    by (cases "m h")
  then show "r \<noteq> Panic \<and> sane A h' \<and>
      (\<forall>x. r = Ok x \<longrightarrow> (\<forall>u \<in> (case x of Inl e \<Rightarrow> {} | Inr x \<Rightarrow> F x). known h' u))"
    using givesD [OF assms h m] run by (cases r1) (auto simp: attempt_def)
qed

lemma gives_loop [gives_rules]: "(\<And>x a. safe A (f x a)) \<Longrightarrow> safe A (loop f xs a)"
proof (induction xs arbitrary: a)
  case (Cons x xs)
  show ?case
    using Cons by (auto intro!: gives_bnd [where F = "\<lambda>_. {}"])
qed (simp add: gives_ret0)

lemma gives_collect [gives_rules]:
  assumes "\<And>x. safe A (f x)"
  shows "safe A (collect f xs)"
  unfolding collect_def by (rule gives_rules assms | simp)+

lemma gives_internal [gives_rules]: "gives A F m \<Longrightarrow> gives A F (internal m)"
  unfolding internal_def by (intro gives_rules)

lemma gives_if [gives_rules]:
  "(c \<Longrightarrow> gives A F a) \<Longrightarrow> (\<not> c \<Longrightarrow> gives A F b) \<Longrightarrow> gives A F (if c then a else b)"
  by simp

lemma gives_Let [gives_rules]: "(\<And>x. gives A F (f x)) \<Longrightarrow> gives A F (Let v f)"
  by (simp add: Let_def)

lemma gives_case_prod [gives_rules]:
  "(\<And>x y. gives A F (f x y)) \<Longrightarrow> gives A F (case p of (x, y) \<Rightarrow> f x y)"
  by (cases p) simp

text \<open>The branches of an option may use what is known of its content.\<close>

lemma gives_case_option [gives_rules]:
  "(p = None \<Longrightarrow> gives A F a) \<Longrightarrow> (\<And>x. p = Some x \<Longrightarrow> gives A F (b x)) \<Longrightarrow>
    gives A F (case p of None \<Rightarrow> a | Some x \<Rightarrow> b x)"
  by (cases p) simp_all

lemma gives_case_sum [gives_rules]:
  "(\<And>x. p = Inl x \<Longrightarrow> gives A F (a x)) \<Longrightarrow> (\<And>x. p = Inr x \<Longrightarrow> gives A F (b x)) \<Longrightarrow>
    gives A F (case p of Inl x \<Rightarrow> a x | Inr x \<Rightarrow> b x)"
  by (cases p) simp_all

lemma gives_case_input_peer [gives_rules]:
  "gives A F a \<Longrightarrow> (\<And>u h. gives A F (b u h)) \<Longrightarrow> gives A F d \<Longrightarrow>
    gives A F (case p of InputPeerSelf \<Rightarrow> a | InputPeerUser u h \<Rightarrow> b u h | InputPeerOther \<Rightarrow> d)"
  by (cases p) simp_all

lemma gives_case_input_user [gives_rules]:
  "gives A F a \<Longrightarrow> (\<And>u h. gives A F (b u h)) \<Longrightarrow> gives A F d \<Longrightarrow>
    gives A F (case p of InputUserSelf \<Rightarrow> a | InputUser u h \<Rightarrow> b u h | InputUserOther \<Rightarrow> d)"
  by (cases p) simp_all

lemma gives_case_dialog_peer [gives_rules]:
  "(\<And>q. gives A F (a q)) \<Longrightarrow> gives A F b \<Longrightarrow>
    gives A F (case p of InputDialogPeer q \<Rightarrow> a q | InputDialogPeerOther \<Rightarrow> b)"
  by (cases p) simp_all

end
