(* ===== verification/RpcTotal.thy ===== *)
theory RpcTotal imports RpcSafe begin

text \<open>The operations of the database and every handler satisfy \<open>gives\<close>: no request panics.\<close>

section \<open>State changes\<close>

text \<open>The parts of the state the invariant reads.\<close>

definition same_core :: "'z server_scheme \<Rightarrow> 'z server_scheme \<Rightarrow> bool" where
  "same_core h' h \<longleftrightarrow> hasDB h' = hasDB h \<and> store h' = store h \<and> users h' = users h \<and>
     messages h' = messages h \<and> sessions h' = sessions h \<and> reg_m h' = reg_m h \<and> files h' = files h \<and>
     staging h' = staging h \<and> sha256 h' = sha256 h"

lemma sane_same_core: "sane A h \<Longrightarrow> same_core h' h \<Longrightarrow> sane A h'"
  unfolding sane_def known_def backed_def same_core_def by simp

lemma sane_users:
  assumes "sane A h" "mwf us" "\<And>i mu. map_of us i = Some mu \<Longrightarrow> usr_ID (mu_u mu) = i"
    "\<And>i. map_of (users h) i \<noteq> None \<Longrightarrow> map_of us i \<noteq> None"
  shows "sane A (h\<lparr>users := us\<rparr>)"
  using assms unfolding sane_def known_def backed_def by auto

lemma gives_frame: "(\<And>h. same_core (f h) h) \<Longrightarrow> safe A (modify f)"
  by (rule gives_modify) (rule sane_same_core)

lemma gives_now [gives_rules]: "safe A (now :: ('z server_scheme, int) go)"
  by (auto simp: gives_def now_def same_core_def elim: sane_same_core)

lemma gives_rand_read [gives_rules]: "safe A (rand_read n :: ('z server_scheme, bytes) go)"
  by (auto simp: gives_def rand_read_def same_core_def elim: sane_same_core)

lemma gives_genAccessHash [gives_rules]: "safe A (genAccessHash :: ('z server_scheme, int) go)"
  unfolding genAccessHash_def by (rule gives_rules | simp)+

lemma gives_setUser:
  assumes "\<And>mu. usr_ID (mu_u (f mu)) = usr_ID (mu_u mu)"
  shows "safe A (setUser uid f :: ('z server_scheme, unit) go)"
  unfolding setUser_def
proof (rule gives_modify)
  fix h :: "'z server_scheme"
  assume h: "sane A h"
  then show "sane A (h\<lparr>users := mmod uid f (users h)\<rparr>)"
    by (rule sane_users) (use h assms in \<open>auto simp: sane_def split: if_splits\<close>)
qed

lemma gives_insertUser [gives_rules]:
  "gives A (\<lambda>x. {usr_ID x}) (insertUser u ow :: ('z server_scheme, User) go)"
proof (rule givesI)
  fix h r and h' :: "'z server_scheme"
  assume h: "sane A h" and run: "insertUser u ow h = (r, h')"
  then have h': "h' = h\<lparr>users := mput (usr_ID u) (newMemUser u ow) (users h)\<rparr>" "r = Ok u"
    by (auto simp: insertUser_def)
  have "sane A h'"
    unfolding h' by (rule sane_users [OF h]) (use h in \<open>auto simp: sane_def newMemUser_def split: if_splits\<close>)
  then show "r \<noteq> Panic \<and> sane A h' \<and> (\<forall>x. r = Ok x \<longrightarrow> (\<forall>u \<in> {usr_ID x}. known h' u))"
    by (simp add: h' known_def)
qed

lemma gives_nextUserID [gives_rules]: "safe A (nextUserID :: ('z server_scheme, int) go)"
  unfolding nextUserID_def by (rule gives_rules gives_frame | simp add: same_core_def)+

lemma gives_creates [gives_rules]:
  "gives A (\<lambda>x. {usr_ID x}) (CreateUser phone fn ln :: ('z server_scheme, User) go)"
  "gives A (\<lambda>x. {usr_ID x}) (CreateBot token un fn :: ('z server_scheme, User) go)"
  "gives A (\<lambda>x. {usr_ID x}) (CreateOwnedBot un fn owner secret :: ('z server_scheme, User) go)"
  unfolding CreateUser_def CreateBot_def CreateOwnedBot_def by (rule gives_rules | simp)+

section \<open>Lookups\<close>

lemma gives_read:
  assumes "\<And>h. sane A h \<Longrightarrow> \<forall>u \<in> F (f h). known h u"
  shows "gives A F (gets f)"
  by (rule givesI) (use assms in auto)

lemma sane_user_in:
  assumes h: "sane A h" and "mu \<in> set (mvals (users h))"
  shows "known h (usr_ID (mu_u mu))"
proof -
  have "mwf (users h)"
    using h by (simp add: sane_def)
  from mvals_map_of [OF this, of mu] obtain i where i: "map_of (users h) i = Some mu"
    using assms(2) by metis
  with h have "usr_ID (mu_u mu) = i"
    by (simp add: sane_def)
  with i show ?thesis
    by (simp add: known_def)
qed

lemma gives_find:
  "gives A (\<lambda>x. usr_ID ` set_option x)
    (gets (\<lambda>h. map_option mu_u (find P (mvals (users h)))) :: ('z server_scheme, User option) go)"
proof (rule gives_read)
  fix h :: "'z server_scheme"
  assume h: "sane A h"
  show "\<forall>u \<in> usr_ID ` set_option (map_option mu_u (find P (mvals (users h)))). known h u"
  proof (cases "find P (mvals (users h))")
    case (Some mu)
    then have "mu \<in> set (mvals (users h))"
      by (auto simp: find_Some_iff)
    with Some sane_user_in [OF h] show ?thesis
      by simp
  qed simp
qed

lemma gives_lookups [gives_rules]:
  "gives A (\<lambda>x. usr_ID ` set_option x) (UserByPhone phone :: ('z server_scheme, User option) go)"
  "gives A (\<lambda>x. usr_ID ` set_option x) (UserByUsername un :: ('z server_scheme, User option) go)"
  "gives A (\<lambda>x. usr_ID ` set_option x) (BotByToken token :: ('z server_scheme, User option) go)"
  unfolding UserByPhone_def UserByUsername_def BotByToken_def by (rule gives_find)+

lemma gives_UserByID [gives_rules]:
  "gives A (\<lambda>x. usr_ID ` set_option x) (UserByID uid :: ('z server_scheme, User option) go)"
  unfolding UserByID_def
  by (rule gives_read) (auto simp: known_def sane_def split: option.splits)

lemma gives_SessionUserID [gives_rules]:
  "gives A set_option (SessionUserID k :: ('z server_scheme, int option) go)"
  unfolding SessionUserID_def by (rule gives_read) (auto simp: sane_def)

lemma gives_reads [gives_rules]:
  "safe A (BotsByOwner uid :: ('z server_scheme, User list) go)"
  "safe A (SearchUsers q lim :: ('z server_scheme, User list) go)"
  "safe A (UsersByIDs ids :: ('z server_scheme, User list) go)"
  "safe A (GetHistory self peer off lim :: ('z server_scheme, Message list) go)"
  "safe A (Contacts uid :: ('z server_scheme, Contact list) go)"
  "safe A (Drafts uid :: ('z server_scheme, Draft list) go)"
  "safe A (SearchMessages self peer q lim :: ('z server_scheme, Message list) go)"
  "safe A (MessageByGlobal self gid :: ('z server_scheme, Message option) go)"
  "safe A (GetDialogs self lim :: ('z server_scheme, Dialog list) go)"
  "safe A (FileByID fid :: ('z server_scheme, File option) go)"
  "safe A (BotFatherState uid :: ('z server_scheme, BotFatherState) go)"
  "safe A (BotCommands uid sc lc :: ('z server_scheme, BotCommand list) go)"
  unfolding BotsByOwner_def SearchUsers_def UsersByIDs_def GetHistory_def Contacts_def Drafts_def
    SearchMessages_def MessageByGlobal_def GetDialogs_def FileByID_def BotFatherState_def BotCommands_def
  by (rule gives_gets)+

section \<open>Other tables\<close>

lemma sane_user_id: "sane A h \<Longrightarrow> map_of (users h) i = Some mu \<Longrightarrow> usr_ID (mu_u mu) = i"
  unfolding sane_def by blast

lemma sane_set_user:
  assumes h: "sane A (h :: 'z server_scheme)" and u: "usr_ID u = uid"
  shows "sane A (h\<lparr>users := mmod uid (\<lambda>mu. mu\<lparr>mu_u := u\<rparr>) (users h)\<rparr>)"
  by (rule sane_users [OF h]) (use h u in \<open>auto simp: sane_def split: if_splits\<close>)

lemma gives_profiles [gives_rules]:
  "safe A (SetProfile uid fn ln ab :: ('z server_scheme, User) go)"
  "safe A (SetUsername uid un :: ('z server_scheme, User) go)"
proof -
  show "safe A (SetProfile uid fn ln ab :: ('z server_scheme, User) go)"
  proof (rule givesI)
    fix h r and h' :: "'z server_scheme"
    assume h: "sane A h" and run: "SetProfile uid fn ln ab h = (r, h')"
    show "r \<noteq> Panic \<and> sane A h' \<and> (\<forall>x. r = Ok x \<longrightarrow> (\<forall>u \<in> {}. known h' u))"
    proof (cases "map_of (users h) uid")
      case (Some mu)
      then show ?thesis
        using run h sane_set_user [OF h, of "setProfileFields fn ln ab (mu_u mu)" uid] sane_user_id [OF h Some]
        by (auto simp: SetProfile_def setUser_def Let_def setProfileFields_def)
    qed (use h run in \<open>auto simp: SetProfile_def\<close>)
  qed
  show "safe A (SetUsername uid un :: ('z server_scheme, User) go)"
  proof (rule givesI)
    fix h r and h' :: "'z server_scheme"
    assume h: "sane A h" and run: "SetUsername uid un h = (r, h')"
    show "r \<noteq> Panic \<and> sane A h' \<and> (\<forall>x. r = Ok x \<longrightarrow> (\<forall>u \<in> {}. known h' u))"
    proof (cases "map_of (users h) uid")
      case (Some mu)
      then show ?thesis
        using run h sane_set_user [OF h, of "(mu_u mu)\<lparr>usr_Username := un\<rparr>" uid] sane_user_id [OF h Some]
        by (auto simp: SetUsername_def setUser_def Let_def split: if_splits)
    qed (use h run in \<open>auto simp: SetUsername_def\<close>)
  qed
qed

lemma gives_tables [gives_rules]:
  "safe A (SetBotToken b t :: ('z server_scheme, unit) go)"
  "safe A (SavePhoneCode ph hash code ttl :: ('z server_scheme, unit) go)"
  "safe A (PhoneCode ph hash :: ('z server_scheme, string option) go)"
  "safe A (BindTempAuthKey k k' e :: ('z server_scheme, unit) go)"
  "safe A (PermAuthKey k :: ('z server_scheme, bytes option) go)"
  "safe A (AddContact u p fn' ln' :: ('z server_scheme, unit) go)"
  "safe A (DeleteContacts u ps :: ('z server_scheme, unit) go)"
  "safe A (SaveDraft u p txt :: ('z server_scheme, int) go)"
  "safe A (SetBotFatherState u st :: ('z server_scheme, unit) go)"
  "safe A (ClearBotFatherState u :: ('z server_scheme, unit) go)"
  "safe A (SetBotCommands u sc lc cmds :: ('z server_scheme, unit) go)"
  "safe A (ResetBotCommands u sc lc :: ('z server_scheme, unit) go)"
  "safe A (logUpdate u pts n ty g x :: ('z server_scheme, unit) go)"
  "safe A (putRef u rf :: ('z server_scheme, unit) go)"
  "safe A (GetState u :: ('z server_scheme, State) go)"
  "safe A (GetDifference u p l :: ('z server_scheme, UpdateLogEntry list \<times> int) go)"
  unfolding SetBotToken_def SavePhoneCode_def PhoneCode_def
    BindTempAuthKey_def PermAuthKey_def AddContact_def DeleteContacts_def SaveDraft_def
    SetBotFatherState_def ClearBotFatherState_def SetBotCommands_def ResetBotCommands_def
    logUpdate_def putRef_def GetState_def GetDifference_def
  by (rule gives_rules gives_frame gives_setUser | simp add: same_core_def)+

lemma gives_BindSession [gives_rules]:
  "uid \<in> A \<Longrightarrow> safe A (BindSession k uid :: ('z server_scheme, unit) go)"
  unfolding BindSession_def
  by (rule gives_modify) (auto simp: sane_def known_def backed_def split: if_splits)

lemma gives_Unbind [gives_rules]: "safe A (Unbind k :: ('z server_scheme, unit) go)"
  unfolding Unbind_def
  by (rule gives_modify) (auto simp: sane_def known_def backed_def split: if_splits)

section \<open>Messages\<close>

lemma gives_bnd_gets:
  assumes "\<And>h. sane A h \<Longrightarrow> gives A F (f (g h))"
  shows "gives A F (bnd (gets g) f)"
proof (rule givesI)
  fix h r h'
  assume h: "sane A h" and run: "bnd (gets g) f h = (r, h')"
  from givesD [OF assms [OF h] h] run
  show "r \<noteq> Panic \<and> sane A h' \<and> (\<forall>x. r = Ok x \<longrightarrow> (\<forall>u \<in> F x. known h' u))"
    by simp
qed

lemma gives_bnd_user:
  assumes "uid \<in> A" "\<And>mu. gives A F (f mu)"
  shows "gives A F (bnd (gets (\<lambda>h :: 'z server_scheme. map_of (users h) uid))
    (\<lambda>x. case x of None \<Rightarrow> gopanic | Some mu \<Rightarrow> f mu))"
proof (rule gives_bnd_gets)
  fix h :: "'z server_scheme"
  assume "sane A h"
  then have "known h uid"
    using assms(1) by (rule sane_known)
  with assms(2) show "gives A F (case map_of (users h) uid of None \<Rightarrow> gopanic | Some mu \<Rightarrow> f mu)"
    by (auto simp: known_def)
qed

lemma gives_allocate [gives_rules]:
  "uid \<in> A \<Longrightarrow> safe A (allocate uid :: ('z server_scheme, int \<times> int) go)"
  unfolding allocate_def by (rule gives_bnd_user, assumption, (rule gives_rules gives_setUser | simp)+)

lemma gives_allocatePts [gives_rules]:
  "uid \<in> A \<Longrightarrow> safe A (allocatePts uid n :: ('z server_scheme, int) go)"
  unfolding allocatePts_def by (rule gives_bnd_user, assumption, (rule gives_rules gives_setUser | simp)+)

lemma sane_message:
  assumes "sane A (h :: 'z server_scheme)" "known h (mm_from m)" "known h (mm_peer m)"
  shows "sane A (h\<lparr>messages := mput g m (messages h)\<rparr>)"
  using assms unfolding sane_def known_def backed_def by (auto split: if_splits)

lemma gives_setMessage [gives_rules]:
  assumes "\<And>m. mm_from (f m) = mm_from m \<and> mm_peer (f m) = mm_peer m"
  shows "safe A (setMessage g f :: ('z server_scheme, unit) go)"
  unfolding setMessage_def
  by (rule gives_modify) (use assms in \<open>auto simp: sane_def known_def backed_def split: if_splits\<close>)

lemma gives_SendMessage [gives_rules]:
  assumes "from \<in> A" "peer \<in> A"
  shows "safe A (SendMessage from peer txt rid fid :: ('z server_scheme, SentMessage) go)"
proof -
  have put: "safe B (modify (\<lambda>h. h\<lparr>messages := mput g m (messages h)\<rparr>) :: ('z server_scheme, unit) go)"
    if "mm_from m \<in> B" "mm_peer m \<in> B" for g m B
    using that by (intro gives_modify sane_message) (auto intro: sane_known)
  show ?thesis
    unfolding SendMessage_def
    by (rule gives_rules put gives_frame | simp add: same_core_def assms)+
qed

lemma gives_markRead [gives_rules]:
  "safe A (markRead self peer maxID :: ('z server_scheme, int list) go)"
  unfolding markRead_def by (rule gives_rules gives_frame | simp add: same_core_def)+

lemma gives_markDeleted [gives_rules]:
  "safe A (markDeleted self l ds :: ('z server_scheme, int list) go)"
  unfolding markDeleted_def by (rule gives_rules | simp)+

lemma gives_DeleteMessages [gives_rules]:
  "self \<in> A \<Longrightarrow> safe A (DeleteMessages self ids :: ('z server_scheme, DeleteResult) go)"
  unfolding DeleteMessages_def by (rule gives_rules | simp)+

lemma gives_ReadHistory [gives_rules]:
  "self \<in> A \<Longrightarrow> peer \<in> A \<Longrightarrow> safe A (ReadHistory self peer maxID :: ('z server_scheme, ReadResult) go)"
  unfolding ReadHistory_def by (rule gives_rules | simp)+

lemma gives_read_message:
  "gives A (\<lambda>x. \<Union>m \<in> set_option x. {mm_from m, mm_peer m})
    (gets (\<lambda>h :: 'z server_scheme. map_of (messages h) g))"
  by (rule gives_read) (auto simp: sane_def)

lemma gives_EditMessage [gives_rules]:
  "self \<in> A \<Longrightarrow> safe A (EditMessage self l txt :: ('z server_scheme, EditResult) go)"
  unfolding EditMessage_def
  by (rule gives_bnd, rule gives_gets, rule gives_case_option, rule gives_fail,
      rule gives_bnd, rule gives_read_message, rule gives_case_option, rule gives_fail)
    (rule gives_rules | simp)+

section \<open>Live sessions and the object store\<close>

lemma sane_reg:
  assumes "sane A (h :: 'z server_scheme)" "\<And>u. filed (getd r u)" "\<And>u. getd r u \<noteq> [] \<Longrightarrow> known h u"
  shows "sane A (h\<lparr>reg_m := r\<rparr>)"
  using assms unfolding sane_def known_def backed_def by simp

lemma sane_tracked: "sane A h \<Longrightarrow> getd (reg_m h) u \<noteq> [] \<Longrightarrow> known h u"
  unfolding sane_def by blast

lemma sane_filed: "sane A h \<Longrightarrow> filed (getd (reg_m h) u)"
  unfolding sane_def by blast

lemma filed_Nil [simp]: "filed []"
  by (simp add: filed_def)

lemma filed_put: "filed ss \<Longrightarrow> filed (mput (ses_ID s) s ss)"
  by (auto simp: filed_def split: if_splits)

lemma filed_del: "filed ss \<Longrightarrow> filed (mdel sid ss)"
  by (auto simp: filed_def split: if_splits)

lemma gives_track [gives_rules]: "uid \<in> A \<Longrightarrow> safe A (track uid s :: ('z server_scheme, unit) go)"
proof -
  assume uid: "uid \<in> A"
  have "safe A (modify (\<lambda>h. h\<lparr>reg_m := mput uid (mput (ses_ID s) s (getd (reg_m h) uid)) (reg_m h)\<rparr>)
      :: ('z server_scheme, unit) go)"
  proof (rule gives_modify)
    fix h :: "'z server_scheme"
    assume h: "sane A h"
    show "sane A (h\<lparr>reg_m := mput uid (mput (ses_ID s) s (getd (reg_m h) uid)) (reg_m h)\<rparr>)"
      using sane_known [OF h uid] sane_tracked [OF h] sane_filed [OF h] filed_put [OF sane_filed [OF h]]
      by (intro sane_reg [OF h]) (auto split: if_splits)
  qed
  then show ?thesis
    unfolding track_def by (rule gives_bnd) (rule gives_rules gives_frame | simp add: same_core_def)+
qed

lemma gives_untrack [gives_rules]: "safe A (untrack uid sid :: ('z server_scheme, unit) go)"
  unfolding untrack_def
proof (rule gives_modify)
  fix h :: "'z server_scheme"
  assume h: "sane A h"
  show "sane A (case map_of (reg_m h) uid of None \<Rightarrow> h
      | Some ss \<Rightarrow> h\<lparr>reg_m := if mdel sid ss = [] then mdel uid (reg_m h) else mput uid (mdel sid ss) (reg_m h)\<rparr>)"
  proof (cases "map_of (reg_m h) uid")
    case (Some ss)
    let ?r = "if mdel sid ss = [] then mdel uid (reg_m h) else mput uid (mdel sid ss) (reg_m h)"
    have ss: "getd (reg_m h) uid = ss"
      using Some by (simp add: getd_def)
    then have "ss \<noteq> []" if "mdel sid ss \<noteq> []"
      using that by auto
    then have "known h u" if "getd ?r u \<noteq> []" for u
      using that sane_tracked [OF h] ss by (auto split: if_splits)
    moreover have "filed (getd ?r u)" for u
      using sane_filed [OF h] filed_del [OF sane_filed [OF h, of uid]] ss by simp
    ultimately show ?thesis
      using Some sane_reg [OF h] by simp
  qed (simp add: h)
qed

lemma gives_push [gives_rules]:
  "safe A (push c uid us date ups :: ('z server_scheme, unit) go)"
  unfolding push_def server_send_def by (rule gives_rules gives_frame | simp add: same_core_def)+

section \<open>Callers and peers\<close>

lemma gives_helpers [gives_rules]:
  "safe A (requireDB :: ('z server_scheme, unit) go)"
  "safe A (requireStore :: ('z server_scheme, unit) go)"
  "safe A (effectiveKeyID k :: ('z server_scheme, bytes) go)"
  "safe A (userStatus uid self :: ('z server_scheme, user_status) go)"
  unfolding requireDB_def requireStore_def effectiveKeyID_def userStatus_def
  by (rule gives_rules | simp)+

lemma gives_tgUser [gives_rules]: "safe A (tgUser u self :: ('z server_scheme, tg_user) go)"
  unfolding tgUser_def by (rule gives_rules | simp)+

lemma gives_tgUsers [gives_rules]: "safe A (tgUsers us :: ('z server_scheme, user_class list) go)"
  unfolding tgUsers_def by (rule gives_rules | simp)+

lemma gives_callerUser [gives_rules]:
  "gives A (\<lambda>x. usr_ID ` set_option x) (callerUser c :: ('z server_scheme, User option) go)"
  unfolding callerUser_def by (rule gives_rules gives_ret | simp)+

lemma gives_requireCaller [gives_rules]:
  "gives A (\<lambda>u. {usr_ID u}) (requireCaller c :: ('z server_scheme, User) go)"
  unfolding requireCaller_def by (rule gives_rules gives_ret | simp)+

lemma gives_bindCaller [gives_rules]:
  "uid \<in> A \<Longrightarrow> safe A (bindCaller c uid :: ('z server_scheme, unit) go)"
  unfolding bindCaller_def by (rule gives_rules | simp)+

lemma gives_resolvePeerUser [gives_rules]:
  "usr_ID u \<in> A \<Longrightarrow> gives A (\<lambda>u. {usr_ID u}) (resolvePeerUser u peer :: ('z server_scheme, User) go)"
  unfolding resolvePeerUser_def by (rule gives_rules gives_ret | simp)+

lemma gives_resolveInputUser [gives_rules]:
  "usr_ID u \<in> A \<Longrightarrow> gives A (\<lambda>u. {usr_ID u}) (resolveInputUser u i :: ('z server_scheme, User) go)"
  unfolding resolveInputUser_def by (rule gives_rules gives_ret | simp)+

section \<open>Uploads and files\<close>

lemma sane_staging:
  assumes "sane A (h :: 'z server_scheme)" "\<And>k f. map_of u k = Some f \<Longrightarrow> staged_ok f"
  shows "sane A (h\<lparr>staging := u\<rparr>)"
  using assms unfolding sane_def known_def backed_def by simp

lemma sane_staged: "sane A h \<Longrightarrow> map_of (staging h) k = Some f \<Longrightarrow> staged_ok f"
  unfolding sane_def by blast

lemma staged_ok_empty: "staged_ok empty_staged"
  by (simp add: staged_ok_def empty_staged_def)

lemma staged_ok_put:
  "staged_ok f \<Longrightarrow> part < 2 ^ 31 \<Longrightarrow> length content \<le> maxPartSize \<Longrightarrow> staged_ok (staged_put part content f)"
  by (auto simp: staged_ok_def staged_put_def split: if_splits)

lemma gives_stage [gives_rules]:
  assumes "part < 2 ^ 31" "length content \<le> maxPartSize"
  shows "safe A (modify (\<lambda>h. h\<lparr>staging := stage_part key part content (staging h)\<rparr>) :: ('z server_scheme, unit) go)"
proof (rule gives_modify)
  fix h :: "'z server_scheme"
  assume h: "sane A h"
  have "staged_ok f" if "map_of (staging_file key (staging h)) k = Some f" for k f
    using that sane_staged [OF h] staged_ok_empty by (auto simp: staging_file_def split: option.splits if_splits)
  then show "sane A (h\<lparr>staging := stage_part key part content (staging h)\<rparr>)"
    using assms by (intro sane_staging [OF h]) (auto simp: stage_part_def split: if_splits intro: staged_ok_put)
qed

lemma gives_bnd_takeStaged:
  assumes "gives A F (f None)" "\<And>x. staged_ok x \<Longrightarrow> gives A F (f (Some x))"
  shows "gives A F (bnd (takeStaged key) f :: ('z server_scheme, 'a) go)"
proof (rule givesI)
  fix h r and h' :: "'z server_scheme"
  assume h: "sane A h" and run: "bnd (takeStaged key) f h = (r, h')"
  show "r \<noteq> Panic \<and> sane A h' \<and> (\<forall>x. r = Ok x \<longrightarrow> (\<forall>u \<in> F x. known h' u))"
  proof (cases "map_of (staging h) key")
    case None
    then have "f None (h\<lparr>staging := staging h\<rparr>) = (r, h')"
      using run by (simp add: takeStaged_def staging_take_def bnd_def)
    then show ?thesis
      using givesD [OF assms(1) h] by simp
  next
    case (Some x)
    then have "f (Some x) (h\<lparr>staging := mdel key (staging h)\<rparr>) = (r, h')"
      using run by (simp add: takeStaged_def staging_take_def bnd_def)
    moreover have "sane A (h\<lparr>staging := mdel key (staging h)\<rparr>)"
      by (rule sane_staging [OF h]) (auto split: if_splits dest: sane_staged [OF h])
    ultimately show ?thesis
      using givesD [OF assms(2) [OF sane_staged [OF h Some]]] by blast
  qed
qed

lemma length_concat_le: "(\<And>x. x \<in> set xs \<Longrightarrow> length (g x) \<le> n) \<Longrightarrow> length (concat (map g xs)) \<le> length xs * n"
  by (induction xs) (simp_all add: add_mono)

lemma assemble_length:
  assumes "staged_ok f"
  shows "int (length (assemble f)) < 2 ^ 62"
proof -
  have "length (getd (sf_parts f) i) \<le> maxPartSize" for i
    using assms by (auto simp: staged_ok_def getd_def split: option.split)
  then have "length (assemble f) \<le> length [0..sf_max f] * maxPartSize"
    unfolding assemble_def by (intro length_concat_le)
  moreover have "length [0..sf_max f] * maxPartSize \<le> 2 ^ 31 * maxPartSize"
    using assms by (intro mult_right_mono) (auto simp: staged_ok_def nat_le_iff)
  ultimately have "length (assemble f) \<le> 2 ^ 31 * maxPartSize"
    by (rule order_trans)
  then show ?thesis
    by (simp add: maxPartSize_def)
qed

text \<open>
  Storing a content and recording its file: whatever was stored under the same key before
  has the same hash.
\<close>

definition store_file :: "string \<Rightarrow> bytes \<Rightarrow> int \<Rightarrow> File \<Rightarrow> 'z server_scheme \<Rightarrow> 'z server_scheme" where
  "store_file key content i f h = h\<lparr>store := map_option (objs_update (mput key content)) (store h),
     files := mput i f (files h)\<rparr>"

lemma sane_store_file:
  assumes h: "sane A (h :: 'z server_scheme)" and n: "int (length content) < 2 ^ 62"
    and f: "file_ObjectKey f = hex (sha256 h content)" "file_SHA256 f = sha256 h content"
  shows "sane A (store_file (hex (sha256 h content)) content i f h)"
proof -
  obtain o' where o': "store h = Some o'"
    using h unfolding sane_def by blast
  let ?h = "store_file (hex (sha256 h content)) content i f h"
  have "backed ?h g" if "map_of (files ?h) j = Some g" for j g
  proof (cases "j = i")
    case True
    with that f o' show ?thesis
      by (simp add: backed_def store_file_def)
  next
    case False
    with that have "backed h g"
      using h by (simp add: sane_def store_file_def)
    with o' show ?thesis
      by (auto simp: backed_def store_file_def dest: hex_inj)
  qed
  then show ?thesis
    using h n o' unfolding sane_def by (simp add: store_file_def known_def split: if_splits)
qed

lemma save_content_run:
  assumes "store h = Some o'"
  shows "\<exists>h' f. save_content owner content h = (Ok f, h') \<and>
    file_ObjectKey f = hex (sha256 h content) \<and> file_SHA256 f = sha256 h content \<and>
    same_core h' (store_file (hex (sha256 h content)) content (file_ID f) f h)"
  using assms
  by (simp add: save_content_def internal_def on_err_def withStore_def ObjPut_def SaveFile_def
      genAccessHash_def bnd_def now_def rand_read_def new_file_def Let_def store_file_def
      same_core_def ret_def gets_def modify_def)

lemma gives_save_content [gives_rules]:
  assumes "int (length content) < 2 ^ 62"
  shows "safe A (save_content owner content :: ('z server_scheme, File) go)"
proof (rule givesI)
  fix h r and h' :: "'z server_scheme"
  assume h: "sane A h" and run: "save_content owner content h = (r, h')"
  obtain o' where "store h = Some o'"
    using h unfolding sane_def by blast
  from save_content_run [OF this, of owner content] run obtain f where "r = Ok f"
    and f: "file_ObjectKey f = hex (sha256 h content)" "file_SHA256 f = sha256 h content"
    and core: "same_core h' (store_file (hex (sha256 h content)) content (file_ID f) f h)"
    by auto
  have "sane A h'"
    by (rule sane_same_core [OF sane_store_file [OF h assms f] core])
  with \<open>r = Ok f\<close> show "r \<noteq> Panic \<and> sane A h' \<and> (\<forall>x. r = Ok x \<longrightarrow> (\<forall>u \<in> {}. known h' u))"
    by simp
qed

section \<open>Handlers\<close>

lemma gives_getRange [gives_rules]:
  assumes "int32 limit"
  shows "safe A (withStore (ObjGetRange key offset limit) :: ('z server_scheme, bytes) go)"
proof (rule givesI)
  fix h r and h' :: "'z server_scheme"
  assume h: "sane A h" and run: "withStore (ObjGetRange key offset limit) h = (r, h')"
  obtain o' where o': "store h = Some o'"
    using h unfolding sane_def by blast
  have "fst (ObjGetRange key offset limit o') \<noteq> Panic"
    using h o' assms by (intro ObjGetRange_fits) (auto simp: sane_def int32_def)
  moreover have "snd (ObjGetRange key offset limit o') = o'"
    by (auto simp: ObjGetRange_def slice_def Let_def bnd_def gets_def fail_def ret_def gopanic_def
        split: option.split)
  ultimately have "r \<noteq> Panic" "h' = h\<lparr>store := Some o'\<rparr>"
    using run o' by (auto simp: withStore_def split: prod.splits)
  with h o' show "r \<noteq> Panic \<and> sane A h' \<and> (\<forall>x. r = Ok x \<longrightarrow> (\<forall>u \<in> {}. known h' u))"
    by (auto intro: sane_same_core simp: same_core_def)
qed

lemma gives_checkCode [gives_rules]: "safe A (checkCode ph hash code :: ('z server_scheme, unit) go)"
  unfolding checkCode_def by (rule gives_rules | simp)+

lemma gives_requireBot [gives_rules]: "safe A (requireBot c :: ('z server_scheme, User) go)"
  unfolding requireBot_def by (rule gives_rules | simp)+

lemma gives_getUser [gives_rules]: "safe A (getUser cu i :: ('z server_scheme, user_class) go)"
  unfolding getUser_def by (rule gives_rules | simp)+

lemma gives_importContact [gives_rules]: "safe A (importContact u x acc :: ('z server_scheme, _) go)"
  unfolding importContact_def by (rule gives_rules | simp)+

lemma gives_deletedContact [gives_rules]:
  "usr_ID u \<in> A \<Longrightarrow> safe A (deletedContact u i acc :: ('z server_scheme, _) go)"
  unfolding deletedContact_def by (rule gives_rules | simp)+

lemma gives_topMessage [gives_rules]: "safe A (topMessage self p :: ('z server_scheme, _) go)"
  unfolding topMessage_def by (rule gives_rules | simp)+

lemma gives_dialogEntry [gives_rules]: "safe A (dialogEntry self dbp dl acc :: ('z server_scheme, _) go)"
  unfolding dialogEntry_def by (rule gives_rules | simp)+

lemma gives_draftEntry [gives_rules]: "safe A (draftEntry seen d acc :: ('z server_scheme, _) go)"
  unfolding draftEntry_def by (rule gives_rules | simp)+

lemma gives_peerDialogEntry [gives_rules]:
  "usr_ID u \<in> A \<Longrightarrow> safe A (peerDialogEntry u bp dbp p acc :: ('z server_scheme, _) go)"
  unfolding peerDialogEntry_def by (rule gives_rules | simp)+

lemma gives_allDraftsEntry [gives_rules]: "safe A (allDraftsEntry d acc :: ('z server_scheme, _) go)"
  unfolding allDraftsEntry_def by (rule gives_rules | simp)+

lemma gives_messageByGlobal [gives_rules]: "safe A (messageByGlobal self e :: ('z server_scheme, _) go)"
  unfolding messageByGlobal_def by (rule gives_rules | simp)+

lemma gives_differenceEntry [gives_rules]: "safe A (differenceEntry self e acc :: ('z server_scheme, _) go)"
  unfolding differenceEntry_def by (rule gives_rules | simp)+

lemma gives_usersByIDs [gives_rules]: "safe A (usersByIDs self ids :: ('z server_scheme, _) go)"
  unfolding usersByIDs_def by (rule gives_rules | simp)+

lemma gives_botTokenSecret [gives_rules]: "safe A (botTokenSecret :: ('z server_scheme, string) go)"
  unfolding botTokenSecret_def by (rule gives_rules | simp)+

lemma gives_botFather_steps [gives_rules]:
  "safe A (botFatherListBots u :: ('z server_scheme, string list) go)"
  "safe A (botFatherSetName u txt :: ('z server_scheme, string list) go)"
  "safe A (botFatherCreate u name txt :: ('z server_scheme, string list) go)"
  "safe A (botFatherRevoke u txt :: ('z server_scheme, string list) go)"
  unfolding botFatherListBots_def botFatherSetName_def botFatherCreate_def botFatherRevoke_def
  by (rule gives_rules | simp)+

lemma gives_botFatherCommand [gives_rules]:
  "safe A (botFatherCommand u cmd :: ('z server_scheme, string list) go)"
  unfolding botFatherCommand_def by (rule gives_rules | simp)+

lemma gives_botFatherReply [gives_rules]:
  "usr_ID u \<in> A \<Longrightarrow> usr_ID b \<in> A \<Longrightarrow> safe A (botFatherReply c u b txt :: ('z server_scheme, unit) go)"
  unfolding botFatherReply_def by (rule gives_rules | simp)+

lemma gives_handleBotFather [gives_rules]:
  "usr_ID u \<in> A \<Longrightarrow> usr_ID b \<in> A \<Longrightarrow> safe A (handleBotFather c u b txt :: ('z server_scheme, unit) go)"
  unfolding handleBotFather_def botFatherEngine_def by (rule gives_rules | simp)+

lemma gives_deliver [gives_rules]: "safe A (deliver c u p sent txt :: ('z server_scheme, unit) go)"
  unfolding deliver_def by (rule gives_rules | simp)+

lemma gives_auth_handlers [gives_rules]:
  "safe A (authSendCode c a0 :: ('z server_scheme, _) go)"
  "safe A (authSignIn c a1 b1 d1 :: ('z server_scheme, _) go)"
  "safe A (authSignUp c a2 b2 d2 e2 :: ('z server_scheme, _) go)"
  "safe A (authLogOut c :: ('z server_scheme, _) go)"
  "safe A (authBindTempAuthKey c a4 b4 :: ('z server_scheme, _) go)"
  "safe A (authImportBotAuthorization c a5 :: ('z server_scheme, _) go)"
  unfolding authSendCode_def authSignIn_def authSignUp_def authLogOut_def
    authBindTempAuthKey_def authImportBotAuthorization_def
  by (rule gives_rules gives_ret | simp)+

lemma gives_users_handlers [gives_rules]:
  "safe A (usersGetUsers c a0 :: ('z server_scheme, _) go)"
  "safe A (usersGetFullUser c a1 :: ('z server_scheme, _) go)"
  "safe A (contactsResolveUsername c a2 :: ('z server_scheme, _) go)"
  "safe A (contactsGetContacts c :: ('z server_scheme, _) go)"
  "safe A (contactsSearch c a4 b4 :: ('z server_scheme, _) go)"
  "safe A (contactsImportContacts c a5 :: ('z server_scheme, _) go)"
  "safe A (contactsAddContact c a6 b6 d6 :: ('z server_scheme, _) go)"
  "safe A (contactsDeleteContacts c a7 :: ('z server_scheme, _) go)"
  "safe A (accountCheckUsername c a8 :: ('z server_scheme, _) go)"
  "safe A (accountUpdateUsername c a9 :: ('z server_scheme, _) go)"
  "safe A (accountUpdateProfile c a10 b10 d10 :: ('z server_scheme, _) go)"
  unfolding usersGetUsers_def usersGetFullUser_def contactsResolveUsername_def
    contactsGetContacts_def contactsSearch_def contactsImportContacts_def contactsAddContact_def
    contactsDeleteContacts_def accountCheckUsername_def accountUpdateUsername_def
    accountUpdateProfile_def
  by (rule gives_rules gives_ret | simp)+

lemma gives_bots_handlers [gives_rules]:
  "safe A (botsSetBotCommands c a0 b0 d0 :: ('z server_scheme, _) go)"
  "safe A (botsGetBotCommands c a1 b1 :: ('z server_scheme, _) go)"
  "safe A (botsResetBotCommands c a2 b2 :: ('z server_scheme, _) go)"
  unfolding botsSetBotCommands_def botsGetBotCommands_def botsResetBotCommands_def
  by (rule gives_rules gives_ret | simp)+

lemma gives_messages_handlers [gives_rules]:
  "safe A (messagesSendMessage c a0 b0 d0 :: ('z server_scheme, _) go)"
  "safe A (messagesGetHistory c a1 b1 d1 :: ('z server_scheme, _) go)"
  "safe A (messagesGetDialogs c a2 :: ('z server_scheme, _) go)"
  "safe A (messagesGetSavedHistory c a3 b3 :: ('z server_scheme, _) go)"
  "safe A (messagesSaveDraft c a4 b4 :: ('z server_scheme, _) go)"
  "safe A (messagesGetAllDrafts c :: ('z server_scheme, _) go)"
  "safe A (messagesReadHistory c a6 b6 :: ('z server_scheme, _) go)"
  "safe A (messagesEditMessage c a7 b7 d7 :: ('z server_scheme, _) go)"
  "safe A (messagesDeleteMessages c a8 :: ('z server_scheme, _) go)"
  "safe A (messagesGetPeerDialogs c a9 :: ('z server_scheme, _) go)"
  "safe A (messagesSearch c a10 b10 d10 :: ('z server_scheme, _) go)"
  unfolding messagesSendMessage_def messagesGetHistory_def messagesGetDialogs_def
    messagesGetSavedHistory_def messagesSaveDraft_def messagesGetAllDrafts_def
    messagesReadHistory_def messagesEditMessage_def messagesDeleteMessages_def
    messagesGetPeerDialogs_def messagesSearch_def
  by (rule gives_rules gives_ret | simp)+

lemma gives_updates_handlers [gives_rules]:
  "safe A (updatesGetState c :: ('z server_scheme, _) go)"
  "safe A (updatesGetDifference c a1 :: ('z server_scheme, _) go)"
  "safe A (helpGetTimezonesList c a2 :: ('z server_scheme, _) go)"
  unfolding updatesGetState_def updatesGetDifference_def helpGetTimezonesList_def
  by (rule gives_rules gives_ret | simp)+

lemma gives_save_assembled:
  "staged_ok f \<Longrightarrow> safe A (save_content ow (assemble f) :: ('z server_scheme, File) go)"
  by (rule gives_save_content [OF assemble_length])

lemma gives_media_handlers [gives_rules]:
  "int32 part \<Longrightarrow> safe A (uploadSaveFilePart c fid part content :: ('z server_scheme, _) go)"
  "int32 part \<Longrightarrow> safe A (uploadSaveBigFilePart c fid part content :: ('z server_scheme, _) go)"
  "safe A (messagesSendMedia c peer media txt rid :: ('z server_scheme, _) go)"
  "int32 limit \<Longrightarrow> safe A (uploadGetFile c loc offset limit :: ('z server_scheme, _) go)"
  unfolding uploadSaveFilePart_def uploadSaveBigFilePart_def messagesSendMedia_def media_sent_def uploadGetFile_def
  by (rule gives_bnd_takeStaged gives_save_assembled gives_rules | assumption | simp add: int32_def not_less)+

lemma gives_dispatch: "wire_ok r \<Longrightarrow> safe A (dispatch r c :: ('z server_scheme, reply) go)"
  by (cases r; simp only: dispatch.simps reply_with_def fallback_def wire_ok.simps;
    (rule gives_rules | assumption)+)

section \<open>No request panics\<close>

lemma gives_serve: "wire_ok r \<Longrightarrow> safe A (serve s r :: ('z server_scheme, reply) go)"
  unfolding serve_def OnMessage_def trackCaller_def by (rule gives_dispatch gives_rules | assumption | simp)+

lemma sane_New: "sane {} (New h)"
  by (auto simp: sane_def New_def NewDB_def newMemUser_def known_def NewObjectStore_def
      newUploadStaging_def now_def bnd_def modify_def mwf_def split: if_splits)

lemma sane_reachable: "server_reachable h \<Longrightarrow> sane {} h"
proof (induction rule: server_reachable.induct)
  case (server_next h h')
  then show ?case
    by (elim server_stepE) (metis givesD gives_serve)
qed (rule sane_New)

text \<open>C17: No request panics: in every state a server reaches by serving requests that
  come off the wire, each with 32-bit part numbers and limits, serving one more
  returns a reply or an error, never a nil dereference or a slice out of range.\<close>

theorem serve_never_panics:
  assumes "server_reachable h" "wire_ok r"
  shows "\<exists>out h'. serve s r h = (out, h') \<and> out \<noteq> Panic \<and> server_reachable h'"
proof -
  obtain out h' where run: "serve s r h = (out, h')"
    by (cases "serve s r h")
  have "out \<noteq> Panic"
    using givesD [OF gives_serve [OF assms(2)] sane_reachable [OF assms(1)] run] by blast
  with assms run show ?thesis
    by (blast intro: server_step.intros server_next)
qed

text \<open>C18: In every reachable state the records of the layers fit together: a session is
  bound to an existing account, live sessions belong to existing accounts and are filed
  under their own ids, and every file a message can show is in the object store with
  the hash it records.\<close>

theorem layers_agree:
  assumes "server_reachable h"
  shows "(map_of (sessions h) key = Some u \<longrightarrow> map_of (users h) u \<noteq> None) \<and>
    (map_of (getd (reg_m h) v) sid = Some ses \<longrightarrow> ses_ID ses = sid \<and> map_of (users h) v \<noteq> None) \<and>
    (map_of (files h) i = Some f \<longrightarrow> (\<exists>o' content. store h = Some o' \<and>
       map_of (objs o') (file_ObjectKey f) = Some content \<and> sha256 h content = file_SHA256 f))"
proof -
  note h = sane_reachable [OF assms]
  have session: "map_of (users h) u \<noteq> None" if "map_of (sessions h) key = Some u"
    using h that unfolding sane_def known_def by blast
  have live: "ses_ID ses = sid \<and> map_of (users h) v \<noteq> None" if "map_of (getd (reg_m h) v) sid = Some ses"
  proof -
    have "getd (reg_m h) v \<noteq> []"
      using that by auto
    then show ?thesis
      using that sane_filed [OF h, of v] sane_tracked [OF h, of v] by (simp add: filed_def known_def)
  qed
  have "backed h f" if "map_of (files h) i = Some f"
    using h that unfolding sane_def by blast
  then show ?thesis
    using session live by (auto simp: backed_def)
qed

text \<open>The database of a server satisfies its invariant after every sequence of
  requests, as long as the account counter is below the BotFather id.\<close>

theorem server_db_inv: "server_reachable h \<Longrightarrow> userSeq h < BotFatherID \<Longrightarrow> db_inv h"
  using db_ok_server by (auto simp: db_ok_def)

end
