(* ===== verification/RpcFrames.thy ===== *)
theory RpcFrames imports RpcTotal MemDialogs begin

text \<open>
  The handlers around one database call: what the caller lookup, the conversions of users
  and the pushes leave unchanged (\<open>quiet\<close>), and what a successful lookup means.
\<close>

section \<open>Steps that do not touch the database\<close>

text \<open>Everything but the clock, the live sessions and the log of what was sent.\<close>

definition same_db :: "'z server_scheme \<Rightarrow> 'z server_scheme \<Rightarrow> bool" where
  "same_db h' h \<longleftrightarrow> users h' = users h \<and> userSeq h' = userSeq h \<and> messages h' = messages h \<and>
     msgSeq h' = msgSeq h \<and> refs h' = refs h \<and> updates h' = updates h \<and> files h' = files h \<and>
     fileSeq h' = fileSeq h \<and> sessions h' = sessions h \<and> tempKeys h' = tempKeys h \<and>
     phoneCodes h' = phoneCodes h \<and> drafts h' = drafts h \<and> contacts h' = contacts h \<and>
     botStates h' = botStates h \<and> botCommands h' = botCommands h \<and> hasDB h' = hasDB h \<and>
     store h' = store h \<and> staging h' = staging h \<and> clk h' = clk h \<and> rnd h' = rnd h \<and>
     rnd_pos h' = rnd_pos h \<and> uc_lower h' = uc_lower h \<and> uc_fold h' = uc_fold h \<and>
     uc_letter h' = uc_letter h \<and> sha256 h' = sha256 h \<and> enc_scope_default h' = enc_scope_default h"

definition quiet :: "('z server_scheme, 'a) go \<Rightarrow> bool" where
  "quiet m \<longleftrightarrow> (\<forall>h. same_db (snd (m h)) h)"

named_theorems quiet_rules

lemma same_db_refl [simp]: "same_db h h"
  by (simp add: same_db_def)

lemma same_db_trans: "same_db h2 h1 \<Longrightarrow> same_db h1 h \<Longrightarrow> same_db h2 h"
  by (simp add: same_db_def)

lemma quietD: "quiet m \<Longrightarrow> m h = (r, h') \<Longrightarrow> same_db h' h"
  unfolding quiet_def by (metis snd_conv)

lemma quietI: "(\<And>h r h'. m h = (r, h') \<Longrightarrow> same_db h' h) \<Longrightarrow> quiet m"
  unfolding quiet_def by (metis prod.collapse)

lemma quiet_ret [quiet_rules]: "quiet (ret x)"
  by (simp add: quiet_def)

lemma quiet_fail [quiet_rules]: "quiet (fail e)"
  by (simp add: quiet_def)

lemma quiet_gets [quiet_rules]: "quiet (gets f)"
  by (simp add: quiet_def)

lemma quiet_modifyI: "(\<And>h. same_db (f h) h) \<Longrightarrow> quiet (modify f)"
  by (simp add: quiet_def)

lemma quiet_bnd [quiet_rules]:
  assumes "quiet m" "\<And>x. quiet (f x)"
  shows "quiet (bnd m f)"
proof (rule quietI)
  fix h r h'
  assume run: "bnd m f h = (r, h')"
  obtain r1 h1 where m: "m h = (r1, h1)"
    by (cases "m h")
  then have "same_db h1 h"
    using assms(1) by (simp add: quietD)
  moreover have "same_db h' h1"
    using run m quietD [OF assms(2)] by (cases r1) (auto simp: bnd_def)
  ultimately show "same_db h' h"
    by (rule same_db_trans [rotated])
qed

lemma quiet_on_err [quiet_rules]:
  assumes "quiet m" "\<And>e. quiet (f e)"
  shows "quiet (on_err m f)"
proof (rule quietI)
  fix h r h'
  assume run: "on_err m f h = (r, h')"
  obtain r1 h1 where m: "m h = (r1, h1)"
    by (cases "m h")
  then have "same_db h1 h"
    using assms(1) by (simp add: quietD)
  moreover have "same_db h' h1"
    using run m quietD [OF assms(2)] by (cases r1) (auto simp: on_err_def)
  ultimately show "same_db h' h"
    by (rule same_db_trans [rotated])
qed

lemma quiet_attempt [quiet_rules]: "quiet m \<Longrightarrow> quiet (attempt m)"
  by (rule quietI) (auto simp: attempt_def dest: quietD split: prod.splits outcome.splits)

lemma quiet_loop [quiet_rules]: "(\<And>x a. quiet (f x a)) \<Longrightarrow> quiet (loop f xs a)"
  by (induction xs arbitrary: a) (auto intro!: quiet_rules)

lemma quiet_collect [quiet_rules]: "(\<And>x. quiet (f x)) \<Longrightarrow> quiet (collect f xs)"
  unfolding collect_def by (intro quiet_rules)

lemma quiet_if [quiet_rules]: "quiet a \<Longrightarrow> quiet b \<Longrightarrow> quiet (if c then a else b)"
  by simp

lemma quiet_case_option [quiet_rules]:
  "quiet a \<Longrightarrow> (\<And>x. quiet (b x)) \<Longrightarrow> quiet (case p of None \<Rightarrow> a | Some x \<Rightarrow> b x)"
  by (cases p) simp_all

lemma quiet_case_prod [quiet_rules]:
  "(\<And>x y. quiet (f x y)) \<Longrightarrow> quiet (case p of (x, y) \<Rightarrow> f x y)"
  by (cases p) simp

lemma quiet_case_input_peer [quiet_rules]:
  "quiet a \<Longrightarrow> (\<And>u h. quiet (b u h)) \<Longrightarrow> quiet d \<Longrightarrow>
    quiet (case p of InputPeerSelf \<Rightarrow> a | InputPeerUser u h \<Rightarrow> b u h | InputPeerOther \<Rightarrow> d)"
  by (cases p) simp_all

lemma quiet_internal [quiet_rules]: "quiet m \<Longrightarrow> quiet (internal m)"
  unfolding internal_def by (intro quiet_rules)

lemma quiet_clock [quiet_rules]: "quiet (now :: ('z server_scheme, int) go)"
  by (simp add: quiet_def now_def same_db_def)

lemma quiet_reads [quiet_rules]:
  "quiet (UserByID uid :: ('z server_scheme, User option) go)"
  "quiet (SessionUserID k :: ('z server_scheme, int option) go)"
  "quiet (PermAuthKey k :: ('z server_scheme, bytes option) go)"
  "quiet (requireDB :: ('z server_scheme, unit) go)"
  "quiet (requireStore :: ('z server_scheme, unit) go)"
  "quiet (userStatus uid self :: ('z server_scheme, user_status) go)"
  unfolding UserByID_def SessionUserID_def PermAuthKey_def requireDB_def requireStore_def userStatus_def
  by (intro quiet_rules)+

lemma quiet_effectiveKeyID [quiet_rules]: "quiet (effectiveKeyID k :: ('z server_scheme, bytes) go)"
  unfolding effectiveKeyID_def by (intro quiet_rules)

lemma quiet_callers [quiet_rules]:
  "quiet (callerUser c :: ('z server_scheme, User option) go)"
  "quiet (tgUser u self :: ('z server_scheme, tg_user) go)"
  unfolding callerUser_def tgUser_def by (intro quiet_rules)+

lemma quiet_lookups [quiet_rules]:
  "quiet (requireCaller c :: ('z server_scheme, User) go)"
  "quiet (resolvePeerUser u peer :: ('z server_scheme, User) go)"
  "quiet (tgUsers us :: ('z server_scheme, user_class list) go)"
  unfolding requireCaller_def resolvePeerUser_def tgUsers_def by (intro quiet_rules)+

lemma quiet_live [quiet_rules]:
  "quiet (track uid s :: ('z server_scheme, unit) go)"
  "quiet (untrack uid sid :: ('z server_scheme, unit) go)"
  "quiet (server_send s w :: ('z server_scheme, unit) go)"
  unfolding track_def untrack_def server_send_def
  by (intro quiet_rules quiet_modifyI; simp add: same_db_def split: option.split)+

lemma quiet_push [quiet_rules]: "quiet (push c uid us date ups :: ('z server_scheme, unit) go)"
  unfolding push_def by (intro quiet_rules)

lemma quiet_deliver [quiet_rules]: "quiet (deliver c u p sent txt :: ('z server_scheme, unit) go)"
  unfolding deliver_def by (intro quiet_rules)

lemma same_db_inv: "same_db h' h \<Longrightarrow> db_inv h' \<longleftrightarrow> db_inv h"
  by (simp add: same_db_def db_inv_def)

lemma same_db_mailbox: "same_db h' h \<Longrightarrow> mailbox u q h' = mailbox u q h"
  by (rule mailbox_cong) (simp_all add: same_db_def)

section \<open>Inverting a successful run\<close>

lemma bnd_quietE:
  assumes "bnd m f h = (Ok y, h')" "quiet m"
  obtains x h1 where "m h = (Ok x, h1)" "same_db h1 h" "f x h1 = (Ok y, h')"
  using assms by (elim bnd_OkE) (blast dest: quietD)

lemma internal_Ok: "internal m h = (Ok x, h') \<longleftrightarrow> m h = (Ok x, h')"
  by (auto simp: internal_def on_err_def split: prod.splits outcome.splits)

text \<open>The account a user value comes from.\<close>

definition is_account :: "'z memdb_scheme \<Rightarrow> User \<Rightarrow> bool" where
  "is_account d u \<longleftrightarrow> (\<exists>mu. map_of (users d) (usr_ID u) = Some mu \<and> mu_u mu = u)"

lemma is_account_same: "same_db h' h \<Longrightarrow> is_account h' u \<longleftrightarrow> is_account h u"
  by (simp add: is_account_def same_db_def)

lemma UserByID_account: "sane A h \<Longrightarrow> UserByID uid h = (Ok (Some u), h') \<Longrightarrow> is_account h u \<and> usr_ID u = uid \<and> h' = h"
  by (auto simp: UserByID_def is_account_def dest: sane_user_id)

lemma sane_same_users: "same_db h' h \<Longrightarrow> sane A h \<Longrightarrow> map_of (users h') i = Some mu \<Longrightarrow> usr_ID (mu_u mu) = i"
  by (simp add: same_db_def sane_user_id)

text \<open>
  The account a request speaks for: the one bound to the key of its session, or to the
  permanent key that key stands for while the binding has not expired.
\<close>

definition effective_key :: "bytes \<Rightarrow> 'z server_scheme \<Rightarrow> bytes" where
  "effective_key k h = (case map_of (tempKeys h) k of None \<Rightarrow> k
     | Some tk \<Rightarrow> if clk h (clk_pos h) < tk_expiresAt tk then tk_perm tk else k)"

definition caller_of :: "ctx \<Rightarrow> 'z server_scheme \<Rightarrow> int option" where
  "caller_of c h = (case callerKeyID c of None \<Rightarrow> None
     | Some k \<Rightarrow> map_of (sessions h) (effective_key k h))"

text \<open>The lookup of the caller reads the clock at most and changes nothing.\<close>

lemma same_clk [simp]: "h\<lparr>clk_pos := clk_pos h\<rparr> = (h :: 'z world_scheme)"
  by simp

lemma effectiveKeyID_run:
  "hasDB h \<Longrightarrow> \<exists>n. effectiveKeyID k h = (Ok (effective_key k h), h\<lparr>clk_pos := n\<rparr>)"
  by (auto simp: effectiveKeyID_def PermAuthKey_def effective_key_def bnd_def now_def
      split: option.split intro: exI [of _ "clk_pos h"])

lemma callerUser_run:
  assumes "sane A (h :: 'z server_scheme)"
  shows "\<exists>n. callerUser c h = (Ok (case caller_of c h of None \<Rightarrow> None
     | Some uid \<Rightarrow> map_option mu_u (map_of (users h) uid)), h\<lparr>clk_pos := n\<rparr>)"
proof (cases "callerKeyID c")
  case None
  then show ?thesis
    by (auto simp: callerUser_def caller_of_def bnd_def intro: exI [of _ "clk_pos h"])
next
  case (Some k)
  have "hasDB h"
    using assms by (simp add: sane_def)
  from effectiveKeyID_run [OF this, of k] obtain n where
    "effectiveKeyID k h = (Ok (effective_key k h), h\<lparr>clk_pos := n\<rparr>)"
    by blast
  with Some \<open>hasDB h\<close> show ?thesis
    by (auto simp: callerUser_def caller_of_def bnd_def SessionUserID_def UserByID_def
        split: option.split)
qed

lemma caller_known: "sane A h \<Longrightarrow> caller_of c h = Some uid \<Longrightarrow> \<exists>mu. map_of (users h) uid = Some mu"
  by (auto simp: caller_of_def sane_def known_def split: option.splits)

lemma requireCaller_run:
  assumes "sane A (h :: 'z server_scheme)"
  shows "\<exists>n. requireCaller c h = (case caller_of c h of
       None \<Rightarrow> Err (RpcError 401 ''AUTH_KEY_UNREGISTERED'')
     | Some uid \<Rightarrow> Ok (mu_u (the (map_of (users h) uid))), h\<lparr>clk_pos := n\<rparr>)"
proof -
  obtain n where run: "callerUser c h = (Ok (case caller_of c h of None \<Rightarrow> None
     | Some uid \<Rightarrow> map_option mu_u (map_of (users h) uid)), h\<lparr>clk_pos := n\<rparr>)"
    using callerUser_run [OF assms] by blast
  moreover have "hasDB h"
    using assms by (simp add: sane_def)
  ultimately show ?thesis
    using caller_known [OF assms, of c]
    by (fastforce simp: requireCaller_def requireDB_def internal_def on_err_def bnd_def split: option.splits)
qed

lemma requireCaller_account:
  assumes "requireCaller c h = (Ok u, h1)" "sane A h"
  shows "is_account h u \<and> same_db h1 h \<and> caller_of c h = Some (usr_ID u)"
proof -
  obtain n where "requireCaller c h = (case caller_of c h of
       None \<Rightarrow> Err (RpcError 401 ''AUTH_KEY_UNREGISTERED'')
     | Some uid \<Rightarrow> Ok (mu_u (the (map_of (users h) uid))), h\<lparr>clk_pos := n\<rparr>)"
    using requireCaller_run [OF assms(2)] by blast
  then obtain uid where c: "caller_of c h = Some uid" "u = mu_u (the (map_of (users h) uid))"
    "h1 = h\<lparr>clk_pos := n\<rparr>"
    using assms(1) by (auto split: option.splits)
  obtain mu where "map_of (users h) uid = Some mu"
    using caller_known [OF assms(2) c(1)] by blast
  with c sane_user_id [OF assms(2) this] show ?thesis
    by (simp add: is_account_def same_db_def)
qed

lemma resolvePeerUser_Ok:
  assumes "resolvePeerUser caller peer h = (Ok p, h1)" "sane A h" "is_account h caller"
  shows "h1 = h \<and> is_account h p \<and>
    (peer = InputPeerSelf \<and> p = caller \<or> peer = InputPeerUser (usr_ID p) (usr_AccessHash p))"
  using assms UserByID_account [OF assms(2)]
  by (cases peer) (fastforce simp: resolvePeerUser_def internal_Ok elim!: bnd_OkE split: option.splits if_splits)+

text \<open>The start of the handlers that need a caller, and of those that also have a peer.\<close>

lemma with_callerE:
  assumes "bnd (requireCaller c) f h = (Ok y, h')" "sane A h"
  obtains caller h1 where "is_account h1 caller" "same_db h1 h" "sane A h1" "f caller h1 = (Ok y, h')"
    "caller_of c h = Some (usr_ID caller)"
proof -
  obtain caller h1 where run: "requireCaller c h = (Ok caller, h1)" "f caller h1 = (Ok y, h')"
    using assms(1) by (elim bnd_OkE)
  moreover have "is_account h caller \<and> same_db h1 h \<and> caller_of c h = Some (usr_ID caller)"
    by (rule requireCaller_account [OF run(1) assms(2)])
  moreover have "sane A h1"
    using givesD [OF gives_requireCaller assms(2) run(1)] by blast
  ultimately show thesis
    using that is_account_same by blast
qed

lemma with_peerE:
  assumes "bnd (requireCaller c) (\<lambda>caller. bnd (resolvePeerUser caller peer) (f caller)) h = (Ok y, h')" "sane A h"
  obtains caller p h1 where "is_account h1 caller" "is_account h1 p" "same_db h1 h" "sane A h1"
    "peer = InputPeerSelf \<and> p = caller \<or> peer = InputPeerUser (usr_ID p) (usr_AccessHash p)"
    "f caller p h1 = (Ok y, h')" "caller_of c h = Some (usr_ID caller)"
proof -
  obtain caller h1 where c: "is_account h1 caller" "same_db h1 h" "sane A h1"
    "bnd (resolvePeerUser caller peer) (f caller) h1 = (Ok y, h')" "caller_of c h = Some (usr_ID caller)"
    by (rule with_callerE [OF assms])
  then obtain p h2 where p: "resolvePeerUser caller peer h1 = (Ok p, h2)" "f caller p h2 = (Ok y, h')"
    by (elim bnd_OkE)
  with resolvePeerUser_Ok [OF p(1) c(3,1)] c that show thesis
    by blast
qed

end
