(* ===== verification/RpcDelivery.thy ===== *)
theory RpcDelivery imports RpcFrames begin

text \<open>What clients see of each other's requests: sending, reading, editing.\<close>

lemma dmMessage_view:
  "dmMessage uc (view_of (sent_SenderLocalID sent) f p True txt (sent_Date sent) zero_time media) =
     dmMessage uc (sent_copy f p txt rid media sent)"
  "dmMessage uc (view_of (sent_RecipientLocalID sent) f f False txt (sent_Date sent) zero_time media) =
     dmMessage uc (received_copy f txt rid media sent)"
  by (simp_all add: dmMessage_def view_of_def sent_copy_def received_copy_def)

lemma SendMessage_media: "media_of 0 d = None"
  by (simp add: media_of_def)

lemma SendMessage_frame:
  assumes run: "SendMessage f p t r md (h :: 'z server_scheme) = (Ok sent, h')"
  shows "uc_letter h' = uc_letter h \<and> files h' = files h \<and> store h' = store h \<and> staging h' = staging h \<and>
    sent_SenderPts sent = pts_of (users h') f \<and> (sent_SelfChat sent \<longleftrightarrow> f = p)"
proof -
  obtain mf mp where u: "map_of (users h) f = Some mf" "map_of (users h) p = Some mp"
    using SendMessage_Ok_users [OF run] .
  show ?thesis
    using run u unfolding SendMessage_run [OF u]
    by (auto simp: posted_def delivered_def logged_def bumpMsg_def bump_def Let_def pts_of_def split: if_splits)
qed

text \<open>The database call of a send and, unless the peer is BotFather, the reply.\<close>

lemma messagesSendMessage_call:
  assumes run: "messagesSendMessage c peer txt rid (h :: 'z server_scheme) = (Ok ups, h')" and h: "sane {} h"
  obtains caller p h1 sent h2 where "is_account h1 caller" "is_account h1 p" "same_db h1 h"
    "peer = InputPeerSelf \<and> p = caller \<or> peer = InputPeerUser (usr_ID p) (usr_AccessHash p)"
    "caller_of c h = Some (usr_ID caller)"
    "SendMessage (usr_ID caller) (usr_ID p) txt rid 0 h1 = (Ok sent, h2)"
    "usr_ID p \<noteq> BotFatherID \<longrightarrow> same_db h' h2 \<and> up_Updates ups = [UpdateMessageID (sent_SenderLocalID sent) rid,
       UpdateNewMessage (dmMessage (uc_letter h2) (sent_copy (usr_ID caller) (usr_ID p) txt rid None sent))
         (sent_SenderPts sent) 1]"
proof -
  obtain caller p h1 where start: "is_account h1 caller" "is_account h1 p" "same_db h1 h"
    "peer = InputPeerSelf \<and> p = caller \<or> peer = InputPeerUser (usr_ID p) (usr_AccessHash p)"
    "caller_of c h = Some (usr_ID caller)"
    and rest: "bnd (internal (SendMessage (usr_ID caller) (usr_ID p) txt rid 0)) (\<lambda>sent.
     bnd (gets uc_letter) (\<lambda>uc.
     bnd (deliver c caller p sent txt) (\<lambda>_.
     bnd (if usr_ID p = BotFatherID then handleBotFather c caller p txt else ret ()) (\<lambda>_.
     bnd (tgUsers [(caller, True), (p, False)]) (\<lambda>us.
     ret \<lparr>up_Updates = [UpdateMessageID (sent_SenderLocalID sent) rid,
          UpdateNewMessage (dmMessage uc (view_of (sent_SenderLocalID sent) (usr_ID caller) (usr_ID p)
            True txt (sent_Date sent) zero_time None)) (sent_SenderPts sent) 1],
        up_Users = us, up_Date = Unix (sent_Date sent)\<rparr>))))) h1 = (Ok ups, h')"
    by (rule with_peerE [OF run [unfolded messagesSendMessage_def] h])
  obtain sent h2 where send: "SendMessage (usr_ID caller) (usr_ID p) txt rid 0 h1 = (Ok sent, h2)"
    using rest by (elim bnd_OkE) (simp add: internal_Ok)
  show thesis
  proof (rule that [OF start send], rule impI)
    assume "usr_ID p \<noteq> BotFatherID"
    then obtain h3 us where "deliver c caller p sent txt h2 = (Ok (), h3)"
      "tgUsers [(caller, True), (p, False)] h3 = (Ok us, h')"
      and ups: "ups = \<lparr>up_Updates = [UpdateMessageID (sent_SenderLocalID sent) rid,
          UpdateNewMessage (dmMessage (uc_letter h2) (view_of (sent_SenderLocalID sent) (usr_ID caller) (usr_ID p)
            True txt (sent_Date sent) zero_time None)) (sent_SenderPts sent) 1],
        up_Users = us, up_Date = Unix (sent_Date sent)\<rparr>"
      using rest send by (auto elim!: bnd_OkE simp: internal_Ok)
    moreover from this have "same_db h' h2"
      using quietD [OF quiet_deliver] quietD [OF quiet_lookups(3)] same_db_trans by blast
    ultimately show "same_db h' h2 \<and> up_Updates ups = [UpdateMessageID (sent_SenderLocalID sent) rid,
       UpdateNewMessage (dmMessage (uc_letter h2) (sent_copy (usr_ID caller) (usr_ID p) txt rid None sent))
         (sent_SenderPts sent) 1]"
      by (simp add: dmMessage_view(1) [where rid = rid])
  qed
qed

text \<open>C19: A direct message sent by the account of the session is on top of its own history with the peer and,
  unless it wrote to itself, on top of the peer's history with it, with the text it
  sent; the reply carries that message with its id in the sender's history, the
  client's random id and the sender's new pts. No history of anybody else changes.
  (A message to BotFather is answered in the same request.)\<close>

theorem sent_message_arrives:
  assumes "server_reachable h" "userSeq h < BotFatherID"
    and run: "messagesSendMessage c peer txt rid h = (Ok ups, h')"
  shows "\<exists>caller p m m'. is_account h caller \<and> caller_of c h = Some (usr_ID caller) \<and> is_account h p \<and>
    (peer = InputPeerSelf \<and> p = caller \<or> peer = InputPeerUser (usr_ID p) (usr_AccessHash p)) \<and>
    msg_Text m = txt \<and> msg_Out m \<and> msg_Text m' = txt \<and> \<not> msg_Out m' \<and> msg_FromUserID m' = usr_ID caller \<and>
    (usr_ID p = BotFatherID \<or>
     up_Updates ups = [UpdateMessageID (msg_LocalID m) rid,
       UpdateNewMessage (dmMessage (uc_letter h) m) (pts_of (users h') (usr_ID caller)) 1] \<and>
     (\<forall>u q. mailbox u q h' =
       (if u = usr_ID caller \<and> q = usr_ID p then [m]
        else if u = usr_ID p \<and> q = usr_ID caller then [m'] else []) @ mailbox u q h))"
proof -
  have h: "sane {} h" "db_inv h"
    using assms(1,2) db_ok_server by (auto simp: sane_reachable db_ok_def)
  obtain caller p h1 sent h2 where start: "is_account h1 caller" "is_account h1 p" "same_db h1 h"
    "peer = InputPeerSelf \<and> p = caller \<or> peer = InputPeerUser (usr_ID p) (usr_AccessHash p)"
    "caller_of c h = Some (usr_ID caller)"
    and send: "SendMessage (usr_ID caller) (usr_ID p) txt rid 0 h1 = (Ok sent, h2)"
    and reply: "usr_ID p \<noteq> BotFatherID \<longrightarrow> same_db h' h2 \<and> up_Updates ups = [UpdateMessageID (sent_SenderLocalID sent) rid,
       UpdateNewMessage (dmMessage (uc_letter h2) (sent_copy (usr_ID caller) (usr_ID p) txt rid None sent))
         (sent_SenderPts sent) 1]"
    by (rule messagesSendMessage_call [OF run h(1)])
  define m m' where "m = sent_copy (usr_ID caller) (usr_ID p) txt rid None sent"
    and "m' = received_copy (usr_ID caller) txt rid None sent"
  note m = m_def m'_def
  have arrived: "mailbox u q h2 = (if u = usr_ID caller \<and> q = usr_ID p then [m]
        else if u = usr_ID p \<and> q = usr_ID caller then [m'] else []) @ mailbox u q h" for u q
    using SendMessage_mailbox [OF _ send, of u q] same_db_inv [OF start(3)] h(2) same_db_mailbox [OF start(3)]
    by (simp add: media_of_def m)
  have "up_Updates ups = [UpdateMessageID (msg_LocalID m) rid,
       UpdateNewMessage (dmMessage (uc_letter h) m) (pts_of (users h') (usr_ID caller)) 1] \<and>
     (\<forall>u q. mailbox u q h' = mailbox u q h2)" if "usr_ID p \<noteq> BotFatherID"
    using reply that SendMessage_frame [OF send] start(3)
    by (simp add: m sent_copy_def same_db_def same_db_mailbox)
  then have hist: "usr_ID p = BotFatherID \<or>
     up_Updates ups = [UpdateMessageID (msg_LocalID m) rid,
       UpdateNewMessage (dmMessage (uc_letter h) m) (pts_of (users h') (usr_ID caller)) 1] \<and>
     (\<forall>u q. mailbox u q h' =
       (if u = usr_ID caller \<and> q = usr_ID p then [m]
        else if u = usr_ID p \<and> q = usr_ID caller then [m'] else []) @ mailbox u q h)"
    by (simp only: arrived) blast
  have "is_account h caller" "is_account h p"
    using start(1,2) by (simp_all add: is_account_same [OF start(3)])
  moreover have "msg_Text m = txt \<and> msg_Out m \<and> msg_Text m' = txt \<and> \<not> msg_Out m' \<and>
      msg_FromUserID m' = usr_ID caller"
    by (simp add: m sent_copy_def received_copy_def)
  ultimately show ?thesis
    using start(4,5) hist by - (rule exI [of _ caller], rule exI [of _ p], rule exI [of _ m], rule exI [of _ m'], simp)
qed

end
