(* ===== verification/RpcPush.thy ===== *)
theory RpcPush imports RpcFrames begin

text \<open>Pushing an update: which sessions get it and which are dropped.\<close>

text \<open>The sessions of a list whose sends succeed, the n-th send being the first.\<close>

fun answering :: "(nat \<Rightarrow> bool) \<Rightarrow> nat \<Rightarrow> Session list \<Rightarrow> Session list" where
  "answering ok n [] = []"
| "answering ok n (s # ss) = (if ok n then s # answering ok (Suc n) ss else answering ok (Suc n) ss)"

lemma filed_listD:
  assumes "filed m"
  shows "m = map (\<lambda>s. (ses_ID s, s)) (mvals m)" "distinct (map ses_ID (mvals m))"
proof -
  have d: "distinct (map fst m)"
    using assms by (simp add: filed_def mwf_def)
  have id: "\<forall>x \<in> set m. fst x = ses_ID (snd x)"
    using assms d by (auto simp: filed_def map_of_eq_Some_iff)
  then have "map fst m = map ses_ID (mvals m)"
    by simp
  with d show "distinct (map ses_ID (mvals m))"
    by simp
  show "m = map (\<lambda>s. (ses_ID s, s)) (mvals m)"
    using id by (simp add: comp_def prod_eq_iff map_idI)
qed

lemma filed_del_mvals:
  assumes "filed m" "mvals m = pre @ s # ss"
  shows "mvals (mdel (ses_ID s) m) = pre @ ss"
proof -
  have m: "m = map (\<lambda>s. (ses_ID s, s)) (pre @ s # ss)" and d: "distinct (map ses_ID (pre @ s # ss))"
    using filed_listD [OF assms(1)] unfolding assms(2) by simp_all
  have "mdel (ses_ID s) m = filter (\<lambda>(k, _). ses_ID s \<noteq> k) m"
    by (simp add: AList.delete_eq)
  also have "\<dots> = map (\<lambda>s. (ses_ID s, s)) (filter (\<lambda>x. ses_ID s \<noteq> ses_ID x) (pre @ s # ss))"
    by (subst m) (simp add: filter_map comp_def)
  also have "filter (\<lambda>x. ses_ID s \<noteq> ses_ID x) (pre @ s # ss) = pre @ ss"
  proof -
    have "filter (\<lambda>x. ses_ID s \<noteq> ses_ID x) pre = pre" "filter (\<lambda>x. ses_ID s \<noteq> ses_ID x) ss = ss"
      using d by (auto simp: filter_id_conv)
    then show ?thesis
      by simp
  qed
  finally show ?thesis
    by (simp add: comp_def)
qed

lemma getd_untrack:
  "getd (reg_m (snd (untrack uid sid h))) v = (if v = uid then mdel sid (getd (reg_m h) uid) else getd (reg_m h) v)"
  by (auto simp: untrack_def getd_def split: option.split)

lemma untrack_sel [simp]:
  "fst (untrack uid sid h) = Ok ()" "pushed (snd (untrack uid sid h)) = pushed h"
  "send_pos (snd (untrack uid sid h)) = send_pos h" "send_ok (snd (untrack uid sid h)) = send_ok h"
  by (simp_all add: untrack_def split: option.split)

lemma push_loop:
  assumes "filed (getd (reg_m h) uid)" "mvals (getd (reg_m h) uid) = pre @ ss"
  shows "\<exists>h'. loop (\<lambda>s _. on_err (server_send s w) (\<lambda>_. untrack uid (ses_ID s))) ss () h = (Ok (), h') \<and>
    filed (getd (reg_m h') uid) \<and>
    mvals (getd (reg_m h') uid) = pre @ answering (send_ok h) (send_pos h) ss \<and>
    pushed h' = pushed h @ map (\<lambda>s. (s, w)) (answering (send_ok h) (send_pos h) ss) \<and>
    (\<forall>v. v \<noteq> uid \<longrightarrow> getd (reg_m h') v = getd (reg_m h) v)"
  using assms
proof (induction ss arbitrary: h pre)
  case (Cons s ss)
  let ?h = "h\<lparr>send_pos := Suc (send_pos h)\<rparr>"
  show ?case
  proof (cases "send_ok h (send_pos h)")
    case True
    let ?h1 = "?h\<lparr>pushed := pushed h @ [(s, w)]\<rparr>"
    have "server_send s w h = (Ok (), ?h1)"
      using True by (simp add: server_send_def)
    moreover have "filed (getd (reg_m ?h1) uid)" "mvals (getd (reg_m ?h1) uid) = (pre @ [s]) @ ss"
      using Cons.prems by simp_all
    note Cons.IH [OF this]
    ultimately show ?thesis
      using True by (simp add: bnd_def on_err_def)
  next
    case False
    let ?h1 = "snd (untrack uid (ses_ID s) ?h)"
    have "server_send s w h = (Err ErrSend, ?h)"
      using False by (simp add: server_send_def)
    moreover have un: "untrack uid (ses_ID s) ?h = (Ok (), ?h1)"
      by (simp add: prod_eq_iff)
    ultimately have both: "on_err (server_send s w) (\<lambda>_. untrack uid (ses_ID s)) h = (Ok (), ?h1)"
      by (simp only: on_err_def prod.case outcome.case)
    have step: "loop (\<lambda>s _. on_err (server_send s w) (\<lambda>_. untrack uid (ses_ID s))) (s # ss) () h =
        loop (\<lambda>s _. on_err (server_send s w) (\<lambda>_. untrack uid (ses_ID s))) ss () ?h1"
      by (simp only: loop.simps) (rule bnd_Ok, rule both)
    have "filed (getd (reg_m ?h1) uid)" "mvals (getd (reg_m ?h1) uid) = pre @ ss"
      using Cons.prems filed_del [of "getd (reg_m h) uid"] filed_del_mvals [of "getd (reg_m h) uid"]
      by (simp_all add: getd_untrack)
    note Cons.IH [OF this]
    then show ?thesis
      unfolding step using False by (simp add: getd_untrack)
  qed
qed simp

text \<open>C20: A push reaches every live session of the account whose send succeeds, once and in
  order, and drops exactly the sessions whose send fails, so that the next push does not
  try them; sessions of other accounts and the database are not touched, and the
  handler that pushes never fails because of it.\<close>

theorem push_delivers:
  assumes "server_reachable h" "ctx_server c"
  shows "\<exists>h'. push c uid us date ups h = (Ok (), h') \<and> same_db h' h \<and>
    (let got = answering (send_ok h) (send_pos h) (reg_get uid h) in
       pushed h' = pushed h @ map (\<lambda>s. (s, \<lparr>up_Updates = ups, up_Users = us, up_Date = date\<rparr>)) got \<and>
       reg_get uid h' = got \<and> (\<forall>v. v \<noteq> uid \<longrightarrow> reg_get v h' = reg_get v h))"
proof -
  have filed: "filed (getd (reg_m h) uid)"
    by (rule sane_filed [OF sane_reachable [OF assms(1)]])
  obtain h' where run: "loop (\<lambda>s _. on_err (server_send s \<lparr>up_Updates = ups, up_Users = us, up_Date = date\<rparr>)
      (\<lambda>_. untrack uid (ses_ID s))) (reg_get uid h) () h = (Ok (), h')"
    and "mvals (getd (reg_m h') uid) = answering (send_ok h) (send_pos h) (reg_get uid h)"
    and "pushed h' = pushed h @ map (\<lambda>s. (s, \<lparr>up_Updates = ups, up_Users = us, up_Date = date\<rparr>))
      (answering (send_ok h) (send_pos h) (reg_get uid h))"
    and "\<forall>v. v \<noteq> uid \<longrightarrow> getd (reg_m h') v = getd (reg_m h) v"
    using push_loop [OF filed, of "[]" "reg_get uid h"] by (auto simp: reg_get_def)
  moreover have push: "push c uid us date ups h = (Ok (), h')"
    using run assms(2) by (cases "reg_get uid h") (simp_all add: push_def)
  moreover have "same_db h' h"
    by (rule quietD [OF quiet_push push])
  ultimately show ?thesis
    by (auto simp: reg_get_def Let_def)
qed

end
