(* ===== verification/ServerSamples.thy ===== *)
theory ServerSamples imports Samples RpcDelivery RpcPush begin

text \<open>
  A sample execution of the server: Ann logs in from two sessions, Bob from one. The
  requests are in \<open>sample_requests\<close>; every state on the way is reachable.
\<close>

section \<open>A sample execution\<close>

definition sample_host :: server where
  "sample_host = memdb.extend (sample_world\<lparr>rnd := chr\<rparr>)
     (server.fields True None [] [] newUploadStaging [] (\<lambda>_ _. None) (\<lambda>n. n \<noteq> 1) 0 [])"

text \<open>A fresh server on this host.\<close>

definition sample_base :: server where
  "sample_base = New sample_host"

definition ann1 :: Session where "ann1 = \<lparr>ses_ID = 11, ses_KeyID = ''K1''\<rparr>"

definition ann2 :: Session where "ann2 = \<lparr>ses_ID = 12, ses_KeyID = ''K2''\<rparr>"

definition bob1 :: Session where "bob1 = \<lparr>ses_ID = 21, ses_KeyID = ''K3''\<rparr>"

definition stranger :: Session where "stranger = \<lparr>ses_ID = 99, ses_KeyID = ''K9''\<rparr>"

fun serve_all :: "(Session \<times> request) list \<Rightarrow> 'z server_scheme \<Rightarrow> 'z server_scheme" where
  "serve_all [] h = h"
| "serve_all ((s, r) # rs) h = serve_all rs (snd (serve s r h))"

lemma serve_all_append: "serve_all (as @ bs) h = serve_all bs (serve_all as h)"
  by (induction as h rule: serve_all.induct) simp_all

lemma server_reachable_serve:
  assumes "server_reachable h" "wire_ok r"
  shows "server_reachable (snd (serve s r h))"
proof -
  obtain out h' where run: "serve s r h = (out, h')"
    by (cases "serve s r h")
  then have "out \<noteq> Panic"
    using givesD [OF gives_serve [OF assms(2)] sane_reachable [OF assms(1)] run] by blast
  with assms run show ?thesis
    by (auto intro: server_step.intros server_next)
qed

lemma server_reachable_all:
  "server_reachable h \<Longrightarrow> list_all (wire_ok \<circ> snd) rs \<Longrightarrow> server_reachable (serve_all rs h)"
  by (induction rs h rule: serve_all.induct) (simp_all add: server_reachable_serve)

text \<open>The access hashes the server gave out.\<close>

definition ann_hash :: int where "ann_hash = 1663540288323457296"

definition bob_hash :: int where "bob_hash = 3399704436437297448"

definition to_ann :: input_peer where "to_ann = InputPeerUser 1 ann_hash"

definition to_bob :: input_peer where "to_bob = InputPeerUser 2 bob_hash"

definition sample_logins :: "(Session \<times> request) list" where
  "sample_logins =
    [(ann1, ReqAuthSendCode ''+1 00''),
     (ann1, ReqAuthSignUp ''100'' ''000102030405060708090a0b0c0d0e0f'' ''Ann'' []),
     (bob1, ReqAuthSendCode ''200''),
     (bob1, ReqAuthSignUp ''200'' ''18191a1b1c1d1e1f2021222324252627'' ''Bob'' []),
     (ann2, ReqAuthSendCode ''100''),
     (ann2, ReqAuthSignIn ''1-00'' ''303132333435363738393a3b3c3d3e3f'' ''12345''),
     (ann1, ReqUpdatesGetState), (ann2, ReqUpdatesGetState)]"

definition sample_server :: server where
  "sample_server = serve_all sample_logins sample_base"

definition sample_talk :: "(Session \<times> request) list" where
  "sample_talk =
    [(bob1, ReqMessagesSendMessage to_ann ''hi'' 7),
     (ann1, ReqMessagesSendMessage to_bob ''hello'' 8)]"

definition sample_chat :: server where
  "sample_chat = serve_all sample_talk sample_server"

section \<open>Evaluation\<close>

lemma sample_base_sel [simp]:
  "clk sample_base = int" "clk_pos sample_base = 1" "rnd sample_base = chr" "rnd_pos sample_base = 0"
  "uc_lower sample_base = (\<lambda>s. s)" "uc_fold sample_base = (=)" "uc_letter sample_base = (\<lambda>_. False)"
  "users sample_base = [(BotFatherID, newMemUser (zero_user\<lparr>usr_ID := BotFatherID,
     usr_AccessHash := 7264819913547, usr_Username := ''BotFather'', usr_FirstName := ''BotFather'',
     usr_IsBot := True, usr_CreatedAt := 0\<rparr>) 0)]"
  "userSeq sample_base = 0" "messages sample_base = []" "msgSeq sample_base = 0" "refs sample_base = []"
  "updates sample_base = []" "files sample_base = []" "fileSeq sample_base = 0"
  "sessions sample_base = []" "tempKeys sample_base = []" "phoneCodes sample_base = []"
  "drafts sample_base = []" "contacts sample_base = []" "botStates sample_base = []"
  "botCommands sample_base = []" "hasDB sample_base" "store sample_base = Some NewObjectStore"
  "reg_m sample_base = []" "reg_lastSeen sample_base = []" "staging sample_base = newUploadStaging"
  "send_ok sample_base = (\<lambda>n. n \<noteq> 1)" "send_pos sample_base = 0" "pushed sample_base = []"
  by (simp_all add: sample_base_def New_def NewDB_def sample_host_def sample_world_def server.defs
      memdb.defs bnd_def now_def)

lemma of_char_chr_int [simp]: "n < 256 \<Longrightarrow> (of_char (chr n) :: int) = int n"
  by (metis of_char_chr of_nat_of_char)

lemma hash_values:
  "int64 1663540288323457296 = 1663540288323457296" "int64 3399704436437297448 = 3399704436437297448"
  by (rule int64_id; simp add: int64_range_def)+

lemmas run_simps = numeral_2_eq_2 [symmetric] serve_def OnMessage_def trackCaller_def request_ctx_def effectiveKeyID_def
  callerKeyID_def callerUser_def requireCaller_def requireDB_def bindCaller_def internal_def
  reply_with_def bnd_def on_err_def now_def rand_read_def Let_def ann1_def ann2_def bob1_def
  track_def UserByID_def SessionUserID_def PermAuthKey_def BindSession_def tgUser_def userStatus_def

lemmas login_simps = authSendCode_def authSignUp_def authSignIn_def checkCode_def normalizePhone_def
  phoneCode_def testPhone_def devPhoneCode_def codeTTL_def SavePhoneCode_def PhoneCode_def
  phoneCodeKey_def seconds_def hex_def hex_digit_def is_digit_def prefix_def upt_rec
  UserByPhone_def CreateUser_def phoneTaken_def nextUserID_def genAccessHash_def insertUser_def
  newMemUser_def zero_user_def BotFatherID_def hash_values updatesGetState_def GetState_def getd_def

definition bot_father :: User where
  "bot_father = zero_user\<lparr>usr_ID := BotFatherID, usr_AccessHash := 7264819913547,
     usr_Username := ''BotFather'', usr_FirstName := ''BotFather'', usr_IsBot := True, usr_CreatedAt := 0\<rparr>"

definition ann :: User where
  "ann = zero_user\<lparr>usr_ID := 1, usr_AccessHash := ann_hash, usr_Phone := ''100'', usr_FirstName := ''Ann'',
     usr_CreatedAt := 3\<rparr>"

definition bob :: User where
  "bob = zero_user\<lparr>usr_ID := 2, usr_AccessHash := bob_hash, usr_Phone := ''200'', usr_FirstName := ''Bob'',
     usr_CreatedAt := 7\<rparr>"

definition sample_codes :: "(string, memPhoneCode) gomap" where
  "sample_codes =
    [(phoneCodeKey ''100'' ''000102030405060708090a0b0c0d0e0f'', \<lparr>pc_code = ''12345'', pc_expiresAt = 600000000001\<rparr>),
     (phoneCodeKey ''200'' ''18191a1b1c1d1e1f2021222324252627'', \<lparr>pc_code = ''12345'', pc_expiresAt = 600000000005\<rparr>),
     (phoneCodeKey ''100'' ''303132333435363738393a3b3c3d3e3f'', \<lparr>pc_code = ''12345'', pc_expiresAt = 600000000009\<rparr>)]"

lemma sample_server_run:
  "sample_server = sample_base\<lparr>userSeq := 2,
     users := [(BotFatherID, newMemUser bot_father 0), (1, newMemUser ann 0), (2, newMemUser bob 0)],
     rnd_pos := 64, clk_pos := 16, phoneCodes := sample_codes,
     sessions := [(''K1'', 1), (''K3'', 2), (''K2'', 1)],
     reg_m := [(1, [(11, ann1), (12, ann2)])], reg_lastSeen := [(1, 14)]\<rparr>"
  unfolding sample_server_def sample_logins_def
  by (simp add: run_simps login_simps bot_father_def ann_def bob_def ann_hash_def bob_hash_def sample_codes_def)

lemma sample_server_sel [simp]:
  "clk sample_server = int" "clk_pos sample_server = 16" "rnd sample_server = chr" "rnd_pos sample_server = 64"
  "uc_lower sample_server = (\<lambda>s. s)" "uc_fold sample_server = (=)" "uc_letter sample_server = (\<lambda>_. False)"
  "users sample_server = [(BotFatherID, newMemUser bot_father 0), (1, newMemUser ann 0), (2, newMemUser bob 0)]"
  "userSeq sample_server = 2" "messages sample_server = []" "msgSeq sample_server = 0" "refs sample_server = []"
  "updates sample_server = []" "files sample_server = []" "fileSeq sample_server = 0"
  "sessions sample_server = [(''K1'', 1), (''K3'', 2), (''K2'', 1)]" "tempKeys sample_server = []"
  "phoneCodes sample_server = sample_codes" "drafts sample_server = []" "contacts sample_server = []"
  "botStates sample_server = []" "botCommands sample_server = []" "hasDB sample_server"
  "store sample_server = Some NewObjectStore" "reg_m sample_server = [(1, [(11, ann1), (12, ann2)])]"
  "reg_lastSeen sample_server = [(1, 14)]" "staging sample_server = newUploadStaging"
  "send_ok sample_server = (\<lambda>n. n \<noteq> 1)" "send_pos sample_server = 0" "pushed sample_server = []"
  by (simp_all add: sample_server_run)

lemma sample_people [simp]:
  "usr_ID bot_father = BotFatherID" "usr_ID ann = 1" "usr_ID bob = 2" "usr_AccessHash ann = ann_hash"
  "usr_AccessHash bob = bob_hash" "usr_Phone ann = ''100''" "usr_Phone bob = ''200''" "usr_Phone bot_father = []"
  "usr_Username ann = []" "usr_Username bob = []" "usr_Username bot_father = ''BotFather''"
  "usr_IsBot ann = False" "usr_IsBot bob = False" "usr_IsBot bot_father = True"
  "usr_BotToken ann = []" "usr_BotToken bob = []" "usr_BotToken bot_father = []"
  "mu_u (newMemUser u ow) = u" "mu_pts (newMemUser u ow) = 0" "mu_lastMessageID (newMemUser u ow) = 0"
  "mu_botOwnerID (newMemUser u ow) = ow"
  by (simp_all add: bot_father_def ann_def bob_def newMemUser_def zero_user_def)

lemma onlineWindow_value: "onlineWindow = 60000000000"
  by (simp add: onlineWindow_def seconds_def)

lemmas send_simps = onlineWindow_value messagesSendMessage_def resolvePeerUser_def to_ann_def to_bob_def deliver_def
  tgUsers_def collect_def push_def reg_get_def server_send_def untrack_def SendMessage_def allocate_def
  setUser_def putRef_def logUpdate_def getd_def lastSeenAt_def BotFatherID_def

lemma sample_send:
  "is_ok (messagesSendMessage (request_ctx bob1) to_ann ''hi'' 7 sample_server)"
  by (simp add: run_simps send_simps)

definition sample_messages :: "(int, memMessage) gomap" where
  "sample_messages =
    [(1, \<lparr>mm_globalID = 1, mm_from = 2, mm_peer = 1, mm_text = ''hi'', mm_date = 17, mm_editDate = zero_time,
        mm_randomID = 7, mm_mediaFileID = 0, mm_deleted = False\<rparr>),
     (2, \<lparr>mm_globalID = 2, mm_from = 1, mm_peer = 2, mm_text = ''hello'', mm_date = 25, mm_editDate = zero_time,
        mm_randomID = 8, mm_mediaFileID = 0, mm_deleted = False\<rparr>)]"

definition sample_refs :: "(int, (int, memRef) gomap) gomap" where
  "sample_refs =
    [(2, [(1, \<lparr>mr_localID = 1, mr_globalID = 1, mr_out = True, mr_unread = False\<rparr>),
          (2, \<lparr>mr_localID = 2, mr_globalID = 2, mr_out = False, mr_unread = True\<rparr>)]),
     (1, [(1, \<lparr>mr_localID = 1, mr_globalID = 1, mr_out = False, mr_unread = True\<rparr>),
          (2, \<lparr>mr_localID = 2, mr_globalID = 2, mr_out = True, mr_unread = False\<rparr>)])]"

definition sample_log :: "(int, UpdateLogEntry list) gomap" where
  "sample_log =
    [(2, [\<lparr>ue_Pts = 1, ue_PtsCount = 1, ue_Type = UpdateNew, ue_GlobalID = Some 1, ue_Extra = [], ue_Date = 18\<rparr>,
          \<lparr>ue_Pts = 2, ue_PtsCount = 1, ue_Type = UpdateNew, ue_GlobalID = Some 2, ue_Extra = [], ue_Date = 27\<rparr>]),
     (1, [\<lparr>ue_Pts = 1, ue_PtsCount = 1, ue_Type = UpdateNew, ue_GlobalID = Some 1, ue_Extra = [], ue_Date = 19\<rparr>,
          \<lparr>ue_Pts = 2, ue_PtsCount = 1, ue_Type = UpdateNew, ue_GlobalID = Some 2, ue_Extra = [], ue_Date = 26\<rparr>])]"

text \<open>The send to Ann's second session fails, so only her first session is live at the end.\<close>

lemma sample_chat_exec: "\<exists>ps. sample_chat = sample_server\<lparr>
   reg_m := [(1, [(11, ann1)]), (2, [(21, bob1)])], reg_lastSeen := [(1, 24), (2, 16)],
   msgSeq := 2, messages := sample_messages,
   users := [(BotFatherID, newMemUser bot_father 0), (1, (newMemUser ann 0)\<lparr>mu_lastMessageID := 2, mu_pts := 2\<rparr>),
     (2, (newMemUser bob 0)\<lparr>mu_lastMessageID := 2, mu_pts := 2\<rparr>)],
   refs := sample_refs, updates := sample_log, send_pos := 3, pushed := ps, clk_pos := 32\<rparr>"
  unfolding sample_chat_def sample_talk_def
  by (rule exI, simp add: run_simps send_simps sample_messages_def sample_refs_def sample_log_def)

lemma sample_chat_run: "sample_chat = sample_server\<lparr>
   reg_m := [(1, [(11, ann1)]), (2, [(21, bob1)])], reg_lastSeen := [(1, 24), (2, 16)],
   msgSeq := 2, messages := sample_messages,
   users := [(BotFatherID, newMemUser bot_father 0), (1, (newMemUser ann 0)\<lparr>mu_lastMessageID := 2, mu_pts := 2\<rparr>),
     (2, (newMemUser bob 0)\<lparr>mu_lastMessageID := 2, mu_pts := 2\<rparr>)],
   refs := sample_refs, updates := sample_log, send_pos := 3, pushed := pushed sample_chat, clk_pos := 32\<rparr>"
  by (rule exE [OF sample_chat_exec]) (erule ssubst, simp)

lemma sample_chat_sel [simp]:
  "userSeq sample_chat = 2" "messages sample_chat = sample_messages" "refs sample_chat = sample_refs"
  "users sample_chat = [(BotFatherID, newMemUser bot_father 0), (1, (newMemUser ann 0)\<lparr>mu_lastMessageID := 2, mu_pts := 2\<rparr>),
     (2, (newMemUser bob 0)\<lparr>mu_lastMessageID := 2, mu_pts := 2\<rparr>)]"
  "updates sample_chat = sample_log" "sessions sample_chat = [(''K1'', 1), (''K3'', 2), (''K2'', 1)]"
  "reg_m sample_chat = [(1, [(11, ann1)]), (2, [(21, bob1)])]" "hasDB sample_chat" "tempKeys sample_chat = []"
  "clk sample_chat = int" "clk_pos sample_chat = 32" "files sample_chat = []" "botStates sample_chat = []"
  "drafts sample_chat = []" "contacts sample_chat = []" "botCommands sample_chat = []"
  "rnd sample_chat = chr" "rnd_pos sample_chat = 64" "phoneCodes sample_chat = sample_codes"
  "uc_lower sample_chat = (\<lambda>s. s)" "uc_fold sample_chat = (=)" "uc_letter sample_chat = (\<lambda>_. False)"
  "staging sample_chat = newUploadStaging" "store sample_chat = Some NewObjectStore" "msgSeq sample_chat = 2"
  "reg_lastSeen sample_chat = [(1, 24), (2, 16)]" "send_pos sample_chat = 3" "send_ok sample_chat = (\<lambda>n. n \<noteq> 1)"
  by (subst sample_chat_run, simp)+

lemma sample_callers [simp]:
  "caller_of (request_ctx ann1) sample_server = Some 1" "caller_of (request_ctx bob1) sample_server = Some 2"
  "caller_of (request_ctx ann1) sample_chat = Some 1" "caller_of (request_ctx bob1) sample_chat = Some 2"
  "caller_of (request_ctx stranger) sample_chat = None" "BotFatherID \<noteq> 1" "BotFatherID \<noteq> 2"
  by (simp_all add: caller_of_def callerKeyID_def request_ctx_def effective_key_def ann1_def bob1_def
      stranger_def BotFatherID_def)

lemma sample_server_reachable: "server_reachable sample_server"
  unfolding sample_server_def by (rule server_reachable_all [OF server_start [of sample_host, folded sample_base_def]]) (simp add: sample_logins_def)

lemma sample_chat_reachable: "server_reachable sample_chat"
  unfolding sample_chat_def
  by (rule server_reachable_all [OF sample_server_reachable]) (simp add: sample_talk_def)


lemma sample_db_inv: "db_inv sample_server" "db_inv sample_chat"
  using sample_server_reachable [THEN db_ok_server] sample_chat_reachable [THEN db_ok_server]
  by (simp_all add: db_ok_def BotFatherID_def)

section \<open>The properties at concrete inputs\<close>

theorem serve_never_panics_witness:
  "\<exists>out h'. serve bob1 (ReqUploadGetFile (InputPhotoFileLocation 1 2) (- 5) 1024) sample_chat = (out, h') \<and>
     out \<noteq> Panic \<and> server_reachable h'"
  by (rule serve_never_panics [OF sample_chat_reachable]) (simp add: int32_def)

theorem layers_agree_witness:
  "ses_ID ann2 = 12 \<and> map_of (users sample_server) 1 \<noteq> None"
  using layers_agree [OF sample_server_reachable, of "''K2''" 1 1 12 ann2] by (simp add: getd_def)

theorem server_db_inv_witness: "db_inv sample_chat"
  by (rule server_db_inv [OF sample_chat_reachable]) (simp add: BotFatherID_def)

theorem sent_message_arrives_witness:
  "\<exists>ups h' m m'. messagesSendMessage (request_ctx bob1) to_ann ''hi'' 7 sample_server = (Ok ups, h') \<and>
     mailbox 2 1 h' = m # mailbox 2 1 sample_server \<and> mailbox 1 2 h' = m' # mailbox 1 2 sample_server \<and>
     msg_Text m = ''hi'' \<and> msg_FromUserID m' = 2"
proof -
  obtain ups h' where run: "messagesSendMessage (request_ctx bob1) to_ann ''hi'' 7 sample_server = (Ok ups, h')"
    using sample_send is_okE by blast
  have "userSeq sample_server < BotFatherID"
    by (simp add: BotFatherID_def)
  from sent_message_arrives [OF sample_server_reachable this run] show ?thesis
    using run by (auto simp: to_ann_def)
qed

theorem push_delivers_witness:
  "\<exists>h'. push (request_ctx bob1) 1 [] 5 [] sample_server = (Ok (), h') \<and> reg_get 1 h' = [ann1]"
proof -
  have "ctx_server (request_ctx bob1)"
    by (simp add: request_ctx_def)
  from push_delivers [OF sample_server_reachable this, of 1 "[]" 5 "[]"] show ?thesis
    by (auto simp: Let_def reg_get_def getd_def)
qed

end
