(* ===== verification/RpcLogin.thy ===== *)
theory RpcLogin imports RpcFrames begin

text \<open>Who may do what: requests without an account, logging in and out, temporary keys.\<close>

section \<open>Requests that need an account\<close>

fun account_request :: "request \<Rightarrow> bool" where
  "account_request (ReqAuthSendCode a) = False"
| "account_request (ReqAuthSignIn a b d) = False"
| "account_request (ReqAuthSignUp a b d e) = False"
| "account_request ReqAuthLogOut = False"
| "account_request (ReqAuthBindTempAuthKey a b) = False"
| "account_request (ReqAuthImportBotAuthorization a) = False"
| "account_request (ReqUsersGetUsers a) = False"
| "account_request (ReqUsersGetFullUser a) = False"
| "account_request (ReqContactsResolveUsername a) = False"
| "account_request (ReqContactsSearch a b) = False"
| "account_request (ReqHelpGetTimezonesList a) = False"
| "account_request (ReqMethod a) = False"
| "account_request r = True"

text \<open>No account is bound to the key of the session, nor to the key it may stand for.\<close>

definition no_account :: "Session \<Rightarrow> 'z server_scheme \<Rightarrow> bool" where
  "no_account s h \<longleftrightarrow> map_of (sessions h) (ses_KeyID s) = None \<and>
     (\<forall>tk. map_of (tempKeys h) (ses_KeyID s) = Some tk \<longrightarrow> map_of (sessions h) (tk_perm tk) = None)"

definition refused :: "('z server_scheme, 'a) go \<Rightarrow> 'z server_scheme \<Rightarrow> bool" where
  "refused m h \<longleftrightarrow> (\<exists>n. m h = (Err (RpcError 401 ''AUTH_KEY_UNREGISTERED''), h\<lparr>clk_pos := n\<rparr>))"

lemma refused_bnd: "refused m h \<Longrightarrow> refused (bnd m f) h"
  by (auto simp: refused_def bnd_def)

lemma refused_requireCaller: "sane A h \<Longrightarrow> caller_of c h = None \<Longrightarrow> refused (requireCaller c) h"
  using requireCaller_run [of A h c] by (simp add: refused_def)

lemma refused_handlers:
  assumes "refused (requireCaller c) h"
  shows "refused (botsSetBotCommands c a0 b0 d0) h" "refused (botsGetBotCommands c a0 b0) h"
    "refused (botsResetBotCommands c a0 b0) h" "refused (contactsGetContacts c) h"
    "refused (contactsImportContacts c a1) h" "refused (contactsAddContact c a2 b2 d2) h"
    "refused (contactsDeleteContacts c a3) h" "refused (accountCheckUsername c a4) h"
    "refused (accountUpdateUsername c a4) h" "refused (accountUpdateProfile c a5 b5 d5) h"
    "refused (messagesSendMessage c a6 b6 d6) h" "refused (messagesGetHistory c a6 b7 d6) h"
    "refused (messagesGetDialogs c a7) h" "refused (messagesGetSavedHistory c a7 b7) h"
    "refused (messagesSaveDraft c a6 b6) h" "refused (messagesGetAllDrafts c) h"
    "refused (messagesReadHistory c a6 b7) h" "refused (messagesEditMessage c a6 b7 d7) h"
    "refused (messagesDeleteMessages c a8) h" "refused (messagesGetPeerDialogs c a9) h"
    "refused (messagesSearch c a6 b6 d6) h" "refused (updatesGetState c) h"
    "refused (updatesGetDifference c a7) h" "refused (uploadSaveFilePart c a7 b7 d8) h"
    "refused (uploadSaveBigFilePart c a7 b7 d8) h" "refused (messagesSendMedia c a6 b8 d7 e7) h"
    "refused (uploadGetFile c a10 b7 d6) h"
  unfolding botsSetBotCommands_def botsGetBotCommands_def botsResetBotCommands_def requireBot_def
    contactsGetContacts_def contactsImportContacts_def contactsAddContact_def contactsDeleteContacts_def
    accountCheckUsername_def accountUpdateUsername_def accountUpdateProfile_def
    messagesSendMessage_def messagesGetHistory_def messagesGetDialogs_def messagesGetSavedHistory_def
    messagesSaveDraft_def messagesGetAllDrafts_def messagesReadHistory_def messagesEditMessage_def
    messagesDeleteMessages_def messagesGetPeerDialogs_def messagesSearch_def updatesGetState_def
    updatesGetDifference_def uploadSaveFilePart_def uploadSaveBigFilePart_def messagesSendMedia_def
    uploadGetFile_def
  by (intro refused_bnd assms)+

lemma refused_dispatch:
  assumes "sane A h" "caller_of c h = None" "account_request r"
  shows "refused (dispatch r c) h"
proof -
  note no = refused_handlers [OF refused_requireCaller [OF assms(1,2)]]
  show ?thesis
    using assms(3)
    by (cases r; simp only: account_request.simps dispatch.simps reply_with_def;
      (intro refused_bnd no)?)
qed

lemma effective_key_cases:
  "effective_key k h = k \<or> (\<exists>tk. map_of (tempKeys h) k = Some tk \<and> effective_key k h = tk_perm tk)"
  by (auto simp: effective_key_def split: option.split)

lemma no_account_session: "no_account s h \<Longrightarrow> map_of (sessions h) (effective_key (ses_KeyID s) h) = None"
  using effective_key_cases [of "ses_KeyID s" h] by (auto simp: no_account_def)

lemma no_account_clk [simp]: "no_account s (h\<lparr>clk_pos := n\<rparr>) = no_account s h"
  by (simp add: no_account_def)

lemma sane_clk: "sane A h \<Longrightarrow> sane A (h\<lparr>clk_pos := n\<rparr>)"
  by (erule sane_same_core) (simp add: same_core_def)

lemma trackCaller_none:
  assumes "sane A h" "no_account s h"
  shows "\<exists>n. trackCaller s h = (Ok (), h\<lparr>clk_pos := n\<rparr>)"
proof -
  have db: "hasDB h"
    using assms(1) by (simp add: sane_def)
  from effectiveKeyID_run [OF this, of "ses_KeyID s"] obtain n where
    "effectiveKeyID (ses_KeyID s) h = (Ok (effective_key (ses_KeyID s) h), h\<lparr>clk_pos := n\<rparr>)"
    by blast
  with no_account_session [OF assms(2)] db show ?thesis
    by (auto simp: trackCaller_def on_err_def bnd_def SessionUserID_def)
qed

lemma serve_refused:
  assumes h: "sane {} h" and "account_request r" "no_account s h"
  shows "\<exists>n. serve s r h = (Err (RpcError 401 ''AUTH_KEY_UNREGISTERED''), h\<lparr>clk_pos := n\<rparr>)"
proof -
  obtain n where track: "trackCaller s h = (Ok (), h\<lparr>clk_pos := n\<rparr>)"
    using trackCaller_none [OF h assms(3)] by blast
  have "caller_of (request_ctx s) (h\<lparr>clk_pos := n\<rparr>) = None"
    using no_account_session [of s "h\<lparr>clk_pos := n\<rparr>"] assms(3)
    by (simp add: caller_of_def callerKeyID_def request_ctx_def)
  from refused_dispatch [OF sane_clk [OF h] this assms(2)] show ?thesis
    using track by (auto simp: serve_def OnMessage_def bnd_def refused_def)
qed

text \<open>C21: A session whose key is bound to no account gets the error 401 to every request that
  acts for an account: the 27 methods on profiles, contacts, messages, dialogs, drafts,
  updates, files and bot commands. The request changes nothing at all (only the clock was
  read): no record, no live session, no push.\<close>

theorem no_account_refused:
  assumes "server_reachable h" "account_request r" "no_account s h"
  shows "\<exists>n. serve s r h = (Err (RpcError 401 ''AUTH_KEY_UNREGISTERED''), h\<lparr>clk_pos := n\<rparr>)"
  by (rule serve_refused [OF sane_reachable [OF assms(1)] assms(2,3)])

section \<open>Logging in with a code\<close>

definition live_code :: "string \<Rightarrow> string \<Rightarrow> 'z server_scheme \<Rightarrow> string option" where
  "live_code phone codeHash h = (case map_of (phoneCodes h) (phoneCodeKey phone codeHash) of
       None \<Rightarrow> None
     | Some pc \<Rightarrow> if clk h (clk_pos h) < pc_expiresAt pc then Some (pc_code pc) else None)"

definition phone_account :: "string \<Rightarrow> 'z server_scheme \<Rightarrow> User option" where
  "phone_account phone h = map_option mu_u (find (\<lambda>mu. usr_Phone (mu_u mu) = phone) (mvals (users h)))"

lemma phone_account_clk [simp]: "phone_account phone (h\<lparr>clk_pos := n\<rparr>) = phone_account phone h"
  by (simp add: phone_account_def)

lemma phone_account_found:
  assumes "sane A h" "phone_account phone h = Some u"
  shows "is_account h u" "usr_Phone u = phone"
proof -
  obtain mu where mu: "find (\<lambda>mu. usr_Phone (mu_u mu) = phone) (mvals (users h)) = Some mu" "u = mu_u mu"
    using assms(2) by (auto simp: phone_account_def)
  then show "usr_Phone u = phone"
    by (auto simp: find_Some_iff)
  have "mu \<in> set (mvals (users h))"
    using mu(1) by (auto simp: find_Some_iff)
  moreover have "mwf (users h)"
    using assms(1) by (simp add: sane_def)
  ultimately obtain i where "map_of (users h) i = Some mu"
    using mvals_map_of by metis
  with sane_user_id [OF assms(1) this] mu(2) show "is_account h u"
    by (simp add: is_account_def)
qed

lemma checkCode_run:
  "\<exists>n. checkCode phone codeHash code (h :: 'z server_scheme) = (case live_code phone codeHash h of
       None \<Rightarrow> Err (RpcError 400 ''PHONE_CODE_EXPIRED'')
     | Some w \<Rightarrow> if code \<noteq> w then Err (RpcError 400 ''PHONE_CODE_INVALID'') else Ok (), h\<lparr>clk_pos := n\<rparr>)"
  by (auto simp: checkCode_def internal_def on_err_def PhoneCode_def live_code_def bnd_def now_def
      split: option.split intro: exI [of _ "clk_pos h"])

lemma bindCaller_run:
  assumes "hasDB h" "callerKeyID c = Some k"
  shows "\<exists>n. bindCaller c uid h =
    (Ok (), h\<lparr>sessions := mput (effective_key k h) uid (sessions h), clk_pos := n\<rparr>)"
proof -
  obtain n where "effectiveKeyID k h = (Ok (effective_key k h), h\<lparr>clk_pos := n\<rparr>)"
    using effectiveKeyID_run [OF assms(1)] by blast
  with assms(2) show ?thesis
    by - (rule exI [of _ n], simp add: bindCaller_def bnd_def BindSession_def)
qed

lemma tgUser_run: "\<exists>t n. tgUser u self h = (Ok t, h\<lparr>clk_pos := n\<rparr>) \<and> tu_ID t = usr_ID u \<and> tu_Self t = self"
  by (auto simp: tgUser_def userStatus_def bnd_def now_def split: option.split)

text \<open>The end of every login: bind the account to the key, then answer with it.\<close>

lemma login_reply_run:
  assumes "hasDB h" "callerKeyID c = Some k"
  shows "\<exists>t n. bnd (internal (bindCaller c (usr_ID u))) (\<lambda>_. bnd (tgUser u True) (\<lambda>t. ret (Authorization t))) h =
     (Ok (Authorization t), h\<lparr>sessions := mput (effective_key k h) (usr_ID u) (sessions h), clk_pos := n\<rparr>) \<and>
     tu_ID t = usr_ID u"
proof -
  obtain n where bind: "bindCaller c (usr_ID u) h =
      (Ok (), h\<lparr>sessions := mput (effective_key k h) (usr_ID u) (sessions h), clk_pos := n\<rparr>)"
    using bindCaller_run [OF assms] by blast
  obtain t m where "tgUser u True (h\<lparr>sessions := mput (effective_key k h) (usr_ID u) (sessions h), clk_pos := n\<rparr>) =
      (Ok t, h\<lparr>sessions := mput (effective_key k h) (usr_ID u) (sessions h), clk_pos := m\<rparr>)" "tu_ID t = usr_ID u"
    using tgUser_run [of u True "h\<lparr>sessions := mput (effective_key k h) (usr_ID u) (sessions h), clk_pos := n\<rparr>"]
    by auto
  with bind show ?thesis
    by (auto simp: bnd_def internal_def on_err_def)
qed

lemma caller_of_bound:
  assumes "callerKeyID c = Some k" "map_of (tempKeys h) k = None"
  shows "caller_of c h = map_of (sessions h) k" "effective_key k h = k"
  using assms by (simp_all add: caller_of_def effective_key_def)

lemma authSignIn_run:
  assumes "hasDB h" "callerKeyID c = Some k" "map_of (tempKeys h) k = None"
  shows "\<exists>t n. authSignIn c p codeHash code h = (case live_code (normalizePhone p) codeHash h of
       None \<Rightarrow> (Err (RpcError 400 ''PHONE_CODE_EXPIRED''), h\<lparr>clk_pos := n\<rparr>)
     | Some w \<Rightarrow> if code \<noteq> w then (Err (RpcError 400 ''PHONE_CODE_INVALID''), h\<lparr>clk_pos := n\<rparr>)
         else (case phone_account (normalizePhone p) h of
           None \<Rightarrow> (Ok SignUpRequired, h\<lparr>clk_pos := n\<rparr>)
         | Some u \<Rightarrow> (Ok (Authorization t), h\<lparr>sessions := mput k (usr_ID u) (sessions h), clk_pos := n\<rparr>))) \<and>
    (\<forall>u. phone_account (normalizePhone p) h = Some u \<longrightarrow> tu_ID t = usr_ID u)"
proof -
  obtain n where check: "checkCode (normalizePhone p) codeHash code h = (case live_code (normalizePhone p) codeHash h of
       None \<Rightarrow> Err (RpcError 400 ''PHONE_CODE_EXPIRED'')
     | Some w \<Rightarrow> if code \<noteq> w then Err (RpcError 400 ''PHONE_CODE_INVALID'') else Ok (), h\<lparr>clk_pos := n\<rparr>)"
    using checkCode_run by blast
  have byPhone: "internal (UserByPhone (normalizePhone p)) (h\<lparr>clk_pos := n\<rparr>) =
      (Ok (phone_account (normalizePhone p) h), h\<lparr>clk_pos := n\<rparr>)"
    by (simp add: internal_def on_err_def UserByPhone_def phone_account_def)
  show ?thesis
  proof (cases "phone_account (normalizePhone p) h")
    case None
    with check byPhone assms(1) show ?thesis
      by (auto simp: authSignIn_def requireDB_def bnd_def Let_def split: option.split)
  next
    case (Some u)
    obtain t m where "bnd (internal (bindCaller c (usr_ID u))) (\<lambda>_. bnd (tgUser u True) (\<lambda>t. ret (Authorization t)))
        (h\<lparr>clk_pos := n\<rparr>) = (Ok (Authorization t), h\<lparr>sessions := mput k (usr_ID u) (sessions h), clk_pos := m\<rparr>)"
      "tu_ID t = usr_ID u"
      using login_reply_run [of "h\<lparr>clk_pos := n\<rparr>" c k u] assms by (auto simp: caller_of_bound(2))
    with check byPhone assms(1) Some show ?thesis
      by (auto simp: authSignIn_def requireDB_def bnd_def Let_def split: option.split)
  qed
qed

lemma authSendCode_run:
  assumes "hasDB h"
  shows "authSendCode c p h = (Ok \<lparr>sc_Length = int (length (phoneCode (normalizePhone p))),
       sc_PhoneCodeHash = hex (map (\<lambda>i. rnd h (rnd_pos h + i)) [0..<16]), sc_Timeout = 600\<rparr>,
     h\<lparr>rnd_pos := rnd_pos h + 16, clk_pos := Suc (clk_pos h),
       phoneCodes := mput (phoneCodeKey (normalizePhone p) (hex (map (\<lambda>i. rnd h (rnd_pos h + i)) [0..<16])))
         \<lparr>pc_code = phoneCode (normalizePhone p), pc_expiresAt = clk h (clk_pos h) + seconds 600\<rparr> (phoneCodes h)\<rparr>)"
  using assms by (simp add: authSendCode_def requireDB_def bnd_def rand_read_def internal_def on_err_def
      SavePhoneCode_def now_def codeTTL_def Let_def)

lemma sent_code_live:
  assumes "hasDB h" "authSendCode c p h = (Ok sc, h1)" "normalizePhone p' = normalizePhone p"
    "phoneCodes h2 = phoneCodes h1"
  shows "live_code (normalizePhone p') (sc_PhoneCodeHash sc) h2 =
    (if clk h2 (clk_pos h2) < clk h (clk_pos h) + seconds 600 then Some (phoneCode (normalizePhone p)) else None)"
  using assms(2-4) unfolding authSendCode_run [OF assms(1)] by (auto simp: live_code_def)


text \<open>C23: A phone number without digits names every account that has no phone number, bots and
  BotFather among them: whoever asks for a code for it and signs in with the fixed code
  \<^verbatim>\<open>12345\<close> speaks for one of these accounts.\<close>

theorem digitless_phone_login:
  assumes "server_reachable h" "is_account h b" "usr_Phone b = []" "filter is_digit p = []"
    and "callerKeyID c = Some k" "map_of (tempKeys h) k = None"
    and "clk h (Suc (clk_pos h)) < clk h (clk_pos h) + seconds 600"
  shows "\<exists>sc h1 t h2 u. authSendCode c p h = (Ok sc, h1) \<and>
    authSignIn c p (sc_PhoneCodeHash sc) ''12345'' h1 = (Ok (Authorization t), h2) \<and>
    is_account h u \<and> usr_Phone u = [] \<and> tu_ID t = usr_ID u \<and> caller_of c h2 = Some (usr_ID u)"
proof -
  note sane = sane_reachable [OF assms(1)]
  then have db: "hasDB h"
    by (simp add: sane_def)
  have p: "normalizePhone p = []"
    using assms(4) by (simp add: normalizePhone_def)
  then have code: "phoneCode (normalizePhone p) = ''12345''"
    by (simp add: phoneCode_def testPhone_def devPhoneCode_def)
  obtain mb where "mb \<in> set (mvals (users h))" "mu_u mb = b"
    using assms(2) by (force simp: is_account_def dest: map_of_SomeD)
  with assms(3) have "find (\<lambda>mu. usr_Phone (mu_u mu) = []) (mvals (users h)) \<noteq> None"
    by (auto simp: find_None_iff)
  then obtain u where u: "phone_account [] h = Some u"
    by (auto simp: phone_account_def)
  obtain sc h1 where send: "authSendCode c p h = (Ok sc, h1)"
    and h1: "hasDB h1" "tempKeys h1 = tempKeys h" "users h1 = users h" "clk h1 = clk h" "clk_pos h1 = Suc (clk_pos h)"
    using authSendCode_run [OF db, of c p] db by simp
  have live: "live_code [] (sc_PhoneCodeHash sc) h1 = Some ''12345''"
    using sent_code_live [OF db send refl refl] h1 assms(7) code p by simp
  moreover have "phone_account [] h1 = Some u"
    using u h1 by (simp add: phone_account_def)
  moreover have key: "map_of (tempKeys h1) k = None"
    using assms(6) h1 by simp
  ultimately obtain t n h2 where "authSignIn c p (sc_PhoneCodeHash sc) ''12345'' h1 = (Ok (Authorization t), h2)"
      "h2 = h1\<lparr>sessions := mput k (usr_ID u) (sessions h1), clk_pos := n\<rparr>" "tu_ID t = usr_ID u"
    using authSignIn_run [OF h1(1) assms(5) key, of p "sc_PhoneCodeHash sc" "''12345''"] p by auto
  then show ?thesis
    using send phone_account_found [OF sane u] h1 key assms(5)
    by - (rule exI [of _ sc], rule exI [of _ h1], rule exI [of _ t], rule exI [of _ h2],
      rule exI [of _ u], simp add: is_account_def caller_of_bound)
qed

section \<open>Signing up\<close>

lemma signUp_fresh:
  assumes "db_inv h" "userSeq h + 1 < BotFatherID"
  shows "map_of (users h) (userSeq h + 1) = None"
proof (rule ccontr)
  assume "map_of (users h) (userSeq h + 1) \<noteq> None"
  then have "userSeq h + 1 \<le> userSeq h \<or> userSeq h + 1 = BotFatherID"
    using assms(1) by (fastforce simp: db_inv_def users_ok_def)
  with assms(2) show False
    by simp
qed

lemma mailbox_nobody:
  assumes "db_inv d" "map_of (users d) u = None"
  shows "mailbox u q d = []"
proof -
  have "False" if "r \<in> set (mvals (getd (refs d) u))" for r
    using ref_of_val(3,4) [OF assms(1) that] assms(2) by (simp add: last_of_def)
  then show ?thesis
    using mailbox_in [of _ u q d] by (metis last_in_set)
qed

lemma phoneTaken_account: "phoneTaken phone h \<Longrightarrow> phone_account phone h \<noteq> None"
  by (auto simp: phoneTaken_def phone_account_def list_ex_iff find_None_iff)

lemma authSignUp_run:
  assumes "hasDB h" "callerKeyID c = Some k" "map_of (tempKeys h) k = None"
    and "live_code (normalizePhone p) codeHash h = Some (phoneCode (normalizePhone p))"
    and "phone_account (normalizePhone p) h = None"
  shows "\<exists>t n m u. usr_ID u = userSeq h + 1 \<and> usr_Phone u = normalizePhone p \<and> usr_FirstName u = fn \<and>
     usr_LastName u = ln \<and> \<not> usr_IsBot u \<and>
     authSignUp c p codeHash fn ln h = (Ok (Authorization t), h\<lparr>userSeq := userSeq h + 1, rnd_pos := m,
       users := mput (userSeq h + 1) (newMemUser u 0) (users h),
       sessions := mput k (userSeq h + 1) (sessions h), clk_pos := n\<rparr>) \<and> tu_ID t = userSeq h + 1"
proof -
  obtain n where check: "checkCode (normalizePhone p) codeHash (phoneCode (normalizePhone p)) h = (Ok (), h\<lparr>clk_pos := n\<rparr>)"
    using checkCode_run [of "normalizePhone p" codeHash "phoneCode (normalizePhone p)" h] assms(4) by auto
  define u where "u = zero_user\<lparr>usr_ID := userSeq h + 1, usr_AccessHash := drawnHash h,
       usr_Phone := normalizePhone p, usr_FirstName := fn, usr_LastName := ln, usr_CreatedAt := clk h n\<rparr>"
  define h2 where "h2 = h\<lparr>userSeq := userSeq h + 1, rnd_pos := rnd_pos h + 8, clk_pos := Suc n,
       users := mput (userSeq h + 1) (newMemUser u 0) (users h)\<rparr>"
  have "\<not> phoneTaken (normalizePhone p) h"
    using assms(5) phoneTaken_account by blast
  then have create: "CreateUser (normalizePhone p) fn ln (h\<lparr>clk_pos := n\<rparr>) = (Ok u, h2)"
    by (simp add: CreateUser_run Let_def u_def h2_def phoneTaken_def)
  obtain t m where "bnd (internal (bindCaller c (usr_ID u))) (\<lambda>_. bnd (tgUser u True) (\<lambda>t. ret (Authorization t))) h2 =
      (Ok (Authorization t), h2\<lparr>sessions := mput k (usr_ID u) (sessions h), clk_pos := m\<rparr>)" "tu_ID t = usr_ID u"
    using login_reply_run [of h2 c k u] assms(1-3) by (auto simp: caller_of_bound(2) h2_def)
  moreover have "internal (UserByPhone (normalizePhone p)) (h\<lparr>clk_pos := n\<rparr>) = (Ok None, h\<lparr>clk_pos := n\<rparr>)"
    using assms(5) by (simp add: internal_def on_err_def UserByPhone_def phone_account_def)
  moreover have "internal (CreateUser (normalizePhone p) fn ln) (h\<lparr>clk_pos := n\<rparr>) = (Ok u, h2)"
    using create by (simp add: internal_Ok)
  ultimately have "authSignUp c p codeHash fn ln h =
      (Ok (Authorization t), h2\<lparr>sessions := mput k (usr_ID u) (sessions h), clk_pos := m\<rparr>)" "tu_ID t = usr_ID u"
    using check assms(1) by (simp_all add: authSignUp_def requireDB_def bnd_def Let_def internal_def on_err_def)
  then show ?thesis
    by - (rule exI [of _ t], rule exI [of _ m], rule exI [of _ "rnd_pos h + 8"], rule exI [of _ u],
      simp add: u_def h2_def zero_user_def)
qed

text \<open>C24: Signing up with a live code and a number no account has creates one new account with the
  given names and that number, bound to the session's key and without history; no existing
  account, history or session of another key changes.\<close>

theorem sign_up:
  assumes "server_reachable h" "userSeq h + 1 < BotFatherID"
    and "callerKeyID c = Some k" "map_of (tempKeys h) k = None"
    and "live_code (normalizePhone p) codeHash h = Some (phoneCode (normalizePhone p))"
    and "phone_account (normalizePhone p) h = None"
  shows "\<exists>t h' u. authSignUp c p codeHash fn ln h = (Ok (Authorization t), h') \<and> tu_ID t = usr_ID u \<and>
    is_account h' u \<and> usr_Phone u = normalizePhone p \<and> usr_FirstName u = fn \<and> usr_LastName u = ln \<and>
    \<not> usr_IsBot u \<and> caller_of c h' = Some (usr_ID u) \<and> map_of (users h) (usr_ID u) = None \<and>
    (\<forall>i. i \<noteq> usr_ID u \<longrightarrow> map_of (users h') i = map_of (users h) i) \<and>
    (\<forall>v q. mailbox v q h' = mailbox v q h) \<and> mailbox (usr_ID u) q h' = [] \<and>
    (\<forall>k'. k' \<noteq> k \<longrightarrow> map_of (sessions h') k' = map_of (sessions h) k')"
proof -
  have db: "hasDB h" "db_inv h"
    using sane_reachable [OF assms(1)] db_ok_server [OF assms(1)] assms(2) by (simp_all add: sane_def db_ok_def)
  obtain t n m u where u: "usr_ID u = userSeq h + 1" "usr_Phone u = normalizePhone p" "usr_FirstName u = fn"
      "usr_LastName u = ln" "\<not> usr_IsBot u"
    and run: "authSignUp c p codeHash fn ln h = (Ok (Authorization t), h\<lparr>userSeq := userSeq h + 1, rnd_pos := m,
       users := mput (userSeq h + 1) (newMemUser u 0) (users h),
       sessions := mput k (userSeq h + 1) (sessions h), clk_pos := n\<rparr>)" "tu_ID t = userSeq h + 1"
    using authSignUp_run [OF db(1) assms(3-6), where fn = fn and ln = ln] by blast
  define h' where "h' = h\<lparr>userSeq := userSeq h + 1, rnd_pos := m,
       users := mput (userSeq h + 1) (newMemUser u 0) (users h),
       sessions := mput k (userSeq h + 1) (sessions h), clk_pos := n\<rparr>"
  have same: "mailbox v q h' = mailbox v q h" for v q
    by (rule mailbox_cong) (simp_all add: h'_def)
  have none: "map_of (users h) (userSeq h + 1) = None"
    by (rule signUp_fresh [OF db(2) assms(2)])
  have "mailbox (userSeq h + 1) q h = []"
    by (rule mailbox_nobody [OF db(2) none])
  then show ?thesis
    using run same none u assms(3,4) unfolding h'_def [symmetric]
    by - (rule exI [of _ t], rule exI [of _ h'], rule exI [of _ u],
      simp add: h'_def is_account_def newMemUser_def caller_of_bound)
qed

section \<open>Logging out\<close>

text \<open>The request of a logged-in session registers it for pushes, and nothing else.\<close>

lemma trackCaller_some:
  assumes "hasDB h" "map_of (tempKeys h) (ses_KeyID s) = None" "map_of (sessions h) (ses_KeyID s) = Some uid"
  shows "trackCaller s h = (Ok (), h\<lparr>reg_m := mput uid (mput (ses_ID s) s (getd (reg_m h) uid)) (reg_m h),
    reg_lastSeen := mput uid (clk h (clk_pos h)) (reg_lastSeen h), clk_pos := Suc (clk_pos h)\<rparr>)"
  using assms by (simp add: trackCaller_def on_err_def effectiveKeyID_def PermAuthKey_def SessionUserID_def
      track_def bnd_def now_def)

lemma authLogOut_run:
  assumes "hasDB h" "callerKeyID c = Some k" "map_of (tempKeys h) k = None"
  shows "authLogOut c h = (Ok (), h\<lparr>sessions := mdel k (sessions h)\<rparr>)"
  using assms by (simp add: authLogOut_def on_err_def effectiveKeyID_def PermAuthKey_def Unbind_def
      internal_def bnd_def)

text \<open>C25: Logging out unbinds the session's key and no other: every later request of the session
  that needs an account is refused with 401 and changes nothing. The session itself stays
  registered for the pushes of the account it left.\<close>

theorem log_out:
  assumes "server_reachable h" "map_of (tempKeys h) (ses_KeyID s) = None"
    and "map_of (sessions h) (ses_KeyID s) = Some uid"
  shows "\<exists>h'. serve s ReqAuthLogOut h = (Ok ReplyLoggedOut, h') \<and> s \<in> set (reg_get uid h') \<and>
    (\<forall>k. map_of (sessions h') k = (if k = ses_KeyID s then None else map_of (sessions h) k)) \<and>
    (\<forall>r. account_request r \<longrightarrow>
      (\<exists>n. serve s r h' = (Err (RpcError 401 ''AUTH_KEY_UNREGISTERED''), h'\<lparr>clk_pos := n\<rparr>)))"
proof -
  define h1 where "h1 = h\<lparr>reg_m := mput uid (mput (ses_ID s) s (getd (reg_m h) uid)) (reg_m h),
    reg_lastSeen := mput uid (clk h (clk_pos h)) (reg_lastSeen h), clk_pos := Suc (clk_pos h)\<rparr>"
  define h' where "h' = h1\<lparr>sessions := mdel (ses_KeyID s) (sessions h1)\<rparr>"
  have db: "hasDB h"
    using sane_reachable [OF assms(1)] by (simp add: sane_def)
  then have run: "serve s ReqAuthLogOut h = (Ok ReplyLoggedOut, h')"
    using trackCaller_some [OF db assms(2,3)] authLogOut_run [of h1 "request_ctx s" "ses_KeyID s"] assms(2)
    by (simp add: serve_def OnMessage_def reply_with_def bnd_def callerKeyID_def request_ctx_def h1_def h'_def)
  have "sane {} h'"
    using givesD [OF gives_serve sane_reachable [OF assms(1)] run] by simp
  moreover have "no_account s h'"
    using assms(2) by (simp add: no_account_def h'_def h1_def)
  ultimately have "\<exists>n. serve s r h' = (Err (RpcError 401 ''AUTH_KEY_UNREGISTERED''), h'\<lparr>clk_pos := n\<rparr>)"
    if "account_request r" for r
    using serve_refused that by blast
  moreover have "s \<in> set (reg_get uid h')"
  proof -
    have "(ses_ID s, s) \<in> set (mput (ses_ID s) s (getd (reg_m h) uid))"
      by (rule map_of_SomeD) simp
    then show ?thesis
      by (force simp: reg_get_def h'_def h1_def)
  qed
  ultimately show ?thesis
    using run by - (rule exI [of _ h'], simp add: h'_def h1_def)
qed

section \<open>Temporary keys\<close>


end
