(* ===== verification/RpcSamples.thy ===== *)
theory RpcSamples imports ServerSamples RpcLogin begin

text \<open>The properties of the handlers at concrete inputs, on the states of the sample execution.\<close>

section \<open>Logging in and out\<close>

theorem no_account_refused_witness:
  "\<exists>n. serve stranger (ReqMessagesSendMessage to_ann ''spam'' 1) sample_chat =
     (Err (RpcError 401 ''AUTH_KEY_UNREGISTERED''), sample_chat\<lparr>clk_pos := n\<rparr>)"
  by (rule no_account_refused [OF sample_chat_reachable]) (simp_all add: no_account_def stranger_def)

lemma sample_code_sent:
  "\<exists>sc h1. authSendCode (request_ctx stranger) p sample_chat = (Ok sc, h1) \<and> server_reachable h1 \<and>
     tempKeys h1 = [] \<and> users h1 = users sample_chat \<and> userSeq h1 = 2 \<and> clk h1 = int \<and> clk_pos h1 = 33"
proof -
  define r where "r = authSendCode (request_ctx stranger) p sample_chat"
  have "trackCaller stranger sample_chat = (Ok (), sample_chat)"
    by (simp add: trackCaller_def on_err_def effectiveKeyID_def PermAuthKey_def SessionUserID_def stranger_def bnd_def)
  moreover have "r = (Ok (the_elem {x. Ok x = fst r}), snd r)"
    unfolding r_def by (simp add: authSendCode_run)
  ultimately have "snd (serve stranger (ReqAuthSendCode p) sample_chat) = snd r"
    by (simp add: serve_def OnMessage_def reply_with_def bnd_def r_def authSendCode_run)
  moreover have "server_reachable (snd (serve stranger (ReqAuthSendCode p) sample_chat))"
    by (rule server_reachable_serve [OF sample_chat_reachable]) simp
  ultimately show ?thesis
    by (simp add: r_def authSendCode_run)
qed


theorem digitless_phone_login_witness:
  "\<exists>sc h1 t h2. authSendCode (request_ctx stranger) ''+'' sample_chat = (Ok sc, h1) \<and>
     authSignIn (request_ctx stranger) ''+'' (sc_PhoneCodeHash sc) ''12345'' h1 = (Ok (Authorization t), h2) \<and>
     caller_of (request_ctx stranger) h2 = Some BotFatherID"
proof -
  have "is_account sample_chat bot_father" "callerKeyID (request_ctx stranger) = Some ''K9''"
    by (simp_all add: is_account_def callerKeyID_def request_ctx_def stranger_def)
  from digitless_phone_login [OF sample_chat_reachable this(1) _ _ this(2), of "''+''"]
  obtain sc h1 t h2 u where run: "authSendCode (request_ctx stranger) ''+'' sample_chat = (Ok sc, h1)"
    "authSignIn (request_ctx stranger) ''+'' (sc_PhoneCodeHash sc) ''12345'' h1 = (Ok (Authorization t), h2)"
    and u: "is_account sample_chat u" "usr_Phone u = []" "caller_of (request_ctx stranger) h2 = Some (usr_ID u)"
    by (auto simp: is_digit_def seconds_def)
  have "usr_ID u = BotFatherID"
    using u(1,2) by (auto simp: is_account_def split: if_splits)
  with run u(3) show ?thesis
    by auto
qed

theorem sign_up_witness:
  "\<exists>sc h1 t h' u. authSendCode (request_ctx stranger) ''300'' sample_chat = (Ok sc, h1) \<and>
    authSignUp (request_ctx stranger) ''300'' (sc_PhoneCodeHash sc) ''Cid'' [] h1 = (Ok (Authorization t), h') \<and>
    is_account h' u \<and> usr_Phone u = ''300'' \<and> caller_of (request_ctx stranger) h' = Some (usr_ID u)"
proof -
  obtain sc h1 where send: "authSendCode (request_ctx stranger) ''300'' sample_chat = (Ok sc, h1)"
    and h1: "server_reachable h1" "tempKeys h1 = []" "users h1 = users sample_chat" "userSeq h1 = 2"
      "clk h1 = int" "clk_pos h1 = 33"
    using sample_code_sent by blast
  have p: "normalizePhone ''300'' = ''300''"
    by (simp add: normalizePhone_def is_digit_def)
  have seq: "userSeq h1 + 1 < BotFatherID"
    by (simp add: h1 BotFatherID_def)
  have key: "callerKeyID (request_ctx stranger) = Some ''K9''" "map_of (tempKeys h1) ''K9'' = None"
    by (simp_all add: callerKeyID_def request_ctx_def stranger_def h1)
  have live: "live_code (normalizePhone ''300'') (sc_PhoneCodeHash sc) h1 = Some (phoneCode (normalizePhone ''300''))"
    using sent_code_live [OF sample_chat_sel(8) send refl refl] h1 by (simp add: seconds_def)
  have none: "phone_account (normalizePhone ''300'') h1 = None"
    by (simp add: phone_account_def h1 p)
  obtain t h' u where "authSignUp (request_ctx stranger) ''300'' (sc_PhoneCodeHash sc) ''Cid'' [] h1 = (Ok (Authorization t), h')"
    "is_account h' u" "usr_Phone u = normalizePhone ''300''" "caller_of (request_ctx stranger) h' = Some (usr_ID u)"
    using sign_up [OF h1(1) seq key live none, where fn = "''Cid''" and ln = "[]" and q = 0]
    by (elim exE conjE) (rule that; assumption)
  with send p show ?thesis
    by - (rule exI [of _ sc], rule exI [of _ h1], rule exI [of _ t], rule exI [of _ h'], rule exI [of _ u], simp)
qed

theorem log_out_witness:
  "\<exists>h'. serve bob1 ReqAuthLogOut sample_chat = (Ok ReplyLoggedOut, h') \<and> bob1 \<in> set (reg_get 2 h') \<and>
    map_of (sessions h') ''K1'' = Some 1"
  using log_out [OF sample_chat_reachable, of bob1 2] by (auto simp: bob1_def)


end
