(* ===== verification/RpcBotFather.thy ===== *)
theory RpcBotFather imports RpcLogin begin

text \<open>
  Conversations with BotFather: the rules for names, the step that creates a bot, and the
  revocation of a token.
\<close>

section \<open>Bot user names\<close>

lemma name_char_ascii: "is_name_char c \<Longrightarrow> is_ascii c"
  by (auto simp: is_name_char_def is_letter_def is_lower_def is_upper_def is_digit_def is_ascii_def)

lemma bot_usernames_iff:
  "validBotUsername uc u = None \<longleftrightarrow> usernameRe u \<and> suffix ''bot'' (map ascii_lower u)"
proof (cases u)
  case Nil
  then show ?thesis
    by (simp add: validBotUsername_def usernameRe_def)
next
  case (Cons c s)
  have "ToLower uc u = map ascii_lower u" if "list_all is_name_char u"
    using that by (auto simp: ToLower_def list_all_iff name_char_ascii)
  moreover have "is_letter c \<Longrightarrow> is_name_char c"
    by (simp add: is_name_char_def)
  ultimately show ?thesis
    using Cons by (auto simp: validBotUsername_def usernameRe_def)
qed

text \<open>A name BotFather accepts for a bot is a user name any account may take (the regular
  expression of the account methods) that ends in bot, in any case; what the Unicode
  tables say about other letters is irrelevant, since such names are refused first.\<close>

theorem bot_usernames:
  "validBotUsername uc u = None \<longleftrightarrow> usernameRe u \<and> suffix ''bot'' (map ascii_lower u)"
  by (rule bot_usernames_iff)

section \<open>Creating a bot\<close>

lemma botTokenSecret_run:
  "\<exists>secret. botTokenSecret h = (Ok secret, h\<lparr>rnd_pos := rnd_pos h + 26\<rparr>) \<and> length secret = 35 \<and>
     set secret \<subseteq> set b64_alphabet"
  using base64_chars by (simp add: botTokenSecret_def base64_length)

lemma find_only:
  assumes "x \<in> set xs" "P x" "\<And>y. y \<in> set xs \<Longrightarrow> P y \<Longrightarrow> y = x"
  shows "find P xs = Some x"
proof -
  have "find P xs \<noteq> None"
    using assms(1,2) by (auto simp: find_None_iff)
  then obtain y where y: "find P xs = Some y"
    by blast
  then have "y \<in> set xs" "P y"
    by (auto simp: find_Some_iff)
  with assms(3) y show ?thesis
    by blast
qed

text \<open>The values of the account map are the accounts.\<close>

lemma sane_accounts:
  assumes "sane A (h :: 'z server_scheme)"
  shows "mu_u ` set (mvals (users h)) = Collect (is_account h)"
proof -
  have wf: "mwf (users h)"
    using assms by (simp add: sane_def)
  have "mu_u ` set (mvals (users h)) = {mu_u mu |mu. \<exists>i. map_of (users h) i = Some mu}"
    using mvals_map_of [OF wf] by blast
  also have "\<dots> = Collect (is_account h)"
  proof (intro set_eqI iffI)
    fix a
    assume "a \<in> {mu_u mu |mu. \<exists>i. map_of (users h) i = Some mu}"
    then obtain mu i where "a = mu_u mu" "map_of (users h) i = Some mu"
      by blast
    with sane_user_id [OF assms this(2)] show "a \<in> Collect (is_account h)"
      by (simp add: is_account_def)
  qed (auto simp: is_account_def)
  finally show ?thesis .
qed

lemma username_free_find:
  assumes "sane A (h :: 'z server_scheme)"
  shows "find (\<lambda>mu. usr_Username (mu_u mu) = username) (mvals (users h)) = None \<longleftrightarrow>
    (\<forall>a. is_account h a \<longrightarrow> usr_Username a \<noteq> username)"
proof -
  have "(\<forall>mu \<in> set (mvals (users h)). usr_Username (mu_u mu) \<noteq> username) \<longleftrightarrow>
      (\<forall>a \<in> mu_u ` set (mvals (users h)). usr_Username a \<noteq> username)"
    by simp
  then show ?thesis
    unfolding sane_accounts [OF assms] by (auto simp: find_None_iff)
qed

text \<open>A bot whose token no other account has logs in with it.\<close>

lemma bot_login_run:
  assumes "hasDB h" "callerKeyID c = Some k" "map_of (tempKeys h) k = None"
    and "token = FormatInt i @ '':'' @ secret" "secret \<noteq> []"
    and "find (\<lambda>mu. usr_IsBot (mu_u mu) \<and> usr_BotToken (mu_u mu) = token) (mvals (users h)) = Some mb"
  shows "\<exists>t h'. authImportBotAuthorization c token h = (Ok (Authorization t), h') \<and>
    tu_ID t = usr_ID (mu_u mb) \<and> caller_of c h' = Some (usr_ID (mu_u mb))"
proof -
  have "Cut (CHR '':'') token = Some (FormatInt i, secret)"
    using FormatInt_no_colon [of i] by (simp add: assms(4) Cut_Some)
  moreover have "internal (BotByToken token) h = (Ok (Some (mu_u mb)), h)"
    using assms(6) by (simp add: internal_Ok BotByToken_def)
  moreover obtain t n where
    "bnd (internal (bindCaller c (usr_ID (mu_u mb)))) (\<lambda>_. bnd (tgUser (mu_u mb) True) (\<lambda>t. ret (Authorization t))) h =
      (Ok (Authorization t), h\<lparr>sessions := mput k (usr_ID (mu_u mb)) (sessions h), clk_pos := n\<rparr>)"
    "tu_ID t = usr_ID (mu_u mb)"
    using login_reply_run [OF assms(1,2), of "mu_u mb"] caller_of_bound(2) [OF assms(2,3)] by auto
  ultimately show ?thesis
    using assms(1-3,5) by (simp add: authImportBotAuthorization_def requireDB_def bnd_def caller_of_bound)
qed

text \<open>The step of the conversation that names the bot, when the name is valid and free.\<close>

lemma botFatherCreate_run:
  assumes "validBotUsername (uc_lower h) username = None" "TrimPrefix txt ''@'' = username"
    and "find (\<lambda>mu. usr_Username (mu_u mu) = username) (mvals (users (h :: 'z server_scheme))) = None"
  obtains b secret n m where "length secret = 35" "set secret \<subseteq> set b64_alphabet"
    "usr_ID b = userSeq h + 1" "usr_Username b = username" "usr_FirstName b = name" "usr_IsBot b"
    "usr_BotToken b = FormatInt (userSeq h + 1) @ '':'' @ secret"
    "botFatherCreate u name txt h = (Ok [bfDone username (usr_BotToken b)], h\<lparr>userSeq := userSeq h + 1,
       users := mput (userSeq h + 1) (newMemUser b (usr_ID u)) (users h), rnd_pos := m, clk_pos := n,
       botStates := mdel (usr_ID u) (botStates h)\<rparr>)"
proof -
  obtain secret where secret: "botTokenSecret h = (Ok secret, h\<lparr>rnd_pos := rnd_pos h + 26\<rparr>)" "length secret = 35"
    "set secret \<subseteq> set b64_alphabet"
    using botTokenSecret_run by blast
  have "\<not> usernameTaken username (h\<lparr>rnd_pos := rnd_pos h + 26\<rparr>)"
    using assms(3) by (auto simp: usernameTaken_def list_ex_iff find_None_iff)
  then obtain b hash where b: "b = zero_user\<lparr>usr_ID := userSeq h + 1, usr_AccessHash := hash,
       usr_Username := username, usr_FirstName := name, usr_IsBot := True,
       usr_BotToken := FormatInt (userSeq h + 1) @ '':'' @ secret, usr_CreatedAt := clk h (clk_pos h)\<rparr>"
    "CreateOwnedBot username name (usr_ID u) secret (h\<lparr>rnd_pos := rnd_pos h + 26\<rparr>) =
      (Ok b, h\<lparr>userSeq := userSeq h + 1, rnd_pos := rnd_pos h + 26 + 8, clk_pos := Suc (clk_pos h),
       users := mput (userSeq h + 1) (newMemUser b (usr_ID u)) (users h)\<rparr>)"
    unfolding CreateOwnedBot_run Let_def by simp
  then show thesis
    using secret assms
    by (intro that [of secret b "Suc (clk_pos h)" "rnd_pos h + 26 + 8"])
      (simp_all add: botFatherCreate_def UserByUsername_def bnd_def ClearBotFatherState_def zero_user_def Let_def)
qed

lemma new_bot_login:
  assumes h: "sane A (h :: 'z server_scheme)" and new: "map_of (users h) i = None"
    and b: "usr_IsBot b" "usr_BotToken b = FormatInt (usr_ID b) @ '':'' @ secret" "secret \<noteq> []"
    and h': "users h' = mput i (newMemUser b ow) (users h)" "hasDB h' = hasDB h" "tempKeys h' = tempKeys h"
    and c: "callerKeyID c = Some k" "map_of (tempKeys h) k = None"
    and only: "\<forall>a. is_account h a \<longrightarrow> usr_BotToken a \<noteq> usr_BotToken b"
  shows "\<exists>t h2. authImportBotAuthorization c (usr_BotToken b) h' = (Ok (Authorization t), h2) \<and>
    tu_ID t = usr_ID b \<and> caller_of c h2 = Some (usr_ID b)"
proof -
  have "usr_BotToken (mu_u mu) \<noteq> usr_BotToken b" if "mu \<in> set (mvals (users h))" for mu
    using only sane_accounts [OF h] that by blast
  then have "find (\<lambda>mu. usr_IsBot (mu_u mu) \<and> usr_BotToken (mu_u mu) = usr_BotToken b) (mvals (users h')) =
      Some (newMemUser b ow)"
    using b(1) new by (intro find_only) (auto simp: h' mput_notin newMemUser_def)
  moreover have "hasDB h'" "map_of (tempKeys h') k = None"
    using c(2) h by (simp_all add: h' sane_def)
  ultimately show ?thesis
    using bot_login_run [of h' c k "usr_BotToken b" "usr_ID b" secret "newMemUser b ow"] c(1) b(2,3)
    by (simp add: newMemUser_def)
qed

text \<open>C29: The last step of creating a bot. When the owner has given the bot a name and then sends a
  valid user name that no account has, BotFather answers with a token of the form
  \<^verbatim>\<open>id:secret\<close>, the secret 35 characters of the URL-safe alphabet. There is one new account,
  a bot with these names, owned by the sender; the conversation is over; nobody else's
  account changes; and, unless another bot happens to have the same token, whoever imports the
  token speaks for the new bot. A taken name or an invalid one is refused, the conversation
  stays where it is, and nothing is created.\<close>

theorem bot_created:
  assumes "server_reachable h" "userSeq h + 1 < BotFatherID"
    and "map_of (botStates h) (usr_ID u) = Some \<lparr>bf_Step = BotFatherStepNewBotUsername, bf_DraftName = name\<rparr>"
    and "\<not> prefix ''/'' (TrimSpace txt)" "username = TrimPrefix (TrimSpace txt) ''@''"
  shows "if \<not> usernameRe username \<or> \<not> suffix ''bot'' (map ascii_lower username)
    then botFatherEngine u txt h = (Ok [bfBadUsername], h)
    else if \<exists>a. is_account h a \<and> usr_Username a = username
    then botFatherEngine u txt h = (Ok [bfTaken], h)
    else \<exists>b secret h'. botFatherEngine u txt h = (Ok [bfDone username (usr_BotToken b)], h') \<and>
      is_account h' b \<and> map_of (users h) (usr_ID b) = None \<and> usr_IsBot b \<and> usr_Username b = username \<and>
      usr_FirstName b = name \<and> usr_BotToken b = FormatInt (usr_ID b) @ '':'' @ secret \<and> length secret = 35 \<and>
      set secret \<subseteq> set b64_alphabet \<and> (\<exists>bots. BotsByOwner (usr_ID u) h' = (Ok bots, h') \<and> b \<in> set bots) \<and>
      map_of (botStates h') (usr_ID u) = None \<and>
      (\<forall>i. i \<noteq> usr_ID b \<longrightarrow> map_of (users h') i = map_of (users h) i) \<and>
      (\<forall>c k. callerKeyID c = Some k \<and> map_of (tempKeys h) k = None \<and>
         (\<forall>a. is_account h a \<longrightarrow> usr_BotToken a \<noteq> usr_BotToken b) \<longrightarrow>
         (\<exists>t h2. authImportBotAuthorization c (usr_BotToken b) h' = (Ok (Authorization t), h2) \<and>
            tu_ID t = usr_ID b \<and> caller_of c h2 = Some (usr_ID b)))"
proof -
  note h = sane_reachable [OF assms(1)]
  have run: "botFatherEngine u txt h = botFatherCreate u name (TrimSpace txt) h"
    using assms(3,4) by (simp add: botFatherEngine_def botCommand_def BotFatherState_def Let_def bot_steps)
  note names = bot_usernames_iff [of "uc_lower h" username]
  consider msg where "validBotUsername (uc_lower h) username = Some msg"
    | "validBotUsername (uc_lower h) username = None" "\<exists>a. is_account h a \<and> usr_Username a = username"
    | "validBotUsername (uc_lower h) username = None" "\<not> (\<exists>a. is_account h a \<and> usr_Username a = username)"
    by (cases "validBotUsername (uc_lower h) username") blast+
  then show ?thesis
  proof cases
    case 1
    then have "msg = bfBadUsername"
      by (simp add: validBotUsername_def split: if_splits)
    with 1 have "botFatherEngine u txt h = (Ok [bfBadUsername], h)"
      by (simp add: run botFatherCreate_def Let_def assms(5) [symmetric])
    with 1 names show ?thesis
      by simp
  next
    case 2
    then have "find (\<lambda>mu. usr_Username (mu_u mu) = username) (mvals (users h)) \<noteq> None"
      using username_free_find [OF h, of username] by blast
    with 2 have "botFatherEngine u txt h = (Ok [bfTaken], h)"
      by (simp add: run botFatherCreate_def Let_def UserByUsername_def assms(5) [symmetric])
    with 2 names show ?thesis
      by simp
  next
    case 3
    then have "find (\<lambda>mu. usr_Username (mu_u mu) = username) (mvals (users h)) = None"
      using username_free_find [OF h, of username] by blast
    then obtain b secret n m where b: "length secret = 35" "set secret \<subseteq> set b64_alphabet"
      "usr_ID b = userSeq h + 1" "usr_Username b = username" "usr_FirstName b = name" "usr_IsBot b"
      "usr_BotToken b = FormatInt (userSeq h + 1) @ '':'' @ secret"
      and create: "botFatherCreate u name (TrimSpace txt) h = (Ok [bfDone username (usr_BotToken b)], h\<lparr>userSeq := userSeq h + 1,
        users := mput (userSeq h + 1) (newMemUser b (usr_ID u)) (users h), rnd_pos := m, clk_pos := n,
        botStates := mdel (usr_ID u) (botStates h)\<rparr>)"
      by (rule botFatherCreate_run [OF 3(1) assms(5) [symmetric], where u = u and name = name])
    define h' where "h' = h\<lparr>userSeq := userSeq h + 1,
        users := mput (userSeq h + 1) (newMemUser b (usr_ID u)) (users h), rnd_pos := m, clk_pos := n,
        botStates := mdel (usr_ID u) (botStates h)\<rparr>"
    have new: "map_of (users h) (userSeq h + 1) = None"
      using db_ok_server [OF assms(1)] assms(2) by (intro signUp_fresh) (simp_all add: db_ok_def)
    have token: "usr_BotToken b = FormatInt (usr_ID b) @ '':'' @ secret" "secret \<noteq> []"
      using b by auto
    have login: "\<exists>t h2. authImportBotAuthorization c (usr_BotToken b) h' = (Ok (Authorization t), h2) \<and>
        tu_ID t = usr_ID b \<and> caller_of c h2 = Some (usr_ID b)"
      if "callerKeyID c = Some k \<and> map_of (tempKeys h) k = None \<and>
         (\<forall>a. is_account h a \<longrightarrow> usr_BotToken a \<noteq> usr_BotToken b)" for c k
      using new_bot_login [OF h new b(6) token, of h' "usr_ID u" c k] that by (simp add: h'_def)
    have bots: "\<exists>bots. BotsByOwner (usr_ID u) h' = (Ok bots, h') \<and> b \<in> set bots"
      using new by (simp add: BotsByOwner_def h'_def mput_notin newMemUser_def)
    have no: "(\<not> usernameRe username \<or> \<not> suffix ''bot'' (map ascii_lower username)) = False"
      "(\<exists>a. is_account h a \<and> usr_Username a = username) = False"
      using 3 names by simp_all
    show ?thesis
      unfolding no if_False
    proof (rule exI [of _ b], rule exI [of _ secret], rule exI [of _ h'], intro conjI)
      show "botFatherEngine u txt h = (Ok [bfDone username (usr_BotToken b)], h')"
        using create by (simp only: run h'_def)
      show "is_account h' b" "map_of (botStates h') (usr_ID u) = None" "map_of (users h) (usr_ID b) = None"
        "\<forall>i. i \<noteq> usr_ID b \<longrightarrow> map_of (users h') i = map_of (users h) i"
        using b new by (simp_all add: h'_def is_account_def newMemUser_def)
    qed (use b token login bots in blast)+
  qed
qed

section \<open>Revoking a token\<close>

definition owned_bots :: "int \<Rightarrow> 'z memdb_scheme \<Rightarrow> User list" where
  "owned_bots owner h = sort_key usr_ID (map mu_u (filter (\<lambda>mu. mu_botOwnerID mu = owner) (mvals (users h))))"

lemma owned_bots_account:
  assumes "sane A (h :: 'z server_scheme)" "b \<in> set (owned_bots ow h)"
  shows "\<exists>mu. map_of (users h) (usr_ID b) = Some mu \<and> mu_u mu = b \<and> mu_botOwnerID mu = ow"
proof -
  obtain mu where mu: "mu \<in> set (mvals (users h))" "mu_u mu = b" "mu_botOwnerID mu = ow"
    using assms(2) by (auto simp: owned_bots_def)
  moreover have "mwf (users h)"
    using assms(1) by (simp add: sane_def)
  ultimately obtain i where "map_of (users h) i = Some mu"
    using mvals_map_of by metis
  with sane_user_id [OF assms(1) this] mu show ?thesis
    by auto
qed


end
