(* ===== verification/RpcFiles.thy ===== *)
theory RpcFiles imports RpcDelivery begin

text \<open>Files: an upload that is sent as media can be read back by anyone who was shown it.\<close>

lemma save_content_file:
  assumes "store h = Some o'"
  shows "\<exists>h' f. save_content owner content h = (Ok f, h') \<and> file_ID f = fileSeq h + 1 \<and>
    file_Size f = int (length content) \<and> map_of (files h') (file_ID f) = Some f \<and>
    store h' = Some (o'\<lparr>objs := mput (file_ObjectKey f) content (objs o')\<rparr>) \<and>
    userSeq h' = userSeq h \<and> uc_letter h' = uc_letter h \<and> users h' = users h \<and> staging h' = staging h"
  using assms
  by (simp add: save_content_def internal_def on_err_def withStore_def ObjPut_def SaveFile_def
      genAccessHash_def bnd_def now_def rand_read_def new_file_def Let_def ret_def gets_def modify_def)

text \<open>Reading a range of a file that is there, by any account.\<close>

lemma uploadGetFile_run:
  assumes h: "sane {} h" and c: "caller_of c h \<noteq> None"
    and f: "map_of (files h) (file_ID f) = Some f" "store h = Some o'" "map_of (objs o') (file_ObjectKey f) = Some content"
    and r: "0 \<le> off" "off \<le> int (length content)" "0 \<le> lim" "lim < 2 ^ 31" "int (length content) < 2 ^ 62"
  shows "fst (uploadGetFile c (InputPhotoFileLocation (file_ID f) (file_AccessHash f)) off lim h) =
    Ok (take (nat lim) (drop (nat off) content))"
proof -
  obtain u n where "requireCaller c h = (Ok u, h\<lparr>clk_pos := n\<rparr>)"
    using requireCaller_run [OF h, of c] c by auto
  moreover have "ObjGetRange (file_ObjectKey f) off lim o' = (Ok (take (nat lim) (drop (nat off) content)), o')"
    by (rule ObjGetRange_run [OF f(3)]) (use r in simp_all)
  ultimately show ?thesis
    using f(1,2) by (simp add: uploadGetFile_def bnd_def requireStore_def FileByID_def internal_def on_err_def
        withStore_def)
qed

lemma quiet_media_sent [quiet_rules]:
  "quiet (media_sent c u p txt rid fl sent :: ('z server_scheme, tg_updates) go)"
  unfolding media_sent_def by (intro quiet_rules)

text \<open>The calls of a media message: the upload is taken, stored, recorded and sent.\<close>

lemma messagesSendMedia_calls:
  assumes run: "messagesSendMedia c peer media txt rid (h :: 'z server_scheme) = (Ok ups, h')"
    and h: "sane {} h" and fid: "uploadedFileID media = Some fid"
  obtains caller :: User and p h1 f fl h2 sent h3 where "caller_of c h = Some (usr_ID caller)" "is_account h p"
    "same_db h1 h" "map_of (staging h) (usr_ID caller, fid) = Some f"
    "save_content (usr_ID caller) (assemble f) (h1\<lparr>staging := mdel (usr_ID caller, fid) (staging h)\<rparr>) = (Ok fl, h2)"
    "SendMessage (usr_ID caller) (usr_ID p) txt rid (file_ID fl) h2 = (Ok sent, h3)" "same_db h' h3"
proof -
  obtain caller h1 where c: "is_account h1 caller" "same_db h1 h" "sane {} h1" "caller_of c h = Some (usr_ID caller)"
    and rest: "bnd requireStore (\<lambda>_. bnd (resolvePeerUser caller peer) (\<lambda>peer.
     case uploadedFileID media of None \<Rightarrow> fail (RpcError 400 ''MEDIA_INVALID'') | Some fileID \<Rightarrow>
     bnd (takeStaged (usr_ID caller, fileID)) (\<lambda>staged.
     case staged of None \<Rightarrow> fail (RpcError 400 ''FILE_REFERENCE_EMPTY'') | Some f \<Rightarrow>
     bnd (save_content (usr_ID caller) (assemble f)) (\<lambda>fl.
     bnd (internal (SendMessage (usr_ID caller) (usr_ID peer) txt rid (file_ID fl))) (\<lambda>sent.
     media_sent c caller peer txt rid fl sent))))) h1 = (Ok ups, h')"
    by (rule with_callerE [OF run [unfolded messagesSendMedia_def] h])
  have same: "h2 = h1" if "resolvePeerUser caller peer h1 = (Ok p, h2)" for p h2
    using resolvePeerUser_Ok [OF that c(3,1)] by simp
  obtain p f fl h2 sent h3 where p: "resolvePeerUser caller peer h1 = (Ok p, h1)"
    and calls: "map_of (staging h1) (usr_ID caller, fid) = Some f"
      "save_content (usr_ID caller) (assemble f) (h1\<lparr>staging := mdel (usr_ID caller, fid) (staging h1)\<rparr>) = (Ok fl, h2)"
      "SendMessage (usr_ID caller) (usr_ID p) txt rid (file_ID fl) h2 = (Ok sent, h3)"
    and sent: "media_sent c caller p txt rid fl sent h3 = (Ok ups, h')"
    using rest fid
    by (auto elim!: bnd_OkE simp: requireStore_def takeStaged_def staging_take_def internal_Ok
        split: option.splits dest: same) (use same in blast)
  have "staging h1 = staging h" "same_db h' h3"
    using c(2) quietD [OF quiet_media_sent sent] by (simp_all add: same_db_def)
  moreover have "is_account h p"
    using resolvePeerUser_Ok [OF p c(3,1)] is_account_same [OF c(2)] by simp
  ultimately show thesis
    using calls that [OF c(4) _ c(2)] by simp
qed

text \<open>C27: Media round trip. When sending an upload as media succeeds, the parts staged for it are
  gone, and the message on top of both participants' histories carries a file of exactly
  the assembled length, which every account can read back: each range inside it returns
  the bytes of the assembled upload at that place.\<close>

theorem media_round_trip:
  assumes "server_reachable h" "userSeq h < BotFatherID" "uploadedFileID media = Some fid"
    and run: "messagesSendMedia c peer media txt rid h = (Ok ups, h')"
  shows "\<exists>(caller :: User) p f fl (m :: Message) (m' :: Message). caller_of c h = Some (usr_ID caller) \<and> is_account h p \<and>
    map_of (staging h) (usr_ID caller, fid) = Some f \<and> map_of (staging h') (usr_ID caller, fid) = None \<and>
    m \<in> set (take 1 (mailbox (usr_ID caller) (usr_ID p) h')) \<and> msg_Media m = Some fl \<and> msg_Text m = txt \<and>
    m' \<in> set (take 1 (mailbox (usr_ID p) (usr_ID caller) h')) \<and> msg_Media m' = Some fl \<and> msg_Text m' = txt \<and>
    file_Size fl = int (length (assemble f)) \<and>
    (\<forall>c' off lim. caller_of c' h' \<noteq> None \<and> 0 \<le> off \<and> off \<le> file_Size fl \<and> 0 \<le> lim \<and> lim < 2 ^ 31 \<longrightarrow>
      fst (uploadGetFile c' (InputPhotoFileLocation (file_ID fl) (file_AccessHash fl)) off lim h') =
        Ok (take (nat lim) (drop (nat off) (assemble f))))"
proof -
  have h: "sane {} h" "sane {} h'" "db_ok h"
    using assms(1) sane_reachable db_ok_server givesD [OF gives_media_handlers(3) _ run] by blast+
  obtain caller :: User and p h1 f fl h2 sent h3 where calls: "caller_of c h = Some (usr_ID caller)" "is_account h p"
    "same_db h1 h" "map_of (staging h) (usr_ID caller, fid) = Some f"
    "save_content (usr_ID caller) (assemble f) (h1\<lparr>staging := mdel (usr_ID caller, fid) (staging h)\<rparr>) = (Ok fl, h2)"
    "SendMessage (usr_ID caller) (usr_ID p) txt rid (file_ID fl) h2 = (Ok sent, h3)" "same_db h' h3"
    by (rule messagesSendMedia_calls [OF run h(1) assms(3)])
  obtain o' where o': "store h = Some o'"
    using h(1) unfolding sane_def by blast
  have saved: "file_ID fl = fileSeq h + 1" "file_Size fl = int (length (assemble f))"
    "map_of (files h2) (file_ID fl) = Some fl" "store h2 = Some (o'\<lparr>objs := mput (file_ObjectKey fl) (assemble f) (objs o')\<rparr>)"
    "userSeq h2 = userSeq h" "staging h2 = mdel (usr_ID caller, fid) (staging h)"
    using save_content_file [of "h1\<lparr>staging := mdel (usr_ID caller, fid) (staging h)\<rparr>" o' "usr_ID caller" "assemble f"]
      calls(3,5) o' by (auto simp: same_db_def)
  have "db_ok (h1\<lparr>staging := mdel (usr_ID caller, fid) (staging h)\<rparr>)"
    using h(3) same_db_inv [OF calls(3)] calls(3) by (simp add: db_ok_def db_inv_def same_db_def)
  then have inv: "db_inv h2"
    using keepsD [OF keeps_save_content _ calls(5)] saved(5) assms(2) by (simp add: db_ok_def)
  then have "0 \<le> fileSeq h"
    using h(3) assms(2) by (simp add: db_ok_def db_inv_def files_ok_def)
  then have media: "media_of (file_ID fl) h2 = Some fl"
    using saved(1,3) by (simp add: media_of_def)
  define m m' where "m = sent_copy (usr_ID caller) (usr_ID p) txt rid (Some fl) sent"
    and "m' = received_copy (usr_ID caller) txt rid (Some fl) sent"
  have box: "mailbox u q h' = (if u = usr_ID caller \<and> q = usr_ID p then [m]
      else if u = usr_ID p \<and> q = usr_ID caller then [m'] else []) @ mailbox u q h2" for u q
    using SendMessage_mailbox [OF inv calls(6)] same_db_mailbox [OF calls(7)]
    by (simp add: media m_def m'_def)
  have after: "map_of (files h') (file_ID fl) = Some fl" "staging h' = mdel (usr_ID caller, fid) (staging h)"
    "store h' = Some (o'\<lparr>objs := mput (file_ObjectKey fl) (assemble f) (objs o')\<rparr>)"
    using saved SendMessage_frame [OF calls(6)] calls(7) by (simp_all add: same_db_def)
  have "int (length (assemble f)) < 2 ^ 62"
    by (rule assemble_length [OF sane_staged [OF h(1) calls(4)]])
  then have read: "fst (uploadGetFile c' (InputPhotoFileLocation (file_ID fl) (file_AccessHash fl)) off lim h') =
      Ok (take (nat lim) (drop (nat off) (assemble f)))"
    if "caller_of c' h' \<noteq> None" "0 \<le> off" "off \<le> file_Size fl" "0 \<le> lim" "lim < 2 ^ 31" for c' off lim
    using that uploadGetFile_run [OF h(2) that(1) after(1,3)] saved(2) by simp
  define m1 where "m1 = (if usr_ID p = usr_ID caller then m else m')"
  have "m \<in> set (take 1 (mailbox (usr_ID caller) (usr_ID p) h'))"
    "m1 \<in> set (take 1 (mailbox (usr_ID p) (usr_ID caller) h'))"
    by (simp_all add: box m1_def)
  moreover have "msg_Media m = Some fl" "msg_Text m = txt" "msg_Media m1 = Some fl" "msg_Text m1 = txt"
    by (simp_all add: m1_def m_def m'_def sent_copy_def received_copy_def)
  ultimately show ?thesis
    using calls(1,2,4) after(2) saved(2) read
    by - (rule exI [of _ caller], rule exI [of _ p], rule exI [of _ f], rule exI [of _ fl], rule exI [of _ m],
      rule exI [of _ m1], simp)
qed

end
