(* ===== verification/BotSamples.thy ===== *)
theory BotSamples imports ServerSamples RpcBotFather RpcFiles begin

text \<open>The properties of files and bots at concrete inputs: Bob talks to BotFather and sends a photo.\<close>

section \<open>Bob creates a bot\<close>

definition to_bot_father :: input_peer where "to_bot_father = InputPeerUser BotFatherID 7264819913547"

definition sample_newbot :: server where
  "sample_newbot = serve_all
     [(bob1, ReqMessagesSendMessage to_bot_father ''/newbot'' 9),
      (bob1, ReqMessagesSendMessage to_bot_father ''Zed'' 10)] sample_server"

lemma sample_newbot_reachable: "server_reachable sample_newbot"
  unfolding sample_newbot_def
  by (rule server_reachable_all [OF sample_server_reachable]) simp

definition visible :: "char \<Rightarrow> bool" where
  "visible c \<longleftrightarrow> 33 \<le> (of_char c :: nat) \<and> (of_char c :: nat) < 127"

lemma strip_visible:
  assumes "\<And>w. w \<in> set ws \<Longrightarrow> w = [] \<or> hd w \<noteq> hd s" "s \<noteq> []"
  shows "strip ws s = s"
proof -
  have "find (\<lambda>w. w \<noteq> [] \<and> prefix w s) ws = None"
    using assms by (fastforce simp: find_None_iff neq_Nil_conv prefix_Cons)
  then show ?thesis
    by (subst strip.simps) simp
qed

lemma spaces_invisible: "w \<in> set spaces \<Longrightarrow> \<not> visible (hd w) \<and> \<not> visible (last w)"
  by (auto simp: spaces_def visible_def)

lemma TrimSpace_visible:
  assumes "s \<noteq> []" "visible (hd s)" "visible (last s)"
  shows "TrimSpace s = s"
proof -
  have "strip spaces s = s"
    using assms spaces_invisible by (intro strip_visible) fastforce+
  moreover have "strip (map rev spaces) (rev s) = rev s"
    using assms spaces_invisible by (intro strip_visible) (fastforce simp: hd_rev)+
  ultimately show ?thesis
    by (simp add: TrimSpace_def)
qed

lemma first_field_visible: "list_all visible s \<Longrightarrow> first_field s = s"
proof (induction s)
  case (Cons c s)
  have "\<not> prefix w (c # s)" if "w \<in> set spaces" for w
    using spaces_invisible [OF that] Cons.prems spaces_nonempty that by (cases w) auto
  with Cons show ?case
    by (auto simp: list_ex_iff)
qed simp

declare first_field.simps [simp del]

lemma text_values:
  "TrimSpace ''/newbot'' = ''/newbot''" "TrimSpace ''Zed'' = ''Zed''" "TrimSpace ''zed_bot'' = ''zed_bot''"
  "TrimSpace ''/revoke'' = ''/revoke''"
  by (simp_all add: TrimSpace_visible visible_def)

lemma text_commands:
  "botCommand (\<lambda>s. s) ''/newbot'' = Some ''/newbot''" "botCommand (\<lambda>s. s) ''/revoke'' = Some ''/revoke''"
  "botCommand (\<lambda>s. s) ''Zed'' = None" "botCommand (\<lambda>s. s) ''zed_bot'' = None"
  by (simp_all add: botCommand_def first_field_visible visible_def ToLower_def is_ascii_def ascii_lower_def is_upper_def)

lemma bot_father_newbot:
  assumes "uc_lower h = (\<lambda>s. s)"
  shows "botFatherEngine u ''/newbot'' h =
     (Ok [bfAskName], h\<lparr>botStates := mput (usr_ID u) (zero_bot_state\<lparr>bf_Step := BotFatherStepNewBotName\<rparr>) (botStates h)\<rparr>)"
proof -
  have "botFatherEngine u ''/newbot'' h = botFatherCommand u ''/newbot'' h"
    by (simp only: botFatherEngine_def bnd_def Let_def text_values assms) (simp add: assms text_commands)
  then show ?thesis
    by (simp add: botFatherCommand_def bnd_def SetBotFatherState_def)
qed

lemma bot_father_name:
  assumes "uc_lower h = (\<lambda>s. s)" "map_of (botStates h) (usr_ID u) = Some (zero_bot_state\<lparr>bf_Step := BotFatherStepNewBotName\<rparr>)"
  shows "botFatherEngine u ''Zed'' h =
     (Ok [bfAskUsername], h\<lparr>botStates := mput (usr_ID u) \<lparr>bf_Step = BotFatherStepNewBotUsername, bf_DraftName = ''Zed''\<rparr> (botStates h)\<rparr>)"
proof -
  have "botFatherEngine u ''Zed'' h = botFatherSetName u ''Zed'' h"
    using assms by (simp add: botFatherEngine_def Let_def text_values text_commands BotFatherState_def bnd_def zero_bot_state_def)
  moreover have "validBotName ''Zed''"
    by (simp add: validBotName_def)
  ultimately show ?thesis
    by (simp add: botFatherSetName_def bnd_def SetBotFatherState_def)
qed

text \<open>The account made for \<^verbatim>\<open>@zed_bot\<close>, from the random bytes 64 and following.\<close>

definition zed_token :: string where
  "zed_token = FormatInt 3 @ '':'' @ base64_raw_url (map (\<lambda>i. chr (64 + i)) [0..<26])"

definition zed :: "int \<Rightarrow> User" where
  "zed t = zero_user\<lparr>usr_ID := 3, usr_AccessHash := drawnHash (sample_base\<lparr>rnd_pos := 90\<rparr>),
     usr_Username := ''zed_bot'', usr_FirstName := ''Zed'', usr_IsBot := True, usr_BotToken := zed_token,
     usr_CreatedAt := t\<rparr>"

lemma bot_father_create:
  assumes "uc_lower h = (\<lambda>s. s)" "rnd h = chr" "rnd_pos h = 64" "userSeq h = 2"
    "map_of (botStates h) (usr_ID u) = Some \<lparr>bf_Step = BotFatherStepNewBotUsername, bf_DraftName = ''Zed''\<rparr>"
    "\<not> usernameTaken ''zed_bot'' h"
  shows "botFatherEngine u ''zed_bot'' h = (Ok [bfDone ''zed_bot'' zed_token],
     h\<lparr>userSeq := 3, users := mput 3 (newMemUser (zed (clk h (clk_pos h))) (usr_ID u)) (users h), rnd_pos := 98,
       clk_pos := Suc (clk_pos h), botStates := mdel (usr_ID u) (botStates h)\<rparr>)"
proof -
  have "botFatherEngine u ''zed_bot'' h = botFatherCreate u ''Zed'' ''zed_bot'' h"
    using assms by (simp add: botFatherEngine_def Let_def text_values text_commands BotFatherState_def bnd_def bot_steps)
  moreover have "validBotUsername (\<lambda>s. s) ''zed_bot'' = None" "TrimPrefix ''zed_bot'' ''@'' = ''zed_bot''"
    by (simp_all add: bot_usernames_iff usernameRe_def is_letter_def is_name_char_def is_lower_def is_upper_def
        is_digit_def ascii_lower_def TrimPrefix_def suffix_def)
  moreover have "botTokenSecret h = (Ok (base64_raw_url (map (\<lambda>i. chr (64 + i)) [0..<26])), h\<lparr>rnd_pos := 90\<rparr>)"
    using assms by (simp add: botTokenSecret_def bnd_def rand_read_def del: upt.simps)
  moreover have "find (\<lambda>mu. usr_Username (mu_u mu) = ''zed_bot'') (mvals (users h)) = None"
    using assms(6) by (auto simp: usernameTaken_def list_ex_iff find_None_iff)
  moreover have "\<not> usernameTaken ''zed_bot'' (h\<lparr>rnd_pos := 90\<rparr>)"
    using assms(6) by (simp add: usernameTaken_def)
  moreover have "drawnHash (h\<lparr>rnd_pos := 90\<rparr>) = drawnHash (sample_base\<lparr>rnd_pos := 90\<rparr>)"
    using assms by simp
  ultimately show ?thesis
    using assms by (simp add: botFatherCreate_def bnd_def UserByUsername_def CreateOwnedBot_run Let_def
        ClearBotFatherState_def zed_def zed_token_def zero_user_def del: upt.simps)
qed

lemma bot_father_revoke:
  assumes "uc_lower h = (\<lambda>s. s)" "list_ex (\<lambda>mu. mu_botOwnerID mu = usr_ID u) (mvals (users h))"
  shows "botFatherEngine u ''/revoke'' h =
     (Ok [bfAskRevoke], h\<lparr>botStates := mput (usr_ID u) (zero_bot_state\<lparr>bf_Step := BotFatherStepRevokeSelect\<rparr>) (botStates h)\<rparr>)"
proof -
  have "botFatherEngine u ''/revoke'' h = botFatherCommand u ''/revoke'' h"
    by (simp only: botFatherEngine_def bnd_def Let_def text_values assms) (simp add: assms text_commands)
  moreover have "sort_key f (map mu_u (filter (\<lambda>mu. mu_botOwnerID mu = usr_ID u) (mvals (users h)))) \<noteq> []"
    for f :: "User \<Rightarrow> int"
    using assms(2) by (subst set_empty [symmetric]) (auto simp: list_ex_iff)
  ultimately show ?thesis
    by (simp add: botFatherCommand_def bnd_def SetBotFatherState_def BotsByOwner_def)
qed

lemma bot_father_hash [simp]: "usr_AccessHash bot_father = 7264819913547"
  by (simp add: bot_father_def)

lemmas bot_simps = to_bot_father_def handleBotFather_def bot_father_newbot bot_father_name bot_father_create
  bot_father_revoke botFatherReply_def usernameTaken_def

definition people :: "'z memdb_scheme \<Rightarrow> (User \<times> int) list" where
  "people h = map (\<lambda>mu. (mu_u mu, mu_botOwnerID mu)) (mvals (users h))"

lemma people_users: "mu_u ` set (mvals (users h)) = fst ` set (people h)"
  by (force simp: people_def)

lemma people_owned: "owned_bots ow h = sort_key usr_ID (map fst (filter (\<lambda>p. snd p = ow) (people h)))"
  by (simp add: owned_bots_def people_def filter_map comp_def)

lemma sample_newbot_sel [simp]:
  "botStates sample_newbot = [(2, \<lparr>bf_Step = BotFatherStepNewBotUsername, bf_DraftName = ''Zed''\<rparr>)]"
  "userSeq sample_newbot = 2" "people sample_newbot = [(bot_father, 0), (ann, 0), (bob, 0)]"
  unfolding people_def sample_newbot_def
  by (simp_all add: run_simps send_simps bot_simps)

definition sample_revoke :: server where
  "sample_revoke = serve_all
     [(bob1, ReqMessagesSendMessage to_bot_father ''zed_bot'' 11),
      (bob1, ReqMessagesSendMessage to_bot_father ''/revoke'' 12)] sample_newbot"

lemma sample_revoke_reachable: "server_reachable sample_revoke"
  unfolding sample_revoke_def
  by (rule server_reachable_all [OF sample_newbot_reachable]) simp

lemma sample_revoke_sel [simp]:
  "botStates sample_revoke = [(2, \<lparr>bf_Step = BotFatherStepRevokeSelect, bf_DraftName = []\<rparr>)]"
  "\<exists>t. people sample_revoke = [(bot_father, 0), (ann, 0), (bob, 0), (zed t, 2)]"
  unfolding people_def sample_revoke_def sample_newbot_def
  by (simp add: run_simps send_simps bot_simps zero_bot_state_def) (simp add: run_simps send_simps bot_simps, blast)

theorem bot_created_witness:
  "\<exists>b h'. botFatherEngine bob ''zed_bot'' sample_newbot = (Ok [bfDone ''zed_bot'' (usr_BotToken b)], h') \<and>
     is_account h' b \<and> usr_Username b = ''zed_bot'' \<and> usr_FirstName b = ''Zed'' \<and> map_of (botStates h') 2 = None"
proof -
  have taken: "\<not> (\<exists>a. is_account sample_newbot a \<and> usr_Username a = ''zed_bot'')"
  proof -
    have "Collect (is_account sample_newbot) = fst ` set (people sample_newbot)"
      by (rule trans [OF sane_accounts [OF sane_reachable [OF sample_newbot_reachable], symmetric] people_users])
    then have "is_account sample_newbot a \<Longrightarrow> a \<in> {bot_father, ann, bob}" for a
      by auto
    then show ?thesis
      by fastforce
  qed
  have "usernameRe ''zed_bot''" "suffix ''bot'' (map ascii_lower ''zed_bot'')"
    by (simp_all add: usernameRe_def is_letter_def is_name_char_def is_lower_def is_upper_def is_digit_def
        ascii_lower_def suffix_def)
  with taken have no: "(\<not> usernameRe ''zed_bot'' \<or> \<not> suffix ''bot'' (map ascii_lower ''zed_bot'')) = False"
    "(\<exists>a. is_account sample_newbot a \<and> usr_Username a = ''zed_bot'') = False"
    by simp_all
  have seq: "userSeq sample_newbot + 1 < BotFatherID"
    by (simp add: BotFatherID_def)
  have state: "map_of (botStates sample_newbot) (usr_ID bob) =
      Some \<lparr>bf_Step = BotFatherStepNewBotUsername, bf_DraftName = ''Zed''\<rparr>"
    by simp
  have name: "\<not> prefix ''/'' (TrimSpace ''zed_bot'')" "''zed_bot'' = TrimPrefix (TrimSpace ''zed_bot'') ''@''"
    by (simp_all add: text_values TrimPrefix_def)
  obtain b :: User and h' where "botFatherEngine bob ''zed_bot'' sample_newbot = (Ok [bfDone ''zed_bot'' (usr_BotToken b)], h')"
    "is_account h' b" "usr_Username b = ''zed_bot''" "usr_FirstName b = ''Zed''" "map_of (botStates h') (usr_ID bob) = None"
    using bot_created [OF sample_newbot_reachable seq state name] unfolding no if_False
    by (elim exE conjE) (rule that; assumption)
  then show ?thesis
    by - (rule exI [of _ b], rule exI [of _ h'], simp)
qed


section \<open>Bob sends a photo\<close>

definition sample_upload :: server where
  "sample_upload = serve_all [(bob1, ReqUploadSaveFilePart 5 0 [chr 7, chr 8])] sample_server"

lemma sample_upload_reachable: "server_reachable sample_upload"
  unfolding sample_upload_def
  by (rule server_reachable_all [OF sample_server_reachable]) (simp add: int32_def)

abbreviation sample_photo :: input_media where
  "sample_photo \<equiv> InputMediaUploadedPhoto (InputFile 5)"

lemma sample_media_ok:
  "is_ok (messagesSendMedia (request_ctx bob1) to_ann sample_photo ''look'' 13 sample_upload)"
  unfolding sample_upload_def
  by (simp add: run_simps send_simps uploadSaveFilePart_def messagesSendMedia_def maxPartSize_def
    stage_part_def staging_file_def staged_put_def newUploadStaging_def empty_staged_def takeStaged_def
    staging_take_def save_content_def withStore_def ObjPut_def NewObjectStore_def SaveFile_def genAccessHash_def
    new_file_def requireStore_def media_sent_def)

lemma sample_upload_sel [simp]: "userSeq sample_upload = 2"
  unfolding sample_upload_def
  by (simp add: run_simps uploadSaveFilePart_def maxPartSize_def)

theorem media_round_trip_witness:
  "\<exists>ups h'. messagesSendMedia (request_ctx bob1) to_ann sample_photo ''look'' 13 sample_upload = (Ok ups, h') \<and>
     (\<exists>q fl m. m \<in> set (take 1 (mailbox 2 q h')) \<and> msg_Media m = Some fl \<and> msg_Text m = ''look'')"
proof -
  obtain ups h' where run: "messagesSendMedia (request_ctx bob1) to_ann sample_photo ''look'' 13 sample_upload = (Ok ups, h')"
    using sample_media_ok is_okE by blast
  have hyps: "userSeq sample_upload < BotFatherID" "uploadedFileID sample_photo = Some 5"
    by (simp_all add: BotFatherID_def)
  obtain caller p :: User and fl and m :: Message where
    "caller_of (request_ctx bob1) sample_upload = Some (usr_ID caller)"
    "m \<in> set (take 1 (mailbox (usr_ID caller) (usr_ID p) h'))" "msg_Media m = Some fl" "msg_Text m = ''look''"
    using media_round_trip [OF sample_upload_reachable hyps run] by (elim exE conjE) (rule that; assumption)
  moreover have "caller_of (request_ctx bob1) sample_upload = Some 2"
    unfolding sample_upload_def
    by (simp add: run_simps uploadSaveFilePart_def maxPartSize_def caller_of_def effective_key_def)
  ultimately show ?thesis
    using run by auto
qed

end
