(* ===== verification/RpcIsolation.thy ===== *)
theory RpcIsolation imports RpcDelivery begin

text \<open>
  Isolation: what a request cannot touch. Most requests leave every history alone
  (\<open>mailquiet\<close>); the four that write messages only reach conversations of their caller.
\<close>

section \<open>Requests that do not touch messages\<close>

definition same_mail :: "'z server_scheme \<Rightarrow> 'z server_scheme \<Rightarrow> bool" where
  "same_mail h' h \<longleftrightarrow> refs h' = refs h \<and> messages h' = messages h \<and> files h' = files h \<and>
     fileSeq h' = fileSeq h \<and> userSeq h \<le> userSeq h'"

definition mailquiet :: "('z server_scheme, 'a) go \<Rightarrow> bool" where
  "mailquiet m \<longleftrightarrow> (\<forall>h. same_mail (snd (m h)) h)"

named_theorems mailquiet_rules

lemma same_mail_refl [simp]: "same_mail h h"
  by (simp add: same_mail_def)

lemma same_mail_trans: "same_mail h2 h1 \<Longrightarrow> same_mail h1 h \<Longrightarrow> same_mail h2 h"
  by (simp add: same_mail_def)

lemma mailquietD: "mailquiet m \<Longrightarrow> m h = (r, h') \<Longrightarrow> same_mail h' h"
  unfolding mailquiet_def by (metis snd_conv)

lemma mailquietI: "(\<And>h r h'. m h = (r, h') \<Longrightarrow> same_mail h' h) \<Longrightarrow> mailquiet m"
  unfolding mailquiet_def by (metis prod.collapse)

lemma mailquiet_quiet: "quiet m \<Longrightarrow> mailquiet m"
  by (rule mailquietI) (auto dest: quietD simp: same_db_def same_mail_def)

lemma mailquiet_modifyI: "(\<And>h. same_mail (f h) h) \<Longrightarrow> mailquiet (modify f)"
  by (simp add: mailquiet_def)

lemma mailquiet_bnd [mailquiet_rules]:
  assumes "mailquiet m" "\<And>x. mailquiet (f x)"
  shows "mailquiet (bnd m f)"
proof (rule mailquietI)
  fix h r h'
  assume run: "bnd m f h = (r, h')"
  obtain r1 h1 where m: "m h = (r1, h1)"
    by (cases "m h")
  then have "same_mail h1 h"
    using assms(1) by (simp add: mailquietD)
  moreover have "same_mail h' h1"
    using run m mailquietD [OF assms(2)] by (cases r1) (auto simp: bnd_def)
  ultimately show "same_mail h' h"
    by (rule same_mail_trans [rotated])
qed

lemma mailquiet_on_err [mailquiet_rules]:
  assumes "mailquiet m" "\<And>e. mailquiet (f e)"
  shows "mailquiet (on_err m f)"
proof (rule mailquietI)
  fix h r h'
  assume run: "on_err m f h = (r, h')"
  obtain r1 h1 where m: "m h = (r1, h1)"
    by (cases "m h")
  then have "same_mail h1 h"
    using assms(1) by (simp add: mailquietD)
  moreover have "same_mail h' h1"
    using run m mailquietD [OF assms(2)] by (cases r1) (auto simp: on_err_def)
  ultimately show "same_mail h' h"
    by (rule same_mail_trans [rotated])
qed

lemma mailquiet_attempt [mailquiet_rules]: "mailquiet m \<Longrightarrow> mailquiet (attempt m)"
  by (rule mailquietI) (auto simp: attempt_def dest: mailquietD split: prod.splits outcome.splits)

lemma mailquiet_steps [mailquiet_rules]:
  "mailquiet (ret x)" "mailquiet (fail e)" "mailquiet (gets g)"
  by (simp_all add: mailquiet_def)

lemma mailquiet_loop [mailquiet_rules]: "(\<And>x a. mailquiet (f x a)) \<Longrightarrow> mailquiet (loop f xs a)"
  by (induction xs arbitrary: a) (auto intro!: mailquiet_rules)

lemma mailquiet_collect [mailquiet_rules]: "(\<And>x. mailquiet (f x)) \<Longrightarrow> mailquiet (collect f xs)"
  unfolding collect_def by (intro mailquiet_rules)

lemma mailquiet_if [mailquiet_rules]: "mailquiet a \<Longrightarrow> mailquiet b \<Longrightarrow> mailquiet (if c then a else b)"
  by simp

lemma mailquiet_Let [mailquiet_rules]: "(\<And>x. mailquiet (f x)) \<Longrightarrow> mailquiet (Let v f)"
  by (simp add: Let_def)

lemma mailquiet_case_option [mailquiet_rules]:
  "mailquiet a \<Longrightarrow> (\<And>x. mailquiet (b x)) \<Longrightarrow> mailquiet (case p of None \<Rightarrow> a | Some x \<Rightarrow> b x)"
  by (cases p) simp_all

lemma mailquiet_case_sum [mailquiet_rules]:
  "(\<And>x. mailquiet (a x)) \<Longrightarrow> (\<And>x. mailquiet (b x)) \<Longrightarrow> mailquiet (case p of Inl x \<Rightarrow> a x | Inr x \<Rightarrow> b x)"
  by (cases p) simp_all

lemma mailquiet_case_prod [mailquiet_rules]:
  "(\<And>x y. mailquiet (f x y)) \<Longrightarrow> mailquiet (case p of (x, y) \<Rightarrow> f x y)"
  by (cases p) simp

lemma mailquiet_case_input_peer [mailquiet_rules]:
  "mailquiet a \<Longrightarrow> (\<And>u h. mailquiet (b u h)) \<Longrightarrow> mailquiet d \<Longrightarrow>
    mailquiet (case p of InputPeerSelf \<Rightarrow> a | InputPeerUser u h \<Rightarrow> b u h | InputPeerOther \<Rightarrow> d)"
  by (cases p) simp_all

lemma mailquiet_case_input_user [mailquiet_rules]:
  "mailquiet a \<Longrightarrow> (\<And>u h. mailquiet (b u h)) \<Longrightarrow> mailquiet d \<Longrightarrow>
    mailquiet (case p of InputUserSelf \<Rightarrow> a | InputUser u h \<Rightarrow> b u h | InputUserOther \<Rightarrow> d)"
  by (cases p) simp_all

lemma mailquiet_case_dialog_peer [mailquiet_rules]:
  "(\<And>q. mailquiet (a q)) \<Longrightarrow> mailquiet b \<Longrightarrow>
    mailquiet (case p of InputDialogPeer q \<Rightarrow> a q | InputDialogPeerOther \<Rightarrow> b)"
  by (cases p) simp_all

lemma mailquiet_internal [mailquiet_rules]: "mailquiet m \<Longrightarrow> mailquiet (internal m)"
  unfolding internal_def by (intro mailquiet_rules)

lemmas mailquiet_of_quiet [mailquiet_rules] =
  quiet_clock [THEN mailquiet_quiet] quiet_reads [THEN mailquiet_quiet]
  quiet_effectiveKeyID [THEN mailquiet_quiet] quiet_callers [THEN mailquiet_quiet]
  quiet_lookups [THEN mailquiet_quiet] quiet_live [THEN mailquiet_quiet] quiet_push [THEN mailquiet_quiet]
  quiet_deliver [THEN mailquiet_quiet]

section \<open>Calls of the database\<close>

lemma mailquiet_rand_read [mailquiet_rules]: "mailquiet (rand_read n :: ('z server_scheme, bytes) go)"
  by (simp add: mailquiet_def rand_read_def same_mail_def)

lemma mailquiet_setUser [mailquiet_rules]: "mailquiet (setUser uid f :: ('z server_scheme, unit) go)"
  unfolding setUser_def by (rule mailquiet_modifyI) (simp add: same_mail_def)

lemma mailquiet_accounts [mailquiet_rules]:
  "mailquiet (CreateUser ph fn ln :: ('z server_scheme, User) go)"
  "mailquiet (CreateBot token un fn :: ('z server_scheme, User) go)"
  "mailquiet (CreateOwnedBot un fn ow secret :: ('z server_scheme, User) go)"
  "mailquiet (SetProfile uid a b d :: ('z server_scheme, User) go)"
  "mailquiet (SetUsername uid un :: ('z server_scheme, User) go)"
  "mailquiet (SetBotToken uid token :: ('z server_scheme, unit) go)"
  unfolding CreateUser_def CreateBot_def CreateOwnedBot_def SetProfile_def SetUsername_def SetBotToken_def
    nextUserID_def genAccessHash_def insertUser_def
  by (intro mailquiet_rules mailquiet_modifyI; simp add: same_mail_def)+

lemma mailquiet_lookups [mailquiet_rules]:
  "mailquiet (UserByPhone ph :: ('z server_scheme, User option) go)"
  "mailquiet (UserByUsername un :: ('z server_scheme, User option) go)"
  "mailquiet (BotByToken token :: ('z server_scheme, User option) go)"
  "mailquiet (BotsByOwner uid :: ('z server_scheme, User list) go)"
  "mailquiet (SearchUsers q n :: ('z server_scheme, User list) go)"
  "mailquiet (UsersByIDs uids :: ('z server_scheme, User list) go)"
  "mailquiet (PhoneCode ph code :: ('z server_scheme, string option) go)"
  "mailquiet (GetHistory a b d n :: ('z server_scheme, Message list) go)"
  "mailquiet (Contacts uid :: ('z server_scheme, Contact list) go)"
  "mailquiet (Drafts uid :: ('z server_scheme, Draft list) go)"
  "mailquiet (SearchMessages a b q n :: ('z server_scheme, Message list) go)"
  "mailquiet (MessageByGlobal uid g :: ('z server_scheme, Message option) go)"
  "mailquiet (GetDialogs uid n :: ('z server_scheme, Dialog list) go)"
  "mailquiet (GetState uid :: ('z server_scheme, State) go)"
  "mailquiet (GetDifference uid p n :: ('z server_scheme, _) go)"
  "mailquiet (FileByID uid :: ('z server_scheme, File option) go)"
  "mailquiet (BotFatherState uid :: ('z server_scheme, BotFatherState) go)"
  "mailquiet (BotCommands uid un ph :: ('z server_scheme, BotCommand list) go)"
  unfolding UserByPhone_def UserByUsername_def BotByToken_def BotsByOwner_def SearchUsers_def UsersByIDs_def
    PhoneCode_def GetHistory_def Contacts_def Drafts_def SearchMessages_def MessageByGlobal_def
    GetDialogs_def GetState_def GetDifference_def FileByID_def BotFatherState_def BotCommands_def
  by (intro mailquiet_rules)+

lemma mailquiet_tables [mailquiet_rules]:
  "mailquiet (SavePhoneCode ph hash code ttl :: ('z server_scheme, unit) go)"
  "mailquiet (BindSession k uid :: ('z server_scheme, unit) go)"
  "mailquiet (Unbind k :: ('z server_scheme, unit) go)"
  "mailquiet (BindTempAuthKey k k' t :: ('z server_scheme, unit) go)"
  "mailquiet (AddContact a b fn ln :: ('z server_scheme, unit) go)"
  "mailquiet (DeleteContacts a ids :: ('z server_scheme, unit) go)"
  "mailquiet (SaveDraft a b txt :: ('z server_scheme, int) go)"
  "mailquiet (SetBotFatherState a st :: ('z server_scheme, unit) go)"
  "mailquiet (ClearBotFatherState a :: ('z server_scheme, unit) go)"
  "mailquiet (SetBotCommands a un ph cmds :: ('z server_scheme, unit) go)"
  "mailquiet (ResetBotCommands a un ph :: ('z server_scheme, unit) go)"
  unfolding SavePhoneCode_def BindSession_def Unbind_def BindTempAuthKey_def AddContact_def DeleteContacts_def
    SaveDraft_def SetBotFatherState_def ClearBotFatherState_def SetBotCommands_def ResetBotCommands_def
  by (intro mailquiet_rules mailquiet_modifyI; simp add: same_mail_def)+

section \<open>Handlers\<close>

lemma mailquiet_state [mailquiet_rules]:
  "mailquiet (modify (\<lambda>h. h\<lparr>staging := stg h\<rparr>) :: ('z server_scheme, unit) go)"
  "mailquiet (withStore m :: ('z server_scheme, 'a) go)"
  by (simp_all add: mailquiet_def withStore_def same_mail_def split: option.split prod.split)

lemma mailquiet_helpers [mailquiet_rules]:
  "mailquiet (bindCaller c uid :: ('z server_scheme, unit) go)"
  "mailquiet (resolveInputUser u i :: ('z server_scheme, User) go)"
  "mailquiet (checkCode ph hash code :: ('z server_scheme, unit) go)"
  "mailquiet (requireBot c :: ('z server_scheme, User) go)"
  "mailquiet (getUser cu i :: ('z server_scheme, user_class) go)"
  unfolding bindCaller_def resolveInputUser_def checkCode_def requireBot_def getUser_def
  by (intro mailquiet_rules)+

lemma mailquiet_entries [mailquiet_rules]:
  "mailquiet (importContact u x acc1 :: ('z server_scheme, _) go)"
  "mailquiet (deletedContact u i acc2 :: ('z server_scheme, _) go)"
  "mailquiet (topMessage self p :: ('z server_scheme, tg_message list) go)"
  "mailquiet (allDraftsEntry d acc3 :: ('z server_scheme, _) go)"
  "mailquiet (draftEntry seen d acc4 :: ('z server_scheme, _) go)"
  "mailquiet (messageByGlobal self e :: ('z server_scheme, Message option) go)"
  "mailquiet (usersByIDs self ids :: ('z server_scheme, user_class list) go)"
  unfolding importContact_def deletedContact_def topMessage_def allDraftsEntry_def
    draftEntry_def messageByGlobal_def usersByIDs_def
  by (intro mailquiet_rules)+

lemma mailquiet_dialog_entries [mailquiet_rules]:
  "mailquiet (dialogEntry self dbp dl acc :: ('z server_scheme, _) go)"
  "mailquiet (peerDialogEntry u bp dbp p acc :: ('z server_scheme, _) go)"
  "mailquiet (differenceEntry self e acc' :: ('z server_scheme, _) go)"
  unfolding dialogEntry_def peerDialogEntry_def differenceEntry_def by (intro mailquiet_rules)+

lemma mailquiet_botFatherEngine [mailquiet_rules]:
  "mailquiet (botFatherEngine u txt :: ('z server_scheme, string list) go)"
  unfolding botFatherEngine_def botFatherCommand_def botFatherListBots_def botFatherSetName_def
    botFatherCreate_def botFatherRevoke_def botTokenSecret_def
  by (intro mailquiet_rules)

fun message_request :: "request \<Rightarrow> bool" where
  "message_request (ReqMessagesSendMessage a b d) = True"
| "message_request (ReqMessagesSendMedia a b d e) = True"
| "message_request (ReqMessagesEditMessage a b d) = True"
| "message_request (ReqMessagesDeleteMessages a) = True"
| "message_request (ReqMessagesReadHistory a b) = True"
| "message_request r = False"

lemma mailquiet_dispatch:
  "\<not> message_request r \<Longrightarrow> mailquiet (dispatch r c :: ('z server_scheme, reply) go)"
  by (cases r; simp only: message_request.simps not_True_eq_False dispatch.simps reply_with_def fallback_def handler_defs;
    (intro mailquiet_rules)?)

section \<open>Requests that write messages\<close>

text \<open>Messages refer to files that are there, and accounts are only added.\<close>

definition media_ok :: "int \<Rightarrow> int \<Rightarrow> 'z server_scheme \<Rightarrow> bool" where
  "media_ok md n h \<longleftrightarrow> (md = 0 \<or> md \<le> fileSeq h) \<and> n \<le> userSeq h \<and>
     (\<forall>g m. map_of (messages h) g = Some m \<longrightarrow> mm_mediaFileID m = 0 \<or> mm_mediaFileID m \<le> fileSeq h)"

lemma keeps_media_frame:
  "(\<And>h. messages (f h) = messages h \<and> fileSeq (f h) = fileSeq h \<and> userSeq (f h) = userSeq h) \<Longrightarrow>
    keeps (media_ok md n) (modify f :: ('z server_scheme, unit) go)"
  by (rule keeps_modify) (simp add: media_ok_def)

lemma keeps_media_steps [keeps_rules]:
  "keeps (media_ok md n) (now :: ('z server_scheme, int) go)"
  "keeps (media_ok md n) (setUser uid f :: ('z server_scheme, unit) go)"
  "keeps (media_ok md n) (putRef uid r :: ('z server_scheme, unit) go)"
  "keeps (media_ok md n) (logUpdate uid p k ty g ex :: ('z server_scheme, unit) go)"
proof -
  show now: "keeps (media_ok md n) (now :: ('z server_scheme, int) go)"
    by (simp add: keeps_def now_def media_ok_def)
  show "keeps (media_ok md n) (logUpdate uid p k ty g ex :: ('z server_scheme, unit) go)"
    unfolding logUpdate_def by (intro keeps_rules keeps_media_frame now) simp
qed (unfold setUser_def putRef_def, (rule keeps_media_frame, simp)+)

lemma keeps_media_setMessage:
  "(\<And>m. mm_mediaFileID (f m) = mm_mediaFileID m) \<Longrightarrow>
    keeps (media_ok md n) (setMessage g f :: ('z server_scheme, unit) go)"
  unfolding setMessage_def by (rule keeps_modify) (fastforce simp: media_ok_def split: if_splits option.splits)

lemma keeps_media_calls:
  "keeps (media_ok md n) (SendMessage f p t r md :: ('z server_scheme, SentMessage) go)"
  "keeps (media_ok md n) (EditMessage f l t :: ('z server_scheme, EditResult) go)"
  "keeps (media_ok md n) (DeleteMessages f ls :: ('z server_scheme, DeleteResult) go)"
  "keeps (media_ok md n) (ReadHistory f p l :: ('z server_scheme, ReadResult) go)"
proof -
  have "keeps (media_ok md n) (modify (\<lambda>d. d\<lparr>messages := mput gid \<lparr>mm_globalID = gid, mm_from = f,
      mm_peer = p, mm_text = t, mm_date = u, mm_editDate = zero_time, mm_randomID = r, mm_mediaFileID = md,
      mm_deleted = False\<rparr> (messages d)\<rparr>) :: ('z server_scheme, unit) go)" for gid u
    by (rule keeps_modify) (simp add: media_ok_def)
  moreover have "keeps (media_ok md n) (modify (\<lambda>d. d\<lparr>msgSeq := msgSeq d + 1\<rparr>) :: ('z server_scheme, unit) go)"
    by (rule keeps_media_frame) simp
  ultimately show "keeps (media_ok md n) (SendMessage f p t r md :: ('z server_scheme, SentMessage) go)"
    unfolding SendMessage_def allocate_def by (intro keeps_rules)
  show "keeps (media_ok md n) (EditMessage f l t :: ('z server_scheme, EditResult) go)"
    "keeps (media_ok md n) (DeleteMessages f ls :: ('z server_scheme, DeleteResult) go)"
    unfolding EditMessage_def DeleteMessages_def markDeleted_def allocatePts_def
    by (intro keeps_rules keeps_media_setMessage; simp)+
  show "keeps (media_ok md n) (ReadHistory f p l :: ('z server_scheme, ReadResult) go)"
    unfolding ReadHistory_def markRead_def allocatePts_def
    by (intro keeps_rules keeps_media_frame; simp)
qed

end
