(* ===== verification/MtWire.thy ===== *)
theory MtWire imports Server begin

text \<open>
  The MTProto server, \<^verbatim>\<open>internal/mtproto\<close>: what it exchanges with its connections, the
  library functions it is built on, and its state.
\<close>

section \<open>Keys, sessions, requests\<close>

text \<open>\<^verbatim>\<open>crypto.AuthKey\<close>: the key and its 8-byte id.\<close>

record AuthKey =
  ak_ID :: bytes
  ak_Value :: bytes

record mtSession =
  mts_ID :: int
  mts_AuthKey :: AuthKey

record Request =
  rq_DC :: int
  rq_Session :: mtSession
  rq_MsgID :: int
  rq_Buf :: bytes

text \<open>The session of a request as the RPC handler keeps it.\<close>

definition handler_session :: "mtSession \<Rightarrow> Session" where
  "handler_session k = \<lparr>ses_ID = mts_ID k, ses_KeyID = ak_ID (mts_AuthKey k)\<rparr>"

section \<open>Messages\<close>

text \<open>
  The type ids the server tells apart (constants of the generated code, which
  are distinct), and the messages it sends, \<open>'r\<close> being the replies of the handler.
\<close>

datatype type_id =
    PingDelayDisconnectRequestTypeID
  | PingRequestTypeID
  | GetFutureSaltsRequestTypeID
  | RPCDropAnswerRequestTypeID
  | GZIPTypeID
  | MessageContainerTypeID
  | InvokeWithLayerRequestTypeID
  | InitConnectionRequestTypeID
  | InvokeWithoutUpdatesRequestTypeID
  | OtherTypeID nat

datatype 'r result_body =
    RPCAnswerDroppedRunning
  | RPCError int string
  | BoolTrue
  | BoolFalse
  | Reply 'r

datatype 'r server_message =
    Result int "'r result_body"
  | Pong int int
  | FutureSalts int int "(int \<times> int \<times> int) list"
  | NewSessionCreated int int
  | MsgsAck "int list"
  | UpdatesMsg tg_updates

datatype message_type = MessageServerResponse | MessageFromServer | MessageFromClient

text \<open>
  A frame on the wire: a bare protocol error, or a message with its session and
  message id, encrypted with an auth key.
\<close>

datatype 'r frame =
    ProtoError int
  | Sealed AuthKey int int "'r server_message"

section \<open>The libraries\<close>

text \<open>
  What \<^verbatim>\<open>gotd/td\<close> does, as functions of the bytes: \<^verbatim>\<open>bin.Buffer\<close>'s \<^verbatim>\<open>PeekN\<close> and
  \<^verbatim>\<open>PeekID\<close>, the decoders (\<open>None\<close> or \<open>False\<close> on an error), the cipher and the encoders.
  \<open>decodeInvoke\<close> decodes an invoke wrapper up to the query in it and gives what is left
  of the buffer.
\<close>

record EncryptedMessage =
  em_AuthKeyID :: bytes
  em_MsgKey :: bytes
  em_EncryptedData :: bytes

record EncryptedMessageData =
  ed_SessionID :: int
  ed_MessageID :: int
  ed_Data :: bytes

record 'r lib =
  PeekN :: "nat \<Rightarrow> bytes \<Rightarrow> bytes option"
  PeekID :: "bytes \<Rightarrow> type_id option"
  decodeEncrypted :: "bytes \<Rightarrow> EncryptedMessage option"
  Decrypt :: "AuthKey \<Rightarrow> EncryptedMessage \<Rightarrow> EncryptedMessageData option"
  decodePing :: "type_id \<Rightarrow> bytes \<Rightarrow> int option"
  decodeFutureSalts :: "bytes \<Rightarrow> bool"
  decodeDropAnswer :: "bytes \<Rightarrow> bool"
  decodeGZIP :: "bytes \<Rightarrow> bytes option"
  decodeContainer :: "bytes \<Rightarrow> (int \<times> bytes) list option"
  decodeInvoke :: "type_id \<Rightarrow> bytes \<Rightarrow> bytes option"
  encodes_body :: "'r result_body \<Rightarrow> bool"
  encodes :: "'r server_message \<Rightarrow> bool"
  Encrypts :: "AuthKey \<Rightarrow> 'r server_message \<Rightarrow> bool"

text \<open>
  The outcome of a key exchange: a new key, a frame that was encrypted with an existing
  key, a protocol error for the client, or another error.
\<close>

datatype exchange_result =
    ExchangedKey AuthKey
  | UnexpectedEncryptedError bytes bytes
  | ServerExchangeError int
  | ExchangeFailed

section \<open>State\<close>

text \<open>
  A live connection of a session: the transport, by number, and the flag that
  \<^verbatim>\<open>new_session_created\<close> was sent on it.
\<close>

record connection =
  cn_Conn :: nat
  cn_sent :: bool

text \<open>
  The server: key storage, registry and connections, on top of the state of the RPC
  handler, so that the handler runs on the same state. The environment decides whether
  the n-th call of the key storage or the n-th write to a transport succeeds, what the n-th
  message id is, and how the n-th key exchange ends on the frames it finds (it also
  tells how many of them it read). \<open>wire\<close> is what was written, in order, and \<open>closed\<close> the
  transports the server has closed.
\<close>

record 'r mtserver = server +
  keys :: "(bytes, AuthKey) gomap"
  cache :: "(bytes, AuthKey) gomap"
  conns :: "(int, connection) gomap"
  wire :: "(nat \<times> 'r frame) list"
  closed :: "nat list"
  keys_ok :: "nat \<Rightarrow> bool"
  keys_pos :: nat
  write_ok :: "nat \<Rightarrow> bool"
  write_pos :: nat
  msg_ids :: "nat \<Rightarrow> message_type \<Rightarrow> int"
  msg_pos :: nat
  exchanges :: "nat \<Rightarrow> bytes list \<Rightarrow> exchange_result \<times> nat"
  exch_pos :: nat

text \<open>A handler: \<^verbatim>\<open>OnMessage\<close> with its effect on the state.\<close>

type_synonym ('r, 'z) handler = "Request \<Rightarrow> (('r, 'z) mtserver_scheme, unit) go"

end
