(* ===== verification/MtRegistry.thy ===== *)
theory MtRegistry imports MtWire KeyValue begin

text \<open>
  Auth keys and live connections: \<^verbatim>\<open>keystorage.go\<close> and \<^verbatim>\<open>registry.go\<close>.
\<close>

section \<open>Key storage\<close>

type_synonym InMemoryKeys = "(bytes, AuthKey) gomap"

definition NewInMemoryKeys :: InMemoryKeys where
  "NewInMemoryKeys = []"

definition InMemoryKeys_Save :: "AuthKey \<Rightarrow> InMemoryKeys \<Rightarrow> InMemoryKeys" where
  "InMemoryKeys_Save key s = mput (ak_ID key) key s"

definition InMemoryKeys_Get :: "bytes \<Rightarrow> InMemoryKeys \<Rightarrow> AuthKey option" where
  "InMemoryKeys_Get i s = map_of s i"

definition InMemoryKeys_Len :: "InMemoryKeys \<Rightarrow> nat" where
  "InMemoryKeys_Len s = length s"

text \<open>
  The interface the server uses: a storage that gives back the last key saved under an
  id. \<open>KeySave\<close> and \<open>KeyGet\<close> call it; a call may fail, as those of the database do.
\<close>

locale key_storage =
  fixes save :: "AuthKey \<Rightarrow> 's \<Rightarrow> 's" and get :: "bytes \<Rightarrow> 's \<Rightarrow> AuthKey option"
  assumes get_save: "get i (save k s) = (if i = ak_ID k then Some k else get i s)"
begin

definition filed :: "'s \<Rightarrow> bool" where
  "filed s \<longleftrightarrow> (\<forall>i k. get i s = Some k \<longrightarrow> ak_ID k = i)"

lemma filed_save: "filed s \<Longrightarrow> filed (save k s)"
  by (simp add: filed_def get_save)

lemma get_saves: "get i (fold save ks s) =
    (case find (\<lambda>k. ak_ID k = i) (rev ks) of None \<Rightarrow> get i s | Some k \<Rightarrow> Some k)"
proof (induction ks rule: rev_induct)
  case (snoc k ks)
  then show ?case
    by (simp add: get_save)
qed simp

lemma save_again: "get i (save k (save k s)) = get i (save k s)"
  by (simp add: get_save)

end

interpretation mem_keys: key_storage InMemoryKeys_Save InMemoryKeys_Get
  by unfold_locales (simp add: InMemoryKeys_Save_def InMemoryKeys_Get_def)

text \<open>One call of the storage.\<close>

definition storage_call :: "(('r, 'z) mtserver_scheme, unit) go" where
  "storage_call = bnd (gets (\<lambda>s. keys_ok s (keys_pos s))) (\<lambda>b.
     bnd (modify (\<lambda>s. s\<lparr>keys_pos := Suc (keys_pos s)\<rparr>)) (\<lambda>_.
     if b then ret () else fail (ErrLib ''key storage'')))"

definition KeySave :: "AuthKey \<Rightarrow> (('r, 'z) mtserver_scheme, unit) go" where
  "KeySave key = bnd storage_call (\<lambda>_. modify (\<lambda>s. s\<lparr>keys := InMemoryKeys_Save key (keys s)\<rparr>))"

definition KeyGet :: "bytes \<Rightarrow> (('r, 'z) mtserver_scheme, AuthKey option) go" where
  "KeyGet i = bnd storage_call (\<lambda>_. gets (\<lambda>s. InMemoryKeys_Get i (keys s)))"

section \<open>Auth keys\<close>

definition newRegistry :: "('r, 'z) mtserver_scheme \<Rightarrow> ('r, 'z) mtserver_scheme" where
  "newRegistry s = s\<lparr>cache := [], conns := []\<rparr>"

definition addSession :: "AuthKey \<Rightarrow> (('r, 'z) mtserver_scheme, unit) go" where
  "addSession key = bnd (modify (\<lambda>s. s\<lparr>cache := mput (ak_ID key) key (cache s)\<rparr>)) (\<lambda>_. KeySave key)"

definition getSession :: "bytes \<Rightarrow> (('r, 'z) mtserver_scheme, AuthKey option) go" where
  "getSession i = bnd (gets (\<lambda>s. map_of (cache s) i)) (\<lambda>c. case c of
       Some key \<Rightarrow> ret (Some key)
     | None \<Rightarrow> bnd (KeyGet i) (\<lambda>k. case k of
         None \<Rightarrow> ret None
       | Some key \<Rightarrow> bnd (modify (\<lambda>s. s\<lparr>cache := mput i key (cache s)\<rparr>)) (\<lambda>_. ret (Some key))))"

section \<open>Connections\<close>

text \<open>
  \<open>createConnection\<close> returns a pointer to the entry of the session; \<open>sentCreated\<close> acts
  on that entry.
\<close>

definition createConnection :: "int \<Rightarrow> nat \<Rightarrow> (('r, 'z) mtserver_scheme, unit) go" where
  "createConnection key conn = bnd (gets (\<lambda>s. map_of (conns s) key)) (\<lambda>v.
     if (case v of Some cn \<Rightarrow> cn_Conn cn = conn | None \<Rightarrow> False) then ret ()
     else modify (\<lambda>s. s\<lparr>conns := mput key \<lparr>cn_Conn = conn, cn_sent = False\<rparr> (conns s)\<rparr>))"

definition sentCreated :: "int \<Rightarrow> (('r, 'z) mtserver_scheme, bool) go" where
  "sentCreated key = bnd (gets (\<lambda>s. case map_of (conns s) key of Some cn \<Rightarrow> cn_sent cn | None \<Rightarrow> False)) (\<lambda>b.
     bnd (modify (\<lambda>s. s\<lparr>conns := mmod key (\<lambda>cn. cn\<lparr>cn_sent := True\<rparr>) (conns s)\<rparr>)) (\<lambda>_. ret b))"

definition removeConn :: "nat \<Rightarrow> (('r, 'z) mtserver_scheme, unit) go" where
  "removeConn conn = modify (\<lambda>s. s\<lparr>conns := filter (\<lambda>(_, cn). cn_Conn cn \<noteq> conn) (conns s)\<rparr>)"

definition getConnection :: "int \<Rightarrow> (('r, 'z) mtserver_scheme, connection option) go" where
  "getConnection key = gets (\<lambda>s. map_of (conns s) key)"

definition conn_close :: "nat \<Rightarrow> (('r, 'z) mtserver_scheme, unit) go" where
  "conn_close c = modify (\<lambda>s. s\<lparr>closed := c # closed s\<rparr>)"

definition deleteConnection :: "int \<Rightarrow> (('r, 'z) mtserver_scheme, unit) go" where
  "deleteConnection key = bnd (getConnection key) (\<lambda>v.
     bnd (case v of None \<Rightarrow> ret () | Some cn \<Rightarrow> conn_close (cn_Conn cn)) (\<lambda>_.
     modify (\<lambda>s. s\<lparr>conns := mdel key (conns s)\<rparr>)))"

definition registry_Close :: "(('r, 'z) mtserver_scheme, unit) go" where
  "registry_Close = bnd (gets (\<lambda>s. mvals (conns s))) (\<lambda>cs. loop (\<lambda>cn _. conn_close (cn_Conn cn)) cs ())"

text \<open>The connections of the sessions, as a table.\<close>

interpretation conn_table: kv_table
  "\<lambda>s k. map_of (conns s) k" "\<lambda>k cn s. s\<lparr>conns := mput k cn (conns s)\<rparr>" "\<lambda>k s. s\<lparr>conns := mdel k (conns s)\<rparr>"
  by unfold_locales simp_all

section \<open>How the operations run\<close>

lemma storage_call_run: "storage_call s =
    (if keys_ok s (keys_pos s) then Ok () else Err (ErrLib ''key storage''), s\<lparr>keys_pos := Suc (keys_pos s)\<rparr>)"
  by (simp add: storage_call_def)

lemma getSession_cached: "map_of (cache s) i = Some key \<Longrightarrow> getSession i s = (Ok (Some key), s)"
  by (simp add: getSession_def)

lemma getSession_stored:
  assumes "map_of (cache s) i = None"
  shows "getSession i s = (let s' = s\<lparr>keys_pos := Suc (keys_pos s)\<rparr> in
    if \<not> keys_ok s (keys_pos s) then (Err (ErrLib ''key storage''), s')
    else case map_of (keys s) i of None \<Rightarrow> (Ok None, s')
    | Some key \<Rightarrow> (Ok (Some key), s'\<lparr>cache := mput i key (cache s)\<rparr>))"
  using assms by (auto simp: getSession_def KeyGet_def bnd_def storage_call_run InMemoryKeys_Get_def Let_def
      split: option.split)

lemma addSession_run: "addSession key s = (let s' = s\<lparr>cache := mput (ak_ID key) key (cache s), keys_pos := Suc (keys_pos s)\<rparr> in
    if keys_ok s (keys_pos s) then (Ok (), s'\<lparr>keys := mput (ak_ID key) key (keys s)\<rparr>)
    else (Err (ErrLib ''key storage''), s'))"
  by (simp add: addSession_def KeySave_def bnd_def storage_call_run InMemoryKeys_Save_def Let_def)

lemma map_of_removeConn:
  assumes "mwf (conns s)"
  shows "map_of (conns (snd (removeConn c s))) k =
    (case map_of (conns s) k of Some cn \<Rightarrow> if cn_Conn cn = c then None else Some cn | None \<Rightarrow> None)"
proof -
  have "map_of (filter (\<lambda>(_, cn). cn_Conn cn \<noteq> c) m) k =
      (case map_of m k of Some cn \<Rightarrow> if cn_Conn cn = c then None else Some cn | None \<Rightarrow> None)" if "mwf m" for m
    using that by (induction m) (auto simp: mwf_def map_of_eq_None_iff [THEN iffD2] image_iff split: option.splits)
  with assms show ?thesis
    by (simp add: removeConn_def)
qed

end
