(* ===== verification/MtHandle.thy ===== *)
theory MtHandle imports MtRegistry begin

text \<open>
  Sending and handling messages: \<^verbatim>\<open>send.go\<close>, \<^verbatim>\<open>middleware.go\<close> and \<^verbatim>\<open>handle.go\<close>. Logging,
  tracing and metrics are left out.
\<close>

section \<open>Sending\<close>

text \<open>A write to a transport; writing to a closed one fails.\<close>

definition conn_send :: "nat \<Rightarrow> 'r frame \<Rightarrow> (('r, 'z) mtserver_scheme, unit) go" where
  "conn_send c f = bnd (gets (\<lambda>s. c \<notin> set (closed s) \<and> write_ok s (write_pos s))) (\<lambda>b.
     bnd (modify (\<lambda>s. s\<lparr>write_pos := Suc (write_pos s)\<rparr>)) (\<lambda>_.
     if b then modify (\<lambda>s. s\<lparr>wire := wire s @ [(c, f)]\<rparr>) else fail ErrSend))"

definition newMsgID :: "message_type \<Rightarrow> (('r, 'z) mtserver_scheme, int) go" where
  "newMsgID t = bnd (gets (\<lambda>s. msg_ids s (msg_pos s) t)) (\<lambda>i.
     bnd (modify (\<lambda>s. s\<lparr>msg_pos := Suc (msg_pos s)\<rparr>)) (\<lambda>_. ret i))"

definition Send :: "'r lib \<Rightarrow> mtSession \<Rightarrow> message_type \<Rightarrow> 'r server_message \<Rightarrow> (('r, 'z) mtserver_scheme, unit) go" where
  "Send L k t msg = bnd (getConnection (mts_ID k)) (\<lambda>conn. case conn of
       None \<Rightarrow> fail (ErrConnNotFound (mts_ID k))
     | Some cn \<Rightarrow>
        if \<not> encodes L msg then fail (ErrLib ''encode'') else
        bnd (newMsgID t) (\<lambda>i.
        if \<not> Encrypts L (mts_AuthKey k) msg then fail (ErrLib ''encrypt'') else
        conn_send (cn_Conn cn) (Sealed (mts_AuthKey k) (mts_ID k) i msg)))"

definition sendReq :: "'r lib \<Rightarrow> Request \<Rightarrow> message_type \<Rightarrow> 'r server_message \<Rightarrow> (('r, 'z) mtserver_scheme, unit) go" where
  "sendReq L req t msg = Send L (rq_Session req) t msg"

definition SendResult :: "'r lib \<Rightarrow> Request \<Rightarrow> 'r result_body \<Rightarrow> (('r, 'z) mtserver_scheme, unit) go" where
  "SendResult L req body =
     (if \<not> encodes_body L body then fail (ErrLib ''encode result'') else
      sendReq L req MessageServerResponse (Result (rq_MsgID req) body))"

definition SendErr :: "'r lib \<Rightarrow> Request \<Rightarrow> int \<Rightarrow> string \<Rightarrow> (('r, 'z) mtserver_scheme, unit) go" where
  "SendErr L req code msg = SendResult L req (RPCError code msg)"

definition SendBool :: "'r lib \<Rightarrow> Request \<Rightarrow> bool \<Rightarrow> (('r, 'z) mtserver_scheme, unit) go" where
  "SendBool L req r = SendResult L req (if r then BoolTrue else BoolFalse)"

definition SendUpdates :: "'r lib \<Rightarrow> mtSession \<Rightarrow> update_class list \<Rightarrow> (('r, 'z) mtserver_scheme, unit) go" where
  "SendUpdates L k ups = (if ups = [] then ret () else
     bnd now (\<lambda>t. Send L k MessageFromServer
       (UpdatesMsg \<lparr>up_Updates = ups, up_Users = [], up_Date = Unix t\<rparr>)))"

definition SendAck :: "'r lib \<Rightarrow> mtSession \<Rightarrow> int list \<Rightarrow> (('r, 'z) mtserver_scheme, unit) go" where
  "SendAck L k ids = Send L k MessageFromServer (MsgsAck ids)"

definition SendPong :: "'r lib \<Rightarrow> Request \<Rightarrow> int \<Rightarrow> (('r, 'z) mtserver_scheme, unit) go" where
  "SendPong L req pingID = sendReq L req MessageServerResponse (Pong (rq_MsgID req) pingID)"

text \<open>A salt is given by its validity and its value.\<close>

definition SendFutureSalts :: "'r lib \<Rightarrow> Request \<Rightarrow> (int \<times> int \<times> int) list \<Rightarrow> (('r, 'z) mtserver_scheme, unit) go" where
  "SendFutureSalts L req salts = bnd now (\<lambda>t.
     Send L (rq_Session req) MessageServerResponse (FutureSalts (rq_MsgID req) (Unix t) salts))"

definition SendEternalSalt :: "'r lib \<Rightarrow> Request \<Rightarrow> (('r, 'z) mtserver_scheme, unit) go" where
  "SendEternalSalt L req = SendFutureSalts L req [(1, 2 ^ 31 - 1, 10)]"

definition sendSessionCreated :: "'r lib \<Rightarrow> mtSession \<Rightarrow> int \<Rightarrow> (('r, 'z) mtserver_scheme, unit) go" where
  "sendSessionCreated L k salt = bnd (newMsgID MessageFromClient) (\<lambda>first.
     Send L k MessageFromServer (NewSessionCreated first salt))"

definition ForceDisconnect :: "mtSession \<Rightarrow> (('r, 'z) mtserver_scheme, unit) go" where
  "ForceDisconnect k = deleteConnection (mts_ID k)"

section \<open>Invoke wrappers\<close>

fun invoke_wrapper :: "type_id \<Rightarrow> bool" where
  "invoke_wrapper InvokeWithLayerRequestTypeID = True"
| "invoke_wrapper InitConnectionRequestTypeID = True"
| "invoke_wrapper InvokeWithoutUpdatesRequestTypeID = True"
| "invoke_wrapper _ = False"

text \<open>
  The loop of \<^verbatim>\<open>UnpackInvoke\<close> on the type id and the buffer. Each round decodes one wrapper;
  \<open>n\<close> bounds the rounds, and \<open>None\<close> stands for a loop that is not done by then.
\<close>

fun unpack :: "nat \<Rightarrow> 'r lib \<Rightarrow> type_id \<Rightarrow> bytes \<Rightarrow> (goerr + bytes) option" where
  "unpack 0 L i buf = None"
| "unpack (Suc n) L i buf = (if \<not> invoke_wrapper i then Some (Inr buf) else
     case decodeInvoke L i buf of None \<Rightarrow> Some (Inl (ErrLib ''decode''))
     | Some rest \<Rightarrow> (case PeekID L rest of None \<Rightarrow> Some (Inl (ErrLib ''peek id''))
        | Some i' \<Rightarrow> unpack n L i' rest))"

definition UnpackInvoke :: "nat \<Rightarrow> 'r lib \<Rightarrow> ('r, 'z) handler \<Rightarrow> ('r, 'z) handler" where
  "UnpackInvoke n L nextHandler req = (case PeekID L (rq_Buf req) of
       None \<Rightarrow> fail (ErrLib ''peek id'')
     | Some i \<Rightarrow> (case unpack n L i (rq_Buf req) of
         None \<Rightarrow> gopanic
       | Some (Inl e) \<Rightarrow> fail e
       | Some (Inr buf) \<Rightarrow> nextHandler (req\<lparr>rq_Buf := buf\<rparr>)))"

section \<open>Handling a message\<close>

text \<open>\<^verbatim>\<open>errors.As(err, &rpcErr)\<close>, also inside joined errors.\<close>

fun rpc_error :: "goerr \<Rightarrow> (int \<times> string) option" where
  "rpc_error (RpcError code msg) = Some (code, msg)"
| "rpc_error (ErrMulti es) = foldr (\<lambda>e found. case rpc_error e of Some x \<Rightarrow> Some x | None \<Rightarrow> found) es None"
| "rpc_error _ = None"

text \<open>The call of the handler, whose RPC errors become replies.\<close>

definition deliverRequest :: "'r lib \<Rightarrow> ('r, 'z) handler \<Rightarrow> ('r, 'z) handler" where
  "deliverRequest L H req = on_err (H req) (\<lambda>e. case rpc_error e of
       Some (code, msg) \<Rightarrow> SendErr L req code msg
     | None \<Rightarrow> fail e)"

text \<open>\<^verbatim>\<open>multierr.Append\<close>, which keeps a flat list of errors; \<open>None\<close> is the nil error.\<close>

definition error_parts :: "goerr \<Rightarrow> goerr list" where
  "error_parts e = (case e of ErrMulti es \<Rightarrow> es | _ \<Rightarrow> [e])"

definition appendErr :: "goerr option \<Rightarrow> goerr option \<Rightarrow> goerr option" where
  "appendErr a b = (case (a, b) of (None, _) \<Rightarrow> b | (_, None) \<Rightarrow> a
     | (Some x, Some y) \<Rightarrow> Some (ErrMulti (error_parts x @ error_parts y)))"

definition error_of :: "goerr + 'a \<Rightarrow> goerr option" where
  "error_of r = (case r of Inl e \<Rightarrow> Some e | Inr _ \<Rightarrow> None)"

definition return_error :: "goerr option \<Rightarrow> ('s, unit) go" where
  "return_error err = (case err of None \<Rightarrow> ret () | Some e \<Rightarrow> fail e)"

text \<open>
  \<^verbatim>\<open>handle\<close>, which calls itself on the messages of a container; \<open>n\<close> bounds the nesting
  (a Go program that nests deeper than its stack crashes).
\<close>

fun handle :: "nat \<Rightarrow> 'r lib \<Rightarrow> ('r, 'z) handler \<Rightarrow> ('r, 'z) handler" where
  "handle 0 L H req = gopanic"
| "handle (Suc n) L H req = (case PeekID L (rq_Buf req) of None \<Rightarrow> fail (ErrLib ''peek id'')
   | Some i \<Rightarrow>
     (case i of
       PingDelayDisconnectRequestTypeID \<Rightarrow> (case decodePing L i (rq_Buf req) of
          None \<Rightarrow> fail (ErrLib ''decode'') | Some p \<Rightarrow> SendPong L req p)
     | PingRequestTypeID \<Rightarrow> (case decodePing L i (rq_Buf req) of
          None \<Rightarrow> fail (ErrLib ''decode'') | Some p \<Rightarrow> SendPong L req p)
     | GetFutureSaltsRequestTypeID \<Rightarrow>
         if decodeFutureSalts L (rq_Buf req) then SendEternalSalt L req else fail (ErrLib ''decode'')
     | RPCDropAnswerRequestTypeID \<Rightarrow>
         if decodeDropAnswer L (rq_Buf req) then SendResult L req RPCAnswerDroppedRunning else fail (ErrLib ''decode'')
     | GZIPTypeID \<Rightarrow> (case decodeGZIP L (rq_Buf req) of
          None \<Rightarrow> fail (ErrLib ''gzip'') | Some content \<Rightarrow> deliverRequest L H (req\<lparr>rq_Buf := content\<rparr>))
     | MessageContainerTypeID \<Rightarrow> (case decodeContainer L (rq_Buf req) of
          None \<Rightarrow> fail (ErrLib ''container'')
        | Some ms \<Rightarrow> bnd (loop (\<lambda>(i, body) err.
            bnd (attempt (handle n L H (req\<lparr>rq_MsgID := i, rq_Buf := body\<rparr>))) (\<lambda>r.
            ret (appendErr err (error_of r)))) ms None) return_error)
     | _ \<Rightarrow> deliverRequest L H req))"

declare handle.simps [simp del]

section \<open>Handling a frame\<close>

text \<open>The salt sent to the client is the id of its key, read as a signed 64-bit number.\<close>

definition session_salt :: "AuthKey \<Rightarrow> int" where
  "session_salt key = int64 (uint64_le (ak_ID key))"

definition rpcHandle :: "nat \<Rightarrow> 'r lib \<Rightarrow> ('r, 'z) handler \<Rightarrow> int \<Rightarrow> nat \<Rightarrow> bytes \<Rightarrow> (('r, 'z) mtserver_scheme, unit) go" where
  "rpcHandle n L H dc c b = (case decodeEncrypted L b of
       None \<Rightarrow> fail (ErrLib ''decode encrypted message'')
     | Some m \<Rightarrow> bnd (getSession (em_AuthKeyID m)) (\<lambda>k. case k of
         None \<Rightarrow> fail (ErrLib ''invalid session'')
       | Some key \<Rightarrow> (case Decrypt L key m of
           None \<Rightarrow> fail (ErrLib ''decrypt message'')
         | Some msg \<Rightarrow>
            let session = \<lparr>mts_ID = ed_SessionID msg, mts_AuthKey = key\<rparr> in
            bnd (createConnection (ed_SessionID msg) c) (\<lambda>_.
            bnd (sentCreated (ed_SessionID msg)) (\<lambda>sent.
            bnd (if sent then ret () else sendSessionCreated L session (session_salt key)) (\<lambda>_.
            handle n L H \<lparr>rq_DC = dc, rq_Session = session, rq_MsgID = ed_MessageID msg,
              rq_Buf = ed_Data msg\<rparr>))))))"

end
