(* ===== verification/MtConn.thy ===== *)
theory MtConn imports MtHandle begin

text \<open>
  Connections: \<^verbatim>\<open>buffered.go\<close>, \<^verbatim>\<open>conn.go\<close>, the construction of the server in \<^verbatim>\<open>server.go\<close>, and
  the steps of a server with many connections.
\<close>

section \<open>Buffered connections\<close>

text \<open>
  \<^verbatim>\<open>bufferedConn\<close>: frames pushed back, the last one first, and the frames that the
  transport will still receive.
\<close>

record bufferedConn =
  bc_conn :: "bytes list"
  bc_recv :: "bytes list"

definition newBufferedConn :: "bytes list \<Rightarrow> bufferedConn" where
  "newBufferedConn conn = \<lparr>bc_conn = conn, bc_recv = []\<rparr>"

definition Push :: "bytes \<Rightarrow> bufferedConn \<Rightarrow> bufferedConn" where
  "Push b c = c\<lparr>bc_recv := bc_recv c @ [b]\<rparr>"

definition pop :: "bufferedConn \<Rightarrow> bytes option \<times> bufferedConn" where
  "pop c = (if bc_recv c = [] then (None, c) else (Some (last (bc_recv c)), c\<lparr>bc_recv := butlast (bc_recv c)\<rparr>))"

definition conn_recv :: "bytes list \<Rightarrow> bytes option \<times> bytes list" where
  "conn_recv conn = (case conn of [] \<Rightarrow> (None, []) | b # conn' \<Rightarrow> (Some b, conn'))"

definition Recv :: "bufferedConn \<Rightarrow> bytes option \<times> bufferedConn" where
  "Recv c = (case pop c of
       (Some e, c') \<Rightarrow> (Some e, c')
     | (None, c') \<Rightarrow> (case conn_recv (bc_conn c') of (b, conn) \<Rightarrow> (b, c'\<lparr>bc_conn := conn\<rparr>)))"

text \<open>The frames one reads by receiving up to \<open>n\<close> times.\<close>

fun received :: "nat \<Rightarrow> bufferedConn \<Rightarrow> bytes list" where
  "received 0 c = []"
| "received (Suc n) c = (case Recv c of (None, c') \<Rightarrow> [] | (Some b, c') \<Rightarrow> b # received n c')"

text \<open>
  The key exchange, a library function, on a connection: it receives some of the frames
  there, its writes are not recorded. The result is the outcome and the connection
  with the frames it left.
\<close>

definition exchange :: "bufferedConn \<Rightarrow> (('r, 'z) mtserver_scheme, exchange_result \<times> bufferedConn) go" where
  "exchange c = bnd (gets (\<lambda>s. exchanges s (exch_pos s) (received (length (bc_recv c) + length (bc_conn c)) c))) (\<lambda>x.
     bnd (modify (\<lambda>s. s\<lparr>exch_pos := Suc (exch_pos s)\<rparr>)) (\<lambda>_.
     ret (fst x, ((\<lambda>c. snd (Recv c)) ^^ snd x) c)))"

section \<open>Serving a connection\<close>

definition CodeAuthKeyNotFound :: int where "CodeAuthKeyNotFound = 404"

definition sendProtoError :: "nat \<Rightarrow> int \<Rightarrow> (('r, 'z) mtserver_scheme, unit) go" where
  "sendProtoError c code = conn_send c (ProtoError (- code))"

definition zero_key :: bytes where "zero_key = replicate 8 (chr 0)"

text \<open>
  One round of the loop of \<^verbatim>\<open>serveConn\<close>, on the frame \<open>b\<close> that was read and the frames \<open>rest\<close>
  that are still to come: \<open>Some rest'\<close> to go on with \<open>rest'\<close>, \<open>None\<close> to return nil. \<open>n\<close>
  bounds the nesting of containers.
\<close>

definition serve_frame :: "nat \<Rightarrow> 'r lib \<Rightarrow> ('r, 'z) handler \<Rightarrow> int \<Rightarrow> nat \<Rightarrow> bytes \<Rightarrow> bytes list \<Rightarrow>
    (('r, 'z) mtserver_scheme, bytes list option) go" where
  "serve_frame n L H dc c b rest = (case PeekN L 8 b of
     None \<Rightarrow> fail (ErrLib ''peek auth key id'')
   | Some authKeyID \<Rightarrow>
      if authKeyID \<noteq> zero_key then
        bnd (getSession authKeyID) (\<lambda>k. if k \<noteq> None
          then bnd (rpcHandle n L H dc c b) (\<lambda>_. ret (Some rest))
          else bnd (sendProtoError c CodeAuthKeyNotFound) (\<lambda>_. ret (Some rest)))
      else
        bnd (exchange (Push b (newBufferedConn rest))) (\<lambda>(out, bc). case out of
          UnexpectedEncryptedError keyID frame \<Rightarrow>
            bnd (getSession keyID) (\<lambda>k. if k \<noteq> None
              then bnd (rpcHandle n L H dc c frame) (\<lambda>_. ret (Some (bc_conn bc)))
              else bnd (sendProtoError c CodeAuthKeyNotFound) (\<lambda>_. ret (Some (bc_conn bc))))
        | ServerExchangeError code \<Rightarrow> bnd (sendProtoError c code) (\<lambda>_. ret None)
        | ExchangeFailed \<Rightarrow> fail (ErrLib ''key exchange failed'')
        | ExchangedKey key \<Rightarrow> bnd (addSession key) (\<lambda>_. ret (Some (bc_conn bc)))))"

lemma length_Recv: "length (bc_conn (snd (Recv c))) \<le> length (bc_conn c)"
  by (simp add: Recv_def pop_def conn_recv_def split: list.split)

lemma length_Recvs: "length (bc_conn (((\<lambda>c. snd (Recv c)) ^^ k) c)) \<le> length (bc_conn c)"
proof (induction k)
  case (Suc k)
  show ?case
    using order_trans [OF length_Recv Suc] by simp
qed simp

lemma exchange_rest: "exchange c s = (Ok (out, c'), s') \<Longrightarrow> length (bc_conn c') \<le> length (bc_conn c)"
  by (auto simp: exchange_def length_Recvs)

lemma serve_frame_rest:
  assumes "serve_frame n L H dc c b rest s = (Ok (Some rest'), s')"
  shows "length rest' \<le> length rest"
proof -
  have "length rest' \<le> length rest" if "exchange (Push b (newBufferedConn rest)) s = (Ok (out, bc), s1)" "rest' = bc_conn bc"
    for out bc s1
    using exchange_rest [OF that(1)] that(2) by (simp add: Push_def newBufferedConn_def)
  with assms show ?thesis
    unfolding serve_frame_def
    by (force elim!: bnd_OkE split: option.splits if_splits exchange_result.splits prod.splits)
qed

text \<open>The loop of \<^verbatim>\<open>serveConn\<close>. The connection yields the frames given, then an error.\<close>

function serve_loop :: "nat \<Rightarrow> 'r lib \<Rightarrow> ('r, 'z) handler \<Rightarrow> int \<Rightarrow> nat \<Rightarrow> bytes list \<Rightarrow>
    (('r, 'z) mtserver_scheme, unit) go" where
  "serve_loop n L H dc c [] s = (Err (ErrLib ''read''), s)"
| "serve_loop n L H dc c (b # rest) s = (case serve_frame n L H dc c b rest s of
     (Ok (Some rest'), s') \<Rightarrow> serve_loop n L H dc c rest' s'
   | (Ok None, s') \<Rightarrow> (Ok (), s')
   | (Err e, s') \<Rightarrow> (Err e, s')
   | (Panic, s') \<Rightarrow> (Panic, s'))"
  by pat_completeness auto
termination
  by (relation "measure (\<lambda>(n, L, H, dc, c, bs, s). length bs)") (auto dest!: serve_frame_rest [OF sym])

text \<open>The deferred calls of \<^verbatim>\<open>serveConn\<close>.\<close>

definition hangup :: "nat \<Rightarrow> (('r, 'z) mtserver_scheme, unit) go" where
  "hangup c = bnd (removeConn c) (\<lambda>_. conn_close c)"

definition serveConn :: "nat \<Rightarrow> 'r lib \<Rightarrow> ('r, 'z) handler \<Rightarrow> int \<Rightarrow> nat \<Rightarrow> bytes list \<Rightarrow>
    (('r, 'z) mtserver_scheme, unit) go" where
  "serveConn n L H dc c bs s = (case serve_loop n L H dc c bs s of (r, s') \<Rightarrow> (r, snd (hangup c s')))"

section \<open>The server\<close>

text \<open>
  The library objects a server is configured with: the defaults, or the caller's own. The
  default generator of message ids reads the clock of the options.
\<close>

datatype library_object =
    DefaultRand
  | NopLogger
  | SystemClock
  | MessageIDGen library_object
  | AllTypes
  | Supplied nat

record ServerOptions =
  opt_DC :: int
  opt_Random :: "library_object option"
  opt_Logger :: "library_object option"
  opt_Keys :: "InMemoryKeys option"
  opt_Clock :: "library_object option"
  opt_MessageID :: "library_object option"
  opt_Types :: "library_object option"
  opt_ReadTimeout :: int
  opt_WriteTimeout :: int

definition or_default :: "'a option \<Rightarrow> 'a \<Rightarrow> 'a option" where
  "or_default x d = (case x of None \<Rightarrow> Some d | Some _ \<Rightarrow> x)"

definition setDefaults :: "ServerOptions \<Rightarrow> ServerOptions" where
  "setDefaults opt = (let clock = or_default (opt_Clock opt) SystemClock in opt
     \<lparr>opt_DC := (if opt_DC opt = 0 then 2 else opt_DC opt),
      opt_Random := or_default (opt_Random opt) DefaultRand,
      opt_Logger := or_default (opt_Logger opt) NopLogger,
      opt_Keys := or_default (opt_Keys opt) NewInMemoryKeys,
      opt_Clock := clock,
      opt_MessageID := or_default (opt_MessageID opt) (MessageIDGen (the clock)),
      opt_Types := or_default (opt_Types opt) AllTypes,
      opt_ReadTimeout := (if opt_ReadTimeout opt = 0 then seconds 30 else opt_ReadTimeout opt),
      opt_WriteTimeout := (if opt_WriteTimeout opt = 0 then seconds 30 else opt_WriteTimeout opt)\<rparr>)"

text \<open>A new server: the key storage it is given and an empty registry.\<close>

definition NewServer :: "ServerOptions \<Rightarrow> ('r, 'z) mtserver_scheme \<Rightarrow> ('r, 'z) mtserver_scheme" where
  "NewServer opts s = newRegistry (s\<lparr>keys := the (opt_Keys (setDefaults opts))\<rparr>)"

text \<open>
  \<^verbatim>\<open>Serve\<close>: each accepted connection is served by its own goroutine. A step handles one frame of
  one connection (with the further frames of a key exchange), accepts or loses a connection,
  or drops a session from outside (\<^verbatim>\<open>ForceDisconnect\<close>). The first component lists the
  connections being served.
\<close>

inductive mt_step :: "nat \<Rightarrow> 'r lib \<Rightarrow> ('r, 'z) handler \<Rightarrow> int \<Rightarrow>
    nat list \<times> ('r, 'z) mtserver_scheme \<Rightarrow> nat list \<times> ('r, 'z) mtserver_scheme \<Rightarrow> bool"
  for n L H dc where
  mt_accept: "c \<notin> set serving \<Longrightarrow> c \<notin> set (closed s) \<Longrightarrow> mt_step n L H dc (serving, s) (c # serving, s)"
| mt_frame: "c \<in> set serving \<Longrightarrow> serve_frame n L H dc c b rest s = (Ok (Some rest'), s') \<Longrightarrow>
    mt_step n L H dc (serving, s) (serving, s')"
| mt_end: "c \<in> set serving \<Longrightarrow> serve_frame n L H dc c b rest s = (out, s') \<Longrightarrow> out = Ok None \<or> out = Err e \<Longrightarrow>
    mt_step n L H dc (serving, s) (removeAll c serving, snd (hangup c s'))"
| mt_gone: "c \<in> set serving \<Longrightarrow> mt_step n L H dc (serving, s) (removeAll c serving, snd (hangup c s))"
| mt_kick: "mt_step n L H dc (serving, s) (serving, snd (ForceDisconnect k s))"

inductive_cases mt_stepE: "mt_step n L H dc p p'"

inductive mt_reachable :: "nat \<Rightarrow> 'r lib \<Rightarrow> ('r, 'z) handler \<Rightarrow> int \<Rightarrow> ServerOptions \<Rightarrow>
    ('r, 'z) mtserver_scheme \<Rightarrow> nat list \<times> ('r, 'z) mtserver_scheme \<Rightarrow> bool" for n L H dc opts s0 where
  mt_start: "wire s0 = [] \<Longrightarrow> mt_reachable n L H dc opts s0 ([], NewServer opts s0)"
| mt_next: "mt_reachable n L H dc opts s0 p \<Longrightarrow> mt_step n L H dc p p' \<Longrightarrow> mt_reachable n L H dc opts s0 p'"

end
