(* ===== verification/MtLaws.thy ===== *)
theory MtLaws imports MtConn begin

text \<open>
  What the server promises whatever its handler: the contract of a handler, the invariant of
  the registry and of the wire, and that every step keeps it.
\<close>

section \<open>Operations that only send\<close>

text \<open>
  \<open>talks s s'\<close>: from \<open>s\<close> to \<open>s'\<close> keys and connections are the same, and what was written
  are messages to live sessions, each on the connection of its session.
\<close>

definition addressed :: "('r, 'z) mtserver_scheme \<Rightarrow> nat \<times> 'r frame \<Rightarrow> bool" where
  "addressed s w \<longleftrightarrow> (\<exists>key k i m cn. w = (cn_Conn cn, Sealed key k i m) \<and> map_of (conns s) k = Some cn \<and>
     cn_Conn cn \<notin> set (closed s))"

definition talks :: "('r, 'z) mtserver_scheme \<Rightarrow> ('r, 'z) mtserver_scheme \<Rightarrow> bool" where
  "talks s s' \<longleftrightarrow> keys s' = keys s \<and> cache s' = cache s \<and> conns s' = conns s \<and> closed s' = closed s \<and>
     (\<exists>fs. wire s' = wire s @ fs \<and> list_all (addressed s) fs)"

definition only_talks :: "(('r, 'z) mtserver_scheme, 'a) go \<Rightarrow> bool" where
  "only_talks m \<longleftrightarrow> (\<forall>s r s'. m s = (r, s') \<longrightarrow> r \<noteq> Panic \<longrightarrow> talks s s')"

named_theorems talks_rules

lemma only_talksD: "only_talks m \<Longrightarrow> m s = (r, s') \<Longrightarrow> r \<noteq> Panic \<Longrightarrow> talks s s'"
  unfolding only_talks_def by blast

lemma only_talksI: "(\<And>s r s'. m s = (r, s') \<Longrightarrow> r \<noteq> Panic \<Longrightarrow> talks s s') \<Longrightarrow> only_talks m"
  unfolding only_talks_def by blast

lemma talks_refl [simp]: "talks s s"
  by (auto simp: talks_def)

lemma talks_trans:
  assumes "talks s s'" "talks s' s''"
  shows "talks s s''"
proof -
  have "addressed s' = addressed s"
    using assms(1) by (simp add: fun_eq_iff addressed_def talks_def)
  with assms show ?thesis
    by (auto simp: talks_def)
qed

lemma talks_steps [talks_rules]:
  "only_talks (ret x)" "only_talks (fail e)" "only_talks (gets f)" "only_talks gopanic"
  by (simp_all add: only_talks_def)

lemma talks_modify:
  "(\<And>s. keys (f s) = keys s \<and> cache (f s) = cache s \<and> conns (f s) = conns s \<and> closed (f s) = closed s \<and>
    wire (f s) = wire s) \<Longrightarrow> only_talks (modify f)"
  by (simp add: only_talks_def talks_def)

lemma talks_bnd [talks_rules]: "only_talks m \<Longrightarrow> (\<And>x. only_talks (f x)) \<Longrightarrow> only_talks (bnd m f)"
proof (rule only_talksI)
  fix s r s'
  assume *: "only_talks m" "\<And>x. only_talks (f x)" "bnd m f s = (r, s')" "r \<noteq> Panic"
  obtain r1 s1 where m: "m s = (r1, s1)"
    by (cases "m s")
  have "talks s s1" if "r1 \<noteq> Panic"
    using only_talksD [OF *(1) m that] .
  moreover have "f x s1 = (r, s') \<Longrightarrow> talks s1 s'" for x
    using only_talksD [OF *(2) _ *(4)] .
  ultimately show "talks s s'"
    using *(3,4) m by (cases r1) (auto simp: bnd_def intro: talks_trans)
qed

lemma talks_on_err [talks_rules]: "only_talks m \<Longrightarrow> (\<And>x. only_talks (f x)) \<Longrightarrow> only_talks (on_err m f)"
proof (rule only_talksI)
  fix s r s'
  assume *: "only_talks m" "\<And>x. only_talks (f x)" "on_err m f s = (r, s')" "r \<noteq> Panic"
  obtain r1 s1 where m: "m s = (r1, s1)"
    by (cases "m s")
  have "talks s s1" if "r1 \<noteq> Panic"
    using only_talksD [OF *(1) m that] .
  moreover have "f x s1 = (r, s') \<Longrightarrow> talks s1 s'" for x
    using only_talksD [OF *(2) _ *(4)] .
  ultimately show "talks s s'"
    using *(3,4) m by (cases r1) (auto simp: on_err_def intro: talks_trans)
qed

lemma talks_attempt [talks_rules]: "only_talks m \<Longrightarrow> only_talks (attempt m)"
  unfolding only_talks_def attempt_def by (fastforce split: prod.splits outcome.splits)

lemma talks_loop [talks_rules]: "(\<And>x a. only_talks (f x a)) \<Longrightarrow> only_talks (loop f xs a)"
  by (induction xs arbitrary: a) (auto intro!: talks_rules)

lemma talks_if [talks_rules]: "only_talks a \<Longrightarrow> only_talks b \<Longrightarrow> only_talks (if c then a else b)"
  by simp

lemma talks_case_option [talks_rules]:
  "only_talks a \<Longrightarrow> (\<And>x. only_talks (b x)) \<Longrightarrow> only_talks (case v of None \<Rightarrow> a | Some x \<Rightarrow> b x)"
  by (cases v) simp_all

lemma talks_case_type_id:
  "only_talks a \<Longrightarrow> only_talks b \<Longrightarrow> only_talks d \<Longrightarrow> only_talks e \<Longrightarrow> only_talks f \<Longrightarrow> only_talks g \<Longrightarrow>
    only_talks h \<Longrightarrow> only_talks j \<Longrightarrow> only_talks k \<Longrightarrow> (\<And>n. only_talks (l n)) \<Longrightarrow>
    only_talks (case i of PingDelayDisconnectRequestTypeID \<Rightarrow> a | PingRequestTypeID \<Rightarrow> b
      | GetFutureSaltsRequestTypeID \<Rightarrow> d | RPCDropAnswerRequestTypeID \<Rightarrow> e | GZIPTypeID \<Rightarrow> f
      | MessageContainerTypeID \<Rightarrow> g | InvokeWithLayerRequestTypeID \<Rightarrow> h | InitConnectionRequestTypeID \<Rightarrow> j
      | InvokeWithoutUpdatesRequestTypeID \<Rightarrow> k | OtherTypeID n \<Rightarrow> l n)"
  by (cases i) simp_all

lemma talks_case_prod [talks_rules]:
  "(\<And>x y. only_talks (f x y)) \<Longrightarrow> only_talks (case p of (x, y) \<Rightarrow> f x y)"
  by (cases p) simp

lemma talks_case_prod_arg [talks_rules]:
  "(\<And>x y. only_talks (f x y a)) \<Longrightarrow> only_talks ((case p of (x, y) \<Rightarrow> f x y) a)"
  by (cases p) simp

lemma talks_clock [talks_rules]: "only_talks (now :: (('r, 'z) mtserver_scheme, int) go)"
  by (simp add: now_def only_talks_def talks_def)

lemma talks_msgID [talks_rules]: "only_talks (newMsgID t)"
  unfolding newMsgID_def by (intro talks_rules talks_modify) simp

lemma Send_talks [talks_rules]: "only_talks (Send L k t m :: (('r, 'z) mtserver_scheme, unit) go)"
proof (rule only_talksI)
  fix s :: "('r, 'z) mtserver_scheme" and r s'
  assume "Send L k t m s = (r, s')"
  then show "talks s s'"
    by (auto simp: Send_def getConnection_def bnd_def newMsgID_def conn_send_def talks_def addressed_def
        split: option.splits if_splits)
qed

lemma talks_replies [talks_rules]:
  "only_talks (SendResult L req body)" "only_talks (SendErr L req code txt')" "only_talks (SendPong L req p)"
  "only_talks (SendEternalSalt L req)" "only_talks (sendSessionCreated L k salt)" "only_talks (SendBool L req b)"
  "only_talks (SendUpdates L k ups)" "only_talks (SendAck L k ids)"
  unfolding SendErr_def SendBool_def SendResult_def sendReq_def SendPong_def SendEternalSalt_def SendFutureSalts_def
    sendSessionCreated_def SendUpdates_def SendAck_def
  by (intro talks_rules)+

section \<open>The contract of a handler\<close>

text \<open>A handler may use its own state and send to live sessions; it leaves keys and connections alone.\<close>

locale mt_handler =
  fixes H :: "('r, 'z) handler"
  assumes handler_talks: "only_talks (H req)"
begin

lemma deliver_talks: "only_talks (deliverRequest L H req)"
  unfolding deliverRequest_def by (intro talks_rules handler_talks)

lemma handle_talks: "only_talks (handle n L H req)"
proof (induction n arbitrary: req)
  case (Suc n)
  show ?case
    unfolding handle.simps return_error_def by (intro talks_rules talks_case_type_id deliver_talks Suc)
qed (simp add: handle.simps talks_rules)

end

section \<open>The invariant of a server\<close>

text \<open>A session has been told on a connection that it was created.\<close>

definition greeted :: "('r, 'z) mtserver_scheme \<Rightarrow> nat \<Rightarrow> int \<Rightarrow> bool" where
  "greeted s c k \<longleftrightarrow> (\<exists>key i first salt. (c, Sealed key k i (NewSessionCreated first salt)) \<in> set (wire s))"

text \<open>In the order of the wire, a session hears of its creation before anything else.\<close>

definition polite :: "(nat \<times> 'r frame) list \<Rightarrow> bool" where
  "polite w \<longleftrightarrow> (\<forall>u v c key k i m. w = u @ (c, Sealed key k i m) # v \<longrightarrow>
     (\<exists>first salt. m = NewSessionCreated first salt) \<or>
     (\<exists>key' i' first salt. (c, Sealed key' k i' (NewSessionCreated first salt)) \<in> set u))"

text \<open>
  The invariant, for the connections \<open>serving\<close>: the sessions outside the connections \<open>X\<close> have been
  greeted; during a step \<open>X\<close> is the connection that is about to be dropped.
\<close>

definition mt_inv :: "nat set \<Rightarrow> nat list \<Rightarrow> ('r, 'z) mtserver_scheme \<Rightarrow> bool" where
  "mt_inv X serving s \<longleftrightarrow> mwf (conns s) \<and> polite (wire s) \<and> mem_keys.filed (cache s) \<and> mem_keys.filed (keys s) \<and>
     (\<forall>k cn. map_of (conns s) k = Some cn \<longrightarrow>
        cn_Conn cn \<in> set serving \<and> (cn_Conn cn \<notin> X \<longrightarrow> cn_sent cn \<and> greeted s (cn_Conn cn) k))"

definition writes :: "nat list \<Rightarrow> ('r, 'z) mtserver_scheme \<Rightarrow> ('r, 'z) mtserver_scheme \<Rightarrow> bool" where
  "writes serving s s' \<longleftrightarrow> (\<exists>fs. wire s' = wire s @ fs \<and> fst ` set fs \<subseteq> set serving - set (closed s))"

lemma polite_Nil [simp]: "polite []"
  by (simp add: polite_def)

lemma polite_snoc:
  assumes "polite w"
    and "\<And>key k i m. f = Sealed key k i m \<Longrightarrow> (\<exists>a b. m = NewSessionCreated a b) \<or>
      (\<exists>key' i' a b. (c, Sealed key' k i' (NewSessionCreated a b)) \<in> set w)"
  shows "polite (w @ [(c, f)])"
  unfolding polite_def
proof (intro allI impI)
  fix u v c' key k i m
  assume eq: "w @ [(c, f)] = u @ (c', Sealed key k i m) # v"
  show "(\<exists>first salt. m = NewSessionCreated first salt) \<or>
     (\<exists>key' i' first salt. (c', Sealed key' k i' (NewSessionCreated first salt)) \<in> set u)"
  proof (cases v rule: rev_cases)
    case Nil
    with eq assms(2) show ?thesis
      by auto
  next
    case (snoc v' y)
    with eq have "w = u @ (c', Sealed key k i m) # v'"
      by simp
    with assms(1) show ?thesis
      unfolding polite_def by blast
  qed
qed

lemma greeted_more: "greeted s c k \<Longrightarrow> wire s' = wire s @ fs \<Longrightarrow> greeted s' c k"
  unfolding greeted_def by auto

lemma writes_refl [simp]: "writes serving s s"
  by (simp add: writes_def)

lemma writes_same: "wire s' = wire s \<Longrightarrow> writes serving s s'"
  by (simp add: writes_def)

lemma writes_trans:
  assumes "writes serving s s'" "writes serving s' s''" "closed s' = closed s"
  shows "writes serving s s''"
proof -
  obtain fs gs where "wire s' = wire s @ fs" "wire s'' = wire s' @ gs"
    "fst ` set fs \<subseteq> set serving - set (closed s)" "fst ` set gs \<subseteq> set serving - set (closed s)"
    using assms by (auto simp: writes_def)
  then show ?thesis
    unfolding writes_def by (intro exI [of _ "fs @ gs"]) (simp add: image_Un)
qed

lemma polite_greeted:
  assumes "polite w" "\<And>c f. (c, f) \<in> set fs \<Longrightarrow> \<exists>key k i m. f = Sealed key k i m \<and>
    (\<exists>key' i' a b. (c, Sealed key' k i' (NewSessionCreated a b)) \<in> set w)"
  shows "polite (w @ fs)"
  using assms(2)
proof (induction fs rule: rev_induct)
  case (snoc f fs)
  obtain c g where f: "f = (c, g)"
    by (cases f)
  have all: "\<exists>key k i m. f' = Sealed key k i m \<and> (\<exists>key' i' a b. (c', Sealed key' k i' (NewSessionCreated a b)) \<in> set w)"
    if "(c', f') \<in> set (fs @ [(c, g)])" for c' f'
    using snoc.prems that unfolding f by blast
  then have "polite (w @ fs)"
    by (intro snoc.IH) simp
  moreover have "\<exists>key' i' a b. (c, Sealed key' k i' (NewSessionCreated a b)) \<in> set (w @ fs)"
    if "g = Sealed key k i m" for key k i m
    using all [of c g] that by auto
  ultimately have "polite ((w @ fs) @ [(c, g)])"
    by (intro polite_snoc) blast+
  then show ?case
    by (simp add: f)
qed (use assms(1) in simp)

lemma talks_inv:
  assumes "talks s s'" "mt_inv {} serving s"
  shows "mt_inv {} serving s' \<and> writes serving s s' \<and> closed s' = closed s"
proof -
  obtain fs where fs: "wire s' = wire s @ fs" "list_all (addressed s) fs"
    using assms(1) by (auto simp: talks_def)
  have conn: "\<exists>key k i m cn. f = Sealed key k i m \<and> map_of (conns s) k = Some cn \<and> cn_Conn cn = c \<and> c \<notin> set (closed s)"
    if "(c, f) \<in> set fs" for c f
    using fs(2) that by (fastforce simp: list_all_iff addressed_def)
  have inv: "mwf (conns s)" "polite (wire s)" "\<And>k cn. map_of (conns s) k = Some cn \<Longrightarrow>
      cn_Conn cn \<in> set serving \<and> cn_sent cn \<and> greeted s (cn_Conn cn) k"
    using assms(2) by (auto simp: mt_inv_def)
  have "polite (wire s @ fs)"
  proof (rule polite_greeted [OF inv(2)])
    fix c f
    assume "(c, f) \<in> set fs"
    then obtain key k i m cn where f: "f = Sealed key k i m" "map_of (conns s) k = Some cn" "cn_Conn cn = c"
      using conn by blast
    with inv(3) [OF f(2)] show "\<exists>key k i m. f = Sealed key k i m \<and>
        (\<exists>key' i' a b. (c, Sealed key' k i' (NewSessionCreated a b)) \<in> set (wire s))"
      by (auto simp: greeted_def)
  qed
  moreover have "greeted s' (cn_Conn cn) k" if "map_of (conns s) k = Some cn" for k cn
    using inv(3) [OF that] greeted_more fs(1) by blast
  moreover have "writes serving s s'"
  proof -
    have "c \<in> set serving - set (closed s)" if "(c, f) \<in> set fs" for c f
      using conn [OF that] inv(3) by blast
    then show ?thesis
      unfolding writes_def using fs(1) by (intro exI [of _ fs]) auto
  qed
  ultimately show ?thesis
    using assms inv fs(1) by (auto simp: mt_inv_def talks_def)
qed

end
