(* ===== verification/MtInv.thy ===== *)
theory MtInv imports MtLaws begin

text \<open>The invariant is kept by every step, whatever handler meets its contract.\<close>

section \<open>Keys\<close>

lemma filed_get: "mem_keys.filed m \<Longrightarrow> map_of m i = Some k \<Longrightarrow> ak_ID k = i"
  unfolding mem_keys.filed_def InMemoryKeys_Get_def by blast

lemma filed_mput: "mem_keys.filed m \<Longrightarrow> mem_keys.filed (mput (ak_ID k) k m)"
  using mem_keys.filed_save [of m k] by (simp add: InMemoryKeys_Save_def)

lemma getSession_frame:
  assumes "getSession i s = (r, s')"
  shows "conns s' = conns s \<and> wire s' = wire s \<and> closed s' = closed s \<and> keys s' = keys s"
  using assms
  by (cases "map_of (cache s) i")
    (auto simp: getSession_cached getSession_stored Let_def split: if_splits option.splits)

lemma getSession_inv:
  assumes "getSession i s = (r, s')" "mt_inv X serving s"
  shows "mt_inv X serving s'"
proof -
  have "mem_keys.filed (cache s')"
  proof (cases "map_of (cache s) i")
    case (Some k)
    with assms show ?thesis
      by (simp add: getSession_cached mt_inv_def)
  next
    case None
    have "mem_keys.filed (mput i k (cache s))" if "map_of (keys s) i = Some k" for k
      using filed_get [OF _ that] filed_mput [of "cache s" k] assms(2) by (auto simp: mt_inv_def)
    with None assms show ?thesis
      by (auto simp: getSession_stored mt_inv_def Let_def split: if_splits option.splits)
  qed
  with assms getSession_frame [OF assms(1)] show ?thesis
    by (simp add: mt_inv_def greeted_def)
qed

lemma addSession_inv:
  assumes "addSession key s = (r, s')" "mt_inv X serving s"
  shows "mt_inv X serving s' \<and> wire s' = wire s \<and> closed s' = closed s"
  using assms filed_mput by (auto simp: addSession_run Let_def mt_inv_def greeted_def split: if_splits)

section \<open>Announcing a session\<close>

text \<open>What \<open>rpcHandle\<close> does before it handles the message.\<close>

definition announce :: "'r lib \<Rightarrow> mtSession \<Rightarrow> nat \<Rightarrow> (('r, 'z) mtserver_scheme, unit) go" where
  "announce L session c = bnd (createConnection (mts_ID session) c) (\<lambda>_.
     bnd (sentCreated (mts_ID session)) (\<lambda>sent.
     if sent then ret () else sendSessionCreated L session (session_salt (mts_AuthKey session))))"

lemma bnd_assoc: "bnd (bnd m f) g = bnd m (\<lambda>x. bnd (f x) g)"
  by (auto simp: bnd_def split: prod.split outcome.split)

lemma rpcHandle_announce:
  "rpcHandle n L H dc c b = (case decodeEncrypted L b of
       None \<Rightarrow> fail (ErrLib ''decode encrypted message'')
     | Some m \<Rightarrow> bnd (getSession (em_AuthKeyID m)) (\<lambda>k. case k of
         None \<Rightarrow> fail (ErrLib ''invalid session'')
       | Some key \<Rightarrow> (case Decrypt L key m of
           None \<Rightarrow> fail (ErrLib ''decrypt message'')
         | Some msg \<Rightarrow> bnd (announce L \<lparr>mts_ID = ed_SessionID msg, mts_AuthKey = key\<rparr> c) (\<lambda>_.
            handle n L H \<lparr>rq_DC = dc, rq_Session = \<lparr>mts_ID = ed_SessionID msg, mts_AuthKey = key\<rparr>,
              rq_MsgID = ed_MessageID msg, rq_Buf = ed_Data msg\<rparr>))))"
  unfolding rpcHandle_def announce_def bnd_assoc Let_def mtSession.simps ..

text \<open>A session that is live on the connection is not announced again.\<close>

lemma announce_live:
  assumes "map_of (conns s) (mts_ID session) = Some cn" "cn_Conn cn = c" "cn_sent cn"
  shows "announce L session c s = (Ok (), s\<lparr>conns := mmod (mts_ID session) (\<lambda>cn. cn\<lparr>cn_sent := True\<rparr>) (conns s)\<rparr>)"
  using assms by (simp add: announce_def createConnection_def sentCreated_def bnd_def)

lemma mmod_same: "map_of m k = Some v \<Longrightarrow> f v = v \<Longrightarrow> map_of (mmod k f m) = map_of m"
  by (auto simp: fun_eq_iff)

text \<open>Otherwise the entry is new, and the announcement is the one frame that is written.\<close>

lemma announce_new:
  assumes "\<not> (\<exists>cn. map_of (conns s) (mts_ID session) = Some cn \<and> cn_Conn cn = c)"
    and "announce L session c s = (r, s')"
  obtains (failed) e where "r = Err e" "wire s' = wire s" "closed s' = closed s" "keys s' = keys s" "cache s' = cache s"
    "mwf (conns s) \<Longrightarrow> mwf (conns s')"
    "map_of (conns s') = (map_of (conns s))(mts_ID session \<mapsto> \<lparr>cn_Conn = c, cn_sent = True\<rparr>)"
  | (sent) i first where "r = Ok ()" "closed s' = closed s" "keys s' = keys s" "cache s' = cache s"
    "c \<notin> set (closed s)" "mwf (conns s) \<Longrightarrow> mwf (conns s')"
    "map_of (conns s') = (map_of (conns s))(mts_ID session \<mapsto> \<lparr>cn_Conn = c, cn_sent = True\<rparr>)"
    "wire s' = wire s @ [(c, Sealed (mts_AuthKey session) (mts_ID session) i
        (NewSessionCreated first (session_salt (mts_AuthKey session))))]"
proof -
  define s1 where "s1 = s\<lparr>conns := mmod (mts_ID session) (\<lambda>cn. cn\<lparr>cn_sent := True\<rparr>)
    (mput (mts_ID session) \<lparr>cn_Conn = c, cn_sent = False\<rparr> (conns s))\<rparr>"
  have run: "announce L session c s = sendSessionCreated L session (session_salt (mts_AuthKey session)) s1"
    using assms(1) by (auto simp: announce_def createConnection_def sentCreated_def bnd_def s1_def split: option.splits)
  have conns: "map_of (conns s1) = (map_of (conns s))(mts_ID session \<mapsto> \<lparr>cn_Conn = c, cn_sent = True\<rparr>)"
    "mwf (conns s) \<Longrightarrow> mwf (conns s1)"
    by (auto simp: s1_def fun_eq_iff)
  have same: "wire s1 = wire s" "closed s1 = closed s" "keys s1 = keys s" "cache s1 = cache s"
    by (simp_all add: s1_def)
  define salt where "salt = session_salt (mts_AuthKey session)"
  have "(\<exists>e. r = Err e) \<and> wire s' = wire s1 \<and> closed s' = closed s1 \<and> keys s' = keys s1 \<and> cache s' = cache s1 \<and>
      conns s' = conns s1 \<or>
    (\<exists>i first. r = Ok () \<and> closed s' = closed s1 \<and> keys s' = keys s1 \<and> cache s' = cache s1 \<and>
      conns s' = conns s1 \<and> c \<notin> set (closed s1) \<and>
      wire s' = wire s1 @ [(c, Sealed (mts_AuthKey session) (mts_ID session) i (NewSessionCreated first salt))])"
    using assms(2) unfolding run salt_def [symmetric]
    by (auto simp: sendSessionCreated_def newMsgID_def Send_def getConnection_def conn_send_def bnd_def conns
        split: if_splits)
  with conns same failed sent show thesis
    unfolding salt_def by (elim disjE exE conjE) simp_all
qed

lemma announce_inv:
  assumes "announce L session c s = (r, s')" "mt_inv {} serving s" "c \<in> set serving"
  shows "mt_inv {c} serving s' \<and> writes serving s s' \<and> closed s' = closed s \<and> (r = Ok () \<longrightarrow> mt_inv {} serving s')"
proof (cases "\<exists>cn. map_of (conns s) (mts_ID session) = Some cn \<and> cn_Conn cn = c")
  case True
  then obtain cn where cn: "map_of (conns s) (mts_ID session) = Some cn" "cn_Conn cn = c"
    by blast
  then have sent: "cn_sent cn"
    using assms(2) by (auto simp: mt_inv_def)
  note announce_live [OF cn sent, of L]
  with assms show ?thesis
    using mmod_same [OF cn(1), of "\<lambda>cn. cn\<lparr>cn_sent := True\<rparr>"] sent
    by (auto simp: mt_inv_def greeted_def writes_def)
next
  case False
  have inv: "mwf (conns s)" "polite (wire s)" "mem_keys.filed (cache s)" "mem_keys.filed (keys s)"
    "\<And>k cn. map_of (conns s) k = Some cn \<Longrightarrow>
      cn_Conn cn \<in> set serving \<and> cn_sent cn \<and> greeted s (cn_Conn cn) k"
    using assms(2) by (auto simp: mt_inv_def)
  from False assms(1) show ?thesis
  proof (cases rule: announce_new)
    case failed
    have "greeted s' = greeted s"
      by (simp add: greeted_def fun_eq_iff failed)
    with failed inv assms(3) show ?thesis
      by (auto simp: mt_inv_def writes_def split: if_splits)
  next
    case (sent i first)
    have "greeted s' c (mts_ID session)" "\<And>c' k. greeted s c' k \<Longrightarrow> greeted s' c' k"
      by (auto simp: greeted_def sent(8))
    moreover have "polite (wire s')"
      unfolding sent(8) by (rule polite_snoc [OF inv(2)]) simp
    ultimately show ?thesis
      using sent inv assms(3) by (auto simp: mt_inv_def writes_def split: if_splits)
  qed
qed

section \<open>Steps\<close>

lemma bnd_cases:
  assumes "bnd m f s = (r, s')" "r \<noteq> Panic"
  obtains (err) e where "m s = (Err e, s')" "r = Err e" | (ok) x s1 where "m s = (Ok x, s1)" "f x s1 = (r, s')"
  using assms by (auto simp: bnd_def split: prod.splits outcome.splits)

lemma mt_inv_mono: "mt_inv X serving s \<Longrightarrow> X \<subseteq> Y \<Longrightarrow> mt_inv Y serving s"
  by (auto simp: mt_inv_def)

text \<open>The effect of a step on behalf of connection \<open>c\<close>.\<close>

definition step_ok :: "nat \<Rightarrow> nat list \<Rightarrow> ('r, 'z) mtserver_scheme \<Rightarrow> ('r, 'z) mtserver_scheme \<Rightarrow> bool" where
  "step_ok c serving s s' \<longleftrightarrow> mt_inv {c} serving s' \<and> writes serving s s' \<and> closed s' = closed s"

lemma step_okI: "mt_inv X serving s' \<Longrightarrow> X \<subseteq> {c} \<Longrightarrow> writes serving s s' \<Longrightarrow> closed s' = closed s \<Longrightarrow> step_ok c serving s s'"
  using mt_inv_mono by (auto simp: step_ok_def)

lemma sendProtoError_step:
  assumes "sendProtoError c code s = (r, s')" "mt_inv {} serving s" "c \<in> set serving"
  shows "step_ok c serving s s' \<and> mt_inv {} serving s'"
proof -
  have "conns s' = conns s" "keys s' = keys s" "cache s' = cache s" "closed s' = closed s"
    "wire s' = wire s \<or> wire s' = wire s @ [(c, ProtoError (- code))] \<and> c \<notin> set (closed s)"
    using assms(1) by (auto simp: sendProtoError_def conn_send_def split: if_splits)
  moreover have "polite (wire s @ [(c, ProtoError (- code))])"
    using assms(2) by (intro polite_snoc) (auto simp: mt_inv_def)
  ultimately show ?thesis
    using assms(2,3) by (auto simp: step_ok_def mt_inv_def writes_def greeted_def)
qed

lemma step_ok_trans:
  assumes "wire s1 = wire s" "closed s1 = closed s" "step_ok c serving s1 s'"
  shows "step_ok c serving s s'"
  using assms by (auto simp: step_ok_def writes_def)

context mt_handler begin

lemma rpcHandle_step:
  assumes run: "rpcHandle n L H dc c b s = (r, s')" "r \<noteq> Panic" and inv: "mt_inv {} serving s" "c \<in> set serving"
  shows "step_ok c serving s s' \<and> (r = Ok () \<longrightarrow> mt_inv {} serving s')"
proof (cases "decodeEncrypted L b")
  case None
  with assms show ?thesis
    by (auto simp: rpcHandle_def intro: step_okI)
next
  case (Some m)
  obtain r1 s1 where get: "getSession (em_AuthKeyID m) s = (r1, s1)"
    by (cases "getSession (em_AuthKeyID m) s")
  note s1 = getSession_inv [OF get inv(1)] getSession_frame [OF get]
  have stop: ?thesis if "s' = s1" "r = Err e" for e
    using that s1 by (auto intro: step_okI writes_same)
  show ?thesis
  proof (cases r1)
    case (Ok k)
    show ?thesis
    proof (cases "case k of None \<Rightarrow> None | Some key \<Rightarrow> Decrypt L key m")
      case None
      with run Some get Ok have "s' = s1 \<and> (\<exists>e. r = Err e)"
        by (auto simp: rpcHandle_announce bnd_def split: option.splits)
      then show ?thesis
        using stop by blast
    next
      case (Some msg)
      then obtain key where key: "k = Some key" "Decrypt L key m = Some msg"
        by (auto split: option.splits)
      define session where "session = \<lparr>mts_ID = ed_SessionID msg, mts_AuthKey = key\<rparr>"
      have rest: "bnd (announce L session c) (\<lambda>_. handle n L H \<lparr>rq_DC = dc, rq_Session = session,
          rq_MsgID = ed_MessageID msg, rq_Buf = ed_Data msg\<rparr>) s1 = (r, s')"
        using run(1) \<open>decodeEncrypted L b = Some m\<close> get Ok key
        by (simp add: rpcHandle_announce bnd_def session_def)
      have "step_ok c serving s1 s' \<and> (r = Ok () \<longrightarrow> mt_inv {} serving s')"
        using rest run(2)
      proof (cases rule: bnd_cases)
        case (err e)
        with announce_inv [OF err(1) s1(1) inv(2)] show ?thesis
          by (simp add: step_ok_def)
      next
        case (ok u s2)
        then have s2: "mt_inv {} serving s2" "writes serving s1 s2" "closed s2 = closed s1"
          using announce_inv [OF ok(1) s1(1) inv(2)] by simp_all
        from talks_inv [OF only_talksD [OF handle_talks ok(2) run(2)] s2(1)] s2(2,3) show ?thesis
          by (auto intro: step_okI writes_trans)
      qed
      then show ?thesis
        using s1(2) step_ok_trans by blast
    qed
  next
    case (Err e)
    with run Some get have "s' = s1" "r = Err e"
      by (simp_all add: rpcHandle_announce bnd_def)
    then show ?thesis
      by (rule stop)
  qed (use run Some get in \<open>simp add: rpcHandle_announce bnd_def\<close>)
qed

lemma serve_frame_step:
  assumes run: "serve_frame n L H dc c b rest s = (r, s')" "r \<noteq> Panic" and inv: "mt_inv {} serving s" "c \<in> set serving"
  shows "step_ok c serving s s' \<and> (\<forall>rest'. r = Ok (Some rest') \<longrightarrow> mt_inv {} serving s')"
proof -
  have known: "step_ok c serving s s' \<and> (\<forall>rest'. r = Ok (Some rest') \<longrightarrow> mt_inv {} serving s')"
    if run: "bnd (getSession i) (\<lambda>k. if k \<noteq> None
        then bnd (rpcHandle n L H dc c f) (\<lambda>_. ret (Some y))
        else bnd (sendProtoError c CodeAuthKeyNotFound) (\<lambda>_. ret (Some y))) s = (r, s')"
      and inv: "mt_inv {} serving s" for i f y and s :: "('r, 'z) mtserver_scheme"
    using run \<open>r \<noteq> Panic\<close>
  proof (cases rule: bnd_cases)
    case (err e)
    with getSession_inv [OF err(1) inv] getSession_frame [OF err(1)] show ?thesis
      by (auto intro: step_okI writes_same)
  next
    case (ok k s1)
    note s1 = getSession_inv [OF ok(1) inv] getSession_frame [OF ok(1)]
    have "step_ok c serving s1 s' \<and> (\<forall>rest'. r = Ok (Some rest') \<longrightarrow> mt_inv {} serving s')"
    proof (cases "k = None")
      case True
      with ok(2) have "bnd (sendProtoError c CodeAuthKeyNotFound) (\<lambda>_. ret (Some y)) s1 = (r, s')"
        by simp
      then show ?thesis
        using \<open>r \<noteq> Panic\<close> sendProtoError_step [OF _ s1(1) \<open>c \<in> set serving\<close>]
        by (cases rule: bnd_cases) auto
    next
      case False
      with ok(2) have "bnd (rpcHandle n L H dc c f) (\<lambda>_. ret (Some y)) s1 = (r, s')"
        by simp
      then show ?thesis
        using \<open>r \<noteq> Panic\<close> rpcHandle_step [OF _ _ s1(1) \<open>c \<in> set serving\<close>]
        by (cases rule: bnd_cases) fastforce+
    qed
    then show ?thesis
      using s1(2) step_ok_trans by blast
  qed
  show ?thesis
  proof (cases "PeekN L 8 b")
    case None
    with run inv show ?thesis
      by (auto simp: serve_frame_def intro: step_okI)
  next
    case (Some i)
    show ?thesis
    proof (cases "i = zero_key")
      case False
      with Some run(1) show ?thesis
        using known [OF _ inv(1)] by (simp add: serve_frame_def)
    next
      case True
      obtain out bc s1 where ex: "exchange (Push b (newBufferedConn rest)) s = (Ok (out, bc), s1)"
        and s1: "s1 = s\<lparr>exch_pos := Suc (exch_pos s)\<rparr>"
        by (simp add: exchange_def)
      have inv1: "mt_inv {} serving s1" "wire s1 = wire s" "closed s1 = closed s"
        using inv(1) by (simp_all add: s1 mt_inv_def greeted_def)
      note run = run(1) [unfolded serve_frame_def Some option.case True]
      have "step_ok c serving s1 s' \<and> (\<forall>rest'. r = Ok (Some rest') \<longrightarrow> mt_inv {} serving s')"
      proof (cases out)
        case (ExchangedKey key)
        with run ex have "bnd (addSession key) (\<lambda>_. ret (Some (bc_conn bc))) s1 = (r, s')"
          by (simp add: bnd_def)
        then show ?thesis
          using \<open>r \<noteq> Panic\<close> addSession_inv [OF _ inv1(1)]
          by (cases rule: bnd_cases) (auto intro!: step_okI writes_same)
      next
        case (UnexpectedEncryptedError k frame)
        with run ex show ?thesis
          using known [OF _ inv1(1)] by (simp add: bnd_def)
      next
        case (ServerExchangeError code)
        with run ex have "bnd (sendProtoError c code) (\<lambda>_. ret None) s1 = (r, s')"
          by (simp add: bnd_def)
        then show ?thesis
          using \<open>r \<noteq> Panic\<close> sendProtoError_step [OF _ inv1(1) inv(2)]
          by (cases rule: bnd_cases) auto
      next
        case ExchangeFailed
        with run ex inv1(1) show ?thesis
          by (auto simp: bnd_def intro: step_okI)
      qed
      then show ?thesis
        using inv1(2,3) step_ok_trans by blast
    qed
  qed
qed

end

text \<open>Keys come to the storage by \<open>Save\<close> only, also those it has at the start.\<close>

definition stored_keys :: "ServerOptions \<Rightarrow> bool" where
  "stored_keys opts \<longleftrightarrow> (\<forall>ks. opt_Keys opts = Some ks \<longrightarrow> mem_keys.filed ks)"

lemma hangup_run: "hangup c s = (Ok (), s\<lparr>conns := filter (\<lambda>(_, cn). cn_Conn cn \<noteq> c) (conns s), closed := c # closed s\<rparr>)"
  by (simp add: hangup_def removeConn_def conn_close_def)

lemma conns_hangup:
  "mwf (conns s) \<Longrightarrow> map_of (conns (snd (hangup c s))) k =
    (case map_of (conns s) k of Some cn \<Rightarrow> if cn_Conn cn = c then None else Some cn | None \<Rightarrow> None)"
  using map_of_removeConn [of s c k] by (simp add: hangup_run removeConn_def)

lemma hangup_inv: "mt_inv {c} serving s \<Longrightarrow> mt_inv {} (removeAll c serving) (snd (hangup c s))"
  using conns_hangup [of s c]
  by (auto simp: mt_inv_def hangup_run mwf_filter greeted_def split: option.splits if_splits)

lemma kick_inv:
  assumes "mt_inv {} serving s"
  shows "mt_inv {} serving (snd (ForceDisconnect k s)) \<and> wire (snd (ForceDisconnect k s)) = wire s"
  using assms
  by (auto simp: ForceDisconnect_def deleteConnection_def getConnection_def conn_close_def bnd_def mt_inv_def
      greeted_def split: option.splits)

context mt_handler begin

lemma step_inv:
  assumes "mt_step n L H dc (serving, s) (serving', s')" "mt_inv {} serving s"
  shows "mt_inv {} serving' s' \<and> writes serving s s'"
  using assms(1)
proof (cases rule: mt_step.cases)
  case (mt_frame c b rest rest')
  with serve_frame_step [OF mt_frame(3) _ assms(2)] show ?thesis
    by (simp add: step_ok_def)
next
  case (mt_end c b rest out s1 e)
  have "step_ok c serving s s1"
    using serve_frame_step [OF mt_end(4) _ assms(2)] mt_end by auto
  then have "mt_inv {} (removeAll c serving) (snd (hangup c s1))" "writes serving s s1"
    by (simp_all add: step_ok_def hangup_inv)
  with mt_end show ?thesis
    by (simp add: writes_def hangup_run)
next
  case (mt_gone c)
  have "mt_inv {} (removeAll c serving) (snd (hangup c s))"
    using mt_inv_mono [OF assms(2)] by (intro hangup_inv) simp
  with mt_gone show ?thesis
    by (simp add: hangup_run writes_def)
next
  case (mt_kick k)
  with kick_inv [OF assms(2)] show ?thesis
    by (auto simp: writes_def)
qed (use assms(2) in \<open>auto simp: mt_inv_def writes_def\<close>)

lemma reachable_inv:
  assumes "mt_reachable n L H dc opts s0 p" "stored_keys opts"
  shows "mt_inv {} (fst p) (snd p)"
  using assms
proof (induction rule: mt_reachable.induct)
  case mt_start
  then show ?case
    by (auto simp: NewServer_def newRegistry_def setDefaults_def or_default_def Let_def mt_inv_def stored_keys_def mem_keys.filed_def
        NewInMemoryKeys_def InMemoryKeys_Get_def split: option.splits)
next
  case (mt_next p p')
  then show ?case
    using step_inv by (metis prod.collapse)
qed

end

end
