(* ===== verification/MtRpc.thy ===== *)
theory MtRpc imports MtInv RpcTotal begin

text \<open>
  The RPC handler as the handler of the MTProto server: it meets the contract, since it never
  touches keys and connections.
\<close>

section \<open>What the RPC handler does to the MTProto state\<close>

lemma talks_more_rules [talks_rules]:
  "(\<And>x. only_talks (f x)) \<Longrightarrow> only_talks (Let v f)"
  "(\<And>x. only_talks (a x)) \<Longrightarrow> (\<And>y. only_talks (b y)) \<Longrightarrow> only_talks (case q of Inl x \<Rightarrow> a x | Inr y \<Rightarrow> b y)"
  "only_talks u \<Longrightarrow> (\<And>i j. only_talks (g i j)) \<Longrightarrow> only_talks d \<Longrightarrow>
    only_talks (case p of InputPeerSelf \<Rightarrow> u | InputPeerUser i j \<Rightarrow> g i j | InputPeerOther \<Rightarrow> d)"
  "only_talks u \<Longrightarrow> (\<And>i j. only_talks (g i j)) \<Longrightarrow> only_talks d \<Longrightarrow>
    only_talks (case iu of InputUserSelf \<Rightarrow> u | InputUser i j \<Rightarrow> g i j | InputUserOther \<Rightarrow> d)"
  "(\<And>p. only_talks (k p)) \<Longrightarrow> only_talks d \<Longrightarrow>
    only_talks (case dp of InputDialogPeer p \<Rightarrow> k p | InputDialogPeerOther \<Rightarrow> d)"
  "only_talks m \<Longrightarrow> only_talks (internal m)"
  "(\<And>x. only_talks (h x)) \<Longrightarrow> only_talks (collect h xs)"
  unfolding internal_def collect_def
  by (simp_all add: Let_def split: sum.split input_peer.split input_user.split input_dialog_peer.split)
    (intro talks_rules | assumption)+

lemma calls_reads [talks_rules]:
  "only_talks (UserByID uid :: (('r, 'z) mtserver_scheme, User option) go)"
  "only_talks (SessionUserID k :: (('r, 'z) mtserver_scheme, int option) go)"
  "only_talks (PermAuthKey k :: (('r, 'z) mtserver_scheme, bytes option) go)"
  "only_talks (requireDB :: (('r, 'z) mtserver_scheme, unit) go)"
  "only_talks (requireStore :: (('r, 'z) mtserver_scheme, unit) go)"
  "only_talks (userStatus uid self :: (('r, 'z) mtserver_scheme, user_status) go)"
  unfolding UserByID_def SessionUserID_def PermAuthKey_def requireDB_def requireStore_def userStatus_def
  by (intro talks_rules)+

lemma calls_effectiveKeyID [talks_rules]: "only_talks (effectiveKeyID k :: (('r, 'z) mtserver_scheme, bytes) go)"
  unfolding effectiveKeyID_def by (intro talks_rules)

lemma calls_callers [talks_rules]:
  "only_talks (callerUser c :: (('r, 'z) mtserver_scheme, User option) go)"
  "only_talks (tgUser u self :: (('r, 'z) mtserver_scheme, tg_user) go)"
  unfolding callerUser_def tgUser_def by (intro talks_rules)+

lemma calls_lookups [talks_rules]:
  "only_talks (requireCaller c :: (('r, 'z) mtserver_scheme, User) go)"
  "only_talks (resolvePeerUser u peer :: (('r, 'z) mtserver_scheme, User) go)"
  "only_talks (tgUsers us :: (('r, 'z) mtserver_scheme, user_class list) go)"
  unfolding requireCaller_def resolvePeerUser_def tgUsers_def by (intro talks_rules)+

lemma calls_live [talks_rules]:
  "only_talks (track uid s :: (('r, 'z) mtserver_scheme, unit) go)"
  "only_talks (untrack uid sid :: (('r, 'z) mtserver_scheme, unit) go)"
  "only_talks (server_send s w :: (('r, 'z) mtserver_scheme, unit) go)"
  unfolding track_def untrack_def server_send_def
  by (intro talks_rules talks_modify; simp split: option.split)+

lemma calls_push [talks_rules]: "only_talks (push c uid us date ups :: (('r, 'z) mtserver_scheme, unit) go)"
  unfolding push_def by (intro talks_rules)

lemma calls_deliver [talks_rules]: "only_talks (deliver c u p sent txt :: (('r, 'z) mtserver_scheme, unit) go)"
  unfolding deliver_def by (intro talks_rules)

lemma runs_rand_read [talks_rules]: "only_talks (rand_read n :: (('r, 'z) mtserver_scheme, bytes) go)"
  by (simp add: only_talks_def talks_def rand_read_def)

lemma runs_setUser [talks_rules]: "only_talks (setUser uid f :: (('r, 'z) mtserver_scheme, unit) go)"
  unfolding setUser_def by (rule talks_modify) simp

lemma runs_accounts [talks_rules]:
  "only_talks (CreateUser ph fn ln :: (('r, 'z) mtserver_scheme, User) go)"
  "only_talks (CreateBot token un fn :: (('r, 'z) mtserver_scheme, User) go)"
  "only_talks (CreateOwnedBot un fn ow secret :: (('r, 'z) mtserver_scheme, User) go)"
  "only_talks (SetProfile uid a b d :: (('r, 'z) mtserver_scheme, User) go)"
  "only_talks (SetUsername uid un :: (('r, 'z) mtserver_scheme, User) go)"
  "only_talks (SetBotToken uid token :: (('r, 'z) mtserver_scheme, unit) go)"
  unfolding CreateUser_def CreateBot_def CreateOwnedBot_def SetProfile_def SetUsername_def SetBotToken_def
    nextUserID_def genAccessHash_def insertUser_def
  by (intro talks_rules talks_modify; simp)+

lemma runs_lookups [talks_rules]:
  "only_talks (UserByPhone ph :: (('r, 'z) mtserver_scheme, User option) go)"
  "only_talks (UserByUsername un :: (('r, 'z) mtserver_scheme, User option) go)"
  "only_talks (BotByToken token :: (('r, 'z) mtserver_scheme, User option) go)"
  "only_talks (BotsByOwner uid :: (('r, 'z) mtserver_scheme, User list) go)"
  "only_talks (SearchUsers q n :: (('r, 'z) mtserver_scheme, User list) go)"
  "only_talks (UsersByIDs uids :: (('r, 'z) mtserver_scheme, User list) go)"
  "only_talks (PhoneCode ph code :: (('r, 'z) mtserver_scheme, string option) go)"
  "only_talks (GetHistory a b d n :: (('r, 'z) mtserver_scheme, Message list) go)"
  "only_talks (Contacts uid :: (('r, 'z) mtserver_scheme, Contact list) go)"
  "only_talks (Drafts uid :: (('r, 'z) mtserver_scheme, Draft list) go)"
  "only_talks (SearchMessages a b q n :: (('r, 'z) mtserver_scheme, Message list) go)"
  "only_talks (MessageByGlobal uid g :: (('r, 'z) mtserver_scheme, Message option) go)"
  "only_talks (GetDialogs uid n :: (('r, 'z) mtserver_scheme, Dialog list) go)"
  "only_talks (GetState uid :: (('r, 'z) mtserver_scheme, State) go)"
  "only_talks (GetDifference uid p n :: (('r, 'z) mtserver_scheme, _) go)"
  "only_talks (FileByID uid :: (('r, 'z) mtserver_scheme, File option) go)"
  "only_talks (BotFatherState uid :: (('r, 'z) mtserver_scheme, BotFatherState) go)"
  "only_talks (BotCommands uid un ph :: (('r, 'z) mtserver_scheme, BotCommand list) go)"
  unfolding UserByPhone_def UserByUsername_def BotByToken_def BotsByOwner_def SearchUsers_def UsersByIDs_def
    PhoneCode_def GetHistory_def Contacts_def Drafts_def SearchMessages_def MessageByGlobal_def
    GetDialogs_def GetState_def GetDifference_def FileByID_def BotFatherState_def BotCommands_def
  by (intro talks_rules)+

lemma runs_tables [talks_rules]:
  "only_talks (SavePhoneCode ph hash code ttl :: (('r, 'z) mtserver_scheme, unit) go)"
  "only_talks (BindSession k uid :: (('r, 'z) mtserver_scheme, unit) go)"
  "only_talks (Unbind k :: (('r, 'z) mtserver_scheme, unit) go)"
  "only_talks (BindTempAuthKey k k' t :: (('r, 'z) mtserver_scheme, unit) go)"
  "only_talks (AddContact a b fn ln :: (('r, 'z) mtserver_scheme, unit) go)"
  "only_talks (DeleteContacts a ids :: (('r, 'z) mtserver_scheme, unit) go)"
  "only_talks (SaveDraft a b txt :: (('r, 'z) mtserver_scheme, int) go)"
  "only_talks (SetBotFatherState a st :: (('r, 'z) mtserver_scheme, unit) go)"
  "only_talks (ClearBotFatherState a :: (('r, 'z) mtserver_scheme, unit) go)"
  "only_talks (SetBotCommands a un ph cmds :: (('r, 'z) mtserver_scheme, unit) go)"
  "only_talks (ResetBotCommands a un ph :: (('r, 'z) mtserver_scheme, unit) go)"
  unfolding SavePhoneCode_def BindSession_def Unbind_def BindTempAuthKey_def AddContact_def DeleteContacts_def
    SaveDraft_def SetBotFatherState_def ClearBotFatherState_def SetBotCommands_def ResetBotCommands_def
  by (intro talks_rules talks_modify; simp)+


lemma runs_state [talks_rules]:
  "only_talks (modify (\<lambda>h. h\<lparr>staging := stg h\<rparr>) :: (('r, 'z) mtserver_scheme, unit) go)"
  "only_talks (withStore m :: (('r, 'z) mtserver_scheme, 'a) go)"
  by (auto simp: only_talks_def talks_def withStore_def split: option.splits prod.splits)

lemma runs_helpers [talks_rules]:
  "only_talks (bindCaller c uid :: (('r, 'z) mtserver_scheme, unit) go)"
  "only_talks (resolveInputUser u i :: (('r, 'z) mtserver_scheme, User) go)"
  "only_talks (checkCode ph hash code :: (('r, 'z) mtserver_scheme, unit) go)"
  "only_talks (requireBot c :: (('r, 'z) mtserver_scheme, User) go)"
  "only_talks (getUser cu i :: (('r, 'z) mtserver_scheme, user_class) go)"
  unfolding bindCaller_def resolveInputUser_def checkCode_def requireBot_def getUser_def
  by (intro talks_rules)+

lemma runs_entries [talks_rules]:
  "only_talks (importContact u x acc1 :: (('r, 'z) mtserver_scheme, _) go)"
  "only_talks (deletedContact u i acc2 :: (('r, 'z) mtserver_scheme, _) go)"
  "only_talks (topMessage self p :: (('r, 'z) mtserver_scheme, tg_message list) go)"
  "only_talks (allDraftsEntry d acc3 :: (('r, 'z) mtserver_scheme, _) go)"
  "only_talks (draftEntry seen d acc4 :: (('r, 'z) mtserver_scheme, _) go)"
  "only_talks (messageByGlobal self e :: (('r, 'z) mtserver_scheme, Message option) go)"
  "only_talks (usersByIDs self ids :: (('r, 'z) mtserver_scheme, user_class list) go)"
  unfolding importContact_def deletedContact_def topMessage_def allDraftsEntry_def
    draftEntry_def messageByGlobal_def usersByIDs_def
  by (intro talks_rules)+

lemma runs_dialog_entries [talks_rules]:
  "only_talks (dialogEntry self dbp dl acc :: (('r, 'z) mtserver_scheme, _) go)"
  "only_talks (peerDialogEntry u bp dbp p acc :: (('r, 'z) mtserver_scheme, _) go)"
  "only_talks (differenceEntry self e acc' :: (('r, 'z) mtserver_scheme, _) go)"
  unfolding dialogEntry_def peerDialogEntry_def differenceEntry_def by (intro talks_rules)+

lemma runs_botFatherEngine [talks_rules]:
  "only_talks (botFatherEngine u txt :: (('r, 'z) mtserver_scheme, string list) go)"
  unfolding botFatherEngine_def botFatherCommand_def botFatherListBots_def botFatherSetName_def
    botFatherCreate_def botFatherRevoke_def botTokenSecret_def
  by (intro talks_rules)


lemma runs_message_steps [talks_rules]:
  "only_talks (putRef uid rf :: (('r, 'z) mtserver_scheme, unit) go)"
  "only_talks (logUpdate uid p k ty g' ex :: (('r, 'z) mtserver_scheme, unit) go)"
  "only_talks (setMessage g f :: (('r, 'z) mtserver_scheme, unit) go)"
  unfolding putRef_def logUpdate_def setMessage_def
  by (intro talks_rules talks_modify; simp)+

lemma runs_message_calls [talks_rules]:
  "only_talks (SendMessage a b t i m :: (('r, 'z) mtserver_scheme, SentMessage) go)"
  "only_talks (EditMessage a l t :: (('r, 'z) mtserver_scheme, EditResult) go)"
  "only_talks (DeleteMessages a ls :: (('r, 'z) mtserver_scheme, DeleteResult) go)"
  "only_talks (ReadHistory a b l :: (('r, 'z) mtserver_scheme, ReadResult) go)"
  "only_talks (SaveFile fl :: (('r, 'z) mtserver_scheme, File) go)"
  unfolding SendMessage_def allocate_def EditMessage_def DeleteMessages_def markDeleted_def allocatePts_def
    ReadHistory_def markRead_def SaveFile_def genAccessHash_def
  by (intro talks_rules talks_modify; simp)+

lemma runs_media [talks_rules]:
  "only_talks (takeStaged key :: (('r, 'z) mtserver_scheme, stagedFile option) go)"
  "only_talks (save_content ow content :: (('r, 'z) mtserver_scheme, File) go)"
proof -
  show "only_talks (takeStaged key :: (('r, 'z) mtserver_scheme, stagedFile option) go)"
    by (auto simp: only_talks_def talks_def takeStaged_def split: prod.splits)
  show "only_talks (save_content ow content :: (('r, 'z) mtserver_scheme, File) go)"
    unfolding save_content_def by (intro talks_rules)
qed

lemma runs_botFather [talks_rules]:
  "only_talks (handleBotFather c u b t :: (('r, 'z) mtserver_scheme, unit) go)"
  unfolding handleBotFather_def botFatherReply_def by (intro talks_rules)

lemma dispatch_talks: "only_talks (dispatch r c :: (('r, 'z) mtserver_scheme, reply) go)"
  by (cases r; simp only: dispatch.simps reply_with_def fallback_def handler_defs; (intro talks_rules)?)

lemma OnMessage_talks: "(\<And>c. only_talks (f c)) \<Longrightarrow> only_talks (OnMessage k f :: (('r, 'z) mtserver_scheme, 'a) go)"
  unfolding OnMessage_def trackCaller_def by (intro talks_rules)

section \<open>The handler\<close>

text \<open>
  \<^verbatim>\<open>Handler.OnMessage\<close> of the RPC layer, with the reply it sends. \<open>decode\<close> is the generated decoder
  of the dispatcher.
\<close>

definition rpc_handler :: "(bytes \<Rightarrow> request option) \<Rightarrow> reply lib \<Rightarrow> (reply, 'z) handler" where
  "rpc_handler decode L req = bnd (OnMessage (handler_session (rq_Session req)) (\<lambda>c. case decode (rq_Buf req) of
       None \<Rightarrow> fail (ErrLib ''decode'')
     | Some r \<Rightarrow> dispatch r c)) (\<lambda>e. SendResult L req (Reply e))"

lemma rpc_handler_talks: "only_talks (rpc_handler decode L req)"
  unfolding rpc_handler_def by (intro talks_rules OnMessage_talks dispatch_talks)

text \<open>The handler of a teled server: the RPC handler behind \<open>UnpackInvoke\<close>.\<close>

definition teled_handler :: "nat \<Rightarrow> (bytes \<Rightarrow> request option) \<Rightarrow> reply lib \<Rightarrow> (reply, 'z) handler" where
  "teled_handler n decode L = UnpackInvoke n L (rpc_handler decode L)"

lemma teled_handler_talks: "only_talks (teled_handler n decode L req)"
  unfolding teled_handler_def UnpackInvoke_def
  by (auto split: option.split sum.split intro: rpc_handler_talks talks_rules)

interpretation teled_srv: mt_handler "teled_handler n decode L :: (reply, 'z) handler"
  for n decode L
  by unfold_locales (rule teled_handler_talks)

end
