(* ===== verification/MtLoops.thy ===== *)
theory MtLoops imports MtInv begin

text \<open>
  The loops of the MTProto server: the nesting of containers, the unpacking of invoke wrappers
  and the frames of a buffered connection.
\<close>

section \<open>What the decoders guarantee\<close>

text \<open>The messages of a container are shorter than the container.\<close>

definition container_shrinks :: "'r lib \<Rightarrow> bool" where
  "container_shrinks L \<longleftrightarrow> (\<forall>b ms i body. decodeContainer L b = Some ms \<longrightarrow> (i, body) \<in> set ms \<longrightarrow> length body < length b)"

text \<open>The query in an invoke wrapper is shorter than the wrapper.\<close>

definition invoke_shrinks :: "'r lib \<Rightarrow> bool" where
  "invoke_shrinks L \<longleftrightarrow> (\<forall>i b rest. decodeInvoke L i b = Some rest \<longrightarrow> length rest < length b)"

section \<open>Containers\<close>

text \<open>The messages in a buffer, containers opened, in order.\<close>

fun flatten :: "nat \<Rightarrow> 'r lib \<Rightarrow> int \<times> bytes \<Rightarrow> (int \<times> bytes) list" where
  "flatten 0 L x = [x]"
| "flatten (Suc n) L x = (if PeekID L (snd x) = Some MessageContainerTypeID
     then (case decodeContainer L (snd x) of None \<Rightarrow> [x] | Some ms \<Rightarrow> concat (map (flatten n L) ms))
     else [x])"

text \<open>Handling messages one after the other, errors collected.\<close>

definition handle_each :: "('r, 'z) handler \<Rightarrow> Request \<Rightarrow> (int \<times> bytes) list \<Rightarrow> goerr option \<Rightarrow>
    (('r, 'z) mtserver_scheme, goerr option) go" where
  "handle_each h req = loop (\<lambda>(i, body) err.
     bnd (attempt (h (req\<lparr>rq_MsgID := i, rq_Buf := body\<rparr>))) (\<lambda>r. ret (appendErr err (error_of r))))"

lemma handle_each_Cons: "handle_each h req (x # xs) err =
    bnd (attempt (h (req\<lparr>rq_MsgID := fst x, rq_Buf := snd x\<rparr>))) (\<lambda>r. handle_each h req xs (appendErr err (error_of r)))"
  by (cases x) (simp add: handle_each_def bnd_assoc)

lemma handle_each_Nil: "handle_each h req [] = ret"
  by (simp add: handle_each_def fun_eq_iff)

lemma handle_each_append: "handle_each h req (xs @ ys) err = bnd (handle_each h req xs err) (handle_each h req ys)"
  unfolding handle_each_def
  by (induction xs arbitrary: err) (auto simp: bnd_def fun_eq_iff split: prod.split outcome.split)

lemma appendErr_None [simp]: "appendErr None e = e" "appendErr e None = e"
  by (simp_all add: appendErr_def split: option.split)

lemma appendErr_assoc: "appendErr (appendErr a b) c = appendErr a (appendErr b c)"
  by (auto simp: appendErr_def error_parts_def split: option.split)

lemma container_step:
  assumes "PeekID L (rq_Buf req) = Some MessageContainerTypeID" "decodeContainer L (rq_Buf req) = Some ms"
  shows "handle (Suc n) L H req = bnd (handle_each (handle n L H) req ms None) return_error"
  using assms by (simp add: handle.simps handle_each_def)

text \<open>Handling a message that is not a container.\<close>

definition handle_one :: "'r lib \<Rightarrow> ('r, 'z) handler \<Rightarrow> ('r, 'z) handler" where
  "handle_one L H = handle 1 L H"

lemma handle_leaf:
  assumes "PeekID L (rq_Buf req) \<noteq> Some MessageContainerTypeID \<or> decodeContainer L (rq_Buf req) = None"
  shows "handle (Suc n) L H req = handle_one L H req"
  using assms unfolding handle_one_def by (auto simp: handle.simps split: option.split type_id.split)

text \<open>Enough fuel is enough: a bound beyond the length of the buffer makes no difference.\<close>

lemma handle_each_cong:
  "(\<And>i body. (i, body) \<in> set ms \<Longrightarrow> h (req\<lparr>rq_MsgID := i, rq_Buf := body\<rparr>) = h' (req\<lparr>rq_MsgID := i, rq_Buf := body\<rparr>)) \<Longrightarrow>
    handle_each h req ms = handle_each h' req ms"
proof (induction ms)
  case (Cons x ms)
  then have "handle_each h req ms = handle_each h' req ms"
    by simp
  moreover have "h (req\<lparr>rq_MsgID := fst x, rq_Buf := snd x\<rparr>) = h' (req\<lparr>rq_MsgID := fst x, rq_Buf := snd x\<rparr>)"
    using Cons.prems [of "fst x" "snd x"] by simp
  ultimately show ?case
    unfolding handle_each_def by (intro ext) (cases x; simp)
qed (simp add: handle_each_def fun_eq_iff)

lemma handle_fuel:
  assumes "container_shrinks L" "length (rq_Buf req) < n" "length (rq_Buf req) < k"
  shows "handle n L H req = handle k L H req"
  using assms(2,3)
proof (induction n arbitrary: k req)
  case (Suc n)
  then obtain k' where k: "k = Suc k'"
    by (cases k) auto
  show ?case
  proof (cases "PeekID L (rq_Buf req) = Some MessageContainerTypeID \<and> decodeContainer L (rq_Buf req) \<noteq> None")
    case True
    then obtain ms where ms: "PeekID L (rq_Buf req) = Some MessageContainerTypeID" "decodeContainer L (rq_Buf req) = Some ms"
      by blast
    have "handle_each (handle n L H) req ms = handle_each (handle k' L H) req ms"
    proof (rule handle_each_cong)
      fix i body
      assume "(i, body) \<in> set ms"
      with assms(1) ms(2) have "length body < length (rq_Buf req)"
        unfolding container_shrinks_def by blast
      with Suc.prems k show "handle n L H (req\<lparr>rq_MsgID := i, rq_Buf := body\<rparr>) = handle k' L H (req\<lparr>rq_MsgID := i, rq_Buf := body\<rparr>)"
        by (intro Suc.IH) simp_all
    qed
    then show ?thesis
      unfolding k container_step [OF ms] by simp
  next
    case False
    then show ?thesis
      unfolding k by (metis handle_leaf)
  qed
qed simp

text \<open>The error at the start of a run is the first of the errors at its end.\<close>

lemma handle_each_shift:
  "bnd (handle_each h req xs e) (\<lambda>e'. ret (appendErr err e')) = handle_each h req xs (appendErr err e)"
proof (induction xs arbitrary: e)
  case (Cons x xs)
  show ?case
    by (simp only: handle_each_Cons bnd_assoc Cons appendErr_assoc)
qed (simp add: handle_each_def fun_eq_iff)

lemma handle_each_no_error: "handle_each h req xs e s \<noteq> (Err x, s')"
proof (induction xs arbitrary: e s)
  case (Cons y ys)
  then show ?case
    by (cases y) (auto simp: handle_each_def bnd_def attempt_def split: prod.splits outcome.splits)
qed (simp add: handle_each_def)

lemma container_errors:
  "bnd (attempt (bnd (handle_each h req ms None) return_error)) (\<lambda>r. ret (appendErr err (error_of r))) =
    handle_each h req ms err"
proof -
  have "bnd (attempt (bnd (handle_each h req ms None) return_error)) (\<lambda>r. ret (appendErr err (error_of r))) s =
      bnd (handle_each h req ms None) (\<lambda>e. ret (appendErr err e)) s" for s
    using handle_each_no_error [of h req ms None s]
    by (cases "handle_each h req ms None s")
      (auto simp: bnd_def attempt_def return_error_def error_of_def split: outcome.split option.split)
  then show ?thesis
    using handle_each_shift [of h req ms None err] by (simp add: fun_eq_iff)
qed

lemma handle_flatten:
  assumes "container_shrinks L" "length (snd x) < n"
  shows "handle_each (handle n L H) req [x] err = handle_each (handle_one L H) req (flatten n L x) err"
  using assms(2)
proof (induction n arbitrary: x err)
  case (Suc n)
  obtain i body where x: "x = (i, body)"
    by (cases x)
  show ?case
  proof (cases "PeekID L body = Some MessageContainerTypeID \<and> decodeContainer L body \<noteq> None")
    case True
    then obtain ms where ms: "PeekID L body = Some MessageContainerTypeID" "decodeContainer L body = Some ms"
      by blast
    have each: "handle_each (handle n L H) req ys err = handle_each (handle_one L H) req (concat (map (flatten n L) ys)) err"
      if "set ys \<subseteq> set ms" for ys err
      using that
    proof (induction ys arbitrary: err)
      case (Cons y ys)
      have "length (snd y) < n"
        using assms(1) ms(2) Suc.prems Cons.prems x unfolding container_shrinks_def by (cases y) fastforce
      moreover have "handle_each (handle n L H) req ys = handle_each (handle_one L H) req (concat (map (flatten n L) ys))"
        using Cons by (intro ext) simp
      ultimately have "handle_each (handle n L H) req ([y] @ ys) err =
          handle_each (handle_one L H) req (flatten n L y @ concat (map (flatten n L) ys)) err"
        unfolding handle_each_append by (simp add: Suc.IH)
      then show ?case
        by simp
    qed (simp add: handle_each_def)
    have "handle (Suc n) L H (req\<lparr>rq_MsgID := i, rq_Buf := body\<rparr>) =
        bnd (handle_each (handle n L H) (req\<lparr>rq_MsgID := i, rq_Buf := body\<rparr>) ms None) return_error"
      by (rule container_step) (use ms in simp_all)
    moreover have "handle_each (handle n L H) (req\<lparr>rq_MsgID := i, rq_Buf := body\<rparr>) = handle_each (handle n L H) req"
      by (simp add: handle_each_def fun_eq_iff)
    moreover have "handle_each (handle (Suc n) L H) req [x] err =
        bnd (attempt (handle (Suc n) L H (req\<lparr>rq_MsgID := i, rq_Buf := body\<rparr>))) (\<lambda>r. ret (appendErr err (error_of r)))"
      by (simp add: handle_each_def x bnd_def fun_eq_iff split: prod.split outcome.split)
    ultimately have "handle_each (handle (Suc n) L H) req [x] err = handle_each (handle n L H) req ms err"
      using container_errors by simp
    also have "\<dots> = handle_each (handle_one L H) req (flatten (Suc n) L x) err"
      using each [of ms] ms x by simp
    finally show ?thesis .
  next
    case False
    then have "handle (Suc n) L H (req\<lparr>rq_MsgID := i, rq_Buf := body\<rparr>) = handle_one L H (req\<lparr>rq_MsgID := i, rq_Buf := body\<rparr>)"
      by (intro handle_leaf) auto
    moreover have "flatten (Suc n) L x = [x]"
      using False x by (auto split: option.split)
    ultimately show ?thesis
      by (simp add: handle_each_Cons handle_each_Nil x)
  qed
qed simp

lemma handle_flat:
  assumes "container_shrinks L" "length (rq_Buf req) < n"
  shows "handle n L H req = bnd (handle_each (handle_one L H) req (flatten n L (rq_MsgID req, rq_Buf req)) None) return_error"
proof -
  have req: "req\<lparr>rq_MsgID := rq_MsgID req, rq_Buf := rq_Buf req\<rparr> = req"
    by simp
  have "bnd (handle_each (handle n L H) req [(rq_MsgID req, rq_Buf req)] None) return_error s = handle n L H req s" for s
    by (cases "handle n L H req s")
      (auto simp: handle_each_def req bnd_def attempt_def error_of_def return_error_def split: outcome.split)
  moreover have "handle_each (handle n L H) req [(rq_MsgID req, rq_Buf req)] None =
      handle_each (handle_one L H) req (flatten n L (rq_MsgID req, rq_Buf req)) None"
    by (rule handle_flatten) (use assms in simp_all)
  ultimately show ?thesis
    by (intro ext) simp
qed

section \<open>Invoke wrappers\<close>

text \<open>The query inside the wrappers, as a relation: each wrapper is decoded up to the query in it.\<close>

inductive unwraps :: "'r lib \<Rightarrow> type_id \<Rightarrow> bytes \<Rightarrow> bytes \<Rightarrow> bool" for L where
  unwraps_query: "\<not> invoke_wrapper i \<Longrightarrow> unwraps L i b b"
| unwraps_more: "invoke_wrapper i \<Longrightarrow> decodeInvoke L i b = Some rest \<Longrightarrow> PeekID L rest = Some j \<Longrightarrow>
    unwraps L j rest q \<Longrightarrow> unwraps L i b q"

lemma unpack_fuel:
  "invoke_shrinks L \<Longrightarrow> length b < n \<Longrightarrow> length b < k \<Longrightarrow> unpack n L i b = unpack k L i b \<and> unpack k L i b \<noteq> None"
proof (induction n arbitrary: k i b)
  case (Suc n)
  then obtain k' where k: "k = Suc k'"
    by (cases k) auto
  have "unpack n L j rest = unpack k' L j rest \<and> unpack k' L j rest \<noteq> None" if "decodeInvoke L i b = Some rest" for j rest
    using that Suc.prems k unfolding invoke_shrinks_def by (intro Suc.IH [OF Suc.prems(1)]) fastforce+
  then show ?case
    by (auto simp: k split: option.split)
qed simp

lemma unpack_unwraps: "unpack n L i b = Some (Inr q) \<Longrightarrow> unwraps L i b q"
  by (induction n L i b rule: unpack.induct)
    (auto split: if_splits option.splits intro: unwraps.intros)

lemma unwraps_unpack:
  assumes "invoke_shrinks L" "unwraps L i b q" "length b < n"
  shows "unpack n L i b = Some (Inr q)"
  using assms(2,3)
proof (induction arbitrary: n rule: unwraps.induct)
  case (unwraps_query i b)
  then show ?case
    by (cases n) auto
next
  case (unwraps_more i b rest j q)
  then have "length rest < length b"
    using assms(1) unfolding invoke_shrinks_def by blast
  with unwraps_more show ?case
    by (cases n) auto
qed

section \<open>Buffered connections\<close>

lemma Recv_pushed: "Recv (Push b c) = (Some b, c)"
  by (simp add: Recv_def pop_def Push_def)

lemma received_take: "received k c = take k (rev (bc_recv c) @ bc_conn c)"
proof (induction k arbitrary: c)
  case (Suc k)
  show ?case
  proof (cases "bc_recv c" rule: rev_cases)
    case Nil
    then show ?thesis
      using Suc by (cases "bc_conn c") (auto simp: Recv_def pop_def conn_recv_def)
  next
    case (snoc xs x)
    then show ?thesis
      using Suc.IH [of "c\<lparr>bc_recv := xs\<rparr>"] by (simp add: Recv_def pop_def)
  qed
qed simp

lemma Recvs_left: "bc_conn (((\<lambda>c. snd (Recv c)) ^^ k) c) = drop (k - length (bc_recv c)) (bc_conn c)"
proof (induction k arbitrary: c)
  case (Suc k)
  have "((\<lambda>c. snd (Recv c)) ^^ Suc k) c = ((\<lambda>c. snd (Recv c)) ^^ k) (snd (Recv c))"
    by (simp add: funpow_Suc_right del: funpow.simps)
  then have eq: "bc_conn (((\<lambda>c. snd (Recv c)) ^^ Suc k) c) = drop (k - length (bc_recv (snd (Recv c)))) (bc_conn (snd (Recv c)))"
    using Suc by simp
  show ?case
  proof (cases "bc_recv c" rule: rev_cases)
    case Nil
    then show ?thesis
      unfolding eq by (cases "bc_conn c") (simp_all add: Recv_def pop_def conn_recv_def)
  next
    case (snoc xs x)
    then show ?thesis
      unfolding eq by (simp add: Recv_def pop_def)
  qed
qed simp

section \<open>No panic\<close>

text \<open>Handling panics only where the handler does.\<close>

definition panic_free :: "(('r, 'z) mtserver_scheme, 'a) go \<Rightarrow> bool" where
  "panic_free m \<longleftrightarrow> (\<forall>s. fst (m s) \<noteq> Panic)"

lemma panic_free_steps: "panic_free (ret x)" "panic_free (fail e)" "panic_free (gets f)" "panic_free (modify f)"
  by (simp_all add: panic_free_def)

lemma panic_free_bnd: "panic_free m \<Longrightarrow> (\<And>x. panic_free (f x)) \<Longrightarrow> panic_free (bnd m f)"
  unfolding panic_free_def bnd_def by (auto split: prod.split outcome.split simp: prod_eq_iff)

end
