(* ===== verification/MtSafe.thy ===== *)
theory MtSafe imports MtRpc MtLoops begin

text \<open>
  The server as a whole does not panic, and the invariants of the RPC state hold in all its
  states: the operations of the MTProto layer leave that state alone.
\<close>

section \<open>Operations of the MTProto layer\<close>

text \<open>The part of the state the invariants of the RPC layer speak of.\<close>

definition same_rpc :: "'z server_scheme \<Rightarrow> 'z server_scheme \<Rightarrow> bool" where
  "same_rpc h' h \<longleftrightarrow> hasDB h' = hasDB h \<and> sha256 h' = sha256 h \<and> store h' = store h \<and> reg_m h' = reg_m h \<and> staging h' = staging h \<and>
     users h' = users h \<and> userSeq h' = userSeq h \<and> messages h' = messages h \<and> msgSeq h' = msgSeq h \<and>
     refs h' = refs h \<and> updates h' = updates h \<and> files h' = files h \<and> fileSeq h' = fileSeq h \<and>
     sessions h' = sessions h \<and> tempKeys h' = tempKeys h \<and> phoneCodes h' = phoneCodes h \<and> drafts h' = drafts h \<and>
     contacts h' = contacts h \<and> botStates h' = botStates h \<and> botCommands h' = botCommands h"

lemma same_rpc_sane: "same_rpc h' h \<Longrightarrow> sane A h \<Longrightarrow> sane A h'"
  by (simp add: same_rpc_def sane_def known_def backed_def)

lemma same_rpc_db_ok: "same_rpc h' h \<Longrightarrow> db_ok h \<Longrightarrow> db_ok h'"
  by (simp add: same_rpc_def db_ok_def db_inv_def)

text \<open>An operation is sound if it keeps both invariants and does not panic.\<close>

definition sound :: "('z server_scheme, 'a) go \<Rightarrow> bool" where
  "sound m \<longleftrightarrow> (\<forall>h. sane {} h \<and> db_ok h \<longrightarrow> fst (m h) \<noteq> Panic \<and> sane {} (snd (m h)) \<and> db_ok (snd (m h)))"

named_theorems sound_rules

lemma soundI: "safe {} m \<Longrightarrow> keeps db_ok m \<Longrightarrow> sound m"
  unfolding sound_def by (metis givesD keepsD prod.collapse sup_bot_right)

lemma soundD: "sound m \<Longrightarrow> m h = (r, h') \<Longrightarrow> sane {} h \<Longrightarrow> db_ok h \<Longrightarrow> r \<noteq> Panic \<and> sane {} h' \<and> db_ok h'"
  unfolding sound_def by (metis fst_conv snd_conv)

lemma sound_after: "sound m \<Longrightarrow> sane {} h \<and> db_ok h \<Longrightarrow> sane {} (snd (m h)) \<and> db_ok (snd (m h))"
  unfolding sound_def by blast

lemma sound_steps [sound_rules]: "sound (ret x)" "sound (fail e)" "sound (gets f)" "sound (Pair (Err e))"
  by (simp_all add: sound_def)

lemma sound_same: "(\<And>h. fst (m h) \<noteq> Panic \<and> same_rpc (snd (m h)) h) \<Longrightarrow> sound m"
  unfolding sound_def using same_rpc_sane same_rpc_db_ok by blast

lemma sound_modify: "(\<And>h. same_rpc (f h) h) \<Longrightarrow> sound (modify f)"
  unfolding sound_def using same_rpc_sane same_rpc_db_ok by (metis fst_conv modify_apply outcome.distinct(3) snd_conv)

lemma sound_bnd [sound_rules]:
  assumes "sound m" "\<And>x. sound (f x)"
  shows "sound (bnd m f :: ('z server_scheme, 'b) go)"
  unfolding sound_def
proof (intro allI impI)
  fix h :: "'z server_scheme"
  assume h: "sane {} h \<and> db_ok h"
  obtain r h1 where m: "m h = (r, h1)"
    by (cases "m h")
  then have "r \<noteq> Panic \<and> sane {} h1 \<and> db_ok h1"
    using soundD [OF assms(1) m] h by blast
  then show "fst (bnd m f h) \<noteq> Panic \<and> sane {} (snd (bnd m f h)) \<and> db_ok (snd (bnd m f h))"
    using m assms(2) by (cases r) (simp_all add: bnd_def sound_def)
qed

lemma sound_on_err [sound_rules]:
  assumes "sound m" "\<And>e. sound (f e)"
  shows "sound (on_err m f :: ('z server_scheme, 'a) go)"
  unfolding sound_def
proof (intro allI impI)
  fix h :: "'z server_scheme"
  assume h: "sane {} h \<and> db_ok h"
  obtain r h1 where m: "m h = (r, h1)"
    by (cases "m h")
  then have "r \<noteq> Panic \<and> sane {} h1 \<and> db_ok h1"
    using soundD [OF assms(1) m] h by blast
  then show "fst (on_err m f h) \<noteq> Panic \<and> sane {} (snd (on_err m f h)) \<and> db_ok (snd (on_err m f h))"
    using m assms(2) by (cases r) (simp_all add: on_err_def sound_def)
qed

lemma sound_attempt [sound_rules]: "sound m \<Longrightarrow> sound (attempt m)"
  unfolding sound_def attempt_def by (auto split: prod.split outcome.split simp: prod_eq_iff)

lemma sound_loop [sound_rules]: "(\<And>x a. x \<in> set xs \<Longrightarrow> sound (f x a)) \<Longrightarrow> sound (loop f xs a)"
  by (induction xs arbitrary: a) (auto intro!: sound_rules)

lemma sound_branches [sound_rules]:
  "(b \<Longrightarrow> sound m) \<Longrightarrow> (\<not> b \<Longrightarrow> sound k) \<Longrightarrow> sound (if b then m else k)"
  "(\<And>x. sound (f x)) \<Longrightarrow> sound (Let v f)"
  "(p = None \<Longrightarrow> sound m) \<Longrightarrow> (\<And>x. p = Some x \<Longrightarrow> sound (f x)) \<Longrightarrow> sound (case p of None \<Rightarrow> m | Some x \<Rightarrow> f x)"
  by (simp_all split: option.split)

lemma sound_clock [sound_rules]: "sound (now :: ('z server_scheme, int) go)"
  by (rule sound_same) (simp add: now_def same_rpc_def)

lemma sound_registry [sound_rules]:
  "sound (getSession i :: (('r, 'z) mtserver_scheme, AuthKey option) go)"
  "sound (addSession key :: (('r, 'z) mtserver_scheme, unit) go)"
  "sound (createConnection k c :: (('r, 'z) mtserver_scheme, unit) go)"
  "sound (sentCreated k :: (('r, 'z) mtserver_scheme, bool) go)"
  "sound (getConnection k :: (('r, 'z) mtserver_scheme, connection option) go)"
  "sound (hangup c :: (('r, 'z) mtserver_scheme, unit) go)"
  "sound (deleteConnection k :: (('r, 'z) mtserver_scheme, unit) go)"
  unfolding getSession_def KeyGet_def storage_call_def addSession_def KeySave_def createConnection_def
    sentCreated_def getConnection_def hangup_def removeConn_def conn_close_def deleteConnection_def
  by (intro sound_rules sound_modify; simp add: same_rpc_def)+

lemma sound_sending [sound_rules]:
  "sound (conn_send c f :: (('r, 'z) mtserver_scheme, unit) go)"
  "sound (newMsgID t :: (('r, 'z) mtserver_scheme, int) go)"
  unfolding conn_send_def newMsgID_def by (intro sound_rules sound_modify; simp add: same_rpc_def)+

lemma sound_Send [sound_rules]: "sound (Send L k t m :: (('r, 'z) mtserver_scheme, unit) go)"
  unfolding Send_def by (intro sound_rules)

lemma sound_replies [sound_rules]:
  "sound (SendResult L req body :: (('r, 'z) mtserver_scheme, unit) go)"
  "sound (SendErr L req code t :: (('r, 'z) mtserver_scheme, unit) go)"
  "sound (SendPong L req p :: (('r, 'z) mtserver_scheme, unit) go)"
  "sound (SendEternalSalt L req :: (('r, 'z) mtserver_scheme, unit) go)"
  "sound (sendSessionCreated L k salt :: (('r, 'z) mtserver_scheme, unit) go)"
  "sound (sendProtoError c code :: (('r, 'z) mtserver_scheme, unit) go)"
  unfolding SendErr_def SendResult_def sendReq_def SendPong_def SendEternalSalt_def SendFutureSalts_def
    sendSessionCreated_def sendProtoError_def
  by (intro sound_rules)+

section \<open>The handler and the frames\<close>

lemma sound_serve: "wire_ok r \<Longrightarrow> sound (serve k r :: (('r, 'z) mtserver_scheme, reply) go)"
  by (intro soundI gives_serve keeps_serve)

text \<open>
  The bounds on what the libraries return for a server with fuel \<open>n\<close>: bodies in containers and
  queries in wrappers are shorter than what they are in, decrypted and unpacked content is
  shorter than \<open>n\<close> (message lengths are 32-bit numbers, and the decoder of gzip content has
  a limit of its own), and decoded integers fit their types.
\<close>

definition bounded_lib :: "nat \<Rightarrow> (bytes \<Rightarrow> request option) \<Rightarrow> 'r lib \<Rightarrow> bool" where
  "bounded_lib n decode L \<longleftrightarrow> container_shrinks L \<and> invoke_shrinks L \<and>
     (\<forall>key m msg. Decrypt L key m = Some msg \<longrightarrow> length (ed_Data msg) < n) \<and>
     (\<forall>b content. decodeGZIP L b = Some content \<longrightarrow> length content < n) \<and>
     (\<forall>b r. decode b = Some r \<longrightarrow> wire_ok r)"

lemma sound_undecoded: "sound (OnMessage k (\<lambda>_. fail e) :: (('r, 'z) mtserver_scheme, reply) go)"
  unfolding OnMessage_def trackCaller_def
  by (rule soundI) ((rule gives_rules | simp)+, intro keeps_rules)

lemma sound_handler:
  assumes "bounded_lib n decode L" "length (rq_Buf req) < n"
  shows "sound (teled_handler n decode L req :: ((reply, 'z) mtserver_scheme, unit) go)"
proof -
  have "sound (OnMessage k (\<lambda>c. case decode b of None \<Rightarrow> fail (ErrLib ''decode'') | Some r \<Rightarrow> dispatch r c)
      :: ((reply, 'z) mtserver_scheme, reply) go)" for k b
    using assms(1)
    by (cases "decode b") (auto simp: bounded_lib_def intro: sound_serve [unfolded serve_def] sound_undecoded)
  then have handler: "sound (rpc_handler decode L req :: ((reply, 'z) mtserver_scheme, unit) go)" for req
    unfolding rpc_handler_def by (intro sound_rules)
  have found: "unpack n L i (rq_Buf req) \<noteq> None" for i
    using unpack_fuel [of L "rq_Buf req" n n] assms by (simp add: bounded_lib_def)
  have run: "sound (case v of None \<Rightarrow> gopanic | Some (Inl e) \<Rightarrow> fail e
      | Some (Inr buf) \<Rightarrow> (rpc_handler decode L (req\<lparr>rq_Buf := buf\<rparr>) :: ((reply, 'z) mtserver_scheme, unit) go))"
    if "v \<noteq> None" for v
    using that handler by (auto split: option.split sum.split simp: sound_rules)
  show ?thesis
    unfolding teled_handler_def UnpackInvoke_def
    by (cases "PeekID L (rq_Buf req)") (simp_all only: option.case sound_steps run [OF found])
qed

lemma sound_handle:
  assumes "bounded_lib n decode L" "length (rq_Buf req) < k" "length (rq_Buf req) < n"
  shows "sound (handle k L (teled_handler n decode L) req :: ((reply, 'z) mtserver_scheme, unit) go)"
  using assms(2,3)
proof (induction k arbitrary: req)
  case (Suc k)
  have deliver: "sound (deliverRequest L (teled_handler n decode L) req :: ((reply, 'z) mtserver_scheme, unit) go)"
    if "length (rq_Buf req) < n" for req
    unfolding deliverRequest_def using that sound_handler [OF assms(1)]
    by (auto intro!: sound_rules split: option.split prod.split)
  have gzip: "decodeGZIP L b = Some content \<Longrightarrow> length content < n" for b content
    using assms(1) by (simp add: bounded_lib_def)
  have shrinks: "decodeContainer L (rq_Buf req) = Some ms \<Longrightarrow> x \<in> set ms \<Longrightarrow> length (snd x) < length (rq_Buf req)" for ms x
    using assms(1) unfolding bounded_lib_def container_shrinks_def by (cases x) fastforce
  show ?case
  proof (cases "PeekID L (rq_Buf req) = Some MessageContainerTypeID \<and> decodeContainer L (rq_Buf req) \<noteq> None")
    case True
    then obtain ms where ms: "PeekID L (rq_Buf req) = Some MessageContainerTypeID" "decodeContainer L (rq_Buf req) = Some ms"
      by blast
    have "sound (handle k L (teled_handler n decode L) (req\<lparr>rq_MsgID := i, rq_Buf := body\<rparr>)
        :: ((reply, 'z) mtserver_scheme, unit) go)" if "(i, body) \<in> set ms" for i body
      using shrinks [OF ms(2) that] Suc.prems by (intro Suc.IH) simp_all
    then have "sound (handle_each (handle k L (teled_handler n decode L)) req ms None
        :: ((reply, 'z) mtserver_scheme, goerr option) go)"
      unfolding handle_each_def by (auto intro!: sound_rules split: prod.split)
    then show ?thesis
      unfolding container_step [OF ms] return_error_def by (intro sound_rules)
  next
    case False
    show ?thesis
    proof (cases "PeekID L (rq_Buf req)")
      case (Some i)
      have "sound ((case decodeGZIP L (rq_Buf req) of None \<Rightarrow> fail (ErrLib ''gzip'')
          | Some content \<Rightarrow> deliverRequest L (teled_handler n decode L) (req\<lparr>rq_Buf := content\<rparr>))
          :: ((reply, 'z) mtserver_scheme, unit) go)"
        using gzip by (intro sound_rules deliver) simp
      moreover have "i = MessageContainerTypeID \<Longrightarrow> decodeContainer L (rq_Buf req) = None"
        using False Some by simp
      ultimately show ?thesis
        unfolding handle.simps Some option.case
        by (cases i) (simp_all add: sound_rules deliver [OF Suc.prems(2)] split: option.split)
    qed (simp add: handle.simps sound_rules)
  qed
qed simp

lemma sound_rpcHandle:
  assumes "bounded_lib n decode L"
  shows "sound (rpcHandle n L (teled_handler n decode L) dc c b :: ((reply, 'z) mtserver_scheme, unit) go)"
proof -
  have "Decrypt L key m = Some msg \<Longrightarrow> length (ed_Data msg) < n" for key m msg
    using assms by (simp add: bounded_lib_def)
  then show ?thesis
    unfolding rpcHandle_def Let_def by (intro sound_rules sound_handle [OF assms]) simp_all
qed

lemma sound_serve_frame:
  assumes "bounded_lib n decode L"
  shows "sound (serve_frame n L (teled_handler n decode L) dc c b rest :: ((reply, 'z) mtserver_scheme, bytes list option) go)"
proof -
  have exchange: "sound (exchange bc :: ((reply, 'z) mtserver_scheme, exchange_result \<times> bufferedConn) go)" for bc
    unfolding exchange_def by (intro sound_rules sound_modify) (simp add: same_rpc_def)
  have out: "sound (case out of UnexpectedEncryptedError k f \<Rightarrow> m1 k f | ServerExchangeError code \<Rightarrow> m2 code
      | ExchangeFailed \<Rightarrow> m3 | ExchangedKey key \<Rightarrow> m4 key)"
    if "\<And>k f. sound (m1 k f)" "\<And>code. sound (m2 code)" "sound m3" "\<And>key. sound (m4 key)"
    for out m1 m2 m3 m4
    using that by (cases out) simp_all
  have pair: "(\<And>x y. sound (f x y)) \<Longrightarrow> sound (case p of (x, y) \<Rightarrow> f x y)" for f p
    by (cases p) simp
  show ?thesis
    unfolding serve_frame_def
    by (intro sound_rules sound_rpcHandle [OF assms] exchange out pair)
qed

lemma reachable_sound:
  assumes "mt_reachable n L (teled_handler n decode L) dc opts s0 p" "bounded_lib n decode L"
    and "server_reachable s0"
  shows "sane {} (snd p) \<and> db_ok (snd p)"
  using assms(1)
proof (induction rule: mt_reachable.induct)
  case mt_start
  have "same_rpc (NewServer opts s0) s0"
    by (simp add: NewServer_def newRegistry_def same_rpc_def)
  then show ?case
    using same_rpc_sane same_rpc_db_ok sane_reachable [OF assms(3)] db_ok_server [OF assms(3)] by (metis snd_conv)
next
  case (mt_next p p')
  from mt_next.hyps(2) mt_next.IH show ?case
  proof (cases rule: mt_step.cases)
    case (mt_frame c serving b rest s rest' s')
    with mt_next.IH soundD [OF sound_serve_frame [OF assms(2)] mt_frame(4)] show ?thesis
      by simp
  next
    case (mt_end c serving b rest s out s' e)
    then have "sane {} s' \<and> db_ok s'"
      using mt_next.IH soundD [OF sound_serve_frame [OF assms(2)] mt_end(4)] by simp
    from sound_after [OF sound_registry(6) this] mt_end show ?thesis
      by simp
  next
    case (mt_gone c serving s)
    with mt_next.IH have "sane {} s \<and> db_ok s"
      by simp
    from sound_after [OF sound_registry(6) this] mt_gone show ?thesis
      by simp
  next
    case (mt_kick serving s k)
    with mt_next.IH have "sane {} s \<and> db_ok s"
      by simp
    from sound_after [OF sound_registry(7) this] mt_kick show ?thesis
      by (simp add: ForceDisconnect_def)
  qed auto
qed

end
