(* ===== verification/MtProto.thy ===== *)
theory MtProto imports MtSafe begin

text \<open>Properties of the MTProto server with the RPC handler: connections, sessions and keys.\<close>

section \<open>Connections and sessions\<close>

text \<open>C31: In every reachable state, a session that has a connection has one that is being served:
  what a lost connection leaves behind can never be written to. Keys, cached or stored,
  are filed under their own ids.\<close>

theorem sessions_are_served:
  assumes "mt_reachable n L (teled_handler m decode L) dc opts s0 (serving, s)" "stored_keys opts"
  shows "(\<forall>k cn. map_of (conns s) k = Some cn \<longrightarrow> cn_Conn cn \<in> set serving) \<and>
    (\<forall>i key. map_of (cache s) i = Some key \<or> map_of (keys s) i = Some key \<longrightarrow> ak_ID key = i)"
proof -
  have "mt_inv {} serving s"
    using teled_srv.reachable_inv [OF assms] by simp
  then show ?thesis
    by (auto simp: mt_inv_def filed_get)
qed


section \<open>Frames without a key\<close>

lemma getSession_only:
  assumes "getSession i s = (r, s')"
  shows "r \<noteq> Panic \<and> (\<exists>a p. s' = s\<lparr>cache := a, keys_pos := p\<rparr>)"
proof (cases "map_of (cache s) i")
  case None
  have "\<exists>a p. s\<lparr>keys_pos := q\<rparr> = s\<lparr>cache := a, keys_pos := p\<rparr>" for q
    by (rule exI [of _ "cache s"], rule exI [of _ q]) simp
  moreover have "\<exists>a p. s\<lparr>keys_pos := q, cache := c\<rparr> = s\<lparr>cache := a, keys_pos := p\<rparr>" for q c
    by (rule exI [of _ c], rule exI [of _ q]) simp
  ultimately show ?thesis
    using None assms
    by (auto simp: getSession_stored Let_def split: if_splits option.splits)
next
  case (Some key)
  with assms show ?thesis
    by (auto simp: getSession_cached intro!: exI [of _ "cache s"] exI [of _ "keys_pos s"])
qed

text \<open>The keys a lookup may find.\<close>

definition known_key :: "('r, 'z) mtserver_scheme \<Rightarrow> bytes \<Rightarrow> AuthKey \<Rightarrow> bool" where
  "known_key s i key \<longleftrightarrow> map_of (cache s) i = Some key \<or> map_of (keys s) i = Some key"

lemma getSession_known:
  assumes "getSession i s = (r, s')"
  shows "(r = Ok (Some key) \<longrightarrow> known_key s i key) \<and> (known_key s' j key' \<longrightarrow> known_key s j key')"
  using assms
  by (cases "map_of (cache s) i")
    (auto simp: getSession_cached getSession_stored known_key_def Let_def split: if_splits option.splits)

lemma rpcHandle_forged:
  assumes "\<And>msg key. decodeEncrypted L b = Some msg \<Longrightarrow> known_key s (em_AuthKeyID msg) key \<Longrightarrow> Decrypt L key msg = None"
    and "rpcHandle n L H dc c b s = (r, s')"
  shows "(\<exists>e. r = Err e) \<and> (\<exists>a p. s' = s\<lparr>cache := a, keys_pos := p\<rparr>)"
proof (cases "decodeEncrypted L b")
  case None
  with assms(2) show ?thesis
    by (auto simp: rpcHandle_def intro!: exI [of _ "cache s"] exI [of _ "keys_pos s"])
next
  case (Some msg)
  obtain r1 s1 where get: "getSession (em_AuthKeyID msg) s = (r1, s1)"
    by (cases "getSession (em_AuthKeyID msg) s")
  have "r1 = Ok (Some key) \<Longrightarrow> Decrypt L key msg = None" for key
    using assms(1) [OF Some] getSession_known [OF get] by blast
  with Some get assms(2) have "s' = s1 \<and> (\<exists>e. r = Err e)"
    using getSession_only [OF get] by (auto simp: rpcHandle_def bnd_def split: option.splits outcome.splits)
  with getSession_only [OF get] show ?thesis
    by simp
qed

text \<open>C33: A frame that names a key but was not made with that key (no key the server knows decrypts it) does not reach the
  handler: neither its state nor any session or stored key changes. The client gets the protocol error
  404 for an unknown key, and nothing for a known one; then the connection is over.\<close>

theorem forged_frame:
  assumes "PeekN L 8 b = Some i" "i \<noteq> zero_key"
    and "\<And>msg key. decodeEncrypted L b = Some msg \<Longrightarrow> known_key s (em_AuthKeyID msg) key \<Longrightarrow> Decrypt L key msg = None"
    and run: "serve_frame n L H dc c b rest s = (r, s')"
  shows "s' = s\<lparr>cache := cache s', wire := wire s', keys_pos := keys_pos s', write_pos := write_pos s'\<rparr> \<and>
    (case getSession i s of
       (Ok (Some key), _) \<Rightarrow> wire s' = wire s \<and> (\<exists>e. r = Err e)
     | (Ok None, _) \<Rightarrow> (if r = Ok (Some rest) then wire s' = wire s @ [(c, ProtoError (- 404))]
         else r = Err ErrSend \<and> wire s' = wire s)
     | (out, _) \<Rightarrow> wire s' = wire s \<and> (\<exists>e. r = Err e))"
proof -
  obtain r1 s1 where get: "getSession i s = (r1, s1)"
    by (cases "getSession i s")
  obtain a p where s1: "s1 = s\<lparr>cache := a, keys_pos := p\<rparr>" and "r1 \<noteq> Panic"
    using getSession_only [OF get] by blast
  note frame = run [unfolded serve_frame_def assms(1) option.case if_P [OF assms(2)]]
  show ?thesis
  proof (cases r1)
    case (Ok k)
    show ?thesis
    proof (cases k)
      case None
      with frame get Ok have "bnd (sendProtoError c CodeAuthKeyNotFound) (\<lambda>_. ret (Some rest)) s1 = (r, s')"
        by (simp add: bnd_def)
      then show ?thesis
        using get Ok None s1
        by (auto simp: bnd_def sendProtoError_def conn_send_def CodeAuthKeyNotFound_def split: if_splits)
    next
      case (Some key)
      obtain r2 s2 where handled: "rpcHandle n L H dc c b s1 = (r2, s2)"
        by (cases "rpcHandle n L H dc c b s1")
      have "decodeEncrypted L b = Some msg \<Longrightarrow> known_key s1 (em_AuthKeyID msg) key \<Longrightarrow> Decrypt L key msg = None" for msg key
        using assms(3) getSession_known [OF get] by blast
      from rpcHandle_forged [OF this handled] obtain e a' p' where
        "r2 = Err e" "s2 = s1\<lparr>cache := a', keys_pos := p'\<rparr>"
        by blast
      with frame get Ok Some handled s1 show ?thesis
        by (auto simp: bnd_def)
    qed
  next
    case (Err e)
    with frame get s1 show ?thesis
      by (auto simp: bnd_def)
  qed (use \<open>r1 \<noteq> Panic\<close> in simp)
qed

section \<open>Keys\<close>


section \<open>The end of a connection\<close>

lemma serve_loop_ends:
  assumes "mt_handler H" "serve_loop n L H dc c bs s = (r, s')" "mt_inv {} serving s" "c \<in> set serving" "r \<noteq> Panic"
  shows "step_ok c serving s s'"
  using assms
proof (induction n L H dc c bs s rule: serve_loop.induct)
  case (1 n L H dc c s)
  then show ?case
    by (auto intro: step_okI)
next
  case (2 n L H dc c b rest s)
  obtain r1 s1 where frame: "serve_frame n L H dc c b rest s = (r1, s1)"
    by (cases "serve_frame n L H dc c b rest s")
  have "r1 \<noteq> Panic"
    using frame "2.prems"(2,5) by auto
  note step = mt_handler.serve_frame_step [OF "2.prems"(1) frame this "2.prems"(3,4)]
  show ?case
  proof (cases "\<exists>rest'. r1 = Ok (Some rest')")
    case True
    then obtain rest' where r1: "r1 = Ok (Some rest')"
      by blast
    then have "step_ok c serving s1 s'"
      using "2.IH" [OF frame [unfolded r1, symmetric] refl refl] "2.prems" frame step by auto
    with step show ?thesis
      unfolding step_ok_def by (metis writes_trans)
  next
    case False
    with frame step "2.prems"(2) show ?thesis
      by (auto split: outcome.splits option.splits)
  qed
qed


section \<open>Messages\<close>

text \<open>C36: Handling a message is handling, one after the other and in order, the messages that
  are left when all containers in it are opened; an error in one does not keep
  the later ones from being handled, and the errors are returned together.\<close>

theorem containers_in_order:
  assumes "container_shrinks L" "length (rq_Buf req) < n"
  shows "handle n L H req =
    bnd (handle_each (handle_one L H) req (flatten n L (rq_MsgID req, rq_Buf req)) None) return_error"
  by (rule handle_flat [OF assms])



text \<open>
  The key exchange reads the frame that was pushed back and then those that follow on the
  connection; what it did not read is what the server goes on with.
\<close>

lemma exchange_reads_on:
  "received k (Push b (newBufferedConn rest)) = take k (b # rest) \<and>
    (0 < k \<longrightarrow> bc_conn (((\<lambda>c. snd (Recv c)) ^^ k) (Push b (newBufferedConn rest))) = drop k (b # rest))"
  by (cases k) (simp_all add: received_take Recvs_left Push_def newBufferedConn_def del: funpow.simps)

section \<open>The whole server\<close>

text \<open>C39: In no reachable state does a frame, whatever bytes it has, make the server panic, and
  the database of the server keeps its invariant.\<close>

theorem teled_never_panics:
  assumes "mt_reachable n L (teled_handler n decode L) dc opts s0 (serving, s)" "bounded_lib n decode L"
    and "server_reachable s0" "serve_frame n L (teled_handler n decode L) dc c b rest s = (r, s')"
  shows "r \<noteq> Panic \<and> (userSeq s' < BotFatherID \<longrightarrow> db_inv s')"
proof -
  have "sane {} s \<and> db_ok s"
    using reachable_sound [OF assms(1-3)] by simp
  then have "r \<noteq> Panic \<and> db_ok s'"
    using soundD [OF sound_serve_frame [OF assms(2)] assms(4)] by blast
  then show ?thesis
    by (simp add: db_ok_def)
qed

text \<open>The types of messages that are answered by the MTProto layer itself, or unpacked there.\<close>

fun service_message :: "type_id \<Rightarrow> bool" where
  "service_message PingDelayDisconnectRequestTypeID = True"
| "service_message PingRequestTypeID = True"
| "service_message GetFutureSaltsRequestTypeID = True"
| "service_message RPCDropAnswerRequestTypeID = True"
| "service_message GZIPTypeID = True"
| "service_message MessageContainerTypeID = True"
| "service_message _ = False"

lemma mmod_id: "map_of m k = Some v \<Longrightarrow> f v = v \<Longrightarrow> mmod k f m = m"
  by (induction m) auto

lemma handle_rpc:
  assumes "PeekID L (rq_Buf req) = Some i" "\<not> service_message i"
  shows "handle (Suc n) L H req = deliverRequest L H req"
  using assms by (cases i) (simp_all add: handle.simps)

lemma SendResult_run:
  assumes "map_of (conns s) (mts_ID (rq_Session req)) = Some cn" "cn_Conn cn \<notin> set (closed s)" "write_ok s (write_pos s)"
    and "encodes_body L body" "encodes L (Result (rq_MsgID req) body)" "Encrypts L (mts_AuthKey (rq_Session req)) (Result (rq_MsgID req) body)"
  shows "SendResult L req body s = (Ok (), s
    \<lparr>wire := wire s @ [(cn_Conn cn, Sealed (mts_AuthKey (rq_Session req)) (mts_ID (rq_Session req))
        (msg_ids s (msg_pos s) MessageServerResponse) (Result (rq_MsgID req) body))],
      write_pos := Suc (write_pos s), msg_pos := Suc (msg_pos s)\<rparr>)"
  using assms by (simp add: SendResult_def sendReq_def Send_def getConnection_def bnd_def newMsgID_def conn_send_def)

text \<open>C40: A request over the wire: a frame made with a known key, for a session that is live on the connection,
  whose message is, inside any invoke wrappers, an RPC request. The server executes that request for
  the session and the key, and answers, on this connection and encrypted with that key, with
  one result for the message's id: the reply of the request, or its RPC error.\<close>

theorem request_answered:
  assumes "PeekN L 8 b = Some (ak_ID key)" "ak_ID key \<noteq> zero_key" "map_of (cache s) (ak_ID key) = Some key"
    and "decodeEncrypted L b = Some m" "em_AuthKeyID m = ak_ID key" "Decrypt L key m = Some msg"
    and "map_of (conns s) (ed_SessionID msg) = Some \<lparr>cn_Conn = c, cn_sent = True\<rparr>" "c \<notin> set (closed s)"
    and "PeekID L (ed_Data msg) = Some i" "\<not> service_message i" "unwraps L i (ed_Data msg) q" "decode q = Some r"
    and "invoke_shrinks L" "length (ed_Data msg) < n"
    and run: "serve (handler_session \<lparr>mts_ID = ed_SessionID msg, mts_AuthKey = key\<rparr>) r s = (out, s1)"
    and body: "(case body of Reply reply \<Rightarrow> out = Ok reply | RPCError code t \<Rightarrow> out = Err (RpcError code t) | _ \<Rightarrow> False)"
    and "encodes_body L body" "encodes L (Result (ed_MessageID msg) body)" "Encrypts L key (Result (ed_MessageID msg) body)"
    and "write_ok s1 (write_pos s1)"
  shows "serve_frame n L (teled_handler n decode L) dc c b rest s = (Ok (Some rest), s1
    \<lparr>wire := wire s1 @ [(c, Sealed key (ed_SessionID msg) (msg_ids s1 (msg_pos s1) MessageServerResponse)
        (Result (ed_MessageID msg) body))],
      write_pos := Suc (write_pos s1), msg_pos := Suc (msg_pos s1)\<rparr>)"
proof -
  define req where "req = \<lparr>rq_DC = dc, rq_Session = \<lparr>mts_ID = ed_SessionID msg, mts_AuthKey = key\<rparr>,
     rq_MsgID = ed_MessageID msg, rq_Buf = ed_Data msg\<rparr>"
  define s2 where "s2 = s1\<lparr>wire := wire s1 @ [(c, Sealed key (ed_SessionID msg) (msg_ids s1 (msg_pos s1) MessageServerResponse)
        (Result (ed_MessageID msg) body))], write_pos := Suc (write_pos s1), msg_pos := Suc (msg_pos s1)\<rparr>"
  have "talks s s1"
    using only_talksD [OF OnMessage_talks [OF dispatch_talks] run [unfolded serve_def]] body
    by (auto split: result_body.splits)
  then have "SendResult L (req\<lparr>rq_Buf := q\<rparr>) body s1 = (Ok (), s2)" "SendResult L req body s1 = (Ok (), s2)"
    using assms by (simp_all add: SendResult_run req_def talks_def s2_def)
  moreover have "teled_handler n decode L req s = rpc_handler decode L (req\<lparr>rq_Buf := q\<rparr>) s"
    using unwraps_unpack [OF assms(13,11,14)] assms(9) by (simp add: teled_handler_def UnpackInvoke_def req_def)
  moreover have "rpc_handler decode L (req\<lparr>rq_Buf := q\<rparr>) s =
      bnd (serve (handler_session (rq_Session req)) r) (\<lambda>e. SendResult L (req\<lparr>rq_Buf := q\<rparr>) (Reply e)) s"
    using assms(12) by (simp add: rpc_handler_def serve_def)
  ultimately have "deliverRequest L (teled_handler n decode L) req s = (Ok (), s2)"
    using run body by (cases body) (simp_all add: deliverRequest_def on_err_def bnd_def SendErr_def req_def)
  moreover obtain k where n: "n = Suc k"
    using assms(14) by (cases n) auto
  ultimately have "handle n L (teled_handler n decode L) req s = (Ok (), s2)"
    unfolding n using assms(9,10) by (simp add: handle_rpc req_def)
  moreover have "announce L \<lparr>mts_ID = ed_SessionID msg, mts_AuthKey = key\<rparr> c s = (Ok (), s)"
    using assms(7) by (simp add: announce_live mmod_id)
  ultimately have "rpcHandle n L (teled_handler n decode L) dc c b s = (Ok (), s2)"
    using assms(3-6) by (simp add: rpcHandle_announce getSession_cached bnd_def req_def)
  then show ?thesis
    using assms(1-3) by (simp add: serve_frame_def getSession_cached bnd_def s2_def)
qed

end
