(* ===== verification/MtSamples.thy ===== *)
theory MtSamples imports MtProto ServerSamples begin

text \<open>The properties of the MTProto server at concrete inputs: a small wire format and one client.\<close>

section \<open>A wire format\<close>

text \<open>
  Frames are an 8-byte key id, a byte that must match the key, and a message; the first byte
  of a message is its type, and a container holds messages of one byte.
\<close>

fun peek_type :: "bytes \<Rightarrow> type_id option" where
  "peek_type [] = None"
| "peek_type (t # b) = Some (if t = CHR ''P'' then PingRequestTypeID else if t = CHR ''C'' then MessageContainerTypeID
     else if t = CHR ''I'' then InvokeWithLayerRequestTypeID else OtherTypeID 0)"

definition sample_lib :: "reply lib" where
  "sample_lib =
    \<lparr>PeekN = (\<lambda>n b. if length b < n then None else Some (take n b)), PeekID = peek_type,
     decodeEncrypted = (\<lambda>b. Some \<lparr>em_AuthKeyID = take 8 b, em_MsgKey = take 1 (drop 8 b), em_EncryptedData = drop 9 b\<rparr>),
     Decrypt = (\<lambda>key m. if em_MsgKey m = ak_Value key \<and> length (em_EncryptedData m) < 5
       then Some \<lparr>ed_SessionID = 21, ed_MessageID = 77, ed_Data = em_EncryptedData m\<rparr> else None),
     decodePing = (\<lambda>_ _. Some 5), decodeFutureSalts = (\<lambda>_. True), decodeDropAnswer = (\<lambda>_. True),
     decodeGZIP = (\<lambda>_. None), decodeContainer = (\<lambda>b. Some (map (\<lambda>c. (of_char c, [c])) (tl b))),
     decodeInvoke = (\<lambda>_ b. if b = [] then None else Some (tl b)),
     encodes_body = (\<lambda>_. True), encodes = (\<lambda>_. True), Encrypts = (\<lambda>_ _. True)\<rparr>"

definition sample_decode :: "bytes \<Rightarrow> request option" where
  "sample_decode b = (if b = ''S'' then Some ReqUpdatesGetState else None)"

definition sample_key :: AuthKey where
  "sample_key = \<lparr>ak_ID = ''key-id-8'', ak_Value = ''v''\<rparr>"

definition mt_host :: "reply mtserver" where
  "mt_host = server.extend sample_host
     (mtserver.fields [] [] [] [] [] (\<lambda>n. n \<noteq> 7) 0 (\<lambda>n. n \<noteq> 9) 0 (\<lambda>n t. int n) 0 (\<lambda>_ _. (ExchangedKey sample_key, 1)) 0)"

definition mt_base :: "reply mtserver" where
  "mt_base = New mt_host"

definition sample_options :: ServerOptions where
  "sample_options = \<lparr>opt_DC = 0, opt_Random = None, opt_Logger = None, opt_Keys = None, opt_Clock = None,
     opt_MessageID = None, opt_Types = None, opt_ReadTimeout = 0, opt_WriteTimeout = 0\<rparr>"

abbreviation sample_handler :: "(reply, unit) handler" where
  "sample_handler \<equiv> teled_handler 5 sample_decode sample_lib"

text \<open>The client: a key exchange, then a request.\<close>

definition hello_frame :: bytes where "hello_frame = replicate 8 (chr 0)"

definition state_frame :: bytes where "state_frame = ''key-id-8'' @ ''v'' @ ''S''"

definition mt_keyed :: "reply mtserver" where
  "mt_keyed = snd (serve_frame 5 sample_lib sample_handler 2 1 hello_frame [] (NewServer sample_options mt_base))"

definition mt_live :: "reply mtserver" where
  "mt_live = snd (serve_frame 5 sample_lib sample_handler 2 1 state_frame [] mt_keyed)"

lemma sample_lib_sel [simp]:
  "PeekN sample_lib n b = (if length b < n then None else Some (take n b))" "PeekID sample_lib = peek_type"
  "decodeEncrypted sample_lib b = Some \<lparr>em_AuthKeyID = take 8 b, em_MsgKey = take 1 (drop 8 b), em_EncryptedData = drop 9 b\<rparr>"
  "Decrypt sample_lib key m = (if em_MsgKey m = ak_Value key \<and> length (em_EncryptedData m) < 5
       then Some \<lparr>ed_SessionID = 21, ed_MessageID = 77, ed_Data = em_EncryptedData m\<rparr> else None)"
  "decodePing sample_lib i b = Some 5" "decodeGZIP sample_lib b = None"
  "decodeContainer sample_lib b = Some (map (\<lambda>c. (of_char c, [c])) (tl b))"
  "decodeInvoke sample_lib i b = (if b = [] then None else Some (tl b))"
  "encodes_body sample_lib body" "encodes sample_lib ms" "Encrypts sample_lib key ms"
  by (simp_all add: sample_lib_def)

lemma mt_base_sel [simp]:
  "hasDB mt_base" "sessions mt_base = []" "tempKeys mt_base = []" "clk mt_base = int" "clk_pos mt_base = 1"
  "keys mt_base = []" "cache mt_base = []" "conns mt_base = []" "wire mt_base = []" "closed mt_base = []"
  "keys_ok mt_base = (\<lambda>n. n \<noteq> 7)" "keys_pos mt_base = 0" "write_ok mt_base = (\<lambda>n. n \<noteq> 9)" "write_pos mt_base = 0"
  "msg_ids mt_base = (\<lambda>n t. int n)" "msg_pos mt_base = 0" "exchanges mt_base = (\<lambda>_ _. (ExchangedKey sample_key, 1))"
  "exch_pos mt_base = 0"
  by (simp_all add: mt_base_def New_def NewDB_def mt_host_def sample_host_def sample_world_def server.defs mtserver.defs
      memdb.defs bnd_def now_def)

lemma mt_base_reachable: "server_reachable mt_base"
  unfolding mt_base_def by (rule server_start)

lemma hello_values: "length hello_frame = 8" "take 8 hello_frame = zero_key"
  by (simp_all add: hello_frame_def zero_key_def)

lemma state_values: "length state_frame = 10" "take 8 state_frame = ''key-id-8''" "take (Suc 0) (drop 8 state_frame) = ''v''"
  "drop 9 state_frame = ''S''"
  by (simp_all add: state_frame_def)

lemma key_not_zero: "''key-id-8'' \<noteq> zero_key"
  by (simp add: zero_key_def eval_nat_numeral chr_def char_of_def)

lemma hello_run: "serve_frame 5 sample_lib sample_handler 2 1 hello_frame [] (NewServer sample_options mt_base) = (Ok (Some []),
    mt_base\<lparr>cache := [(''key-id-8'', sample_key)], keys := [(''key-id-8'', sample_key)], keys_pos := 1, exch_pos := 1\<rparr>)"
  by (simp add: serve_frame_def hello_values exchange_def Recv_def pop_def Push_def newBufferedConn_def conn_recv_def
      NewServer_def newRegistry_def setDefaults_def or_default_def sample_options_def NewInMemoryKeys_def bnd_def addSession_run Let_def sample_key_def)

lemma mt_keyed_run: "mt_keyed =
    mt_base\<lparr>cache := [(''key-id-8'', sample_key)], keys := [(''key-id-8'', sample_key)], keys_pos := 1, exch_pos := 1\<rparr>"
  by (simp only: mt_keyed_def hello_run snd_conv)

lemma mt_keyed_sel [simp]:
  "hasDB mt_keyed" "sessions mt_keyed = []" "tempKeys mt_keyed = []" "clk mt_keyed = int" "clk_pos mt_keyed = 1"
  "keys mt_keyed = [(''key-id-8'', sample_key)]" "cache mt_keyed = [(''key-id-8'', sample_key)]" "conns mt_keyed = []"
  "wire mt_keyed = []" "closed mt_keyed = []"
  "keys_ok mt_keyed = (\<lambda>n. n \<noteq> 7)" "keys_pos mt_keyed = 1" "write_ok mt_keyed = (\<lambda>n. n \<noteq> 9)" "write_pos mt_keyed = 0"
  "msg_ids mt_keyed = (\<lambda>n t. int n)" "msg_pos mt_keyed = 0" "exchanges mt_keyed = (\<lambda>_ _. (ExchangedKey sample_key, 1))"
  "exch_pos mt_keyed = 1"
  by (simp_all add: mt_keyed_run)

lemma sample_key_sel [simp]: "ak_ID sample_key = ''key-id-8''" "ak_Value sample_key = ''v''"
  by (simp_all add: sample_key_def)

lemma five_rounds:
  "PeekID L (rq_Buf req) = Some i \<Longrightarrow> \<not> service_message i \<Longrightarrow> handle 5 L H req = deliverRequest L H req"
  "\<not> invoke_wrapper i \<Longrightarrow> unpack 5 L i b = Some (Inr b)"
  using handle_rpc [of L req i 4 H] unpack.simps(2) [of 4 L i b] by simp_all

text \<open>The stranger's request: no account is bound to the key, so the answer is an RPC error.\<close>

lemma state_handled:
  assumes "hasDB s" "sessions s = []" "tempKeys s = []"
  shows "sample_handler \<lparr>rq_DC = 2, rq_Session = \<lparr>mts_ID = 21, mts_AuthKey = sample_key\<rparr>, rq_MsgID = 77, rq_Buf = ''S''\<rparr> s =
    (Err (RpcError 401 ''AUTH_KEY_UNREGISTERED''), s)"
  using assms
  by (simp add: teled_handler_def UnpackInvoke_def five_rounds rpc_handler_def OnMessage_def trackCaller_def
      effectiveKeyID_def PermAuthKey_def SessionUserID_def handler_session_def sample_decode_def updatesGetState_def
      reply_with_def requireCaller_def requireDB_def internal_def callerUser_def request_ctx_def callerKeyID_def
      on_err_def bnd_def Let_def)

lemma state_run: "serve_frame 5 sample_lib sample_handler 2 1 state_frame rest mt_keyed = (Ok (Some rest),
    mt_keyed\<lparr>conns := [(21, \<lparr>cn_Conn = 1, cn_sent = True\<rparr>)],
      wire := [(1, Sealed sample_key 21 1 (NewSessionCreated 0 (session_salt sample_key))),
        (1, Sealed sample_key 21 2 (Result 77 (RPCError 401 ''AUTH_KEY_UNREGISTERED'')))],
      write_pos := 2, msg_pos := 3\<rparr>)"
  by (simp add: serve_frame_def state_values key_not_zero getSession_cached rpcHandle_def createConnection_def
      sentCreated_def sendSessionCreated_def newMsgID_def Send_def getConnection_def conn_send_def five_rounds
      deliverRequest_def state_handled SendErr_def SendResult_def sendReq_def on_err_def bnd_def Let_def)

lemma mt_live_run: "mt_live = mt_keyed\<lparr>conns := [(21, \<lparr>cn_Conn = 1, cn_sent = True\<rparr>)],
      wire := [(1, Sealed sample_key 21 1 (NewSessionCreated 0 (session_salt sample_key))),
        (1, Sealed sample_key 21 2 (Result 77 (RPCError 401 ''AUTH_KEY_UNREGISTERED'')))],
      write_pos := 2, msg_pos := 3\<rparr>"
  by (simp only: mt_live_def state_run snd_conv)

lemma mt_live_sel [simp]:
  "cache mt_live = [(''key-id-8'', sample_key)]" "keys mt_live = [(''key-id-8'', sample_key)]" "conns mt_live = [(21, \<lparr>cn_Conn = 1, cn_sent = True\<rparr>)]"
  "wire mt_live = [(1, Sealed sample_key 21 1 (NewSessionCreated 0 (session_salt sample_key))),
        (1, Sealed sample_key 21 2 (Result 77 (RPCError 401 ''AUTH_KEY_UNREGISTERED'')))]"
  "closed mt_live = []" "write_ok mt_live = (\<lambda>n. n \<noteq> 9)" "write_pos mt_live = 2" "userSeq mt_live = userSeq mt_base"
  by (simp_all add: mt_live_run mt_keyed_run)

section \<open>Reachable states\<close>

lemma mt_keyed_reachable: "mt_reachable 5 sample_lib sample_handler 2 sample_options mt_base ([1], mt_keyed)"
proof -
  have "mt_reachable 5 sample_lib sample_handler 2 sample_options mt_base ([], NewServer sample_options mt_base)"
    by (rule mt_start) simp
  then have "mt_reachable 5 sample_lib sample_handler 2 sample_options mt_base ([1], NewServer sample_options mt_base)"
    by (rule mt_next) (rule mt_accept, simp_all add: NewServer_def newRegistry_def)
  then show ?thesis
    by (rule mt_next) (rule mt_frame [OF _ hello_run [folded mt_keyed_run]], simp)
qed

lemma mt_live_reachable: "mt_reachable 5 sample_lib sample_handler 2 sample_options mt_base ([1], mt_live)"
  by (rule mt_next [OF mt_keyed_reachable]) (rule mt_frame [OF _ state_run [folded mt_live_run]], simp)

lemma sample_stored: "stored_keys sample_options"
  by (simp add: stored_keys_def sample_options_def)

lemma sample_shrinks: "container_shrinks sample_lib" "invoke_shrinks sample_lib"
proof -
  have "length [c] < length b" if "c \<in> set (tl b)" for c :: char and b
    using length_pos_if_in_set [OF that] by (cases b) auto
  then show "container_shrinks sample_lib"
    unfolding container_shrinks_def by fastforce
  show "invoke_shrinks sample_lib"
    by (auto simp: invoke_shrinks_def split: if_splits)
qed

lemma sample_bounded: "bounded_lib 5 sample_decode sample_lib"
  using sample_shrinks by (auto simp: bounded_lib_def sample_decode_def split: if_splits)

section \<open>The properties\<close>

theorem sessions_are_served_witness: "cn_Conn \<lparr>cn_Conn = 1, cn_sent = True\<rparr> \<in> set [1 :: nat]"
  using sessions_are_served [OF mt_live_reachable sample_stored] by auto


theorem forged_frame_witness:
  "\<exists>r s'. serve_frame 5 sample_lib sample_handler 2 1 ''key-id-8xS'' [] mt_live = (r, s') \<and> wire s' = wire mt_live \<and> (\<exists>e. r = Err e)"
proof -
  obtain r s' where run: "serve_frame 5 sample_lib sample_handler 2 1 ''key-id-8xS'' [] mt_live = (r, s')"
    by (cases "serve_frame 5 sample_lib sample_handler 2 1 ''key-id-8xS'' [] mt_live")
  have "PeekN sample_lib 8 ''key-id-8xS'' = Some ''key-id-8''"
    by simp
  moreover have "Decrypt sample_lib key msg = None"
    if "decodeEncrypted sample_lib ''key-id-8xS'' = Some msg" "known_key mt_live (em_AuthKeyID msg) key" for key msg
    using that by (auto simp: known_key_def)
  ultimately show ?thesis
    using forged_frame [OF _ key_not_zero _ run] run by (simp add: getSession_cached)
qed



text \<open>A container with a ping and a request.\<close>

definition sample_container :: Request where
  "sample_container = \<lparr>rq_DC = 2, rq_Session = \<lparr>mts_ID = 21, mts_AuthKey = sample_key\<rparr>, rq_MsgID = 77, rq_Buf = ''CPS''\<rparr>"

lemma sample_container_flat: "flatten 5 sample_lib (77, ''CPS'') = [(of_char CHR ''P'', ''P''), (of_char CHR ''S'', ''S'')]"
  by (simp add: eval_nat_numeral)

theorem containers_in_order_witness:
  "handle 5 sample_lib sample_handler sample_container =
    bnd (handle_each (handle_one sample_lib sample_handler) sample_container [(of_char CHR ''P'', ''P''), (of_char CHR ''S'', ''S'')] None) return_error"
  using containers_in_order [OF sample_shrinks(1), of sample_container 5 sample_handler] sample_container_flat
  by (simp add: sample_container_def)



theorem teled_never_panics_witness:
  "\<exists>r s'. serve_frame 5 sample_lib sample_handler 2 1 ''key-id-8vCIP'' [] mt_live = (r, s') \<and> r \<noteq> Panic"
proof -
  obtain r s' where run: "serve_frame 5 sample_lib sample_handler 2 1 ''key-id-8vCIP'' [] mt_live = (r, s')"
    by (cases "serve_frame 5 sample_lib sample_handler 2 1 ''key-id-8vCIP'' [] mt_live")
  from teled_never_panics [OF mt_live_reachable sample_bounded mt_base_reachable run] run show ?thesis
    by blast
qed

theorem request_answered_witness:
  "\<exists>s1 i. serve_frame 5 sample_lib sample_handler 2 1 state_frame [] mt_live = (Ok (Some []), s1) \<and>
     wire s1 = wire mt_live @ [(1, Sealed sample_key 21 i (Result 77 (RPCError 401 ''AUTH_KEY_UNREGISTERED'')))]"
proof -
  have serve: "serve (handler_session \<lparr>mts_ID = ed_SessionID \<lparr>ed_SessionID = 21, ed_MessageID = 77, ed_Data = ''S''\<rparr>, mts_AuthKey = sample_key\<rparr>)
      ReqUpdatesGetState mt_live = (Err (RpcError 401 ''AUTH_KEY_UNREGISTERED''), mt_live)"
    by (simp add: serve_def OnMessage_def trackCaller_def effectiveKeyID_def PermAuthKey_def SessionUserID_def
        handler_session_def updatesGetState_def reply_with_def requireCaller_def requireDB_def internal_def
        callerUser_def request_ctx_def callerKeyID_def on_err_def bnd_def Let_def mt_live_run)
  have "unwraps sample_lib (OtherTypeID 0) (ed_Data \<lparr>ed_SessionID = 21, ed_MessageID = 77, ed_Data = ''S''\<rparr>) ''S''"
    by (simp add: unwraps_query)
  note answered = request_answered [OF _ _ _ _ _ _ _ _ _ _ this _ sample_shrinks(2) _ serve, where n = 5 and b = state_frame and c = 1]
  show ?thesis
    by (rule exI, rule exI, rule conjI, rule answered, simp_all add: state_values key_not_zero sample_decode_def, simp_all)
qed

end
