(* ===== verification/PgTables.thy ===== *)
theory PgTables imports MemCalls Entities begin

text \<open>
  The tables of the PostgreSQL database, as the migrations \<^verbatim>\<open>internal/db/_migrations\<close> create
  them, and the SQL the package \<^verbatim>\<open>internal/db\<close> runs on them: a statement, its implicit
  transaction, explicit transactions, inserts with their constraints, \<^verbatim>\<open>LIMIT\<close> and \<^verbatim>\<open>ILIKE\<close>.
  Columns that are never read (\<^verbatim>\<open>created_at\<close> of the codes and keys, \<^verbatim>\<open>reply_to_global_id\<close>) are
  left out. A nullable column is an option; the primary key is the key of the map.
\<close>

section \<open>Rows\<close>

record user_row =
  u_access_hash :: int
  u_phone :: "string option"
  u_username :: "string option"
  u_first_name :: string
  u_last_name :: string
  u_about :: string
  u_created_at :: int
  u_last_message_id :: int
  u_pts :: int
  u_is_bot :: bool
  u_bot_token :: "string option"
  u_bot_owner_id :: "int option"

record message_row =
  m_from_user_id :: int
  m_peer_user_id :: int
  m_text :: string
  m_date :: int
  m_edit_date :: "int option"
  m_random_id :: int
  m_deleted :: bool
  m_media_file_id :: "int option"

record ref_row =
  r_global_id :: int
  r_out :: bool
  r_unread :: bool

record log_row =
  l_pts_count :: int
  l_type :: string
  l_global_id :: "int option"
  l_extra :: "bytes option"
  l_date :: int

record tables =
  t_auth_keys :: "(bytes, bytes) gomap"
  t_users :: "(int, user_row) gomap"
  t_phone_codes :: "(string \<times> string, string \<times> int) gomap"
  t_sessions :: "(bytes, int) gomap"
  t_contacts :: "(int \<times> int, string \<times> string) gomap"
  t_messages :: "(int, message_row) gomap"
  t_message_refs :: "(int \<times> int, ref_row) gomap"
  t_updates_log :: "(int \<times> int, log_row) gomap"
  t_files :: "(int, File) gomap"
  t_bot_commands :: "(int \<times> string \<times> string, BotCommand list) gomap"
  t_botfather_sessions :: "(int, BotFatherState) gomap"
  t_temp_auth_keys :: "(bytes, bytes \<times> int) gomap"
  t_drafts :: "(int \<times> int, string \<times> int) gomap"

text \<open>
  The database: its tables, its sequences (which no rollback resets), whether the \<open>i\<close>-th
  statement sent to the server is carried out (it fails when the connection is lost, or
  when a concurrent transaction makes it a deadlock victim), and the lower-case map of its
  collation on the code points above 127.
\<close>

record pgdb = world +
  tabs :: tables
  s_users :: int
  s_messages :: int
  s_files :: int
  pg_up :: "nat \<Rightarrow> bool"
  pg_pos :: nat
  pg_lower :: "nat \<Rightarrow> nat"

section \<open>Values\<close>

text \<open>The bytes PostgreSQL accepts as \<^verbatim>\<open>TEXT\<close>: valid UTF-8 without the null character.\<close>

function valid_utf8 :: "nat list \<Rightarrow> bool" where
  "valid_utf8 [] = True"
| "valid_utf8 (b # bs) = (b \<noteq> 0 \<and> (b < 128 \<or> snd (decode_rune (b # bs)) \<noteq> 1) \<and>
     valid_utf8 (drop (snd (decode_rune (b # bs))) (b # bs)))"
  by pat_completeness auto
termination
proof (relation "measure length")
  fix b bs
  show "(drop (snd (decode_rune (b # bs))) (b # bs), b # bs) \<in> measure length"
    using decode_rune_width [of "b # bs"] by simp
qed simp

definition text_ok :: "string \<Rightarrow> bool" where
  "text_ok s \<longleftrightarrow> valid_utf8 (map of_char s)"

text \<open>A \<^verbatim>\<open>TIMESTAMPTZ\<close> counts microseconds.\<close>

definition usec :: "int \<Rightarrow> int" where
  "usec t = t - t mod 1000"

text \<open>
  The text \<^verbatim>\<open>JSONB\<close> gives back for the two payloads of the update log: white space after
  each colon and comma, the keys in the order of their lengths, which is the order they
  have.
\<close>

definition jsonb :: "bytes \<Rightarrow> bytes" where
  "jsonb s = concat (map (\<lambda>c. if c = CHR '','' \<or> c = CHR '':'' then [c, CHR '' ''] else [c]) s)"

text \<open>
  A string that \<^verbatim>\<open>json.Marshal\<close> writes and \<^verbatim>\<open>json.Unmarshal\<close> reads back: each byte that is not
  part of valid UTF-8 has become U+FFFD.
\<close>

definition utf8_encode :: "nat \<Rightarrow> string" where
  "utf8_encode r = map char_of
     (if r < 128 then [r]
      else if r < 2048 then [192 + r div 64, 128 + r mod 64]
      else if r < 65536 then [224 + r div 4096, 128 + r div 64 mod 64, 128 + r mod 64]
      else [240 + r div 262144, 128 + r div 4096 mod 64, 128 + r div 64 mod 64, 128 + r mod 64])"

definition json_text :: "string \<Rightarrow> string" where
  "json_text s = concat (map utf8_encode (runes s))"

definition json_command :: "BotCommand \<Rightarrow> BotCommand" where
  "json_command c = \<lparr>bc_Command = json_text (bc_Command c), bc_Description = json_text (bc_Description c)\<rparr>"

definition json_ok :: "BotCommand list \<Rightarrow> bool" where
  "json_ok cs \<longleftrightarrow> (\<forall>c \<in> set cs. 0 \<notin> set (runes (bc_Command c)) \<and> 0 \<notin> set (runes (bc_Description c)))"

text \<open>\<^verbatim>\<open>LIKE\<close> on code points: \<^verbatim>\<open>%\<close> stands for any text, \<^verbatim>\<open>_\<close> for any one character, a
  backslash takes the next character as it is.\<close>

fun like :: "nat list \<Rightarrow> nat list \<Rightarrow> bool" where
  "like [] s = (s = [])"
| "like (c # p) [] = (c = 37 \<and> like p [])"
| "like (c # p) (x # s) = (if c = 37 then like p (x # s) \<or> like (c # p) s
     else if c = 95 then like p s
     else if c = 92 then (case p of [] \<Rightarrow> False | e # p' \<Rightarrow> e = x \<and> like p' s)
     else c = x \<and> like p s)"

definition low :: "'z pgdb_scheme \<Rightarrow> nat \<Rightarrow> nat" where
  "low g c = (if 65 \<le> c \<and> c \<le> 90 then c + 32 else if c < 128 then c else pg_lower g c)"

definition ilike :: "'z pgdb_scheme \<Rightarrow> string \<Rightarrow> string \<Rightarrow> bool" where
  "ilike g s p \<longleftrightarrow> like (map (low g) (runes p)) (map (low g) (runes s))"

section \<open>Statements and transactions\<close>

definition no_rows :: goerr where "no_rows = ErrLib ''no rows''"

definition violation :: goerr where "violation = ErrLib ''constraint violation''"

text \<open>A statement with the text parameters \<open>ts\<close> reaches the server and is accepted.\<close>

definition statement :: "string list \<Rightarrow> ('z pgdb_scheme, unit) go" where
  "statement ts = bnd (gets (\<lambda>g. pg_up g (pg_pos g))) (\<lambda>up.
     bnd (modify (\<lambda>g. g\<lparr>pg_pos := Suc (pg_pos g)\<rparr>)) (\<lambda>_.
     if \<not> up then fail (ErrLib ''connection'')
     else if \<not> list_all text_ok ts then fail (ErrLib ''invalid text'') else ret ()))"

definition rows :: "(tables \<Rightarrow> 'a) \<Rightarrow> ('z pgdb_scheme, 'a) go" where
  "rows f = gets (\<lambda>g. f (tabs g))"

definition change :: "(tables \<Rightarrow> tables) \<Rightarrow> ('z pgdb_scheme, unit) go" where
  "change f = modify (\<lambda>g. g\<lparr>tabs := f (tabs g)\<rparr>)"

definition require :: "bool \<Rightarrow> ('z pgdb_scheme, unit) go" where
  "require b = (if b then ret () else fail violation)"

text \<open>The one row of a \<^verbatim>\<open>QueryRow\<close>, or \<^verbatim>\<open>pgx.ErrNoRows\<close>.\<close>

definition one_row :: "'a option \<Rightarrow> ('z pgdb_scheme, 'a) go" where
  "one_row x = (case x of None \<Rightarrow> fail no_rows | Some r \<Rightarrow> ret r)"

text \<open>The time \<^verbatim>\<open>now()\<close> has in a transaction: that of its start.\<close>

definition pg_clock :: "('z pgdb_scheme, int) go" where
  "pg_clock = bnd now (\<lambda>t. ret (usec t))"

text \<open>What a transaction has changed in the tables is undone when it fails.\<close>

definition atomic :: "('z pgdb_scheme, 'a) go \<Rightarrow> ('z pgdb_scheme, 'a) go" where
  "atomic m = (\<lambda>g. case m g of
       (Ok x, g') \<Rightarrow> (Ok x, g')
     | (Err e, g') \<Rightarrow> (Err e, g'\<lparr>tabs := tabs g\<rparr>)
     | (Panic, g') \<Rightarrow> (Panic, g'\<lparr>tabs := tabs g\<rparr>))"

text \<open>A statement on its own, and \<^verbatim>\<open>Begin\<close>, a body at the time of the start, \<^verbatim>\<open>Commit\<close>.\<close>

definition autocommit :: "string list \<Rightarrow> (int \<Rightarrow> ('z pgdb_scheme, 'a) go) \<Rightarrow> ('z pgdb_scheme, 'a) go" where
  "autocommit ts m = atomic (bnd (statement ts) (\<lambda>_. bnd pg_clock m))"

definition tx :: "(int \<Rightarrow> ('z pgdb_scheme, 'a) go) \<Rightarrow> ('z pgdb_scheme, 'a) go" where
  "tx m = atomic (bnd (statement []) (\<lambda>_. bnd pg_clock (\<lambda>t. bnd (m t) (\<lambda>x.
     bnd (statement []) (\<lambda>_. ret x)))))"

definition pg_limit :: "int \<Rightarrow> 'a list \<Rightarrow> ('z pgdb_scheme, 'a list) go" where
  "pg_limit n xs = (if n < 0 then fail (ErrLib ''LIMIT must not be negative'') else ret (take (nat n) xs))"

section \<open>Constraints\<close>

text \<open>A value is free in a unique column: null, or in no row but possibly row \<open>i\<close>.\<close>

definition free_in :: "('r \<Rightarrow> 'v option) \<Rightarrow> int \<Rightarrow> (int, 'r) gomap \<Rightarrow> 'v option \<Rightarrow> bool" where
  "free_in col i t v \<longleftrightarrow> v = None \<or> list_all (\<lambda>(k, r). k = i \<or> col r \<noteq> v) t"

definition refers :: "('k, 'r) gomap \<Rightarrow> 'k \<Rightarrow> bool" where
  "refers t k \<longleftrightarrow> map_of t k \<noteq> None"

definition refers_opt :: "('k, 'r) gomap \<Rightarrow> 'k option \<Rightarrow> bool" where
  "refers_opt t k = (case k of None \<Rightarrow> True | Some i \<Rightarrow> refers t i)"

definition user_row_ok :: "int \<Rightarrow> user_row \<Rightarrow> tables \<Rightarrow> bool" where
  "user_row_ok i r T \<longleftrightarrow> free_in u_phone i (t_users T) (u_phone r) \<and>
     free_in u_username i (t_users T) (u_username r) \<and>
     free_in u_bot_token i (t_users T) (u_bot_token r) \<and> refers_opt (t_users T) (u_bot_owner_id r)"

definition insert_user :: "user_row \<Rightarrow> ('z pgdb_scheme, int) go" where
  "insert_user r = bnd (modify (\<lambda>g. g\<lparr>s_users := s_users g + 1\<rparr>)) (\<lambda>_. bnd (gets s_users) (\<lambda>i.
     bnd (rows (\<lambda>T. \<not> refers (t_users T) i \<and> user_row_ok i r T)) (\<lambda>b. bnd (require b) (\<lambda>_.
     bnd (change (\<lambda>T. T\<lparr>t_users := mput i r (t_users T)\<rparr>)) (\<lambda>_. ret i)))))"

definition update_user :: "int \<Rightarrow> (user_row \<Rightarrow> user_row) \<Rightarrow> ('z pgdb_scheme, user_row) go" where
  "update_user i f = bnd (rows (\<lambda>T. map_of (t_users T) i)) (\<lambda>x. bnd (one_row x) (\<lambda>r.
     bnd (rows (user_row_ok i (f r))) (\<lambda>b. bnd (require b) (\<lambda>_.
     bnd (change (\<lambda>T. T\<lparr>t_users := mmod i f (t_users T)\<rparr>)) (\<lambda>_. ret (f r))))))"

definition insert_message :: "message_row \<Rightarrow> ('z pgdb_scheme, int) go" where
  "insert_message r = bnd (modify (\<lambda>g. g\<lparr>s_messages := s_messages g + 1\<rparr>)) (\<lambda>_. bnd (gets s_messages) (\<lambda>i.
     bnd (rows (\<lambda>T. \<not> refers (t_messages T) i \<and> refers (t_users T) (m_from_user_id r) \<and>
       refers (t_users T) (m_peer_user_id r) \<and> refers_opt (t_files T) (m_media_file_id r))) (\<lambda>b.
     bnd (require b) (\<lambda>_.
     bnd (change (\<lambda>T. T\<lparr>t_messages := mput i r (t_messages T)\<rparr>)) (\<lambda>_. ret i)))))"

text \<open>The schema after all migrations: no row but that of BotFather, the sequences at zero.\<close>

definition no_tables :: tables where
  "no_tables = \<lparr>t_auth_keys = [], t_users = [], t_phone_codes = [], t_sessions = [], t_contacts = [],
     t_messages = [], t_message_refs = [], t_updates_log = [], t_files = [], t_bot_commands = [],
     t_botfather_sessions = [], t_temp_auth_keys = [], t_drafts = []\<rparr>"

definition botfather_row :: "int \<Rightarrow> user_row" where
  "botfather_row t = \<lparr>u_access_hash = 7264819913547, u_phone = None, u_username = Some ''BotFather'',
     u_first_name = ''BotFather'', u_last_name = [], u_about = [], u_created_at = t,
     u_last_message_id = 0, u_pts = 0, u_is_bot = True, u_bot_token = None, u_bot_owner_id = None\<rparr>"

definition Migrate :: "('z pgdb_scheme, unit) go" where
  "Migrate = bnd pg_clock (\<lambda>t. modify (\<lambda>g. g\<lparr>tabs := no_tables\<lparr>t_users := [(BotFatherID, botfather_row t)]\<rparr>,
     s_users := 0, s_messages := 0, s_files := 0\<rparr>))"

end
