(* ===== verification/PgDB.thy ===== *)
theory PgDB imports PgTables begin

text \<open>
  The database of \<^verbatim>\<open>internal/db\<close>: every method of the \<^verbatim>\<open>teled.DB\<close> interface and the key storage,
  file by file, as the SQL statements it sends. A transaction is one step.
\<close>

section \<open>Users (\<^verbatim>\<open>user.go\<close>)\<close>

definition coalesce :: "string option \<Rightarrow> string" where
  "coalesce x = (case x of None \<Rightarrow> [] | Some s \<Rightarrow> s)"

definition scanUser :: "int \<Rightarrow> user_row \<Rightarrow> User" where
  "scanUser i r = \<lparr>usr_ID = i, usr_AccessHash = u_access_hash r, usr_Phone = coalesce (u_phone r),
     usr_Username = coalesce (u_username r), usr_FirstName = u_first_name r, usr_LastName = u_last_name r,
     usr_About = u_about r, usr_IsBot = u_is_bot r, usr_BotToken = coalesce (u_bot_token r),
     usr_CreatedAt = u_created_at r\<rparr>"

definition pg_genAccessHash :: "('z pgdb_scheme, int) go" where
  "pg_genAccessHash = bnd (rand_read 8) (\<lambda>b.
     let h = int64 (uint64_le b) in ret (if h = 0 then 1 else h))"

text \<open>The columns an insert does not name take the defaults of the schema.\<close>

definition default_user :: "int \<Rightarrow> user_row" where
  "default_user t = \<lparr>u_access_hash = 0, u_phone = None, u_username = None, u_first_name = [],
     u_last_name = [], u_about = [], u_created_at = t, u_last_message_id = 0, u_pts = 0,
     u_is_bot = False, u_bot_token = None, u_bot_owner_id = None\<rparr>"

definition pg_CreateUser :: "string \<Rightarrow> string \<Rightarrow> string \<Rightarrow> ('z pgdb_scheme, User) go" where
  "pg_CreateUser phone firstName lastName = bnd pg_genAccessHash (\<lambda>h.
     autocommit [phone, firstName, lastName] (\<lambda>t.
       let r = (default_user t)\<lparr>u_access_hash := h, u_phone := Some phone, u_first_name := firstName,
         u_last_name := lastName\<rparr>
       in bnd (insert_user r) (\<lambda>i. ret (scanUser i r))))"

definition pg_CreateBot :: "string \<Rightarrow> string \<Rightarrow> string \<Rightarrow> ('z pgdb_scheme, User) go" where
  "pg_CreateBot token username firstName = bnd pg_genAccessHash (\<lambda>h.
     autocommit [token, firstName, username] (\<lambda>t.
       let r = (default_user t)\<lparr>u_access_hash := h,
         u_username := (if username \<noteq> [] then Some username else None), u_first_name := firstName,
         u_is_bot := True, u_bot_token := Some token\<rparr>
       in bnd (insert_user r) (\<lambda>i. ret (scanUser i r))))"

text \<open>
  \<^verbatim>\<open>userBy\<close>: \<^verbatim>\<open>QueryRow\<close> takes the first row of the result. An absent row is no error.
\<close>

definition userBy :: "string list \<Rightarrow> (int \<times> user_row \<Rightarrow> bool) \<Rightarrow> ('z pgdb_scheme, User option) go" where
  "userBy ts cond = bnd (statement ts) (\<lambda>_. rows (\<lambda>T. map_option (\<lambda>(i, r). scanUser i r) (find cond (t_users T))))"

definition pg_BotByToken :: "string \<Rightarrow> ('z pgdb_scheme, User option) go" where
  "pg_BotByToken token = userBy [token] (\<lambda>(i, r). u_bot_token r = Some token)"

definition pg_CreateOwnedBot :: "string \<Rightarrow> string \<Rightarrow> int \<Rightarrow> string \<Rightarrow> ('z pgdb_scheme, User) go" where
  "pg_CreateOwnedBot username firstName ownerID secret = tx (\<lambda>t.
     bnd pg_genAccessHash (\<lambda>h. bnd (statement [username, firstName]) (\<lambda>_.
     bnd (insert_user ((default_user t)\<lparr>u_access_hash := h, u_username := Some username,
       u_first_name := firstName, u_is_bot := True, u_bot_owner_id := Some ownerID\<rparr>)) (\<lambda>i.
     let token = FormatInt i @ '':'' @ secret in
     bnd (statement [token]) (\<lambda>_.
     bnd (update_user i (\<lambda>r. r\<lparr>u_bot_token := Some token\<rparr>)) (\<lambda>r. ret (scanUser i r)))))))"

text \<open>A missing bot is no error: \<^verbatim>\<open>Exec\<close> reports no row.\<close>

definition pg_SetBotToken :: "int \<Rightarrow> string \<Rightarrow> ('z pgdb_scheme, unit) go" where
  "pg_SetBotToken botID token = autocommit [token] (\<lambda>_.
     bnd (rows (\<lambda>T. map_of (t_users T) botID)) (\<lambda>x. case x of
       None \<Rightarrow> ret ()
     | Some r \<Rightarrow> if u_is_bot r
         then bnd (update_user botID (\<lambda>r. r\<lparr>u_bot_token := Some token\<rparr>)) (\<lambda>_. ret ()) else ret ()))"

definition select_users :: "(int \<times> user_row \<Rightarrow> bool) \<Rightarrow> tables \<Rightarrow> User list" where
  "select_users cond T = map (\<lambda>(i, r). scanUser i r) (filter cond (t_users T))"

definition pg_BotsByOwner :: "int \<Rightarrow> ('z pgdb_scheme, User list) go" where
  "pg_BotsByOwner ownerID = bnd (statement []) (\<lambda>_.
     rows (\<lambda>T. sort_key usr_ID (select_users (\<lambda>(i, r). u_bot_owner_id r = Some ownerID) T)))"

definition pg_UserByID :: "int \<Rightarrow> ('z pgdb_scheme, User option) go" where
  "pg_UserByID uid = userBy [] (\<lambda>(i, r). i = uid)"

definition pg_UserByPhone :: "string \<Rightarrow> ('z pgdb_scheme, User option) go" where
  "pg_UserByPhone phone = userBy [phone] (\<lambda>(i, r). u_phone r = Some phone)"

definition pg_UserByUsername :: "string \<Rightarrow> ('z pgdb_scheme, User option) go" where
  "pg_UserByUsername username = userBy [username] (\<lambda>(i, r). u_username r = Some username)"

definition not_found :: "int \<Rightarrow> ('z pgdb_scheme, 'a) go \<Rightarrow> ('z pgdb_scheme, 'a) go" where
  "not_found uid m = on_err m (\<lambda>e. fail (if e = no_rows then ErrUserNotFound uid else e))"

definition pg_SetProfile ::
  "int \<Rightarrow> string option \<Rightarrow> string option \<Rightarrow> string option \<Rightarrow> ('z pgdb_scheme, User) go" where
  "pg_SetProfile userID firstName lastName about =
     (if firstName = None \<and> lastName = None \<and> about = None
      then bnd (pg_UserByID userID) (\<lambda>x. case x of
          None \<Rightarrow> fail (ErrUserNotFound userID) | Some u \<Rightarrow> ret u)
      else not_found userID (autocommit (List.map_filter id [firstName, lastName, about]) (\<lambda>_.
        bnd (update_user userID (\<lambda>r. r\<lparr>u_first_name := with_default firstName (u_first_name r),
          u_last_name := with_default lastName (u_last_name r),
          u_about := with_default about (u_about r)\<rparr>)) (\<lambda>r. ret (scanUser userID r)))))"

text \<open>A null username is \<^verbatim>\<open>ILIKE\<close> no pattern.\<close>

definition pg_SearchUsers :: "string \<Rightarrow> int \<Rightarrow> ('z pgdb_scheme, User list) go" where
  "pg_SearchUsers query limit = (let q = TrimSpace query in
     if q = [] then ret [] else
     let limit' = if limit \<le> 0 then 20 else limit; sub = ''%'' @ q @ ''%'' in
     bnd (statement [q @ ''%'', sub]) (\<lambda>_. bnd (gets (\<lambda>g. sort_key usr_ID (select_users (\<lambda>(i, r).
       (case u_username r of None \<Rightarrow> False | Some n \<Rightarrow> ilike g n (q @ ''%'')) \<or>
       ilike g (u_first_name r) sub \<or> ilike g (u_last_name r) sub) (tabs g)))) (\<lambda>us.
     pg_limit limit' us)))"

definition pg_SetUsername :: "int \<Rightarrow> string \<Rightarrow> ('z pgdb_scheme, User) go" where
  "pg_SetUsername userID username = not_found userID (autocommit [username] (\<lambda>_.
     bnd (update_user userID (\<lambda>r. r\<lparr>u_username := (if username \<noteq> [] then Some username else None)\<rparr>)) (\<lambda>r.
     ret (scanUser userID r))))"

definition pg_UsersByIDs :: "int list \<Rightarrow> ('z pgdb_scheme, User list) go" where
  "pg_UsersByIDs ids = (if ids = [] then ret [] else
     bnd (statement []) (\<lambda>_. rows (select_users (\<lambda>(i, r). i \<in> set ids))))"

section \<open>Contacts, drafts, files\<close>

definition pg_AddContact :: "int \<Rightarrow> int \<Rightarrow> string \<Rightarrow> string \<Rightarrow> ('z pgdb_scheme, unit) go" where
  "pg_AddContact ownerID contactID firstName lastName = autocommit [firstName, lastName] (\<lambda>_.
     bnd (rows (\<lambda>T. refers (t_users T) ownerID \<and> refers (t_users T) contactID)) (\<lambda>b. bnd (require b) (\<lambda>_.
     change (\<lambda>T. T\<lparr>t_contacts := mput (ownerID, contactID) (firstName, lastName) (t_contacts T)\<rparr>))))"

definition pg_DeleteContacts :: "int \<Rightarrow> int list \<Rightarrow> ('z pgdb_scheme, unit) go" where
  "pg_DeleteContacts ownerID contactIDs = (if contactIDs = [] then ret () else autocommit [] (\<lambda>_.
     change (\<lambda>T. T\<lparr>t_contacts := filter (\<lambda>((o', c), _). \<not> (o' = ownerID \<and> c \<in> set contactIDs)) (t_contacts T)\<rparr>)))"

definition pg_Contacts :: "int \<Rightarrow> ('z pgdb_scheme, Contact list) go" where
  "pg_Contacts ownerID = bnd (statement []) (\<lambda>_. rows (\<lambda>T. sort_key ct_UserID
     (List.map_filter (\<lambda>((o', c), (fn, ln)). if o' = ownerID
        then Some \<lparr>ct_UserID = c, ct_FirstName = fn, ct_LastName = ln\<rparr> else None) (t_contacts T))))"

definition pg_SaveDraft :: "int \<Rightarrow> int \<Rightarrow> string \<Rightarrow> ('z pgdb_scheme, int) go" where
  "pg_SaveDraft userID peerID text = (if TrimSpace text = []
     then autocommit [] (\<lambda>_. bnd (change (\<lambda>T. T\<lparr>t_drafts := mdel (userID, peerID) (t_drafts T)\<rparr>)) (\<lambda>_.
       ret zero_time))
     else autocommit [text] (\<lambda>t. bnd (rows (\<lambda>T. refers (t_users T) userID)) (\<lambda>b. bnd (require b) (\<lambda>_.
       bnd (change (\<lambda>T. T\<lparr>t_drafts := mput (userID, peerID) (text, t) (t_drafts T)\<rparr>)) (\<lambda>_. ret t)))))"

definition pg_Drafts :: "int \<Rightarrow> ('z pgdb_scheme, Draft list) go" where
  "pg_Drafts userID = bnd (statement []) (\<lambda>_. rows (\<lambda>T. sort_key (\<lambda>x. - dr_Date x)
     (List.map_filter (\<lambda>((u, p), (text, t)). if u = userID
        then Some \<lparr>dr_PeerUserID = p, dr_Text = text, dr_Date = t\<rparr> else None) (t_drafts T))))"

text \<open>A nil hash is null, which the column does not take.\<close>

definition pg_SaveFile :: "File \<Rightarrow> ('z pgdb_scheme, File) go" where
  "pg_SaveFile f = bnd pg_genAccessHash (\<lambda>h. bnd (rand_read 16) (\<lambda>fr.
     let f' = f\<lparr>file_AccessHash := h, file_FileReference := fr,
       file_Kind := (if file_Kind f = [] then ''photo'' else file_Kind f)\<rparr> in
     autocommit [file_ObjectKey f', file_Mime f', file_Kind f'] (\<lambda>t.
     bnd (modify (\<lambda>g. g\<lparr>s_files := s_files g + 1\<rparr>)) (\<lambda>_. bnd (gets s_files) (\<lambda>i.
     bnd (rows (\<lambda>T. \<not> refers (t_files T) i \<and> refers (t_users T) (file_OwnerUserID f'))) (\<lambda>b.
     bnd (require (b \<and> file_SHA256 f' \<noteq> [])) (\<lambda>_.
     let f'' = f'\<lparr>file_ID := i, file_CreatedAt := t\<rparr> in
     bnd (change (\<lambda>T. T\<lparr>t_files := mput i f'' (t_files T)\<rparr>)) (\<lambda>_. ret f'')))))))) "

definition pg_FileByID :: "int \<Rightarrow> ('z pgdb_scheme, File option) go" where
  "pg_FileByID fid = bnd (statement []) (\<lambda>_. rows (\<lambda>T. map_of (t_files T) fid))"

section \<open>Phone codes, sessions, keys\<close>

text \<open>The expiry is computed from the clock of the program.\<close>

definition pg_SavePhoneCode :: "string \<Rightarrow> string \<Rightarrow> string \<Rightarrow> int \<Rightarrow> ('z pgdb_scheme, unit) go" where
  "pg_SavePhoneCode phone codeHash code ttl = bnd now (\<lambda>t. autocommit [phone, codeHash, code] (\<lambda>_.
     change (\<lambda>T. T\<lparr>t_phone_codes := mput (phone, codeHash) (code, usec (t + ttl)) (t_phone_codes T)\<rparr>)))"

definition pg_PhoneCode :: "string \<Rightarrow> string \<Rightarrow> ('z pgdb_scheme, string option) go" where
  "pg_PhoneCode phone codeHash = bnd (statement [phone, codeHash]) (\<lambda>_. bnd pg_clock (\<lambda>t.
     rows (\<lambda>T. case map_of (t_phone_codes T) (phone, codeHash) of
       None \<Rightarrow> None | Some (code, e) \<Rightarrow> if t < e then Some code else None)))"

definition pg_BindSession :: "bytes \<Rightarrow> int \<Rightarrow> ('z pgdb_scheme, unit) go" where
  "pg_BindSession keyID userID = autocommit [] (\<lambda>_.
     bnd (rows (\<lambda>T. refers (t_auth_keys T) keyID \<and> refers (t_users T) userID)) (\<lambda>b. bnd (require b) (\<lambda>_.
     change (\<lambda>T. T\<lparr>t_sessions := mput keyID userID (t_sessions T)\<rparr>))))"

definition pg_SessionUserID :: "bytes \<Rightarrow> ('z pgdb_scheme, int option) go" where
  "pg_SessionUserID keyID = bnd (statement []) (\<lambda>_. rows (\<lambda>T. map_of (t_sessions T) keyID))"

definition pg_Unbind :: "bytes \<Rightarrow> ('z pgdb_scheme, unit) go" where
  "pg_Unbind keyID = autocommit [] (\<lambda>_. change (\<lambda>T. T\<lparr>t_sessions := mdel keyID (t_sessions T)\<rparr>))"

definition pg_BindTempAuthKey :: "bytes \<Rightarrow> bytes \<Rightarrow> int \<Rightarrow> ('z pgdb_scheme, unit) go" where
  "pg_BindTempAuthKey tempKeyID permKeyID expiresAt = autocommit [] (\<lambda>_.
     change (\<lambda>T. T\<lparr>t_temp_auth_keys := mput tempKeyID (permKeyID, usec expiresAt) (t_temp_auth_keys T)\<rparr>))"

definition pg_PermAuthKey :: "bytes \<Rightarrow> ('z pgdb_scheme, bytes option) go" where
  "pg_PermAuthKey tempKeyID = bnd (statement []) (\<lambda>_. bnd pg_clock (\<lambda>t.
     rows (\<lambda>T. case map_of (t_temp_auth_keys T) tempKeyID of
       None \<Rightarrow> None | Some (perm, e) \<Rightarrow> if t < e then Some perm else None)))"

text \<open>
  The key storage of the MTProto server. The id of a key that is read is computed from its
  value by the library function \<open>with_id\<close>; a key that is stored stays.
\<close>

definition pg_key_Save :: "bytes \<Rightarrow> bytes \<Rightarrow> ('z pgdb_scheme, unit) go" where
  "pg_key_Save keyID value = autocommit [] (\<lambda>_. change (\<lambda>T. if refers (t_auth_keys T) keyID then T
     else T\<lparr>t_auth_keys := mput keyID value (t_auth_keys T)\<rparr>))"

definition pg_key_Get :: "(bytes \<Rightarrow> 'k) \<Rightarrow> bytes \<Rightarrow> ('z pgdb_scheme, 'k option) go" where
  "pg_key_Get with_id keyID = bnd (statement []) (\<lambda>_. rows (\<lambda>T. map_option with_id (map_of (t_auth_keys T) keyID)))"

section \<open>BotFather flow and bot commands\<close>

definition pg_BotFatherState :: "int \<Rightarrow> ('z pgdb_scheme, BotFatherState) go" where
  "pg_BotFatherState userID = bnd (statement []) (\<lambda>_. rows (\<lambda>T. case map_of (t_botfather_sessions T) userID of
     None \<Rightarrow> zero_bot_state | Some s \<Rightarrow> s))"

definition pg_SetBotFatherState :: "int \<Rightarrow> BotFatherState \<Rightarrow> ('z pgdb_scheme, unit) go" where
  "pg_SetBotFatherState userID s = autocommit [bf_Step s, bf_DraftName s] (\<lambda>_.
     bnd (rows (\<lambda>T. refers (t_users T) userID)) (\<lambda>b. bnd (require b) (\<lambda>_.
     change (\<lambda>T. T\<lparr>t_botfather_sessions := mput userID s (t_botfather_sessions T)\<rparr>))))"

definition pg_ClearBotFatherState :: "int \<Rightarrow> ('z pgdb_scheme, unit) go" where
  "pg_ClearBotFatherState userID = autocommit [] (\<lambda>_.
     change (\<lambda>T. T\<lparr>t_botfather_sessions := mdel userID (t_botfather_sessions T)\<rparr>))"

definition pg_SetBotCommands :: "int \<Rightarrow> string \<Rightarrow> string \<Rightarrow> BotCommand list \<Rightarrow> ('z pgdb_scheme, unit) go" where
  "pg_SetBotCommands botUserID scope langCode commands = autocommit [scope, langCode] (\<lambda>_.
     bnd (rows (\<lambda>T. refers (t_users T) botUserID)) (\<lambda>b. bnd (require (b \<and> json_ok commands)) (\<lambda>_.
     change (\<lambda>T. T\<lparr>t_bot_commands := mput (botUserID, scope, langCode) (map json_command commands)
       (t_bot_commands T)\<rparr>))))"

definition pg_BotCommands :: "int \<Rightarrow> string \<Rightarrow> string \<Rightarrow> ('z pgdb_scheme, BotCommand list) go" where
  "pg_BotCommands botUserID scope langCode = bnd (statement [scope, langCode]) (\<lambda>_.
     rows (\<lambda>T. getd (t_bot_commands T) (botUserID, scope, langCode)))"

definition pg_ResetBotCommands :: "int \<Rightarrow> string \<Rightarrow> string \<Rightarrow> ('z pgdb_scheme, unit) go" where
  "pg_ResetBotCommands botUserID scope langCode = autocommit [scope, langCode] (\<lambda>_.
     change (\<lambda>T. T\<lparr>t_bot_commands := mdel (botUserID, scope, langCode) (t_bot_commands T)\<rparr>))"

section \<open>Counters and the log (\<^verbatim>\<open>message.go\<close>)\<close>

definition pg_allocate :: "int \<Rightarrow> ('z pgdb_scheme, int \<times> int) go" where
  "pg_allocate userID = bnd (statement []) (\<lambda>_.
     bnd (update_user userID (\<lambda>r. r\<lparr>u_last_message_id := u_last_message_id r + 1, u_pts := u_pts r + 1\<rparr>)) (\<lambda>r.
     ret (u_last_message_id r, u_pts r)))"

definition pg_allocatePts :: "int \<Rightarrow> int \<Rightarrow> ('z pgdb_scheme, int) go" where
  "pg_allocatePts userID n = bnd (statement []) (\<lambda>_.
     bnd (update_user userID (\<lambda>r. r\<lparr>u_pts := u_pts r + n\<rparr>)) (\<lambda>r. ret (u_pts r)))"

definition pg_logUpdate ::
  "int \<Rightarrow> int \<Rightarrow> int \<Rightarrow> int \<Rightarrow> string \<Rightarrow> int option \<Rightarrow> bytes option \<Rightarrow> ('z pgdb_scheme, unit) go" where
  "pg_logUpdate t userID pts ptsCount typ globalID extra = bnd (statement [typ]) (\<lambda>_.
     bnd (rows (\<lambda>T. \<not> refers (t_updates_log T) (userID, pts) \<and> refers (t_users T) userID)) (\<lambda>b.
     bnd (require b) (\<lambda>_.
     change (\<lambda>T. T\<lparr>t_updates_log := mput (userID, pts) \<lparr>l_pts_count = ptsCount, l_type = typ,
       l_global_id = globalID, l_extra = map_option jsonb extra, l_date = t\<rparr> (t_updates_log T)\<rparr>))))"

definition insertRef :: "int \<Rightarrow> int \<Rightarrow> int \<Rightarrow> bool \<Rightarrow> bool \<Rightarrow> ('z pgdb_scheme, unit) go" where
  "insertRef userID localID globalID out unread = bnd (statement []) (\<lambda>_.
     bnd (rows (\<lambda>T. \<not> refers (t_message_refs T) (userID, localID) \<and>
       list_all (\<lambda>((u, l), r). \<not> (u = userID \<and> r_global_id r = globalID)) (t_message_refs T) \<and>
       refers (t_users T) userID \<and> refers (t_messages T) globalID)) (\<lambda>b. bnd (require b) (\<lambda>_.
     change (\<lambda>T. T\<lparr>t_message_refs := mput (userID, localID)
       \<lparr>r_global_id = globalID, r_out = out, r_unread = unread\<rparr> (t_message_refs T)\<rparr>))))"

definition pg_SendMessage ::
  "int \<Rightarrow> int \<Rightarrow> string \<Rightarrow> int \<Rightarrow> int \<Rightarrow> ('z pgdb_scheme, SentMessage) go" where
  "pg_SendMessage fromID peerID text randomID mediaFileID = tx (\<lambda>t.
     bnd (statement [text]) (\<lambda>_.
     bnd (insert_message \<lparr>m_from_user_id = fromID, m_peer_user_id = peerID, m_text = text, m_date = t,
       m_edit_date = None, m_random_id = randomID, m_deleted = False,
       m_media_file_id = (if mediaFileID \<noteq> 0 then Some mediaFileID else None)\<rparr>) (\<lambda>gid.
     bnd (pg_allocate fromID) (\<lambda>(sl, sp).
     bnd (insertRef fromID sl gid True False) (\<lambda>_.
     bnd (pg_logUpdate t fromID sp 1 UpdateNew (Some gid) None) (\<lambda>_.
     if fromID = peerID
     then ret \<lparr>sent_GlobalID = gid, sent_Date = t, sent_SenderLocalID = sl, sent_SenderPts = sp,
            sent_RecipientLocalID = 0, sent_RecipientPts = 0, sent_SelfChat = True\<rparr>
     else bnd (pg_allocate peerID) (\<lambda>(rl, rp).
       bnd (insertRef peerID rl gid False True) (\<lambda>_.
       bnd (pg_logUpdate t peerID rp 1 UpdateNew (Some gid) None) (\<lambda>_.
       ret \<lparr>sent_GlobalID = gid, sent_Date = t, sent_SenderLocalID = sl, sent_SenderPts = sp,
            sent_RecipientLocalID = rl, sent_RecipientPts = rp, sent_SelfChat = False\<rparr>)))))))))"

section \<open>Reading messages (\<^verbatim>\<open>message.go\<close>, \<^verbatim>\<open>updates.go\<close>)\<close>

text \<open>\<^verbatim>\<open>CASE WHEN m.from_user_id = $1 THEN m.peer_user_id ELSE m.from_user_id END\<close>\<close>

definition row_other :: "int \<Rightarrow> message_row \<Rightarrow> int" where
  "row_other self m = (if m_from_user_id m = self then m_peer_user_id m else m_from_user_id m)"

definition scanMessage :: "int \<Rightarrow> tables \<Rightarrow> int \<Rightarrow> ref_row \<Rightarrow> message_row \<Rightarrow> Message" where
  "scanMessage self T l r m = \<lparr>msg_GlobalID = r_global_id r, msg_LocalID = l, msg_FromUserID = m_from_user_id m,
     msg_PeerUserID = row_other self m, msg_Out = r_out r, msg_Text = m_text m, msg_Date = m_date m,
     msg_EditDate = (case m_edit_date m of None \<Rightarrow> zero_time | Some t \<Rightarrow> t), msg_RandomID = m_random_id m,
     msg_Media = Option.bind (m_media_file_id m) (map_of (t_files T))\<rparr>"

text \<open>The rows of \<^verbatim>\<open>historySelect\<close> that satisfy a further condition.\<close>

definition historySelect ::
  "int \<Rightarrow> int \<Rightarrow> (int \<Rightarrow> message_row \<Rightarrow> bool) \<Rightarrow> tables \<Rightarrow> Message list" where
  "historySelect self peer cond T = List.map_filter (\<lambda>((u, l), r). if u \<noteq> self then None else
     case map_of (t_messages T) (r_global_id r) of None \<Rightarrow> None
     | Some m \<Rightarrow> if \<not> m_deleted m \<and> row_other self m = peer \<and> cond l m
         then Some (scanMessage self T l r m) else None) (t_message_refs T)"

definition pg_GetHistory :: "int \<Rightarrow> int \<Rightarrow> int \<Rightarrow> int \<Rightarrow> ('z pgdb_scheme, Message list) go" where
  "pg_GetHistory self peer offsetID limit = bnd (statement []) (\<lambda>_.
     bnd (rows (\<lambda>T. newest_first (historySelect self peer (\<lambda>l m. offsetID > 0 \<longrightarrow> l < offsetID) T))) (pg_limit limit))"

definition pg_SearchMessages :: "int \<Rightarrow> int \<Rightarrow> string \<Rightarrow> int \<Rightarrow> ('z pgdb_scheme, Message list) go" where
  "pg_SearchMessages self peer query limit = (let q = TrimSpace query in
     if q = [] then ret [] else
     let limit' = if limit \<le> 0 \<or> 100 < limit then 100 else limit in
     bnd (statement [''%'' @ q @ ''%'']) (\<lambda>_.
     bnd (gets (\<lambda>g. newest_first (historySelect self peer (\<lambda>l m. ilike g (m_text m) (''%'' @ q @ ''%'')) (tabs g))))
       (pg_limit limit')))"

definition pg_MessageByGlobal :: "int \<Rightarrow> int \<Rightarrow> ('z pgdb_scheme, Message option) go" where
  "pg_MessageByGlobal self globalID = bnd (statement []) (\<lambda>_. rows (\<lambda>T.
     case List.map_filter (\<lambda>((u, l), r). if u \<noteq> self \<or> r_global_id r \<noteq> globalID then None else
       map_option (scanMessage self T l r) (map_of (t_messages T) (r_global_id r))) (t_message_refs T) of
       [] \<Rightarrow> None | m # _ \<Rightarrow> Some m))"

definition pg_GetState :: "int \<Rightarrow> ('z pgdb_scheme, State) go" where
  "pg_GetState self = bnd (statement []) (\<lambda>_. bnd (rows (\<lambda>T. map_of (t_users T) self)) (\<lambda>x.
     bnd (one_row x) (\<lambda>r. bnd now (\<lambda>t.
     ret \<lparr>st_Pts = u_pts r, st_Qts = 0, st_Seq = 0, st_Date = t, st_UnreadCount = 0\<rparr>))))"

definition scan_entry :: "int \<Rightarrow> log_row \<Rightarrow> UpdateLogEntry" where
  "scan_entry p r = \<lparr>ue_Pts = p, ue_PtsCount = l_pts_count r, ue_Type = l_type r, ue_GlobalID = l_global_id r,
     ue_Extra = coalesce (l_extra r), ue_Date = l_date r\<rparr>"

definition pg_GetDifference ::
  "int \<Rightarrow> int \<Rightarrow> int \<Rightarrow> ('z pgdb_scheme, UpdateLogEntry list \<times> int) go" where
  "pg_GetDifference self sincePts limit = bnd (pg_GetState self) (\<lambda>current. bnd (statement []) (\<lambda>_.
     bnd (rows (\<lambda>T. sort_key ue_Pts (List.map_filter (\<lambda>((u, p), r). if u = self \<and> sincePts < p
       then Some (scan_entry p r) else None) (t_updates_log T)))) (\<lambda>es.
     bnd (pg_limit limit es) (\<lambda>es'. ret (es', st_Pts current)))))"

section \<open>Editing and deleting (\<^verbatim>\<open>edit_delete.go\<close>)\<close>

definition find_ref :: "int \<Rightarrow> int \<Rightarrow> ('z pgdb_scheme, int option) go" where
  "find_ref self localID = bnd (statement []) (\<lambda>_.
     rows (\<lambda>T. map_option r_global_id (map_of (t_message_refs T) (self, localID))))"

text \<open>
  The code ignores the error of the query for the peer's id. No row leaves 0; when the
  statement fails, the transaction is aborted and the next statement fails.
\<close>

definition peer_local_id :: "int \<Rightarrow> int \<Rightarrow> ('z pgdb_scheme, int) go" where
  "peer_local_id peer gid = bnd (statement []) (\<lambda>_. rows (\<lambda>T.
     case find (\<lambda>((u, l), r). u = peer \<and> r_global_id r = gid) (t_message_refs T) of
       None \<Rightarrow> 0 | Some ((u, l), r) \<Rightarrow> l))"

definition pg_EditMessage :: "int \<Rightarrow> int \<Rightarrow> string \<Rightarrow> ('z pgdb_scheme, EditResult) go" where
  "pg_EditMessage self localID text = tx (\<lambda>t.
     bnd (find_ref self localID) (\<lambda>x. case x of None \<Rightarrow> fail ErrMessageID | Some gid \<Rightarrow>
     bnd (statement [text]) (\<lambda>_. bnd (rows (\<lambda>T. map_of (t_messages T) gid)) (\<lambda>y. case y of
       None \<Rightarrow> fail ErrMessageID | Some m \<Rightarrow>
     if m_from_user_id m \<noteq> self \<or> m_deleted m then fail ErrMessageID else
     bnd (change (\<lambda>T. T\<lparr>t_messages := mmod gid (\<lambda>m. m\<lparr>m_text := text, m_edit_date := Some t\<rparr>) (t_messages T)\<rparr>)) (\<lambda>_.
     bnd (pg_allocatePts self 1) (\<lambda>sp.
     bnd (pg_logUpdate t self sp 1 UpdateEdit (Some gid) None) (\<lambda>_.
     if m_peer_user_id m = self
     then ret \<lparr>er_SelfLocalID = localID, er_SelfPts = sp, er_PeerUserID = m_peer_user_id m,
            er_PeerLocalID = 0, er_PeerPts = 0, er_Date = m_date m, er_EditDate = t\<rparr>
     else bnd (peer_local_id (m_peer_user_id m) gid) (\<lambda>pl.
       bnd (pg_allocatePts (m_peer_user_id m) 1) (\<lambda>pp.
       bnd (pg_logUpdate t (m_peer_user_id m) pp 1 UpdateEdit (Some gid) None) (\<lambda>_.
       ret \<lparr>er_SelfLocalID = localID, er_SelfPts = sp, er_PeerUserID = m_peer_user_id m,
            er_PeerLocalID = pl, er_PeerPts = pp, er_Date = m_date m, er_EditDate = t\<rparr>))))))))))"

definition pg_markDeleted :: "int \<Rightarrow> int \<Rightarrow> int list \<Rightarrow> ('z pgdb_scheme, int list) go" where
  "pg_markDeleted self localID deleted = bnd (find_ref self localID) (\<lambda>x. case x of
       None \<Rightarrow> ret deleted
     | Some gid \<Rightarrow> bnd (statement []) (\<lambda>_.
         bnd (change (\<lambda>T. T\<lparr>t_messages := mmod gid (\<lambda>m. m\<lparr>m_deleted := True\<rparr>) (t_messages T)\<rparr>)) (\<lambda>_.
         ret (deleted @ [localID]))))"

definition pg_DeleteMessages :: "int \<Rightarrow> int list \<Rightarrow> ('z pgdb_scheme, DeleteResult) go" where
  "pg_DeleteMessages self localIDs = tx (\<lambda>t. bnd (loop (pg_markDeleted self) localIDs []) (\<lambda>deleted.
     if deleted = []
     then ret \<lparr>del_Pts = 0, del_PtsCount = 0, del_LocalIDs = []\<rparr>
     else bnd (pg_allocatePts self (int (length deleted))) (\<lambda>pts.
       bnd (pg_logUpdate t self pts (int (length deleted)) UpdateDelete None (Some (EncodeDeleted deleted))) (\<lambda>_.
       ret \<lparr>del_Pts = pts, del_PtsCount = int (length deleted), del_LocalIDs = deleted\<rparr>))))"

section \<open>Dialogs (\<^verbatim>\<open>dialogs.go\<close>)\<close>

text \<open>
  The inner query of \<^verbatim>\<open>GetDialogs\<close>: peer, message id, \<^verbatim>\<open>out\<close>, \<^verbatim>\<open>unread\<close> and whether the peer has
  read it, one row for each row of the left join.
\<close>

definition dialog_rows :: "int \<Rightarrow> tables \<Rightarrow> (int \<times> int \<times> bool \<times> bool \<times> bool) list" where
  "dialog_rows self T = concat (map (\<lambda>((u, l), r). if u \<noteq> self then [] else
     case map_of (t_messages T) (r_global_id r) of None \<Rightarrow> []
     | Some m \<Rightarrow> if m_deleted m then [] else
        let peer = row_other self m;
            prs = filter (\<lambda>((u', l'), pr). r_global_id pr = r_global_id r \<and> \<not> r_out pr \<and> u' = peer) (t_message_refs T)
        in if prs = [] then [(peer, l, r_out r, r_unread r, False)]
           else map (\<lambda>(_, pr). (peer, l, r_out r, r_unread r, \<not> r_unread pr)) prs) (t_message_refs T))"

text \<open>\<^verbatim>\<open>COALESCE(MAX(...), 0)\<close>\<close>

definition max_or_0 :: "int list \<Rightarrow> int" where
  "max_or_0 xs = (if xs = [] then 0 else Max (set xs))"

definition dialog_group :: "(int \<times> int \<times> bool \<times> bool \<times> bool) list \<Rightarrow> int \<Rightarrow> Dialog" where
  "dialog_group rs peer = (let g = filter (\<lambda>(p, _). p = peer) rs in \<lparr>dlg_PeerUserID = peer,
     dlg_TopMessageID = Max (set (map (\<lambda>(p, l, _). l) g)),
     dlg_ReadInboxMaxID = max_or_0 (map (\<lambda>(p, l, _). l) (filter (\<lambda>(p, l, out, unread, read). \<not> out \<and> \<not> unread) g)),
     dlg_ReadOutboxMaxID = max_or_0 (map (\<lambda>(p, l, _). l) (filter (\<lambda>(p, l, out, unread, read). out \<and> read) g)),
     dlg_UnreadCount = int (length (filter (\<lambda>(p, l, out, unread, read). unread \<and> \<not> out) g)),
     dlg_Draft = None\<rparr>)"

definition pg_GetDialogs :: "int \<Rightarrow> int \<Rightarrow> ('z pgdb_scheme, Dialog list) go" where
  "pg_GetDialogs self limit = bnd (statement []) (\<lambda>_. bnd (rows (\<lambda>T. sort_key (\<lambda>dl. - dlg_TopMessageID dl)
     (map (dialog_group (dialog_rows self T)) (remdups (map fst (dialog_rows self T)))))) (pg_limit limit))"

text \<open>The incoming refs of \<open>self\<close> up to \<open>maxID\<close> in the conversation with \<open>peer\<close>.\<close>

definition incoming :: "int \<Rightarrow> int \<Rightarrow> tables \<Rightarrow> (int \<times> int) \<times> ref_row \<Rightarrow> bool" where
  "incoming self peer T = (\<lambda>((u, l), r). u = self \<and> \<not> r_out r \<and>
     (case map_of (t_messages T) (r_global_id r) of None \<Rightarrow> False | Some m \<Rightarrow> row_other self m = peer))"

definition pg_outbox_max :: "int \<Rightarrow> int \<Rightarrow> int \<Rightarrow> tables \<Rightarrow> int" where
  "pg_outbox_max self peer maxID T = max_or_0 (concat (map (\<lambda>x.
     if incoming self peer T x \<and> snd (fst x) \<le> maxID
     then map (\<lambda>((u, l), pr). l) (filter (\<lambda>((u, l), pr). r_global_id pr = r_global_id (snd x) \<and> u = peer \<and> r_out pr)
       (t_message_refs T)) else []) (t_message_refs T)))"

definition pg_ReadHistory :: "int \<Rightarrow> int \<Rightarrow> int \<Rightarrow> ('z pgdb_scheme, ReadResult) go" where
  "pg_ReadHistory self peer maxID = tx (\<lambda>t.
     bnd (statement []) (\<lambda>_. bnd (rows (pg_outbox_max self peer maxID)) (\<lambda>om.
     bnd (statement []) (\<lambda>_. bnd (change (\<lambda>T. T\<lparr>t_message_refs := map (\<lambda>x.
       if incoming self peer T x \<and> snd (fst x) \<le> maxID then (fst x, (snd x)\<lparr>r_unread := False\<rparr>) else x)
       (t_message_refs T)\<rparr>)) (\<lambda>_.
     bnd (statement []) (\<lambda>_. bnd (rows (\<lambda>T. int (length (filter (\<lambda>x. incoming self peer T x \<and> r_unread (snd x))
       (t_message_refs T))))) (\<lambda>uc.
     bnd (pg_allocatePts self 1) (\<lambda>ip.
     bnd (pg_logUpdate t self ip 1 UpdateReadInbox None (Some (EncodeRead peer maxID))) (\<lambda>_.
     if 0 < om \<and> peer \<noteq> self
     then bnd (pg_allocatePts peer 1) (\<lambda>op.
       bnd (pg_logUpdate t peer op 1 UpdateReadOutbox None (Some (EncodeRead self om))) (\<lambda>_.
       ret \<lparr>rr_InboxPts = ip, rr_UnreadCount = uc, rr_OutboxPts = op, rr_OutboxMaxID = om\<rparr>))
     else ret \<lparr>rr_InboxPts = ip, rr_UnreadCount = uc, rr_OutboxPts = 0, rr_OutboxMaxID = om\<rparr>)))))))))"

definition pg_Ready :: "('z pgdb_scheme, unit) go" where
  "pg_Ready = statement []"

end
