(* ===== verification/PgCalls.thy ===== *)
theory PgCalls imports PgDB MemReach begin

text \<open>
  The \<^verbatim>\<open>teled.DB\<close> interface with its answers, for both implementations, and the states each
  can reach.
\<close>

datatype (plugins only: code) db_answer =
    AnsUnit
  | AnsUser User
  | AnsUserOpt "User option"
  | AnsUsers "User list"
  | AnsUserSet "User list"
  | AnsText "string option"
  | AnsUserID "int option"
  | AnsKey "bytes option"
  | AnsSent SentMessage
  | AnsMessages "Message list"
  | AnsMessageOpt "Message option"
  | AnsContacts "Contact list"
  | AnsTime int
  | AnsDrafts "Draft list"
  | AnsEdit EditResult
  | AnsDelete DeleteResult
  | AnsDialogs "Dialog list"
  | AnsRead ReadResult
  | AnsState State
  | AnsDifference "UpdateLogEntry list" int
  | AnsFile File
  | AnsFileOpt "File option"
  | AnsFlow BotFatherState
  | AnsCommands "BotCommand list"

definition ans :: "('a \<Rightarrow> db_answer) \<Rightarrow> ('s, 'a) go \<Rightarrow> ('s, db_answer) go" where
  [go_defs]: "ans f m = bnd m (\<lambda>x. ret (f x))"

definition ans_unit :: "('s, unit) go \<Rightarrow> ('s, db_answer) go" where
  "ans_unit m = ans (\<lambda>_. AnsUnit) m"

lemma bnd_ans [simp]: "bnd (ans f m) h = bnd m (\<lambda>x. h (f x))"
  by (rule ext) (simp add: ans_def bnd_def ret_def split: prod.split outcome.split)

lemma bnd_ans_unit [simp]: "bnd (ans_unit m) h = bnd m (\<lambda>x. h AnsUnit)"
  by (simp add: ans_unit_def)

primrec mem_call :: "db_call \<Rightarrow> ('z memdb_scheme, db_answer) go" where
  "mem_call (CallCreateUser a b c) = ans AnsUser (CreateUser a b c)"
| "mem_call (CallCreateBot a b c) = ans AnsUser (CreateBot a b c)"
| "mem_call (CallCreateOwnedBot a b c d) = ans AnsUser (CreateOwnedBot a b c d)"
| "mem_call (CallSetBotToken a b) = ans_unit (SetBotToken a b)"
| "mem_call (CallBotByToken a) = ans AnsUserOpt (BotByToken a)"
| "mem_call (CallBotsByOwner a) = ans AnsUsers (BotsByOwner a)"
| "mem_call (CallUserByID a) = ans AnsUserOpt (UserByID a)"
| "mem_call (CallUserByPhone a) = ans AnsUserOpt (UserByPhone a)"
| "mem_call (CallUserByUsername a) = ans AnsUserOpt (UserByUsername a)"
| "mem_call (CallSetProfile a b c d) = ans AnsUser (SetProfile a b c d)"
| "mem_call (CallSearchUsers a b) = ans AnsUsers (SearchUsers a b)"
| "mem_call (CallSetUsername a b) = ans AnsUser (SetUsername a b)"
| "mem_call (CallUsersByIDs a) = ans AnsUserSet (UsersByIDs a)"
| "mem_call (CallSavePhoneCode a b c d) = ans_unit (SavePhoneCode a b c d)"
| "mem_call (CallPhoneCode a b) = ans AnsText (PhoneCode a b)"
| "mem_call (CallBindSession a b) = ans_unit (BindSession a b)"
| "mem_call (CallSessionUserID a) = ans AnsUserID (SessionUserID a)"
| "mem_call (CallUnbind a) = ans_unit (Unbind a)"
| "mem_call (CallBindTempAuthKey a b c) = ans_unit (BindTempAuthKey a b c)"
| "mem_call (CallPermAuthKey a) = ans AnsKey (PermAuthKey a)"
| "mem_call (CallSendMessage a b c d e) = ans AnsSent (SendMessage a b c d e)"
| "mem_call (CallGetHistory a b c d) = ans AnsMessages (GetHistory a b c d)"
| "mem_call (CallAddContact a b c d) = ans_unit (AddContact a b c d)"
| "mem_call (CallDeleteContacts a b) = ans_unit (DeleteContacts a b)"
| "mem_call (CallContacts a) = ans AnsContacts (Contacts a)"
| "mem_call (CallSaveDraft a b c) = ans AnsTime (SaveDraft a b c)"
| "mem_call (CallDrafts a) = ans AnsDrafts (Drafts a)"
| "mem_call (CallSearchMessages a b c d) = ans AnsMessages (SearchMessages a b c d)"
| "mem_call (CallMessageByGlobal a b) = ans AnsMessageOpt (MessageByGlobal a b)"
| "mem_call (CallEditMessage a b c) = ans AnsEdit (EditMessage a b c)"
| "mem_call (CallDeleteMessages a b) = ans AnsDelete (DeleteMessages a b)"
| "mem_call (CallGetDialogs a b) = ans AnsDialogs (GetDialogs a b)"
| "mem_call (CallReadHistory a b c) = ans AnsRead (ReadHistory a b c)"
| "mem_call (CallGetState a) = ans AnsState (GetState a)"
| "mem_call (CallGetDifference a b c) = ans (\<lambda>(es, p). AnsDifference es p) (GetDifference a b c)"
| "mem_call (CallSaveFile a) = ans AnsFile (SaveFile a)"
| "mem_call (CallFileByID a) = ans AnsFileOpt (FileByID a)"
| "mem_call (CallBotFatherState a) = ans AnsFlow (BotFatherState a)"
| "mem_call (CallSetBotFatherState a b) = ans_unit (SetBotFatherState a b)"
| "mem_call (CallClearBotFatherState a) = ans_unit (ClearBotFatherState a)"
| "mem_call (CallSetBotCommands a b c d) = ans_unit (SetBotCommands a b c d)"
| "mem_call (CallBotCommands a b c) = ans AnsCommands (BotCommands a b c)"
| "mem_call (CallResetBotCommands a b c) = ans_unit (ResetBotCommands a b c)"
| "mem_call CallReady = ans_unit Ready"

primrec pg_call :: "db_call \<Rightarrow> ('z pgdb_scheme, db_answer) go" where
  "pg_call (CallCreateUser a b c) = ans AnsUser (pg_CreateUser a b c)"
| "pg_call (CallCreateBot a b c) = ans AnsUser (pg_CreateBot a b c)"
| "pg_call (CallCreateOwnedBot a b c d) = ans AnsUser (pg_CreateOwnedBot a b c d)"
| "pg_call (CallSetBotToken a b) = ans_unit (pg_SetBotToken a b)"
| "pg_call (CallBotByToken a) = ans AnsUserOpt (pg_BotByToken a)"
| "pg_call (CallBotsByOwner a) = ans AnsUsers (pg_BotsByOwner a)"
| "pg_call (CallUserByID a) = ans AnsUserOpt (pg_UserByID a)"
| "pg_call (CallUserByPhone a) = ans AnsUserOpt (pg_UserByPhone a)"
| "pg_call (CallUserByUsername a) = ans AnsUserOpt (pg_UserByUsername a)"
| "pg_call (CallSetProfile a b c d) = ans AnsUser (pg_SetProfile a b c d)"
| "pg_call (CallSearchUsers a b) = ans AnsUsers (pg_SearchUsers a b)"
| "pg_call (CallSetUsername a b) = ans AnsUser (pg_SetUsername a b)"
| "pg_call (CallUsersByIDs a) = ans AnsUserSet (pg_UsersByIDs a)"
| "pg_call (CallSavePhoneCode a b c d) = ans_unit (pg_SavePhoneCode a b c d)"
| "pg_call (CallPhoneCode a b) = ans AnsText (pg_PhoneCode a b)"
| "pg_call (CallBindSession a b) = ans_unit (pg_BindSession a b)"
| "pg_call (CallSessionUserID a) = ans AnsUserID (pg_SessionUserID a)"
| "pg_call (CallUnbind a) = ans_unit (pg_Unbind a)"
| "pg_call (CallBindTempAuthKey a b c) = ans_unit (pg_BindTempAuthKey a b c)"
| "pg_call (CallPermAuthKey a) = ans AnsKey (pg_PermAuthKey a)"
| "pg_call (CallSendMessage a b c d e) = ans AnsSent (pg_SendMessage a b c d e)"
| "pg_call (CallGetHistory a b c d) = ans AnsMessages (pg_GetHistory a b c d)"
| "pg_call (CallAddContact a b c d) = ans_unit (pg_AddContact a b c d)"
| "pg_call (CallDeleteContacts a b) = ans_unit (pg_DeleteContacts a b)"
| "pg_call (CallContacts a) = ans AnsContacts (pg_Contacts a)"
| "pg_call (CallSaveDraft a b c) = ans AnsTime (pg_SaveDraft a b c)"
| "pg_call (CallDrafts a) = ans AnsDrafts (pg_Drafts a)"
| "pg_call (CallSearchMessages a b c d) = ans AnsMessages (pg_SearchMessages a b c d)"
| "pg_call (CallMessageByGlobal a b) = ans AnsMessageOpt (pg_MessageByGlobal a b)"
| "pg_call (CallEditMessage a b c) = ans AnsEdit (pg_EditMessage a b c)"
| "pg_call (CallDeleteMessages a b) = ans AnsDelete (pg_DeleteMessages a b)"
| "pg_call (CallGetDialogs a b) = ans AnsDialogs (pg_GetDialogs a b)"
| "pg_call (CallReadHistory a b c) = ans AnsRead (pg_ReadHistory a b c)"
| "pg_call (CallGetState a) = ans AnsState (pg_GetState a)"
| "pg_call (CallGetDifference a b c) = ans (\<lambda>(es, p). AnsDifference es p) (pg_GetDifference a b c)"
| "pg_call (CallSaveFile a) = ans AnsFile (pg_SaveFile a)"
| "pg_call (CallFileByID a) = ans AnsFileOpt (pg_FileByID a)"
| "pg_call (CallBotFatherState a) = ans AnsFlow (pg_BotFatherState a)"
| "pg_call (CallSetBotFatherState a b) = ans_unit (pg_SetBotFatherState a b)"
| "pg_call (CallClearBotFatherState a) = ans_unit (pg_ClearBotFatherState a)"
| "pg_call (CallSetBotCommands a b c d) = ans_unit (pg_SetBotCommands a b c d)"
| "pg_call (CallBotCommands a b c) = ans AnsCommands (pg_BotCommands a b c)"
| "pg_call (CallResetBotCommands a b c) = ans_unit (pg_ResetBotCommands a b c)"
| "pg_call CallReady = ans_unit pg_Ready"

lemma db_exec_mem_call: "db_exec c = bnd (mem_call c) (\<lambda>_. ret ())"
  by (cases c) (simp_all add: case_prod_unfold)

lemma keeps_mem_call: "keeps db_ok (mem_call c)"
proof (rule keepsI)
  fix d :: "'z memdb_scheme" and r d'
  assume d: "db_ok d" "mem_call c d = (r, d')" and r: "r \<noteq> Panic"
  have "snd (db_exec c d) = d'" "fst (db_exec c d) \<noteq> Panic"
    using d(2) r by (cases r; simp add: db_exec_mem_call bnd_def)+
  then show "db_ok d'"
    using keeps_db_exec [of c] d(1) unfolding keeps_def by metis
qed

section \<open>States of the PostgreSQL database\<close>

text \<open>
  The calls come from any number of server processes; the keys come from the key storage.
\<close>

inductive pg_reachable :: "'z pgdb_scheme \<Rightarrow> bool" where
  pg_start: "Migrate w = (r, g) \<Longrightarrow> pg_reachable g"
| pg_next: "pg_reachable g \<Longrightarrow> pg_call c g = (r, g') \<Longrightarrow> pg_reachable g'"
| pg_key: "pg_reachable g \<Longrightarrow> pg_key_Save i k g = (r, g') \<Longrightarrow> pg_reachable g'"

section \<open>A failed call changes no table\<close>

definition still :: "('z pgdb_scheme, 'a) go \<Rightarrow> bool" where
  "still m \<longleftrightarrow> (\<forall>g. tabs (snd (m g)) = tabs g)"

definition undone :: "('z pgdb_scheme, 'a) go \<Rightarrow> bool" where
  "undone m \<longleftrightarrow> (\<forall>g r g'. m g = (r, g') \<longrightarrow> (case r of Ok _ \<Rightarrow> True | _ \<Rightarrow> tabs g' = tabs g))"

named_theorems undone_rules

lemma still_undone: "still m \<Longrightarrow> undone m"
  by (auto simp: still_def undone_def split: outcome.split) (metis snd_conv)+

lemma still_basic [undone_rules]:
  "still (ret x)" "still (fail e)" "still (gets f)" "still (rows h)" "still (statement ts)" "still now"
  "still (rand_read n)" "still (require b)" "still (one_row y)" "still (pg_limit k xs)" "still pg_clock"
  by (auto simp: still_def ret_def fail_def gets_def rows_def statement_def bnd_def modify_def now_def rand_read_def
      require_def one_row_def pg_limit_def pg_clock_def split: option.split)

lemma still_bnd [undone_rules]: "still m \<Longrightarrow> (\<And>x. still (f x)) \<Longrightarrow> still (bnd m f)"
  unfolding still_def bnd_def by (simp split: prod.split outcome.split) (metis snd_conv)

lemma still_if [undone_rules]: "still m \<Longrightarrow> still m' \<Longrightarrow> still (if b then m else m')"
  by simp

lemma still_case [undone_rules]: "still m \<Longrightarrow> (\<And>x. still (f x)) \<Longrightarrow> still (case z of None \<Rightarrow> m | Some x \<Rightarrow> f x)"
  by (cases z) auto

lemma undone_bnd [undone_rules]: "still m \<Longrightarrow> (\<And>x. undone (f x)) \<Longrightarrow> undone (bnd m f)"
proof (unfold undone_def, intro allI impI)
  fix g r g'
  assume m: "still m" and f: "\<And>x. \<forall>g r g'. f x g = (r, g') \<longrightarrow> (case r of Ok _ \<Rightarrow> True | _ \<Rightarrow> tabs g' = tabs g)"
    and run: "bnd m f g = (r, g')"
  obtain o1 g1 where g1: "m g = (o1, g1)"
    by (cases "m g")
  with m have "tabs g1 = tabs g"
    unfolding still_def by (metis snd_conv)
  show "case r of Ok _ \<Rightarrow> True | _ \<Rightarrow> tabs g' = tabs g"
  proof (cases o1)
    case (Ok x)
    with run g1 have "f x g1 = (r, g')"
      by (simp add: bnd_def)
    with f \<open>tabs g1 = tabs g\<close> show ?thesis
      by metis
  qed (use run g1 \<open>tabs g1 = tabs g\<close> in \<open>auto simp: bnd_def\<close>)
qed

lemma undone_ret [undone_rules]: "undone m \<Longrightarrow> undone (bnd m (\<lambda>x. ret (f x)))"
  by (fastforce simp: undone_def bnd_def split: prod.splits outcome.splits)

lemma undone_atomic [undone_rules]: "undone (atomic m)"
  by (auto simp: undone_def atomic_def split: prod.splits outcome.splits)

lemma undone_if [undone_rules]: "undone m \<Longrightarrow> undone m' \<Longrightarrow> undone (if b then m else m')"
  by simp

lemma undone_on_err [undone_rules]: "undone m \<Longrightarrow> undone (on_err m (\<lambda>e. fail (h e)))"
  by (fastforce simp: undone_def on_err_def split: prod.splits outcome.splits)

lemmas pg_reads = userBy_def pg_BotByToken_def pg_BotsByOwner_def pg_UserByID_def pg_UserByPhone_def
  pg_UserByUsername_def pg_SearchUsers_def pg_UsersByIDs_def pg_PhoneCode_def pg_SessionUserID_def
  pg_PermAuthKey_def pg_GetHistory_def pg_Contacts_def pg_Drafts_def pg_SearchMessages_def
  pg_MessageByGlobal_def pg_GetDialogs_def pg_GetState_def pg_GetDifference_def pg_FileByID_def
  pg_BotFatherState_def pg_BotCommands_def pg_Ready_def

lemmas pg_writes = pg_CreateUser_def pg_CreateBot_def pg_CreateOwnedBot_def pg_SetBotToken_def
  pg_SetProfile_def pg_SetUsername_def pg_SavePhoneCode_def pg_BindSession_def pg_Unbind_def
  pg_BindTempAuthKey_def pg_SendMessage_def pg_AddContact_def pg_DeleteContacts_def pg_SaveDraft_def
  pg_EditMessage_def pg_DeleteMessages_def pg_ReadHistory_def pg_SaveFile_def
  pg_SetBotFatherState_def pg_ClearBotFatherState_def pg_SetBotCommands_def pg_ResetBotCommands_def

lemma still_reads [undone_rules]:
  "still (pg_BotByToken s)" "still (pg_BotsByOwner i)" "still (pg_UserByID i)" "still (pg_UserByPhone s)"
  "still (pg_UserByUsername s)" "still (pg_SearchUsers s n)" "still (pg_UsersByIDs is)" "still (pg_PhoneCode s t)"
  "still (pg_SessionUserID k)" "still (pg_PermAuthKey k)" "still (pg_GetHistory i j n k')" "still (pg_Contacts i)"
  "still (pg_Drafts i)" "still (pg_SearchMessages i j s n)" "still (pg_MessageByGlobal i j)"
  "still (pg_GetDialogs i n)" "still (pg_GetState i)" "still (pg_GetDifference i n n')" "still (pg_FileByID i)"
  "still (pg_BotFatherState i)" "still (pg_BotCommands i s t)" "still pg_Ready"
  unfolding pg_reads Let_def by (intro undone_rules)+

lemma still_genAccessHash [undone_rules]: "still pg_genAccessHash"
  unfolding pg_genAccessHash_def Let_def by (intro undone_rules)

lemma undone_writes [undone_rules]:
  "undone (autocommit ts m)" "undone (tx m')"
  unfolding autocommit_def tx_def by (intro undone_rules)+

lemma undone_ans [undone_rules]: "undone m \<Longrightarrow> undone (ans f m)"
  unfolding ans_def by (rule undone_ret)

lemma undone_ans_unit [undone_rules]: "undone m \<Longrightarrow> undone (ans_unit m)"
  unfolding ans_unit_def by (rule undone_ans)

lemma undone_calls [undone_rules]:
  "undone (pg_CreateUser a b c')" "undone (pg_CreateBot a b c')" "undone (pg_SaveFile f)"
  "undone (pg_SetProfile i x y z)" "undone (pg_SetUsername i a)" "undone (pg_SavePhoneCode a b c' n)"
  "undone (pg_DeleteContacts i is)" "undone (pg_SaveDraft i j a)"
  unfolding pg_CreateUser_def pg_CreateBot_def pg_SaveFile_def pg_SetProfile_def pg_SetUsername_def
    pg_SavePhoneCode_def pg_DeleteContacts_def pg_SaveDraft_def not_found_def Let_def
  by (intro undone_rules still_undone conjI impI)+

lemma undone_ans_still: "still m \<Longrightarrow> undone (ans f m)"
  by (intro undone_rules still_undone)

lemma undone_call: "undone (pg_call c)"
    by (cases c) (simp_all add: pg_CreateOwnedBot_def pg_SetBotToken_def pg_BindSession_def pg_Unbind_def
      pg_BindTempAuthKey_def pg_SendMessage_def pg_AddContact_def pg_EditMessage_def pg_DeleteMessages_def
      pg_ReadHistory_def pg_SetBotFatherState_def pg_ClearBotFatherState_def pg_SetBotCommands_def
      pg_ResetBotCommands_def ans_unit_def undone_rules undone_ans_still)

end
