(* ===== verification/PgSchema.thy ===== *)
theory PgSchema imports PgCalls begin

text \<open>
  The schema as an invariant of the tables: primary keys, unique columns, foreign keys, and
  text columns that hold text. Every call keeps it, whichever of its statements fails.
\<close>

section \<open>The schema\<close>

definition keys_ok :: "tables \<Rightarrow> bool" where
  "keys_ok T \<longleftrightarrow> mwf (t_auth_keys T) \<and> mwf (t_users T) \<and> mwf (t_phone_codes T) \<and> mwf (t_sessions T) \<and>
     mwf (t_contacts T) \<and> mwf (t_messages T) \<and> mwf (t_message_refs T) \<and> mwf (t_updates_log T) \<and>
     mwf (t_files T) \<and> mwf (t_bot_commands T) \<and> mwf (t_botfather_sessions T) \<and>
     mwf (t_temp_auth_keys T) \<and> mwf (t_drafts T)"

definition unique_col :: "('r \<Rightarrow> 'v option) \<Rightarrow> (int, 'r) gomap \<Rightarrow> bool" where
  "unique_col col t \<longleftrightarrow> (\<forall>i r j s. map_of t i = Some r \<longrightarrow> map_of t j = Some s \<longrightarrow> col r = col s \<longrightarrow>
     col r \<noteq> None \<longrightarrow> i = j)"

definition users_typed :: "(int, user_row) gomap \<Rightarrow> bool" where
  "users_typed t \<longleftrightarrow> unique_col u_phone t \<and> unique_col u_username t \<and> unique_col u_bot_token t \<and>
     (\<forall>i r. map_of t i = Some r \<longrightarrow> refers_opt t (u_bot_owner_id r) \<and> (u_bot_token r \<noteq> None \<longrightarrow> u_is_bot r) \<and>
        text_ok (coalesce (u_phone r)) \<and> text_ok (coalesce (u_username r)) \<and> text_ok (u_first_name r) \<and>
        text_ok (u_last_name r) \<and> text_ok (u_about r) \<and> text_ok (coalesce (u_bot_token r)))"

definition messages_typed :: "(int, user_row) gomap \<Rightarrow> (int, File) gomap \<Rightarrow> (int, message_row) gomap \<Rightarrow> bool" where
  "messages_typed us fs ms \<longleftrightarrow> (\<forall>g m. map_of ms g = Some m \<longrightarrow> refers us (m_from_user_id m) \<and>
     refers us (m_peer_user_id m) \<and> refers_opt fs (m_media_file_id m) \<and> text_ok (m_text m))"

definition refs_typed :: "(int, user_row) gomap \<Rightarrow> (int, message_row) gomap \<Rightarrow> (int \<times> int, ref_row) gomap \<Rightarrow> bool" where
  "refs_typed us ms rs \<longleftrightarrow>
     (\<forall>u l r. map_of rs (u, l) = Some r \<longrightarrow> refers us u \<and> refers ms (r_global_id r)) \<and>
     (\<forall>u l r l' r'. map_of rs (u, l) = Some r \<longrightarrow> map_of rs (u, l') = Some r' \<longrightarrow>
       r_global_id r = r_global_id r' \<longrightarrow> l = l')"

definition log_typed :: "(int, user_row) gomap \<Rightarrow> (int \<times> int, log_row) gomap \<Rightarrow> bool" where
  "log_typed us ls \<longleftrightarrow> (\<forall>u p e. map_of ls (u, p) = Some e \<longrightarrow> refers us u \<and> text_ok (l_type e))"

definition sessions_typed :: "(bytes, bytes) gomap \<Rightarrow> (int, user_row) gomap \<Rightarrow> (bytes, int) gomap \<Rightarrow> bool" where
  "sessions_typed ks us ss \<longleftrightarrow> (\<forall>k u. map_of ss k = Some u \<longrightarrow> refers ks k \<and> refers us u)"

definition contacts_typed :: "(int, user_row) gomap \<Rightarrow> (int \<times> int, string \<times> string) gomap \<Rightarrow> bool" where
  "contacts_typed us cs \<longleftrightarrow> (\<forall>u c x. map_of cs (u, c) = Some x \<longrightarrow> refers us u \<and> refers us c \<and>
     text_ok (fst x) \<and> text_ok (snd x))"

definition drafts_typed :: "(int, user_row) gomap \<Rightarrow> (int \<times> int, string \<times> int) gomap \<Rightarrow> bool" where
  "drafts_typed us ds \<longleftrightarrow> (\<forall>u p x. map_of ds (u, p) = Some x \<longrightarrow> refers us u \<and> text_ok (fst x))"

definition files_typed :: "(int, user_row) gomap \<Rightarrow> (int, File) gomap \<Rightarrow> bool" where
  "files_typed us fs \<longleftrightarrow> (\<forall>i f. map_of fs i = Some f \<longrightarrow> file_ID f = i \<and> refers us (file_OwnerUserID f) \<and>
     file_SHA256 f \<noteq> [] \<and> text_ok (file_ObjectKey f) \<and> text_ok (file_Mime f) \<and> text_ok (file_Kind f))"

definition commands_typed :: "(int, user_row) gomap \<Rightarrow> (int \<times> string \<times> string, BotCommand list) gomap \<Rightarrow> bool" where
  "commands_typed us bs \<longleftrightarrow> (\<forall>b s l x. map_of bs (b, s, l) = Some x \<longrightarrow> refers us b \<and> text_ok s \<and> text_ok l)"

definition flows_typed :: "(int, user_row) gomap \<Rightarrow> (int, BotFatherState) gomap \<Rightarrow> bool" where
  "flows_typed us fl \<longleftrightarrow> (\<forall>u s. map_of fl u = Some s \<longrightarrow> refers us u \<and> text_ok (bf_Step s) \<and>
     text_ok (bf_DraftName s))"

definition codes_typed :: "(string \<times> string, string \<times> int) gomap \<Rightarrow> bool" where
  "codes_typed pc \<longleftrightarrow> (\<forall>p h x. map_of pc (p, h) = Some x \<longrightarrow> text_ok p \<and> text_ok h \<and> text_ok (fst x))"

definition schema_ok :: "tables \<Rightarrow> bool" where
  "schema_ok T \<longleftrightarrow> keys_ok T \<and> users_typed (t_users T) \<and> messages_typed (t_users T) (t_files T) (t_messages T) \<and>
     refs_typed (t_users T) (t_messages T) (t_message_refs T) \<and> log_typed (t_users T) (t_updates_log T) \<and>
     sessions_typed (t_auth_keys T) (t_users T) (t_sessions T) \<and> contacts_typed (t_users T) (t_contacts T) \<and>
     drafts_typed (t_users T) (t_drafts T) \<and> files_typed (t_users T) (t_files T) \<and>
     commands_typed (t_users T) (t_bot_commands T) \<and> flows_typed (t_users T) (t_botfather_sessions T) \<and>
     codes_typed (t_phone_codes T)"

lemmas schema_parts = messages_typed_def refs_typed_def log_typed_def sessions_typed_def contacts_typed_def
  drafts_typed_def files_typed_def commands_typed_def flows_typed_def codes_typed_def

lemmas schema_defs = schema_ok_def keys_ok_def

abbreviation typed :: "'z pgdb_scheme \<Rightarrow> bool" where
  "typed g \<equiv> schema_ok (tabs g)"

section \<open>Rules\<close>

lemma refers_mput [simp]: "refers (mput k v t) k' \<longleftrightarrow> k' = k \<or> refers t k'"
  by (auto simp: refers_def)

lemma refers_mmod [simp]: "refers (mmod k f t) k' \<longleftrightarrow> refers t k'"
  by (auto simp: refers_def)

lemma refers_opt_mono: "(\<And>k. refers t k \<Longrightarrow> refers t' k) \<Longrightarrow> refers_opt t x \<Longrightarrow> refers_opt t' x"
  by (auto simp: refers_opt_def split: option.splits)

lemma refers_opt_mmod [simp]: "refers_opt (mmod k f t) x \<longleftrightarrow> refers_opt t x"
  by (simp add: refers_opt_def split: option.split)

lemma free_in_iff: "mwf t \<Longrightarrow> free_in col i t v \<longleftrightarrow>
    v = None \<or> (\<forall>k r. map_of t k = Some r \<longrightarrow> k = i \<or> col r \<noteq> v)"
  by (auto simp: free_in_def list_all_iff mwf_map_of) (metis map_of_SomeD)+

lemma unique_col_mput:
  assumes "mwf t" "unique_col col t" "free_in col i t (col r)"
  shows "unique_col col (mput i r t)"
  using assms by (auto simp: unique_col_def free_in_iff split: if_splits) metis+

lemma unique_col_mmod:
  assumes "mwf t" "unique_col col t" "map_of t i = Some r" "free_in col i t (col (f r))"
  shows "unique_col col (mmod i f t)"
  using assms by (auto simp: unique_col_def free_in_iff split: if_splits) metis+

lemma keeps_statement [keeps_rules]: "(list_all text_ok ts \<Longrightarrow> keeps typed (m ())) \<Longrightarrow> keeps typed (bnd (statement ts) m)"
  by (auto simp: keeps_def statement_def bnd_def gets_def modify_def fail_def ret_def)

lemma keeps_change: "(\<And>T. schema_ok T \<Longrightarrow> schema_ok (f T)) \<Longrightarrow> keeps typed (change f)"
  by (simp add: change_def keeps_modify)

lemma keeps_required:
  assumes "\<And>T. schema_ok T \<Longrightarrow> P T \<Longrightarrow> schema_ok (f T)" "keeps typed (k ())"
  shows "keeps typed (bnd (rows P) (\<lambda>b. bnd (require (b \<and> q)) (\<lambda>_. bnd (change f) k)))"
  using assms(1,2) by (auto simp: keeps_def rows_def bnd_def gets_def require_def change_def modify_def fail_def ret_def)

lemma keeps_required_last:
  assumes "\<And>T. schema_ok T \<Longrightarrow> P T \<Longrightarrow> schema_ok (f T)"
  shows "keeps typed (bnd (rows P) (\<lambda>b. bnd (require b) (\<lambda>_. change f)))"
  using assms by (auto simp: keeps_def rows_def bnd_def gets_def require_def change_def modify_def fail_def ret_def)

lemma keeps_atomic [keeps_rules]: "keeps typed m \<Longrightarrow> keeps typed (atomic m)"
  by (auto simp: keeps_def atomic_def split: prod.split outcome.split)

lemma still_keeps: "still m \<Longrightarrow> keeps typed m"
  by (simp add: still_def keeps_def)

lemma keeps_autocommit:
  "(\<And>t. list_all text_ok ts \<Longrightarrow> keeps typed (m t)) \<Longrightarrow> keeps typed (autocommit ts m)"
  unfolding autocommit_def
  by (intro keeps_atomic keeps_statement keeps_bnd still_keeps [OF still_basic(11)])

lemma keeps_tx: "(\<And>t. keeps typed (m t)) \<Longrightarrow> keeps typed (tx m)"
  unfolding tx_def
  by (intro keeps_atomic keeps_statement keeps_bnd still_keeps [OF still_basic(11)] keeps_ret)

section \<open>Accounts\<close>

definition row_typed :: "user_row \<Rightarrow> bool" where
  "row_typed r \<longleftrightarrow> (u_bot_token r \<noteq> None \<longrightarrow> u_is_bot r) \<and> text_ok (coalesce (u_phone r)) \<and>
     text_ok (coalesce (u_username r)) \<and> text_ok (u_first_name r) \<and> text_ok (u_last_name r) \<and>
     text_ok (u_about r) \<and> text_ok (coalesce (u_bot_token r))"

lemma users_typed_rows: "users_typed t \<longleftrightarrow> unique_col u_phone t \<and> unique_col u_username t \<and> unique_col u_bot_token t \<and>
    (\<forall>i r. map_of t i = Some r \<longrightarrow> refers_opt t (u_bot_owner_id r) \<and> row_typed r)"
  by (auto simp: users_typed_def row_typed_def)

lemma schema_users:
  assumes "schema_ok T" "mwf t" "users_typed t" "\<And>k. refers (t_users T) k \<Longrightarrow> refers t k"
  shows "schema_ok (T\<lparr>t_users := t\<rparr>)"
  using assms(1-3) assms(4) unfolding schema_defs schema_parts by simp

lemma users_typed_mput:
  assumes "mwf t" "users_typed t" "row_typed r" "refers_opt t (u_bot_owner_id r)" "free_in u_phone i t (u_phone r)"
    "free_in u_username i t (u_username r)" "free_in u_bot_token i t (u_bot_token r)"
  shows "users_typed (mput i r t)"
  using assms refers_opt_mono [of t "mput i r t"]
  by (auto simp: users_typed_rows unique_col_mput split: if_splits)

lemma users_typed_cong: "map_of t = map_of t' \<Longrightarrow> users_typed t \<longleftrightarrow> users_typed t'"
  by (simp only: users_typed_def unique_col_def refers_opt_def refers_def)

lemma users_typed_mmod:
  assumes "map_of t i = Some r"
  shows "users_typed (mmod i f t) \<longleftrightarrow> users_typed (mput i (f r) t)"
proof -
  have "map_of (mmod i f t) = map_of (mput i (f r) t)"
    using assms by (auto simp: fun_eq_iff)
  then show ?thesis
    by (rule users_typed_cong)
qed

lemma schema_mwf_users: "schema_ok T \<Longrightarrow> mwf (t_users T)"
  by (simp add: schema_defs)

lemma schema_users_typed: "schema_ok T \<Longrightarrow> users_typed (t_users T)"
  by (simp add: schema_ok_def)

lemma schema_insert_user:
  "schema_ok T \<Longrightarrow> \<not> refers (t_users T) i \<and> user_row_ok i r T \<Longrightarrow> row_typed r \<Longrightarrow>
    schema_ok (T\<lparr>t_users := mput i r (t_users T)\<rparr>)"
  by (rule schema_users)
    (auto simp: user_row_ok_def schema_mwf_users schema_users_typed intro!: users_typed_mput)

lemma schema_update_user:
  "schema_ok T \<Longrightarrow> map_of (t_users T) i = Some r \<Longrightarrow> user_row_ok i (f r) T \<Longrightarrow> row_typed (f r) \<Longrightarrow>
    schema_ok (T\<lparr>t_users := mmod i f (t_users T)\<rparr>)"
  by (rule schema_users)
    (auto simp: user_row_ok_def schema_mwf_users schema_users_typed users_typed_mmod intro!: users_typed_mput)

lemma schema_row: "schema_ok T \<Longrightarrow> map_of (t_users T) i = Some r \<Longrightarrow> row_typed r"
  by (simp add: schema_ok_def users_typed_rows)

lemma keeps_burn [keeps_rules]: "keeps typed (modify (\<lambda>g. g\<lparr>s_users := n g\<rparr>))" "keeps typed (modify (\<lambda>g. g\<lparr>s_messages := n g\<rparr>))"
  "keeps typed (modify (\<lambda>g. g\<lparr>s_files := n g\<rparr>))"
  by (simp_all add: keeps_modify)

lemma bnd_rows [simp]: "bnd (rows f) k g = k (f (tabs g)) g"
  by (simp add: rows_def)

lemma bnd_change [simp]: "bnd (change f) k g = k () (g\<lparr>tabs := f (tabs g)\<rparr>)"
  by (simp add: change_def)

lemma bnd_require [simp]: "bnd (require b) k g = (if b then k () g else (Err violation, g))"
  by (simp add: require_def bnd_def fail_def)

lemma bnd_one_row [simp]: "bnd (one_row x) k g = (case x of None \<Rightarrow> (Err no_rows, g) | Some r \<Rightarrow> k r g)"
  by (simp add: one_row_def bnd_def fail_def split: option.split)

lemma insert_user_run: "insert_user r g = (let i = s_users g + 1; T = tabs g in
    if \<not> refers (t_users T) i \<and> user_row_ok i r T
    then (Ok i, g\<lparr>tabs := T\<lparr>t_users := mput i r (t_users T)\<rparr>, s_users := i\<rparr>)
    else (Err violation, g\<lparr>s_users := i\<rparr>))"
  by (simp add: insert_user_def Let_def)

lemma update_user_run: "update_user i f g = (let T = tabs g in case map_of (t_users T) i of
      None \<Rightarrow> (Err no_rows, g)
    | Some r \<Rightarrow> if user_row_ok i (f r) T
        then (Ok (f r), g\<lparr>tabs := T\<lparr>t_users := mmod i f (t_users T)\<rparr>\<rparr>) else (Err violation, g))"
  by (simp add: update_user_def Let_def split: option.split)

lemma keeps_insert_user [keeps_rules]: "row_typed r \<Longrightarrow> keeps typed (insert_user r)"
  by (auto simp: keeps_def insert_user_run Let_def schema_insert_user)

lemma keeps_update_user [keeps_rules]: "(\<And>r. row_typed r \<Longrightarrow> row_typed (f r)) \<Longrightarrow> keeps typed (update_user i f)"
  by (auto simp: keeps_def update_user_run Let_def split: option.split intro: schema_update_user dest: schema_row)

section \<open>The calls\<close>

lemma text_ok_Nil [simp]: "text_ok []"
  by (simp add: text_ok_def)

lemma coalesce_simps [simp]: "coalesce None = []" "coalesce (Some s) = s"
  by (simp_all add: coalesce_def)

lemma keeps_reads_typed: "still m \<Longrightarrow> keeps typed (ans f m)"
  unfolding ans_def by (intro keeps_bnd keeps_ret still_keeps)

lemma keeps_ans [keeps_rules]: "keeps typed m \<Longrightarrow> keeps typed (ans f m)"
  unfolding ans_def by (intro keeps_rules)

lemma keeps_ans_unit [keeps_rules]: "keeps typed m \<Longrightarrow> keeps typed (ans_unit m)"
  unfolding ans_unit_def by (intro keeps_rules)

lemma keeps_hash [keeps_rules]: "keeps typed pg_genAccessHash"
  by (intro still_keeps still_genAccessHash)

lemma typed_CreateUser: "keeps typed (pg_CreateUser a b c)"
  unfolding pg_CreateUser_def Let_def
  by (intro keeps_autocommit keeps_rules) (simp add: row_typed_def default_user_def)

lemma typed_CreateBot: "keeps typed (pg_CreateBot a b c)"
  unfolding pg_CreateBot_def Let_def
  by (intro keeps_autocommit keeps_rules) (simp add: row_typed_def default_user_def)

lemma typed_CreateOwnedBot: "keeps typed (pg_CreateOwnedBot a b i c)"
proof -
  let ?f = "\<lambda>j r. r\<lparr>u_bot_token := Some (FormatInt j @ '':'' @ c)\<rparr>"
  have *: "keeps typed (bnd (insert_user r) (\<lambda>j. let token = FormatInt j @ '':'' @ c in
      bnd (statement [token]) (\<lambda>_. bnd (update_user j (\<lambda>r. r\<lparr>u_bot_token := Some token\<rparr>)) (\<lambda>r. ret (k j r)))))"
    if r: "row_typed r" "u_is_bot r" for r and k :: "int \<Rightarrow> user_row \<Rightarrow> User"
  proof (rule keepsI)
    fix g :: "'z pgdb_scheme" and out g'
    assume g: "typed g" and run: "bnd (insert_user r) (\<lambda>j. let token = FormatInt j @ '':'' @ c in
      bnd (statement [token]) (\<lambda>_. bnd (update_user j (\<lambda>r. r\<lparr>u_bot_token := Some token\<rparr>)) (\<lambda>r. ret (k j r)))) g
        = (out, g')"
    let ?i = "s_users g + 1"
    let ?T = "(tabs g)\<lparr>t_users := mput ?i r (t_users (tabs g))\<rparr>"
    show "typed g'"
    proof (cases "\<not> refers (t_users (tabs g)) ?i \<and> user_row_ok ?i r (tabs g)")
      case False
      with g run show ?thesis
        by (auto simp: bnd_def insert_user_run Let_def)
    next
      case True
      have T: "schema_ok ?T"
        by (rule schema_insert_user [OF g True r(1)])
      have "schema_ok (?T\<lparr>t_users := mmod ?i (?f ?i) (t_users ?T)\<rparr>)"
        if "text_ok (FormatInt ?i @ '':'' @ c)" "user_row_ok ?i (?f ?i r) ?T"
        by (rule schema_update_user [OF T, of ?i r]) (use that r in \<open>simp_all add: row_typed_def\<close>)
      with T True run show ?thesis
        by (auto simp: bnd_def insert_user_run update_user_run statement_def gets_def modify_def fail_def ret_def
            Let_def split: if_splits)
    qed
  qed
  show ?thesis
    unfolding pg_CreateOwnedBot_def
    by (intro keeps_tx keeps_bnd keeps_hash keeps_statement *) (simp_all add: row_typed_def default_user_def)
qed

lemma typed_SetBotToken: "keeps typed (pg_SetBotToken i a)"
proof -
  have "keeps typed (bnd (rows (\<lambda>T. map_of (t_users T) i)) (\<lambda>x. case x of None \<Rightarrow> ret ()
     | Some r \<Rightarrow> if u_is_bot r then bnd (update_user i (\<lambda>r. r\<lparr>u_bot_token := Some a\<rparr>)) (\<lambda>_. ret ()) else ret ()))"
    if "text_ok a"
  proof (rule keepsI)
    fix g :: "'z pgdb_scheme" and out g'
    assume g: "typed g" and run: "bnd (rows (\<lambda>T. map_of (t_users T) i)) (\<lambda>x. case x of None \<Rightarrow> ret ()
     | Some r \<Rightarrow> if u_is_bot r then bnd (update_user i (\<lambda>r. r\<lparr>u_bot_token := Some a\<rparr>)) (\<lambda>_. ret ()) else ret ()) g
       = (out, g')"
    have "schema_ok ((tabs g)\<lparr>t_users := mmod i (\<lambda>r. r\<lparr>u_bot_token := Some a\<rparr>) (t_users (tabs g))\<rparr>)"
      if "map_of (t_users (tabs g)) i = Some r" "u_is_bot r" "user_row_ok i (r\<lparr>u_bot_token := Some a\<rparr>) (tabs g)" for r
      by (rule schema_update_user [OF g that(1)])
        (use that schema_row [OF g that(1)] \<open>text_ok a\<close> in \<open>simp_all add: row_typed_def\<close>)
    with g run show "typed g'"
      by (auto simp: bnd_def [of "update_user _ _"] update_user_run Let_def split: option.splits if_splits)
  qed
  then show ?thesis
    unfolding pg_SetBotToken_def by (intro keeps_autocommit) simp
qed

lemma keeps_not_found: "keeps typed m \<Longrightarrow> keeps typed (not_found i m)"
  unfolding not_found_def by (intro keeps_rules)

lemma typed_SetProfile: "keeps typed (pg_SetProfile i a b c)"
proof -
  have "keeps typed (pg_UserByID i)"
    by (intro still_keeps still_reads)
  then show ?thesis
    unfolding pg_SetProfile_def
    by (intro keeps_if keeps_not_found keeps_autocommit keeps_rules)
      (auto simp: row_typed_def with_default_def map_filter_def split: option.splits)
qed

lemma typed_SetUsername: "keeps typed (pg_SetUsername i a)"
  unfolding pg_SetUsername_def
  by (intro keeps_not_found keeps_autocommit keeps_rules) (auto simp: row_typed_def)

lemma keeps_clock [keeps_rules]: "keeps typed now" "keeps typed (rand_read n)"
  by (simp_all add: keeps_def now_def rand_read_def)

lemma map_of_filter_Some: "mwf m \<Longrightarrow> map_of (filter P m) k = Some v \<Longrightarrow> map_of m k = Some v"
  by (simp add: mwf_map_of [symmetric] mwf_filter)

lemma typed_tables:
  "keeps typed (pg_AddContact i j a b)" "keeps typed (pg_SaveDraft i j a)"
  "keeps typed (pg_SavePhoneCode a b c n)" "keeps typed (pg_BindSession k i)" "keeps typed (pg_Unbind k)"
  "keeps typed (pg_BindTempAuthKey k k' n)" "keeps typed (pg_SetBotFatherState i st)"
  "keeps typed (pg_ClearBotFatherState i)" "keeps typed (pg_ResetBotCommands i a b)"
  unfolding pg_AddContact_def pg_SaveDraft_def pg_SavePhoneCode_def pg_BindSession_def
    pg_Unbind_def pg_BindTempAuthKey_def pg_SetBotFatherState_def pg_ClearBotFatherState_def pg_ResetBotCommands_def
  by (intro keeps_if keeps_autocommit keeps_required_last keeps_required [where q = True, simplified] keeps_change
      keeps_bnd keeps_ret keeps_clock; simp add: schema_defs;
      auto simp: contacts_typed_def drafts_typed_def codes_typed_def sessions_typed_def flows_typed_def
        commands_typed_def split: if_splits)+

lemma keeps_required_checked:
  assumes "\<And>T. schema_ok T \<Longrightarrow> P T \<Longrightarrow> schema_ok (f T)"
  shows "keeps typed (bnd (rows P) (\<lambda>b. bnd (require (b \<and> q)) (\<lambda>_. change f)))"
  using assms by (auto simp: keeps_def change_def)

lemma typed_SetBotCommands: "keeps typed (pg_SetBotCommands i a b cs)"
  unfolding pg_SetBotCommands_def
  by (intro keeps_autocommit keeps_required_checked; simp add: schema_defs;
      auto simp: commands_typed_def split: if_splits)

lemma contacts_typed_filter: "mwf cs \<Longrightarrow> contacts_typed us cs \<Longrightarrow> contacts_typed us (filter P cs)"
  unfolding contacts_typed_def using map_of_filter_Some [of cs P] by blast

lemma typed_DeleteContacts: "keeps typed (pg_DeleteContacts i is)"
  unfolding pg_DeleteContacts_def
  by (intro keeps_if keeps_autocommit keeps_change keeps_ret)
    (simp add: schema_defs mwf_filter contacts_typed_filter)

lemma typed_key_Save: "keeps typed (pg_key_Save i k)"
  unfolding pg_key_Save_def
  by (intro keeps_autocommit keeps_change) (auto simp: schema_defs sessions_typed_def)

subsection \<open>Files and messages\<close>

lemma files_typed_mput:
  "files_typed us fs \<Longrightarrow> refers us (file_OwnerUserID f) \<Longrightarrow> file_ID f = i \<Longrightarrow> file_SHA256 f \<noteq> [] \<Longrightarrow>
    text_ok (file_ObjectKey f) \<Longrightarrow> text_ok (file_Mime f) \<Longrightarrow> text_ok (file_Kind f) \<Longrightarrow> files_typed us (mput i f fs)"
  by (simp add: files_typed_def)

lemma messages_typed_files:
  "messages_typed us fs ms \<Longrightarrow> messages_typed us (mput i f fs) ms"
  using refers_opt_mono [of fs "mput i f fs"] by (simp add: messages_typed_def)

lemma schema_insert_file:
  assumes "schema_ok T" "refers (t_users T) (file_OwnerUserID f)" "file_ID f = i" "file_SHA256 f \<noteq> []"
    "text_ok (file_ObjectKey f)" "text_ok (file_Mime f)" "text_ok (file_Kind f)"
  shows "schema_ok (T\<lparr>t_files := mput i f (t_files T)\<rparr>)"
  using assms by (simp add: schema_defs files_typed_mput messages_typed_files)

lemma keeps_gets_bnd: "(\<And>x. keeps I (f x)) \<Longrightarrow> keeps I (bnd (gets h) f)"
  by (simp add: keeps_def)

lemma typed_SaveFile: "keeps typed (pg_SaveFile f)"
proof -
  have "keeps typed (bnd (rows P) (\<lambda>b. bnd (require (b \<and> q)) (\<lambda>_. bnd (change h) k)))"
    if "\<And>T. schema_ok T \<Longrightarrow> P T \<Longrightarrow> q \<Longrightarrow> schema_ok (h T)" "keeps typed (k ())"
    for P q h and k :: "unit \<Rightarrow> ('z pgdb_scheme, File) go"
    using that by (auto simp: keeps_def)
  note * = this
  show ?thesis
    unfolding pg_SaveFile_def Let_def
    by (intro keeps_bnd [OF keeps_hash] keeps_bnd [OF keeps_clock(2)] keeps_bnd [OF keeps_burn(3)]
        keeps_autocommit keeps_gets_bnd * keeps_ret) (auto intro!: schema_insert_file split: if_splits)
qed

lemma typed_logUpdate: "keeps typed (pg_logUpdate t i p n ty gid x)"
  unfolding pg_logUpdate_def
  by (intro keeps_statement keeps_required_last; simp add: schema_defs; auto simp: log_typed_def split: if_splits)

lemma typed_allocate: "keeps typed (pg_allocate i)" "keeps typed (pg_allocatePts i n)"
  unfolding pg_allocate_def pg_allocatePts_def
  by (intro keeps_statement keeps_bnd keeps_update_user keeps_ret; simp add: row_typed_def)+

lemma insert_message_run: "insert_message r g = (let i = s_messages g + 1; T = tabs g in
    if \<not> refers (t_messages T) i \<and> refers (t_users T) (m_from_user_id r) \<and> refers (t_users T) (m_peer_user_id r) \<and>
      refers_opt (t_files T) (m_media_file_id r)
    then (Ok i, g\<lparr>tabs := T\<lparr>t_messages := mput i r (t_messages T)\<rparr>, s_messages := i\<rparr>)
    else (Err violation, g\<lparr>s_messages := i\<rparr>))"
  by (simp add: insert_message_def Let_def)

lemma refs_typed_messages: "refs_typed us ms rs \<Longrightarrow> (\<And>k. refers ms k \<Longrightarrow> refers ms' k) \<Longrightarrow> refs_typed us ms' rs"
  by (simp add: refs_typed_def)

lemma schema_insert_message:
  assumes "schema_ok T" "refers (t_users T) (m_from_user_id r)" "refers (t_users T) (m_peer_user_id r)"
    "refers_opt (t_files T) (m_media_file_id r)" "text_ok (m_text r)"
  shows "schema_ok (T\<lparr>t_messages := mput i r (t_messages T)\<rparr>)"
  using assms refs_typed_messages [of "t_users T" "t_messages T" "t_message_refs T" "mput i r (t_messages T)"]
  by (simp add: schema_defs messages_typed_def)

lemma typed_insert_message: "text_ok (m_text r) \<Longrightarrow> keeps typed (insert_message r)"
  by (auto simp: keeps_def insert_message_run Let_def intro: schema_insert_message)

lemma refs_typed_mput:
  assumes "mwf rs" "refs_typed us ms rs" "refers us u" "refers ms (r_global_id r)"
    "list_all (\<lambda>((v, l), s). \<not> (v = u \<and> r_global_id s = r_global_id r)) rs"
  shows "refs_typed us ms (mput (u, l) r rs)"
proof -
  have "r_global_id s \<noteq> r_global_id r" if "map_of rs (u, l') = Some s" for l' s
    using assms(5) map_of_SomeD [OF that] by (auto simp: list_all_iff)
  with assms(2-4) show ?thesis
    by (auto simp: refs_typed_def split: if_splits) metis+
qed

lemma typed_insertRef: "keeps typed (insertRef i l gid out un)"
  unfolding insertRef_def
  by (intro keeps_statement keeps_required_last) (auto simp: schema_defs intro!: refs_typed_mput)

lemma typed_SendMessage: "keeps typed (pg_SendMessage i j a n md)"
  unfolding pg_SendMessage_def
  by (intro keeps_tx keeps_statement keeps_bnd keeps_case_prod keeps_if keeps_ret typed_insert_message
      typed_allocate typed_insertRef typed_logUpdate) simp

lemma schema_mmod_messages:
  assumes "schema_ok T" "\<And>m. m_from_user_id (f m) = m_from_user_id m" "\<And>m. m_peer_user_id (f m) = m_peer_user_id m"
    "\<And>m. m_media_file_id (f m) = m_media_file_id m" "\<And>m. text_ok (m_text m) \<Longrightarrow> text_ok (m_text (f m))"
  shows "schema_ok (T\<lparr>t_messages := mmod i f (t_messages T)\<rparr>)"
  using assms refs_typed_messages [of "t_users T" "t_messages T" "t_message_refs T" "mmod i f (t_messages T)"]
  by (auto simp: schema_defs messages_typed_def)

lemma typed_EditMessage: "keeps typed (pg_EditMessage i l a)"
  unfolding pg_EditMessage_def find_ref_def peer_local_id_def
  by (intro keeps_tx keeps_statement keeps_bnd keeps_case_option keeps_if keeps_ret keeps_fail
      keeps_change typed_allocate typed_logUpdate still_keeps [OF still_basic(4)] schema_mmod_messages) simp_all

lemma typed_DeleteMessages: "keeps typed (pg_DeleteMessages i ls)"
  unfolding pg_DeleteMessages_def pg_markDeleted_def find_ref_def
  by (intro keeps_tx keeps_statement keeps_bnd keeps_case_option keeps_if keeps_ret keeps_loop
      keeps_change typed_allocate typed_logUpdate still_keeps [OF still_basic(4)] schema_mmod_messages) simp_all

lemma map_of_map_snd: "map_of (map (\<lambda>x. (fst x, f x)) m) k = map_option (\<lambda>v. f (k, v)) (map_of m k)"
  by (induction m) auto

lemma mwf_map_snd: "mwf (map (\<lambda>x. (fst x, f x)) m) \<longleftrightarrow> mwf m"
  by (simp add: mwf_def comp_def)

definition mark_rows :: "((int \<times> int) \<times> ref_row \<Rightarrow> bool) \<Rightarrow> (int \<times> int, ref_row) gomap \<Rightarrow> (int \<times> int, ref_row) gomap" where
  "mark_rows P rs = map (\<lambda>x. if P x then (fst x, (snd x)\<lparr>r_unread := False\<rparr>) else x) rs"

lemma mark_rows_map: "mark_rows P rs = map (\<lambda>x. (fst x, if P x then (snd x)\<lparr>r_unread := False\<rparr> else snd x)) rs"
  by (auto simp: mark_rows_def)

lemma map_of_mark_rows: "map_of (mark_rows P rs) k =
    map_option (\<lambda>r. if P (k, r) then r\<lparr>r_unread := False\<rparr> else r) (map_of rs k)"
  by (simp add: mark_rows_map map_of_map_snd cong: if_cong)

lemma mwf_mark_rows [simp]: "mwf (mark_rows P rs) \<longleftrightarrow> mwf rs"
  by (simp only: mark_rows_map mwf_map_snd)

lemma refs_typed_mark: "refs_typed us ms rs \<Longrightarrow> refs_typed us ms (mark_rows P rs)"
  by (auto simp: refs_typed_def map_of_mark_rows split: if_splits)

lemma pg_ReadHistory_mark: "pg_ReadHistory self peer maxID = tx (\<lambda>t.
     bnd (statement []) (\<lambda>_. bnd (rows (pg_outbox_max self peer maxID)) (\<lambda>om.
     bnd (statement []) (\<lambda>_. bnd (change (\<lambda>T. T\<lparr>t_message_refs :=
       mark_rows (\<lambda>x. incoming self peer T x \<and> snd (fst x) \<le> maxID) (t_message_refs T)\<rparr>)) (\<lambda>_.
     bnd (statement []) (\<lambda>_. bnd (rows (\<lambda>T. int (length (filter (\<lambda>x. incoming self peer T x \<and> r_unread (snd x))
       (t_message_refs T))))) (\<lambda>uc.
     bnd (pg_allocatePts self 1) (\<lambda>ip.
     bnd (pg_logUpdate t self ip 1 UpdateReadInbox None (Some (EncodeRead peer maxID))) (\<lambda>_.
     if 0 < om \<and> peer \<noteq> self
     then bnd (pg_allocatePts peer 1) (\<lambda>op.
       bnd (pg_logUpdate t peer op 1 UpdateReadOutbox None (Some (EncodeRead self om))) (\<lambda>_.
       ret \<lparr>rr_InboxPts = ip, rr_UnreadCount = uc, rr_OutboxPts = op, rr_OutboxMaxID = om\<rparr>))
     else ret \<lparr>rr_InboxPts = ip, rr_UnreadCount = uc, rr_OutboxPts = 0, rr_OutboxMaxID = om\<rparr>)))))))))"
  unfolding pg_ReadHistory_def mark_rows_def ..

lemma typed_ReadHistory: "keeps typed (pg_ReadHistory i j n)"
proof -
  have "keeps typed (rows f)" for f :: "tables \<Rightarrow> 'b"
    by (intro still_keeps still_basic)
  then show ?thesis
    unfolding pg_ReadHistory_mark
    by (intro keeps_tx keeps_statement keeps_bnd keeps_if keeps_ret keeps_change typed_allocate typed_logUpdate
        still_keeps [OF still_basic(4)])
      (simp add: schema_defs refs_typed_mark)
qed

lemma typed_call: "keeps typed (pg_call c)"
  by (cases c) (simp_all add: keeps_ans keeps_ans_unit keeps_reads_typed still_reads typed_CreateUser typed_CreateBot
      typed_CreateOwnedBot typed_SetBotToken typed_SetProfile typed_SetUsername typed_tables typed_SetBotCommands
      typed_DeleteContacts typed_SaveFile typed_SendMessage typed_EditMessage typed_DeleteMessages typed_ReadHistory
      still_keeps [OF still_reads(22)])

lemma typed_Migrate: "typed (snd (Migrate w))"
proof -
  have "text_ok ''BotFather''"
    by (simp add: text_ok_def decode_rune_def numeral_3_eq_3)
  then show ?thesis
    by (auto simp: Migrate_def pg_clock_def bnd_def now_def ret_def modify_def schema_defs schema_parts no_tables_def
        botfather_row_def users_typed_def unique_col_def mwf_def refers_opt_def)
qed

lemma undoneD:
  assumes "undone m" "m g = (r, g')" "\<forall>x. r \<noteq> Ok x"
  shows "tabs g' = tabs g"
proof -
  have "case r of Ok _ \<Rightarrow> True | _ \<Rightarrow> tabs g' = tabs g"
    using assms(1,2) unfolding undone_def by blast
  with assms(3) show ?thesis
    by (cases r) simp_all
qed

lemma typed_next:
  assumes "undone m" "keeps typed m" "typed g" "m g = (r, g')"
  shows "typed g'"
proof (cases "r = Panic")
  case True
  with undoneD [OF assms(1,4)] assms(3) show ?thesis
    by simp
qed (use keepsD [OF assms(2-4)] in simp)


text \<open>C11: A call that fails, at whichever of its statements, has changed no table: no message
  without its refs and log entries, no half of a new bot, no advanced counter.\<close>

theorem failed_call_undone: "pg_call c g = (Err e, g') \<Longrightarrow> tabs g' = tabs g"
  by (erule undoneD [OF undone_call]) simp

end
