(* ===== verification/PgRep.thy ===== *)
theory PgRep imports PgSchema MemDialogs KeyValue begin

text \<open>
  The two implementations of the \<^verbatim>\<open>teled.DB\<close> interface, related: what the tables of the
  PostgreSQL database say of the state of the in-memory one, when a call is within the
  range in which both are meant to agree, and what it means that they do.
\<close>

section \<open>The relation\<close>

definition nullable :: "int option \<Rightarrow> int" where
  "nullable x = (case x of None \<Rightarrow> 0 | Some i \<Rightarrow> i)"

definition mem_user :: "int \<Rightarrow> user_row \<Rightarrow> memUser" where
  "mem_user i r = \<lparr>mu_u = scanUser i r, mu_pts = u_pts r, mu_lastMessageID = u_last_message_id r,
     mu_botOwnerID = nullable (u_bot_owner_id r)\<rparr>"

definition mem_message :: "int \<Rightarrow> message_row \<Rightarrow> memMessage" where
  "mem_message g m = \<lparr>mm_globalID = g, mm_from = m_from_user_id m, mm_peer = m_peer_user_id m,
     mm_text = m_text m, mm_date = m_date m,
     mm_editDate = (case m_edit_date m of None \<Rightarrow> zero_time | Some t \<Rightarrow> t), mm_randomID = m_random_id m,
     mm_mediaFileID = nullable (m_media_file_id m), mm_deleted = m_deleted m\<rparr>"

definition mem_ref :: "int \<Rightarrow> ref_row \<Rightarrow> memRef" where
  "mem_ref l r = \<lparr>mr_localID = l, mr_globalID = r_global_id r, mr_out = r_out r, mr_unread = r_unread r\<rparr>"

definition log_row_of :: "UpdateLogEntry \<Rightarrow> log_row" where
  "log_row_of e = \<lparr>l_pts_count = ue_PtsCount e, l_type = ue_Type e, l_global_id = ue_GlobalID e,
     l_extra = (if ue_Extra e = [] then None else Some (jsonb (ue_Extra e))), l_date = ue_Date e\<rparr>"

definition users_rep :: "(int, user_row) gomap \<Rightarrow> (int, memUser) gomap \<Rightarrow> bool" where
  "users_rep t us \<longleftrightarrow> (\<forall>i. map_of us i = map_option (mem_user i) (map_of t i))"

definition messages_rep :: "(int, message_row) gomap \<Rightarrow> (int, memMessage) gomap \<Rightarrow> bool" where
  "messages_rep t ms \<longleftrightarrow> (\<forall>g. map_of ms g = map_option (mem_message g) (map_of t g))"

definition refs_rep :: "(int \<times> int, ref_row) gomap \<Rightarrow> (int, (int, memRef) gomap) gomap \<Rightarrow> bool" where
  "refs_rep t rs \<longleftrightarrow> (\<forall>u l. map_of (getd rs u) l = map_option (mem_ref l) (map_of t (u, l)))"

definition log_rep :: "(int \<times> int, log_row) gomap \<Rightarrow> (int, UpdateLogEntry list) gomap \<Rightarrow> bool" where
  "log_rep t ups \<longleftrightarrow>
     (\<forall>u. \<forall>e \<in> set (getd ups u). map_of t (u, ue_Pts e) = Some (log_row_of e)) \<and>
     (\<forall>u p. map_of t (u, p) \<noteq> None \<longrightarrow> (\<exists>e \<in> set (getd ups u). ue_Pts e = p))"

definition codes_rep :: "(string \<times> string, string \<times> int) gomap \<Rightarrow> (string, memPhoneCode) gomap \<Rightarrow> bool" where
  "codes_rep t cs \<longleftrightarrow> (\<forall>p h. text_ok p \<longrightarrow> text_ok h \<longrightarrow> map_of cs (phoneCodeKey p h) =
     map_option (\<lambda>(c, e). \<lparr>pc_code = c, pc_expiresAt = e\<rparr>) (map_of t (p, h)))"

definition temp_rep :: "(bytes, bytes \<times> int) gomap \<Rightarrow> (bytes, memTempKey) gomap \<Rightarrow> bool" where
  "temp_rep t ks \<longleftrightarrow> (\<forall>k. map_of ks k = map_option (\<lambda>(p, e). \<lparr>tk_perm = p, tk_expiresAt = e\<rparr>) (map_of t k))"

definition drafts_rep :: "(int \<times> int, string \<times> int) gomap \<Rightarrow> (int, (int, Draft) gomap) gomap \<Rightarrow> bool" where
  "drafts_rep t ds \<longleftrightarrow> (\<forall>u p. map_of (getd ds u) p =
     map_option (\<lambda>(x, e). \<lparr>dr_PeerUserID = p, dr_Text = x, dr_Date = e\<rparr>) (map_of t (u, p)))"

definition contacts_rep :: "(int \<times> int, string \<times> string) gomap \<Rightarrow> (int, (int, Contact) gomap) gomap \<Rightarrow> bool" where
  "contacts_rep t cs \<longleftrightarrow> (\<forall>u p. map_of (getd cs u) p =
     map_option (\<lambda>(a, b). \<lparr>ct_UserID = p, ct_FirstName = a, ct_LastName = b\<rparr>) (map_of t (u, p)))"

definition commands_rep :: "(int \<times> string \<times> string, BotCommand list) gomap \<Rightarrow> (string, BotCommand list) gomap \<Rightarrow> bool" where
  "commands_rep t cs \<longleftrightarrow> (\<forall>b s l. text_ok s \<longrightarrow> text_ok l \<longrightarrow>
     map_of cs (botCommandsKey b s l) = map_of t (b, s, l))"

definition same_map :: "('k, 'v) gomap \<Rightarrow> ('k, 'v) gomap \<Rightarrow> bool" where
  "same_map t m \<longleftrightarrow> map_of m = map_of t"

text \<open>The tables, the counters and the random source agree; the clocks may differ.\<close>

definition represents :: "'y pgdb_scheme \<Rightarrow> 'z memdb_scheme \<Rightarrow> bool" where
  "represents g d \<longleftrightarrow> users_rep (t_users (tabs g)) (users d) \<and> messages_rep (t_messages (tabs g)) (messages d) \<and>
     refs_rep (t_message_refs (tabs g)) (refs d) \<and> log_rep (t_updates_log (tabs g)) (updates d) \<and>
     same_map (t_files (tabs g)) (files d) \<and> same_map (t_sessions (tabs g)) (sessions d) \<and>
     temp_rep (t_temp_auth_keys (tabs g)) (tempKeys d) \<and> codes_rep (t_phone_codes (tabs g)) (phoneCodes d) \<and>
     drafts_rep (t_drafts (tabs g)) (drafts d) \<and> contacts_rep (t_contacts (tabs g)) (contacts d) \<and>
     same_map (t_botfather_sessions (tabs g)) (botStates d) \<and>
     commands_rep (t_bot_commands (tabs g)) (botCommands d) \<and>
     userSeq d = s_users g \<and> msgSeq d = s_messages g \<and> fileSeq d = s_files g \<and>
     rnd d = rnd g \<and> rnd_pos d = rnd_pos g"

section \<open>Agreement\<close>

text \<open>The in-memory database with a clock that stands at \<open>t\<close>.\<close>

definition at :: "int \<Rightarrow> 'z memdb_scheme \<Rightarrow> 'z memdb_scheme" where
  "at t d = d\<lparr>clk := \<lambda>_. t\<rparr>"

text \<open>
  A failed insert has used up a number of its sequence and random bytes: the in-memory
  database, which checks first, is moved on to the same ones.
\<close>

definition resync :: "'y pgdb_scheme \<Rightarrow> 'z memdb_scheme \<Rightarrow> 'z memdb_scheme" where
  "resync g d = d\<lparr>rnd := rnd g, rnd_pos := rnd_pos g, userSeq := s_users g, msgSeq := s_messages g, fileSeq := s_files g\<rparr>"

definition agree :: "('a \<Rightarrow> 'b \<Rightarrow> bool) \<Rightarrow> 'a outcome \<times> 'y pgdb_scheme \<Rightarrow> 'b outcome \<times> 'z memdb_scheme \<Rightarrow> bool" where
  "agree R p q \<longleftrightarrow> (case (p, q) of
       ((Ok x, g), (Ok y, d)) \<Rightarrow> R x y \<and> represents g d
     | ((Err e, g), (Err e', d)) \<Rightarrow> (e = ErrMessageID \<longleftrightarrow> e' = ErrMessageID) \<and> represents g (resync g d)
     | _ \<Rightarrow> False)"

text \<open>
  Two answers for the same question: the order of users by ids and of drafts of one instant is
  open, the payloads of log entries are the same up to the white space of \<^verbatim>\<open>JSONB\<close>.
\<close>

definition alike :: "db_answer \<Rightarrow> db_answer \<Rightarrow> bool" where
  "alike x y \<longleftrightarrow> (case x of
       AnsUserSet xs \<Rightarrow> (\<exists>ys. y = AnsUserSet ys \<and> mset xs = mset ys)
     | AnsDrafts xs \<Rightarrow> (\<exists>ys. y = AnsDrafts ys \<and> mset xs = mset ys)
     | AnsDifference xs p \<Rightarrow> (\<exists>ys. y = AnsDifference ys p \<and> xs = map (\<lambda>e. e\<lparr>ue_Extra := jsonb (ue_Extra e)\<rparr>) ys)
     | _ \<Rightarrow> x = y)"

definition ascii_text :: "string \<Rightarrow> bool" where
  "ascii_text s \<longleftrightarrow> list_all is_ascii s"

text \<open>A search text without wildcards.\<close>

definition plain :: "string \<Rightarrow> bool" where
  "plain q \<longleftrightarrow> ascii_text q \<and> CHR ''%'' \<notin> set q \<and> CHR ''_'' \<notin> set q \<and> CHR 0x5C \<notin> set q"

text \<open>
  The calls on which both databases are meant to agree: their texts are UTF-8, the rows they
  refer to exist, names that are looked up are not empty, limits are positive, and searches
  are for ASCII texts in ASCII texts.
\<close>

primrec accepts :: "db_call \<Rightarrow> 'z pgdb_scheme \<Rightarrow> bool" where
  "accepts (CallCreateUser phone fn ln) g = (list_all text_ok [phone, fn, ln] \<and> phone \<noteq> [] \<and> s_users g + 1 < BotFatherID)"
| "accepts (CallCreateBot token name fn) g = (list_all text_ok [token, fn, name] \<and> token \<noteq> [] \<and> s_users g + 1 < BotFatherID)"
| "accepts (CallCreateOwnedBot name fn owner secret) g = (let token = FormatInt (s_users g + 1) @ '':'' @ secret in
    list_all text_ok [name, fn, token] \<and> name \<noteq> [] \<and> s_users g + 1 < BotFatherID \<and>
    refers (t_users (tabs g)) owner \<and> free_in u_bot_token (s_users g + 1) (t_users (tabs g)) (Some token))"
| "accepts (CallSetBotToken b token) g = (text_ok token \<and> token \<noteq> [] \<and> free_in u_bot_token b (t_users (tabs g)) (Some token))"
| "accepts (CallBotByToken token) g = (text_ok token \<and> token \<noteq> [])"
| "accepts (CallBotsByOwner owner) g = (owner \<noteq> 0)"
| "accepts (CallUserByID i) g = True"
| "accepts (CallUserByPhone phone) g = (text_ok phone \<and> phone \<noteq> [])"
| "accepts (CallUserByUsername name) g = (text_ok name \<and> name \<noteq> [])"
| "accepts (CallSetProfile i fn ln ab) g = list_all text_ok (List.map_filter id [fn, ln, ab])"
| "accepts (CallSearchUsers q n) g = (plain q \<and> text_ok (TrimSpace q) \<and> (\<forall>(i, r) \<in> set (t_users (tabs g)).
    ascii_text (coalesce (u_username r)) \<and> ascii_text (u_first_name r) \<and> ascii_text (u_last_name r)))"
| "accepts (CallSetUsername i name) g = text_ok name"
| "accepts (CallUsersByIDs ids) g = distinct ids"
| "accepts (CallSavePhoneCode p h c ttl) g = list_all text_ok [p, h, c]"
| "accepts (CallPhoneCode p h) g = list_all text_ok [p, h]"
| "accepts (CallBindSession k u) g = (refers (t_auth_keys (tabs g)) k \<and> refers (t_users (tabs g)) u)"
| "accepts (CallSessionUserID k) g = True"
| "accepts (CallUnbind k) g = True"
| "accepts (CallBindTempAuthKey tk pk e) g = (1000 dvd e)"
| "accepts (CallPermAuthKey tk) g = True"
| "accepts (CallSendMessage f p t r md) g = (text_ok t \<and> refers (t_users (tabs g)) f \<and> refers (t_users (tabs g)) p \<and>
    (md \<noteq> 0 \<longrightarrow> refers (t_files (tabs g)) md))"
| "accepts (CallGetHistory s p off n) g = (0 < n)"
| "accepts (CallAddContact u c fn ln) g = (list_all text_ok [fn, ln] \<and> refers (t_users (tabs g)) u \<and> refers (t_users (tabs g)) c)"
| "accepts (CallDeleteContacts u cs) g = True"
| "accepts (CallContacts u) g = True"
| "accepts (CallSaveDraft u p t) g = (text_ok t \<and> refers (t_users (tabs g)) u)"
| "accepts (CallDrafts u) g = True"
| "accepts (CallSearchMessages s p q n) g = (plain q \<and> text_ok (TrimSpace q) \<and>
    (\<forall>(i, m) \<in> set (t_messages (tabs g)). ascii_text (m_text m)))"
| "accepts (CallMessageByGlobal s i) g = True"
| "accepts (CallEditMessage s l t) g = text_ok t"
| "accepts (CallDeleteMessages s ls) g = True"
| "accepts (CallGetDialogs s n) g = (0 < n)"
| "accepts (CallReadHistory s p m) g = refers (t_users (tabs g)) s"
| "accepts (CallGetState s) g = True"
| "accepts (CallGetDifference s p n) g = (0 < n)"
| "accepts (CallSaveFile f) g = (refers (t_users (tabs g)) (file_OwnerUserID f) \<and> file_SHA256 f \<noteq> [] \<and>
    list_all text_ok [file_ObjectKey f, file_Mime f, file_Kind f])"
| "accepts (CallFileByID i) g = True"
| "accepts (CallBotFatherState u) g = True"
| "accepts (CallSetBotFatherState u s) g = (list_all text_ok [bf_Step s, bf_DraftName s] \<and> refers (t_users (tabs g)) u)"
| "accepts (CallClearBotFatherState u) g = True"
| "accepts (CallSetBotCommands b s l cs) g = (list_all text_ok [s, l] \<and> refers (t_users (tabs g)) b \<and>
    json_ok cs \<and> map json_command cs = cs)"
| "accepts (CallBotCommands b s l) g = list_all text_ok [s, l]"
| "accepts (CallResetBotCommands b s l) g = list_all text_ok [s, l]"
| "accepts CallReady g = True"

end
