(* ===== verification/PgRun.thy ===== *)
theory PgRun imports PgRep begin

text \<open>
  The calls when every statement is carried out: closed forms of the transactions, and the
  agreement of the calls on the small tables.
\<close>

section \<open>Statements that are carried out\<close>

definition ticked :: "'z pgdb_scheme \<Rightarrow> 'z pgdb_scheme" where
  "ticked g = g\<lparr>pg_pos := Suc (pg_pos g), clk_pos := Suc (clk_pos g)\<rparr>"

lemma ticked_sel [simp]:
  "tabs (ticked g) = tabs g" "pg_up (ticked g) = pg_up g" "s_users (ticked g) = s_users g"
  "s_messages (ticked g) = s_messages g" "s_files (ticked g) = s_files g" "clk (ticked g) = clk g"
  "rnd (ticked g) = rnd g" "rnd_pos (ticked g) = rnd_pos g" "pg_lower (ticked g) = pg_lower g"
  by (simp_all add: ticked_def)

lemma ticked_tabs [simp]: "ticked g\<lparr>tabs := tabs g\<rparr> = ticked g"
  by (simp add: ticked_def)

abbreviation started :: "'z pgdb_scheme \<Rightarrow> int" where
  "started g \<equiv> usec (clk g (clk_pos g))"

lemma bnd_statement_up [simp]: "pg_up g = (\<lambda>_. True) \<Longrightarrow> list_all text_ok ts \<Longrightarrow>
    bnd (statement ts) k g = k () (g\<lparr>pg_pos := Suc (pg_pos g)\<rparr>)"
  by (simp add: statement_def bnd_def gets_def modify_def fail_def ret_def)

lemma statement_up [simp]: "pg_up g = (\<lambda>_. True) \<Longrightarrow> list_all text_ok ts \<Longrightarrow>
    statement ts g = (Ok (), g\<lparr>pg_pos := Suc (pg_pos g)\<rparr>)"
  by (simp add: statement_def bnd_def gets_def modify_def fail_def ret_def)

lemma bnd_pg_clock [simp]: "bnd pg_clock k g = k (started g) (g\<lparr>clk_pos := Suc (clk_pos g)\<rparr>)"
  by (simp add: pg_clock_def bnd_def now_def ret_def)

definition settle :: "'z pgdb_scheme \<Rightarrow> 'a outcome \<times> 'z pgdb_scheme \<Rightarrow> 'a outcome \<times> 'z pgdb_scheme" where
  "settle g p = (case p of (Ok x, g') \<Rightarrow> (Ok x, g') | (r, g') \<Rightarrow> (r, g'\<lparr>tabs := tabs g\<rparr>))"

lemma settle_simps [simp]:
  "settle g (Ok x, g') = (Ok x, g')" "settle g (Err e, g') = (Err e, g'\<lparr>tabs := tabs g\<rparr>)"
  by (simp_all add: settle_def)

lemma autocommit_up: "pg_up g = (\<lambda>_. True) \<Longrightarrow> list_all text_ok ts \<Longrightarrow>
    autocommit ts m g = settle g (m (started g) (ticked g))"
  by (simp add: autocommit_def atomic_def settle_def ticked_def split: prod.split outcome.split)

text \<open>A transaction whose body returns is committed.\<close>

lemma tx_up: "pg_up g = (\<lambda>_. True) \<Longrightarrow> m (started g) (ticked g) = (Ok x, g') \<Longrightarrow> pg_up g' = (\<lambda>_. True) \<Longrightarrow>
    tx m g = (Ok x, g'\<lparr>pg_pos := Suc (pg_pos g')\<rparr>)"
  by (simp add: tx_def atomic_def ticked_def bnd_def [of "m _"])

lemma tx_err: "pg_up g = (\<lambda>_. True) \<Longrightarrow> m (started g) (ticked g) = (Err e, g') \<Longrightarrow>
    tx m g = (Err e, g'\<lparr>tabs := tabs g\<rparr>)"
  by (simp add: tx_def atomic_def ticked_def bnd_def [of "m _"])

lemma rows_apply [simp]: "rows f g = (Ok (f (tabs g)), g)"
  by (simp add: rows_def)

lemma change_apply [simp]: "change f g = (Ok (), g\<lparr>tabs := f (tabs g)\<rparr>)"
  by (simp add: change_def)

section \<open>Agreement\<close>

lemma represents_ticks [simp]:
  "represents (g\<lparr>pg_pos := n\<rparr>) d = represents g d" "represents (g\<lparr>clk_pos := n\<rparr>) d = represents g d"
  "represents (ticked g) d = represents g d"
  "represents g (d\<lparr>clk := f\<rparr>) = represents g d" "represents g (d\<lparr>clk_pos := n\<rparr>) = represents g d"
  "represents g (at t d) = represents g d"
  by (simp_all add: represents_def ticked_def at_def)

lemma at_sel [simp]:
  "clk (at t d) = (\<lambda>_. t)" "clk_pos (at t d) = clk_pos d" "users (at t d) = users d" "messages (at t d) = messages d"
  "refs (at t d) = refs d" "updates (at t d) = updates d" "files (at t d) = files d" "sessions (at t d) = sessions d"
  "tempKeys (at t d) = tempKeys d" "phoneCodes (at t d) = phoneCodes d" "drafts (at t d) = drafts d"
  "contacts (at t d) = contacts d" "botStates (at t d) = botStates d" "botCommands (at t d) = botCommands d"
  "userSeq (at t d) = userSeq d" "msgSeq (at t d) = msgSeq d" "fileSeq (at t d) = fileSeq d"
  "rnd (at t d) = rnd d" "rnd_pos (at t d) = rnd_pos d" "uc_lower (at t d) = uc_lower d"
  by (simp_all add: at_def)

lemma agree_OkI: "m g = (Ok x, g') \<Longrightarrow> n d = (Ok y, d') \<Longrightarrow> R x y \<Longrightarrow> represents g' d' \<Longrightarrow> agree R (m g) (n d)"
  by (simp add: agree_def)

lemma agree_Ok [simp]: "agree R (Ok x, g) (Ok y, d) \<longleftrightarrow> R x y \<and> represents g d"
  by (simp add: agree_def)

lemma agree_Err [simp]: "agree R (Err e, g) (Err e', d) \<longleftrightarrow>
    (e = ErrMessageID \<longleftrightarrow> e' = ErrMessageID) \<and> represents g (resync g d)"
  by (simp add: agree_def)

lemma represents_resync: "represents g d \<Longrightarrow> represents g (resync g d)"
  by (simp add: represents_def resync_def)

lemma resync_ticks [simp]: "resync (ticked g) d = resync g d" "resync g (at t d) = at t (resync g d)"
  by (simp_all add: resync_def at_def)

lemma agree_ans:
  assumes "agree R (m g) (n d)" "\<And>x y. R x y \<Longrightarrow> alike (f x) (h y)"
  shows "agree alike (ans f m g) (ans h n d)"
  using assms by (auto simp: agree_def ans_def bnd_def ret_def split: prod.splits outcome.splits)

lemma agree_ans_unit: "agree R (m g) (n d) \<Longrightarrow> agree alike (ans_unit m g) (ans_unit n d)"
  unfolding ans_unit_def by (erule agree_ans) (simp add: alike_def)

lemma decode_rune_tail: "n \<in> set (take (snd (decode_rune (b # bs)) - 1) bs) \<Longrightarrow> 128 \<le> n"
  by (cases bs rule: remdups_adj.cases; cases "tl (tl bs)")
    (auto simp: decode_rune_def cont_def Let_def numeral_2_eq_2 numeral_3_eq_3 split: if_splits)

lemma valid_utf8_no_nul: "valid_utf8 bs \<Longrightarrow> 0 \<notin> set bs"
proof (induction bs rule: valid_utf8.induct)
  case (2 b bs)
  let ?w = "snd (decode_rune (b # bs))"
  have "drop ?w (b # bs) = drop (?w - 1) bs"
    using decode_rune_width [of "b # bs"] by (cases ?w) simp_all
  moreover have "set bs = set (take (?w - 1) bs) \<union> set (drop (?w - 1) bs)"
    by (metis append_take_drop_id set_append)
  moreover have "0 \<notin> set (take (?w - 1) bs)"
    using decode_rune_tail [of 0 b bs] by fastforce
  ultimately show ?case
    using 2 by auto
qed simp

lemma text_ok_no_nul: "text_ok s \<Longrightarrow> chr 0 \<notin> set s"
  unfolding text_ok_def by (drule valid_utf8_no_nul) (force simp: chr_def)

section \<open>The small tables\<close>

lemma same_map_upd [simp]:
  "same_map t m \<Longrightarrow> same_map (mput k v t) (mput k v m)" "same_map t m \<Longrightarrow> same_map (mdel k t) (mdel k m)"
  by (auto simp: same_map_def)

lemma same_mapD: "same_map t m \<Longrightarrow> map_of t k = map_of m k"
  by (simp add: same_map_def)

lemma agree_BindSession:
  "pg_up g = (\<lambda>_. True) \<Longrightarrow> represents g d \<Longrightarrow> refers (t_auth_keys (tabs g)) k \<Longrightarrow> refers (t_users (tabs g)) u \<Longrightarrow>
    agree (=) (pg_BindSession k u g) (BindSession k u (at t d))"
  by (simp add: autocommit_up pg_BindSession_def BindSession_def) (simp add: represents_def)

lemma agree_SessionUserID:
  "pg_up g = (\<lambda>_. True) \<Longrightarrow> represents g d \<Longrightarrow> agree (=) (pg_SessionUserID k g) (SessionUserID k (at t d))"
  by (simp add: pg_SessionUserID_def SessionUserID_def) (simp add: represents_def same_map_def)

lemma agree_Unbind:
  "pg_up g = (\<lambda>_. True) \<Longrightarrow> represents g d \<Longrightarrow> agree (=) (pg_Unbind k g) (Unbind k (at t d))"
  by (simp add: autocommit_up pg_Unbind_def Unbind_def) (simp add: represents_def)

lemma temp_rep_upd: "temp_rep t ks \<Longrightarrow> temp_rep (mput k (p, e) t) (mput k \<lparr>tk_perm = p, tk_expiresAt = e\<rparr> ks)"
  by (simp add: temp_rep_def)

lemma agree_BindTempAuthKey:
  "pg_up g = (\<lambda>_. True) \<Longrightarrow> represents g d \<Longrightarrow> 1000 dvd e \<Longrightarrow>
    agree (=) (pg_BindTempAuthKey k p e g) (BindTempAuthKey k p e (at t d))"
  by (simp add: autocommit_up pg_BindTempAuthKey_def BindTempAuthKey_def usec_def)
    (simp add: represents_def temp_rep_upd)

lemma agree_PermAuthKey:
  "pg_up g = (\<lambda>_. True) \<Longrightarrow> represents g d \<Longrightarrow>
    agree (=) (pg_PermAuthKey k g) (PermAuthKey k (at (started g) d))"
proof -
  assume up: "pg_up g = (\<lambda>_. True)" and rep: "represents g d"
  have "map_of (tempKeys d) k = map_option (\<lambda>(p, e). \<lparr>tk_perm = p, tk_expiresAt = e\<rparr>)
      (map_of (t_temp_auth_keys (tabs g)) k)"
    using rep by (simp add: represents_def temp_rep_def)
  with rep up show ?thesis
    by (simp add: pg_PermAuthKey_def PermAuthKey_def split: option.split)
qed

lemma codes_rep_upd:
  assumes "codes_rep t cs" "text_ok p" "text_ok h"
  shows "codes_rep (mput (p, h) (c, e) t) (mput (phoneCodeKey p h) \<lparr>pc_code = c, pc_expiresAt = e\<rparr> cs)"
  using assms phoneCodeKey_inj [OF text_ok_no_nul text_ok_no_nul] by (simp add: codes_rep_def)

lemma agree_SavePhoneCode:
  "pg_up g = (\<lambda>_. True) \<Longrightarrow> represents g d \<Longrightarrow> list_all text_ok [p, h, c] \<Longrightarrow>
    agree (=) (pg_SavePhoneCode p h c ttl g)
      (SavePhoneCode p h c ttl (at (usec (clk g (clk_pos g) + ttl) - ttl) d))"
  by (simp add: autocommit_up pg_SavePhoneCode_def SavePhoneCode_def) (simp add: represents_def codes_rep_upd)

lemma agree_PhoneCode:
  "pg_up g = (\<lambda>_. True) \<Longrightarrow> represents g d \<Longrightarrow> list_all text_ok [p, h] \<Longrightarrow>
    agree (=) (pg_PhoneCode p h g) (PhoneCode p h (at (started g) d))"
proof -
  assume up: "pg_up g = (\<lambda>_. True)" and rep: "represents g d" and ok: "list_all text_ok [p, h]"
  have "map_of (phoneCodes d) (phoneCodeKey p h) = map_option (\<lambda>(c, e). \<lparr>pc_code = c, pc_expiresAt = e\<rparr>)
      (map_of (t_phone_codes (tabs g)) (p, h))"
    using rep ok by (simp add: represents_def codes_rep_def)
  with rep up ok show ?thesis
    by (simp add: pg_PhoneCode_def PhoneCode_def split: option.split)
qed

section \<open>Rows of one owner\<close>

text \<open>Two maps with the same entries list them in some order.\<close>

lemma mset_map_of:
  assumes "mwf m" "mwf m'" "map_of m = map_of m'"
  shows "mset m = mset m'"
proof -
  have "set m = set m'"
    using assms(3) by (subst (asm) map_of_inject_set) (use assms(1,2) in \<open>simp_all add: mwf_def\<close>)
  then show ?thesis
    using assms(1,2) unfolding mwf_def by (metis distinct_map set_eq_iff_mset_eq_distinct)
qed

lemma map_of_map_pairs: "map_of (map (\<lambda>(p, v). (p, f p v)) s) p = map_option (f p) (map_of s p)"
  by (induction s) auto

lemma mset_rep:
  assumes "mwf m" "mwf s" "\<And>p. map_of m p = map_option (f p) (map_of s p)"
  shows "mset m = mset (map (\<lambda>(p, v). (p, f p v)) s)"
proof (rule mset_map_of)
  show "mwf (map (\<lambda>(p, v). (p, f p v)) s)"
    using assms(2) by (simp add: mwf_def comp_def case_prod_beta)
qed (use assms in \<open>simp_all add: fun_eq_iff map_of_map_pairs\<close>)

lemma mset_rep_vals:
  assumes "mwf m" "mwf s" "\<And>p. map_of m p = map_option (f p) (map_of s p)"
  shows "mset (mvals m) = mset (map (\<lambda>(p, v). f p v) s)"
proof -
  have "mset (map snd m) = image_mset snd (mset (map (\<lambda>(p, v). (p, f p v)) s))"
    using mset_rep [OF assms] by simp
  also have "\<dots> = mset (map (\<lambda>(p, v). f p v) s)"
    by (simp add: image_mset.compositionality comp_def case_prod_beta')
  finally show ?thesis .
qed

definition owned :: "'u \<Rightarrow> ('u \<times> 'p, 'v) gomap \<Rightarrow> ('p, 'v) gomap" where
  "owned u t = List.map_filter (\<lambda>((u', p), v). if u' = u then Some (p, v) else None) t"

lemma owned_simps [simp]:
  "owned u [] = []" "owned u (((u', p), v) # t) = (if u' = u then (p, v) # owned u t else owned u t)"
  by (simp_all add: owned_def List.map_filter_simps)

lemma map_of_owned [simp]: "map_of (owned u t) p = map_of t (u, p)"
  by (induction t) auto

lemma owned_keys: "p \<in> fst ` set (owned u t) \<longleftrightarrow> (u, p) \<in> fst ` set t"
  by (induction t) force+

lemma mwf_owned [simp]: "mwf t \<Longrightarrow> mwf (owned u t)"
proof (induction t)
  case (Cons x t)
  obtain u' p v where x: "x = ((u', p), v)"
    by (metis prod.exhaust)
  with Cons show ?case
    using owned_keys [of p u t] by (auto simp: mwf_def)
qed simp

lemma map_filter_owned: "List.map_filter (\<lambda>((u', p), v). if u' = u then f p v else None) t =
    List.map_filter (\<lambda>(p, v). f p v) (owned u t)"
  by (induction t) (auto simp: List.map_filter_simps split: option.split if_splits)

lemma map_filter_Some: "List.map_filter (\<lambda>(p, v). Some (f p v)) s = map (\<lambda>(p, v). f p v) s"
  by (induction s) (auto simp: List.map_filter_simps)

lemma sort_key_mset:
  assumes "mset xs = mset ys" "distinct (map f ys)"
  shows "sort_key (f :: 'a \<Rightarrow> 'k::linorder) xs = sort_key f ys"
proof (rule sort_key_unique)
  show "distinct (map f xs)"
    using assms by (metis mset_map mset_eq_imp_distinct_iff)
qed (use assms mset_eq_setD in auto)

lemma mset_map_filter: "mset xs = mset ys \<Longrightarrow> mset (List.map_filter f xs) = mset (List.map_filter f ys)"
  unfolding List.map_filter_def by (simp add: mset_map [symmetric] del: mset_map) (metis mset_filter mset_map)

section \<open>Contacts, drafts, files, flows, commands\<close>

lemma contacts_rep_upd: "contacts_rep t cs \<Longrightarrow> contacts_rep (mput (u, c) (a, b) t)
    (mput u (mput c \<lparr>ct_UserID = c, ct_FirstName = a, ct_LastName = b\<rparr> (getd cs u)) cs)"
  by (auto simp: contacts_rep_def)

lemma agree_AddContact:
  "pg_up g = (\<lambda>_. True) \<Longrightarrow> represents g d \<Longrightarrow> list_all text_ok [a, b] \<Longrightarrow> refers (t_users (tabs g)) u \<Longrightarrow>
    refers (t_users (tabs g)) c \<Longrightarrow> agree (=) (pg_AddContact u c a b g) (AddContact u c a b (at t d))"
  by (simp add: autocommit_up pg_AddContact_def AddContact_def) (simp add: represents_def contacts_rep_upd)

lemma loop_DeleteContacts: "loop (\<lambda>id _. modify (\<lambda>d. d\<lparr>contacts := mmod o' (mdel id) (contacts d)\<rparr>)) cs () d =
    (Ok (), d\<lparr>contacts := fold (\<lambda>c. mmod o' (mdel c)) cs (contacts d)\<rparr>)"
  by (induction cs arbitrary: d) simp_all

lemma getd_mmod_mdel: "getd (mmod u (mdel p) ds) v = (if v = u then mdel p (getd ds u) else getd ds v)"
  by (simp add: getd_mmod getd_def split: option.split)

lemma getd_fold_mdel: "getd (fold (\<lambda>c. mmod o' (mdel c)) ids cs) u =
    (if u = o' then fold mdel ids (getd cs u) else getd cs u)"
  by (induction ids arbitrary: cs) (simp_all add: getd_mmod_mdel)

lemma map_of_fold_mdel: "map_of (fold mdel ids m) k = (if k \<in> set ids then None else map_of m k)"
  by (induction ids arbitrary: m) auto

lemma map_of_filter_contacts: "map_of (filter (\<lambda>((o', c), _). o' = u \<longrightarrow> c \<notin> set ids) t) (v, c) =
    (if v = u \<and> c \<in> set ids then None else map_of t (v, c))"
  by (induction t) auto

lemma contacts_rep_del: "contacts_rep t cs \<Longrightarrow>
    contacts_rep (filter (\<lambda>((o', c), _). o' = u \<longrightarrow> c \<notin> set ids) t) (fold (\<lambda>c. mmod u (mdel c)) ids cs)"
  unfolding contacts_rep_def map_of_filter_contacts getd_fold_mdel by (simp add: map_of_fold_mdel)

lemma agree_DeleteContacts:
  assumes "pg_up g = (\<lambda>_. True)" "represents g d"
  shows "agree (=) (pg_DeleteContacts u ids g) (DeleteContacts u ids (at t d))"
  using assms
  by (cases "ids = []") (simp_all add: autocommit_up pg_DeleteContacts_def DeleteContacts_def loop_DeleteContacts,
        simp add: represents_def contacts_rep_del)

lemma contacts_mset:
  assumes "represents g d" "typed g" "db_inv d"
  shows "mset (List.map_filter (\<lambda>((o', c), (fn, ln)). if o' = u
     then Some \<lparr>ct_UserID = c, ct_FirstName = fn, ct_LastName = ln\<rparr> else None) (t_contacts (tabs g)))
    = mset (mvals (getd (contacts d) u))"
proof -
  let ?f = "\<lambda>c (fn, ln). \<lparr>ct_UserID = c, ct_FirstName = fn, ct_LastName = ln\<rparr>"
  have "List.map_filter (\<lambda>((o', c), (fn, ln)). if o' = u then Some (?f c (fn, ln)) else None) (t_contacts (tabs g))
      = List.map_filter (\<lambda>((o', c), x). if o' = u then Some (?f c x) else None) (t_contacts (tabs g))"
    by (intro map_filter_cong) auto
  also have "\<dots> = map (\<lambda>(c, x). ?f c x) (owned u (t_contacts (tabs g)))"
    by (simp only: map_filter_owned map_filter_Some)
  also have "mset \<dots> = mset (mvals (getd (contacts d) u))"
  proof (rule mset_rep_vals [symmetric])
    show "mwf (getd (contacts d) u)" "mwf (owned u (t_contacts (tabs g)))"
      using assms by (simp_all add: db_inv_def contacts_ok_def schema_defs)
    show "map_of (getd (contacts d) u) c = map_option (?f c) (map_of (owned u (t_contacts (tabs g))) c)" for c
      using assms(1) by (simp add: represents_def contacts_rep_def)
  qed
  finally show ?thesis
    by (simp only: prod.case)
qed

lemma distinct_by_key:
  assumes "mwf m" "\<And>k v. map_of m k = Some v \<Longrightarrow> f v = k"
  shows "distinct (map f (mvals m))"
proof -
  have "map f (mvals m) = mkeys m"
    using assms by (auto simp: mwf_map_of [symmetric])
  with assms(1) show ?thesis
    unfolding mwf_def by (simp only:)
qed

lemma agree_Contacts:
  assumes "pg_up g = (\<lambda>_. True)" "represents g d" "typed g" "db_inv d"
  shows "agree (=) (pg_Contacts u g) (Contacts u (at t d))"
proof -
  have "distinct (map ct_UserID (mvals (getd (contacts d) u)))"
    using assms(4) by (intro distinct_by_key) (auto simp: db_inv_def contacts_ok_def)
  from sort_key_mset [OF contacts_mset [OF assms(2-4)] this] assms(1,2) show ?thesis
    by (simp add: pg_Contacts_def Contacts_def)
qed

lemma drafts_rep_upd: "drafts_rep t ds \<Longrightarrow> drafts_rep (mput (u, p) (x, e) t)
    (mput u (mput p \<lparr>dr_PeerUserID = p, dr_Text = x, dr_Date = e\<rparr> (getd ds u)) ds)"
  by (auto simp: drafts_rep_def)

lemma drafts_rep_del: "drafts_rep t ds \<Longrightarrow> drafts_rep (mdel (u, p) t) (mmod u (mdel p) ds)"
  by (simp add: drafts_rep_def getd_mmod_mdel)

lemma agree_SaveDraft:
  "pg_up g = (\<lambda>_. True) \<Longrightarrow> represents g d \<Longrightarrow> text_ok x \<Longrightarrow> refers (t_users (tabs g)) u \<Longrightarrow>
    agree (=) (pg_SaveDraft u p x g) (SaveDraft u p x (at (started g) d))"
  by (cases "TrimSpace x = []")
    (simp_all add: autocommit_up pg_SaveDraft_def SaveDraft_def, simp_all add: represents_def drafts_rep_upd drafts_rep_del)

lemma drafts_mset:
  assumes "represents g d" "typed g" "db_inv d"
  shows "mset (List.map_filter (\<lambda>((o', p), (x, e)). if o' = u
     then Some \<lparr>dr_PeerUserID = p, dr_Text = x, dr_Date = e\<rparr> else None) (t_drafts (tabs g)))
    = mset (mvals (getd (drafts d) u))"
proof -
  let ?f = "\<lambda>p (x, e). \<lparr>dr_PeerUserID = p, dr_Text = x, dr_Date = e\<rparr>"
  have "List.map_filter (\<lambda>((o', p), (x, e)). if o' = u then Some (?f p (x, e)) else None) (t_drafts (tabs g))
      = List.map_filter (\<lambda>((o', p), x). if o' = u then Some (?f p x) else None) (t_drafts (tabs g))"
    by (intro map_filter_cong) auto
  also have "\<dots> = map (\<lambda>(p, x). ?f p x) (owned u (t_drafts (tabs g)))"
    by (simp only: map_filter_owned map_filter_Some)
  also have "mset \<dots> = mset (mvals (getd (drafts d) u))"
  proof (rule mset_rep_vals [symmetric])
    show "mwf (getd (drafts d) u)" "mwf (owned u (t_drafts (tabs g)))"
      using assms by (simp_all add: db_inv_def drafts_ok_def schema_defs)
    show "map_of (getd (drafts d) u) p = map_option (?f p) (map_of (owned u (t_drafts (tabs g))) p)" for p
      using assms(1) by (simp add: represents_def drafts_rep_def)
  qed
  finally show ?thesis
    by (simp only: prod.case)
qed

lemma agree_Drafts:
  assumes "pg_up g = (\<lambda>_. True)" "represents g d" "typed g" "db_inv d"
  shows "agree (\<lambda>xs ys. mset xs = mset ys) (pg_Drafts u g) (Drafts u (at t d))"
  using drafts_mset [OF assms(2-4)] assms(1,2) by (simp add: pg_Drafts_def Drafts_def)

lemma commands_rep_upd:
  assumes "commands_rep t cs" "text_ok s" "text_ok l"
  shows "commands_rep (mput (b, s, l) x t) (mput (botCommandsKey b s l) x cs)"
    "commands_rep (mdel (b, s, l) t) (mdel (botCommandsKey b s l) cs)"
  using assms botCommandsKey_inj [OF text_ok_no_nul text_ok_no_nul] by (auto simp: commands_rep_def)

lemma agree_commands:
  assumes up: "pg_up g = (\<lambda>_. True)" and rep: "represents g d" and ok: "list_all text_ok [s, l]"
  shows "refers (t_users (tabs g)) b \<Longrightarrow> json_ok cs \<Longrightarrow> map json_command cs = cs \<Longrightarrow>
      agree (=) (pg_SetBotCommands b s l cs g) (SetBotCommands b s l cs (at t d))"
    and "agree (=) (pg_BotCommands b s l g) (BotCommands b s l (at t d))"
    and "agree (=) (pg_ResetBotCommands b s l g) (ResetBotCommands b s l (at t d))"
proof -
  show "agree (=) (pg_SetBotCommands b s l cs g) (SetBotCommands b s l cs (at t d))"
    if "refers (t_users (tabs g)) b" "json_ok cs" "map json_command cs = cs"
    using up rep ok that
    by (simp add: autocommit_up pg_SetBotCommands_def SetBotCommands_def) (simp add: represents_def commands_rep_upd)
  show "agree (=) (pg_BotCommands b s l g) (BotCommands b s l (at t d))"
    using up rep ok
    by (simp add: pg_BotCommands_def BotCommands_def) (simp add: represents_def commands_rep_def getd_def)
  show "agree (=) (pg_ResetBotCommands b s l g) (ResetBotCommands b s l (at t d))"
    using up rep ok
    by (simp add: autocommit_up pg_ResetBotCommands_def ResetBotCommands_def)
      (simp add: represents_def commands_rep_upd)
qed

lemma agree_flows:
  assumes up: "pg_up g = (\<lambda>_. True)" and rep: "represents g d"
  shows "list_all text_ok [bf_Step st, bf_DraftName st] \<Longrightarrow> refers (t_users (tabs g)) u \<Longrightarrow>
      agree (=) (pg_SetBotFatherState u st g) (SetBotFatherState u st (at t d))"
    and "agree (=) (pg_BotFatherState u g) (BotFatherState u (at t d))"
    and "agree (=) (pg_ClearBotFatherState u g) (ClearBotFatherState u (at t d))"
proof -
  show "agree (=) (pg_SetBotFatherState u st g) (SetBotFatherState u st (at t d))"
    if "list_all text_ok [bf_Step st, bf_DraftName st]" "refers (t_users (tabs g)) u"
    using up rep that
    by (simp add: autocommit_up pg_SetBotFatherState_def SetBotFatherState_def) (simp add: represents_def)
  show "agree (=) (pg_BotFatherState u g) (BotFatherState u (at t d))"
    using up rep by (simp add: pg_BotFatherState_def BotFatherState_def) (simp add: represents_def same_map_def)
  show "agree (=) (pg_ClearBotFatherState u g) (ClearBotFatherState u (at t d))"
    using up rep
    by (simp add: autocommit_up pg_ClearBotFatherState_def ClearBotFatherState_def) (simp add: represents_def)
qed

lemma agree_FileByID:
  "pg_up g = (\<lambda>_. True) \<Longrightarrow> represents g d \<Longrightarrow> agree (=) (pg_FileByID i g) (FileByID i (at t d))"
  by (simp add: pg_FileByID_def FileByID_def) (simp add: represents_def same_map_def)

lemma pg_hash: "pg_genAccessHash = genAccessHash"
  by (simp add: pg_genAccessHash_def genAccessHash_def)

lemma bnd_access_hash: "bnd genAccessHash k g =
    (let h = int64 (uint64_le (map (\<lambda>i. rnd g (rnd_pos g + i)) [0..<8]))
     in k (if h = 0 then 1 else h) (g\<lparr>rnd_pos := rnd_pos g + 8\<rparr>))"
  unfolding genAccessHash_def by (simp add: bnd_def rand_read_def ret_def Let_def)

lemma text_ok_photo: "text_ok ''photo''"
  by (simp add: text_ok_def decode_rune_def)

lemma agree_SaveFile:
  assumes up: "pg_up g = (\<lambda>_. True)" and rep: "represents g d" and inv: "db_inv d"
    and ok: "refers (t_users (tabs g)) (file_OwnerUserID f)" "file_SHA256 f \<noteq> []"
      "list_all text_ok [file_ObjectKey f, file_Mime f, file_Kind f]"
  shows "agree (=) (pg_SaveFile f g) (SaveFile f (at (started g) d))"
proof -
  have "map_of (t_files (tabs g)) (s_files g + 1) = None"
  proof (rule ccontr)
    assume "map_of (t_files (tabs g)) (s_files g + 1) \<noteq> None"
    with rep obtain x where "map_of (files d) (fileSeq d + 1) = Some x"
      by (auto simp: represents_def same_map_def)
    with inv show False
      unfolding db_inv_def files_ok_def by fastforce
  qed
  moreover have "rnd d = rnd g" "rnd_pos d = rnd_pos g" "fileSeq d = s_files g"
    using rep by (simp_all add: represents_def)
  ultimately show ?thesis
    using up ok text_ok_photo
    by (simp add: pg_SaveFile_def SaveFile_def pg_hash bnd_access_hash autocommit_up Let_def refers_def del: upt.simps)
      (use rep in \<open>simp add: represents_def\<close>)
qed

end
