(* ===== verification/PgUsers.thy ===== *)
theory PgUsers imports PgRun begin

text \<open>
  Agreement of the calls on accounts: creating, finding, searching and changing them.
\<close>

lemma users_rep_mput: "users_rep t us \<Longrightarrow> users_rep (mput i r t) (mput i (mem_user i r) us)"
  by (simp add: users_rep_def)

lemma users_rep_mmod: "users_rep t us \<Longrightarrow> (\<And>r. map_of t i = Some r \<Longrightarrow> f' (mem_user i r) = mem_user i (f r)) \<Longrightarrow>
    users_rep (mmod i f t) (mmod i f' us)"
  by (cases "map_of t i") (simp_all add: users_rep_def)

lemma represents_users: "represents g d \<Longrightarrow> users_rep (t_users (tabs g)) (users d)"
  by (simp add: represents_def)

lemma db_inv_mwf_users: "db_inv d \<Longrightarrow> mwf (users d)"
  by (simp add: db_inv_def users_ok_def)

lemma new_id_free:
  assumes "represents g d" "db_inv d" "s_users g + 1 < BotFatherID"
  shows "map_of (t_users (tabs g)) (s_users g + 1) = None" "map_of (users d) (s_users g + 1) = None"
proof -
  show "map_of (users d) (s_users g + 1) = None"
  proof (rule ccontr)
    assume "map_of (users d) (s_users g + 1) \<noteq> None"
    then obtain mu where "map_of (users d) (s_users g + 1) = Some mu"
      by blast
    then have "s_users g + 1 \<le> userSeq d \<or> s_users g + 1 = BotFatherID"
      using assms(2) unfolding db_inv_def users_ok_def by blast
    with assms show False
      by (simp add: represents_def)
  qed
  with represents_users [OF assms(1)] show "map_of (t_users (tabs g)) (s_users g + 1) = None"
    by (simp add: users_rep_def)
qed

lemma coalesce_eq: "x \<noteq> [] \<Longrightarrow> coalesce v = x \<longleftrightarrow> v = Some x"
  by (auto simp: coalesce_def split: option.splits)

text \<open>A name is taken in the one database if and only if it is not free in the other.\<close>

lemma taken_iff:
  assumes "users_rep t us" "mwf t" "mwf us" "x \<noteq> []" "map_of t i = None"
    and "\<And>k r. sel (mem_user k r) = coalesce (col r)"
  shows "list_ex (\<lambda>mu. sel mu = x) (mvals us) \<longleftrightarrow> \<not> free_in col i t (Some x)"
proof -
  have "list_ex (\<lambda>mu. sel mu = x) (mvals us) \<longleftrightarrow> (\<exists>k mu. map_of us k = Some mu \<and> sel mu = x)"
    unfolding list_ex_iff by (metis mvals_map_of [OF assms(3)])
  also have "\<dots> \<longleftrightarrow> (\<exists>k r. map_of t k = Some r \<and> coalesce (col r) = x)"
  proof -
    have "(\<exists>mu. map_of us k = Some mu \<and> sel mu = x) \<longleftrightarrow> (\<exists>r. map_of t k = Some r \<and> coalesce (col r) = x)" for k
      using assms(1,6) by (cases "map_of t k") (simp_all add: users_rep_def)
    then show ?thesis
      by simp
  qed
  also have "\<dots> \<longleftrightarrow> (\<exists>k r. map_of t k = Some r \<and> k \<noteq> i \<and> col r = Some x)"
    using assms(5) unfolding coalesce_eq [OF assms(4)] by (metis option.distinct(1))
  finally show ?thesis
    by (auto simp: free_in_iff [OF assms(2)])
qed

lemma phoneTaken_iff:
  "represents g d \<Longrightarrow> typed g \<Longrightarrow> db_inv d \<Longrightarrow> phone \<noteq> [] \<Longrightarrow> map_of (t_users (tabs g)) i = None \<Longrightarrow>
    phoneTaken phone d \<longleftrightarrow> \<not> free_in u_phone i (t_users (tabs g)) (Some phone)"
  using taken_iff [of "t_users (tabs g)" "users d" phone i "\<lambda>mu. usr_Phone (mu_u mu)" u_phone]
  by (simp add: phoneTaken_def represents_users schema_mwf_users db_inv_mwf_users mem_user_def scanUser_def)

lemma usernameTaken_iff:
  "represents g d \<Longrightarrow> typed g \<Longrightarrow> db_inv d \<Longrightarrow> name \<noteq> [] \<Longrightarrow> map_of (t_users (tabs g)) i = None \<Longrightarrow>
    usernameTaken name d \<longleftrightarrow> \<not> free_in u_username i (t_users (tabs g)) (Some name)"
  using taken_iff [of "t_users (tabs g)" "users d" name i "\<lambda>mu. usr_Username (mu_u mu)" u_username]
  by (simp add: usernameTaken_def represents_users schema_mwf_users db_inv_mwf_users mem_user_def scanUser_def)

lemma tokenTaken_iff:
  "represents g d \<Longrightarrow> typed g \<Longrightarrow> db_inv d \<Longrightarrow> tok \<noteq> [] \<Longrightarrow> map_of (t_users (tabs g)) i = None \<Longrightarrow>
    tokenTaken tok d \<longleftrightarrow> \<not> free_in u_bot_token i (t_users (tabs g)) (Some tok)"
  using taken_iff [of "t_users (tabs g)" "users d" tok i "\<lambda>mu. usr_BotToken (mu_u mu)" u_bot_token]
  by (simp add: tokenTaken_def represents_users schema_mwf_users db_inv_mwf_users mem_user_def scanUser_def)

lemma free_in_None [simp]: "free_in col i t None"
  by (simp add: free_in_def)

section \<open>Creating accounts\<close>

lemmas new_rows = default_user_def newMemUser_def mem_user_def scanUser_def zero_user_def nullable_def

lemma represents_burnt: "represents g d \<Longrightarrow>
    represents ((ticked (g\<lparr>rnd_pos := n\<rparr>))\<lparr>s_users := m, tabs := tabs g\<rparr>)
      (resync ((ticked (g\<lparr>rnd_pos := n\<rparr>))\<lparr>s_users := m, tabs := tabs g\<rparr>) (at t d))"
  by (simp add: represents_def resync_def)

lemma agree_CreateUser:
  assumes up: "pg_up g = (\<lambda>_. True)" and rep: "represents g d" and ok: "typed g" "db_inv d"
    and acc: "accepts (CallCreateUser phone fn ln) g"
  shows "agree (=) (pg_CreateUser phone fn ln g) (CreateUser phone fn ln (at (started g) d))"
proof -
  let ?i = "s_users g + 1"
  have i: "map_of (t_users (tabs g)) ?i = None" "phone \<noteq> []"
    using new_id_free(1) [OF rep ok(2)] acc by simp_all
  have taken: "phoneTaken phone (at (started g) d) \<longleftrightarrow> \<not> free_in u_phone ?i (t_users (tabs g)) (Some phone)"
    using phoneTaken_iff [OF rep ok i(2,1)] by (simp add: phoneTaken_def)
  have same: "rnd d = rnd g" "rnd_pos d = rnd_pos g" "userSeq d = s_users g"
    using rep by (simp_all add: represents_def)
  show ?thesis
  proof (cases "phoneTaken phone (at (started g) d)")
    case True
    with acc up taken same i represents_burnt [OF rep] show ?thesis
      by (simp add: pg_CreateUser_def CreateUser_run pg_hash bnd_access_hash autocommit_up Let_def insert_user_run
          bnd_def [of "insert_user _"] user_row_ok_def violation_def del: upt.simps)
  next
    case False
    with acc up taken same i show ?thesis
      by (simp add: pg_CreateUser_def CreateUser_run pg_hash bnd_access_hash autocommit_up Let_def insert_user_run
          bnd_def [of "insert_user _"] user_row_ok_def refers_def refers_opt_def new_rows del: upt.simps)
        (use rep in \<open>simp add: represents_def users_rep_def new_rows\<close>)
  qed
qed

lemma agree_CreateBot:
  assumes up: "pg_up g = (\<lambda>_. True)" and rep: "represents g d" and ok: "typed g" "db_inv d"
    and acc: "accepts (CallCreateBot tok name fn) g"
  shows "agree (=) (pg_CreateBot tok name fn g) (CreateBot tok name fn (at (started g) d))"
proof -
  let ?i = "s_users g + 1"
  let ?T = "t_users (tabs g)"
  have i: "map_of ?T ?i = None" "tok \<noteq> []"
    using new_id_free(1) [OF rep ok(2)] acc by simp_all
  have taken: "tokenTaken tok (at (started g) d) \<longleftrightarrow> \<not> free_in u_bot_token ?i ?T (Some tok)"
    using tokenTaken_iff [OF rep ok i(2,1)] by (simp add: tokenTaken_def)
  have taken': "usernameTaken name (at (started g) d) \<longleftrightarrow>
      \<not> free_in u_username ?i ?T (if name = [] then None else Some name)"
    using usernameTaken_iff [OF rep ok _ i(1), of name] by (cases "name = []") (simp_all add: usernameTaken_def)
  have same: "rnd d = rnd g" "rnd_pos d = rnd_pos g" "userSeq d = s_users g"
    using rep by (simp_all add: represents_def)
  show ?thesis
  proof (cases "tokenTaken tok (at (started g) d) \<or> usernameTaken name (at (started g) d)")
    case True
    then have "\<not> user_row_ok ?i r (tabs g)"
      if "u_bot_token r = Some tok" "u_username r = (if name = [] then None else Some name)" for r
      using that taken taken' by (auto simp: user_row_ok_def)
    with acc up True same i represents_burnt [OF rep] show ?thesis
      by (simp add: pg_CreateBot_def CreateBot_run pg_hash bnd_access_hash autocommit_up Let_def insert_user_run
          bnd_def [of "insert_user _"] violation_def del: upt.simps)
  next
    case False
    then have "free_in u_bot_token ?i ?T (Some tok)" "name \<noteq> [] \<Longrightarrow> free_in u_username ?i ?T (Some name)"
      using taken taken' by simp_all
    with acc up same i False show ?thesis
      by (cases "name = []"; (simp add: pg_CreateBot_def CreateBot_run pg_hash bnd_access_hash autocommit_up Let_def
          insert_user_run bnd_def [of "insert_user _"] user_row_ok_def refers_def refers_opt_def new_rows del: upt.simps,
          use rep in \<open>simp add: represents_def users_rep_def new_rows\<close>))
  qed
qed

text \<open>The token is set by a second statement of the same transaction.\<close>

lemma mmod_mput: "map_of m k = None \<Longrightarrow> mmod k f (mput k v m) = mput k (f v) m"
  by (induction m) (auto split: if_splits)

lemma free_in_mput: "map_of t i = None \<Longrightarrow> free_in col i (mput i r t) v \<longleftrightarrow> free_in col i t v"
  by (auto simp: free_in_def mput_notin)

lemma agree_CreateOwnedBot:
  assumes up: "pg_up g = (\<lambda>_. True)" and rep: "represents g d" and ok: "typed g" "db_inv d"
    and acc: "accepts (CallCreateOwnedBot name fn owner secret) g"
  shows "agree (=) (pg_CreateOwnedBot name fn owner secret g) (CreateOwnedBot name fn owner secret (at (started g) d))"
proof -
  let ?i = "s_users g + 1"
  let ?T = "t_users (tabs g)"
  let ?tok = "FormatInt ?i @ '':'' @ secret"
  have i: "map_of ?T ?i = None" "name \<noteq> []" "refers ?T owner"
    using new_id_free(1) [OF rep ok(2)] acc by (simp_all add: Let_def)
  have texts: "text_ok name" "text_ok fn" "text_ok ?tok"
    using acc by (simp_all add: Let_def)
  have tok: "free_in u_bot_token ?i ?T (Some ?tok)"
    using acc by (simp add: Let_def)
  have taken: "usernameTaken name (at (started g) d) \<longleftrightarrow> \<not> free_in u_username ?i ?T (Some name)"
    using usernameTaken_iff [OF rep ok i(2,1)] by (simp add: usernameTaken_def)
  have same: "rnd d = rnd g" "rnd_pos d = rnd_pos g" "userSeq d = s_users g"
    using rep by (simp_all add: represents_def)
  define h where "h = drawnHash d"
  define row where "row = (default_user (started g))\<lparr>u_access_hash := h, u_username := Some name,
       u_first_name := fn, u_is_bot := True, u_bot_owner_id := Some owner\<rparr>"
  let ?g1 = "(ticked g)\<lparr>rnd_pos := rnd_pos g + 8, pg_pos := Suc (pg_pos (ticked g))\<rparr>"
  let ?body = "\<lambda>t. bnd pg_genAccessHash (\<lambda>h. bnd (statement [name, fn]) (\<lambda>_.
     bnd (insert_user ((default_user t)\<lparr>u_access_hash := h, u_username := Some name,
       u_first_name := fn, u_is_bot := True, u_bot_owner_id := Some owner\<rparr>)) (\<lambda>i.
     let token = FormatInt i @ '':'' @ secret in
     bnd (statement [token]) (\<lambda>_.
     bnd (update_user i (\<lambda>r. r\<lparr>u_bot_token := Some token\<rparr>)) (\<lambda>r. ret (scanUser i r))))))"
  have start: "?body (started g) (ticked g) = bnd (insert_user row) (\<lambda>i.
     let token = FormatInt i @ '':'' @ secret in
     bnd (statement [token]) (\<lambda>_.
     bnd (update_user i (\<lambda>r. r\<lparr>u_bot_token := Some token\<rparr>)) (\<lambda>r. ret (scanUser i r)))) ?g1"
    using up texts same by (simp add: pg_hash bnd_access_hash row_def h_def Let_def del: upt.simps)
  show ?thesis
  proof (cases "usernameTaken name (at (started g) d)")
    case True
    then have "\<not> user_row_ok ?i row (tabs g)"
      using taken by (simp add: user_row_ok_def row_def)
    then have "?body (started g) (ticked g) = (Err violation, ?g1\<lparr>s_users := ?i\<rparr>)"
      unfolding start by (simp add: bnd_def [of "insert_user _"] insert_user_run Let_def)
    from tx_err [where m = ?body, OF up this] True rep show ?thesis
      unfolding pg_CreateOwnedBot_def
      by (simp add: CreateOwnedBot_run violation_def) (simp add: represents_def resync_def)
  next
    case False
    let ?T1 = "mput ?i row ?T"
    let ?row2 = "row\<lparr>u_bot_token := Some ?tok\<rparr>"
    let ?g2 = "?g1\<lparr>tabs := (tabs g)\<lparr>t_users := ?T1\<rparr>, s_users := ?i, pg_pos := Suc (pg_pos ?g1)\<rparr>"
    let ?g3 = "?g2\<lparr>tabs := (tabs g)\<lparr>t_users := mput ?i ?row2 ?T\<rparr>\<rparr>"
    have "user_row_ok ?i row (tabs g)"
      using False taken i(3) by (simp add: user_row_ok_def row_def default_user_def refers_opt_def)
    moreover from this have "user_row_ok ?i ?row2 ((tabs g)\<lparr>t_users := ?T1\<rparr>)"
      using tok i(1) by (auto simp: user_row_ok_def free_in_mput refers_opt_def split: option.splits)
    ultimately have "?body (started g) (ticked g) = (Ok (scanUser ?i ?row2), ?g3)"
      unfolding start using i(1) up texts(3)
      by (simp add: bnd_def [of "insert_user _"] bnd_def [of "update_user _ _"] insert_user_run update_user_run
          Let_def refers_def mmod_mput)
    from tx_up [where m = ?body, OF up this] False same rep up show ?thesis
      unfolding pg_CreateOwnedBot_def
      by (simp add: CreateOwnedBot_run Let_def row_def new_rows del: upt.simps)
        (simp add: represents_def users_rep_def new_rows h_def Let_def del: upt.simps)
  qed
qed

section \<open>Finding accounts\<close>

lemma find_unique:
  assumes "mwf m" "\<And>k v k' v'. map_of m k = Some v \<Longrightarrow> map_of m k' = Some v' \<Longrightarrow> P (k, v) \<Longrightarrow> P (k', v') \<Longrightarrow> k = k'"
  shows "find P m = Some (k, v) \<longleftrightarrow> map_of m k = Some v \<and> P (k, v)"
proof
  assume "find P m = Some (k, v)"
  then show "map_of m k = Some v \<and> P (k, v)"
    using assms(1) by (auto simp: find_Some_iff mwf_map_of [symmetric])
next
  assume kv: "map_of m k = Some v \<and> P (k, v)"
  then have "\<exists>x \<in> set m. P x"
    using assms(1) by (auto simp: mwf_map_of [symmetric])
  then obtain k' v' where f: "find P m = Some (k', v')"
    by (metis find_None_iff option.exhaust prod.exhaust)
  then have "map_of m k' = Some v'" "P (k', v')"
    using assms(1) by (auto simp: find_Some_iff mwf_map_of [symmetric])
  with assms(2) kv f show "find P m = Some (k, v)"
    by (metis option.inject)
qed

lemma find_mvals: "find P (mvals m) = map_option snd (find (\<lambda>x. P (snd x)) m)"
  by (induction m) auto

text \<open>At most one account satisfies both conditions, and it is the same in both databases.\<close>

lemma find_agrees:
  assumes rep: "users_rep t us" and wf: "mwf t" "mwf us"
    and P: "\<And>k r. map_of t k = Some r \<Longrightarrow> P (k, r) \<longleftrightarrow> Q (mem_user k r)"
    and one: "\<And>k r k' r'. map_of t k = Some r \<Longrightarrow> map_of t k' = Some r' \<Longrightarrow> P (k, r) \<Longrightarrow> P (k', r') \<Longrightarrow> k = k'"
  shows "map_option (\<lambda>(i, r). scanUser i r) (find P t) = map_option mu_u (find Q (mvals us))"
proof -
  have us: "map_of us k = Some mu \<longleftrightarrow> (\<exists>r. map_of t k = Some r \<and> mu = mem_user k r)" for k mu
    using rep by (auto simp: users_rep_def)
  have find_t: "find P t = Some (k, r) \<longleftrightarrow> map_of t k = Some r \<and> P (k, r)" for k r
    by (rule find_unique [OF wf(1)]) (rule one)
  have find_us: "find (\<lambda>x. Q (snd x)) us = Some (k, mu) \<longleftrightarrow> map_of us k = Some mu \<and> Q mu" for k mu
    using find_unique [OF wf(2), of "\<lambda>x. Q (snd x)" k mu] us P one by (metis snd_conv)
  show ?thesis
  proof (cases "find P t")
    case None
    have "find (\<lambda>x. Q (snd x)) us = None"
    proof (rule ccontr)
      assume "find (\<lambda>x. Q (snd x)) us \<noteq> None"
      then obtain k mu where "find (\<lambda>x. Q (snd x)) us = Some (k, mu)"
        by (metis option.exhaust prod.exhaust)
      with find_us us P find_t None show False
        by (metis option.distinct(1))
    qed
    with None show ?thesis
      by (simp add: find_mvals)
  next
    case (Some kr)
    obtain k r where kr: "kr = (k, r)"
      by (cases kr)
    with Some find_t have "map_of t k = Some r" "P (k, r)"
      by auto
    then have "find (\<lambda>x. Q (snd x)) us = Some (k, mem_user k r)"
      using find_us us P by blast
    with Some kr show ?thesis
      by (simp add: find_mvals mem_user_def)
  qed
qed

lemma agree_userBy:
  assumes "pg_up g = (\<lambda>_. True)" "represents g d" "list_all text_ok ts"
    and "map_option (\<lambda>(i, r). scanUser i r) (find P (t_users (tabs g))) = f (at t d)"
  shows "agree (=) (userBy ts P g) (gets f (at t d))"
  using assms by (simp add: userBy_def)

lemma unique_colD: "unique_col col t \<Longrightarrow> map_of t k = Some r \<Longrightarrow> map_of t k' = Some r' \<Longrightarrow> col r = Some v \<Longrightarrow>
    col r' = Some v \<Longrightarrow> k = k'"
  unfolding unique_col_def by (metis option.distinct(1))

lemma agree_finders:
  assumes up: "pg_up g = (\<lambda>_. True)" and rep: "represents g d" and ok: "typed g" "db_inv d"
  shows "text_ok tok \<Longrightarrow> tok \<noteq> [] \<Longrightarrow> agree (=) (pg_BotByToken tok g) (BotByToken tok (at t d))"
    and "agree (=) (pg_UserByID i g) (UserByID i (at t d))"
    and "text_ok phone \<Longrightarrow> phone \<noteq> [] \<Longrightarrow> agree (=) (pg_UserByPhone phone g) (UserByPhone phone (at t d))"
    and "text_ok name \<Longrightarrow> name \<noteq> [] \<Longrightarrow> agree (=) (pg_UserByUsername name g) (UserByUsername name (at t d))"
proof -
  note wf = represents_users [OF rep] schema_mwf_users [OF ok(1)] db_inv_mwf_users [OF ok(2)]
  have uq: "unique_col u_phone (t_users (tabs g))" "unique_col u_username (t_users (tabs g))"
    "unique_col u_bot_token (t_users (tabs g))"
    and bots: "\<And>k r. map_of (t_users (tabs g)) k = Some r \<Longrightarrow> u_bot_token r \<noteq> None \<Longrightarrow> u_is_bot r"
    using schema_users_typed [OF ok(1)] unfolding users_typed_def by blast+
  show "agree (=) (pg_BotByToken tok g) (BotByToken tok (at t d))" if "text_ok tok" "tok \<noteq> []"
    unfolding pg_BotByToken_def BotByToken_def
    by (rule agree_userBy [OF up rep]; (simp add: that)?; rule find_agrees [OF wf])
      (auto simp: mem_user_def scanUser_def coalesce_eq [OF that(2)] dest: bots intro: unique_colD [OF uq(3)])
  show "agree (=) (pg_UserByID i g) (UserByID i (at t d))"
  proof -
    have "find (\<lambda>(k, r). k = i) m = map_option (\<lambda>v. (i, v)) (map_of m i)" for m :: "(int, user_row) gomap"
      by (induction m) auto
    then show ?thesis
      unfolding pg_UserByID_def UserByID_def using wf(1)
      by (intro agree_userBy [OF up rep]) (simp_all add: users_rep_def option.map_comp comp_def mem_user_def)
  qed
  show "agree (=) (pg_UserByPhone phone g) (UserByPhone phone (at t d))" if "text_ok phone" "phone \<noteq> []"
    unfolding pg_UserByPhone_def UserByPhone_def
    by (rule agree_userBy [OF up rep]; (simp add: that)?; rule find_agrees [OF wf])
      (auto simp: mem_user_def scanUser_def coalesce_eq [OF that(2)] intro: unique_colD [OF uq(1)])
  show "agree (=) (pg_UserByUsername name g) (UserByUsername name (at t d))" if "text_ok name" "name \<noteq> []"
    unfolding pg_UserByUsername_def UserByUsername_def
    by (rule agree_userBy [OF up rep]; (simp add: that)?; rule find_agrees [OF wf])
      (auto simp: mem_user_def scanUser_def coalesce_eq [OF that(2)] intro: unique_colD [OF uq(2)])
qed

section \<open>Lists of accounts\<close>

lemma select_mset:
  assumes "users_rep t us" "mwf t" "mwf us" "t = t_users T" "\<And>k r. (k, r) \<in> set t \<Longrightarrow> P (k, r) \<longleftrightarrow> Q (mem_user k r)"
  shows "mset (select_users P T) = mset (map mu_u (filter Q (mvals us)))"
proof -
  have "mset (map mu_u (filter Q (mvals us))) = image_mset mu_u (filter_mset Q (mset (mvals us)))"
    by simp
  also have "mset (mvals us) = mset (map (\<lambda>(k, r). mem_user k r) t)"
    using assms(1-3) by (intro mset_rep_vals) (auto simp: users_rep_def)
  also have "image_mset mu_u (filter_mset Q \<dots>) = mset (map mu_u (filter Q (map (\<lambda>(k, r). mem_user k r) t)))"
    by simp
  also have "map mu_u (filter Q (map (\<lambda>(k, r). mem_user k r) t)) = map (\<lambda>(i, r). scanUser i r) (filter P t)"
    using assms(5) by (induction t) (auto simp: mem_user_def)
  finally show ?thesis
    using assms(4) by (simp add: select_users_def)
qed

lemma select_ids: "map usr_ID (select_users P T) = map fst (filter P (t_users T))"
  by (auto simp: select_users_def scanUser_def)

lemma select_distinct: "mwf (t_users T) \<Longrightarrow> distinct (map usr_ID (select_users P T))"
  unfolding select_ids using mwf_filter [of "t_users T" P] by (simp add: mwf_def)

lemma select_sorted:
  assumes "represents g d" "typed g" "db_inv d" "\<And>k r. (k, r) \<in> set (t_users (tabs g)) \<Longrightarrow> P (k, r) \<longleftrightarrow> Q (mem_user k r)"
  shows "sort_key usr_ID (map mu_u (filter Q (mvals (users d)))) = sort_key usr_ID (select_users P (tabs g))"
  using select_mset [where P = P and Q = Q and T = "tabs g", OF represents_users [OF assms(1)]
      schema_mwf_users [OF assms(2)] db_inv_mwf_users [OF assms(3)] refl assms(4)]
  by (intro sort_key_mset select_distinct schema_mwf_users assms(2)) simp

lemma agree_BotsByOwner:
  assumes "pg_up g = (\<lambda>_. True)" "represents g d" "typed g" "db_inv d" "owner \<noteq> 0"
  shows "agree (=) (pg_BotsByOwner owner g) (BotsByOwner owner (at t d))"
proof -
  have "sort_key usr_ID (map mu_u (filter (\<lambda>mu. mu_botOwnerID mu = owner) (mvals (users d))))
      = sort_key usr_ID (select_users (\<lambda>(i, r). u_bot_owner_id r = Some owner) (tabs g))"
    using assms(5) by (intro select_sorted assms(2-4)) (auto simp: mem_user_def nullable_def split: option.split)
  with assms(1,2) show ?thesis
    by (simp add: pg_BotsByOwner_def BotsByOwner_def)
qed

lemma agree_UsersByIDs:
  assumes "pg_up g = (\<lambda>_. True)" "represents g d" "typed g" "db_inv d" "distinct ids"
  shows "agree (\<lambda>xs ys. mset xs = mset ys) (pg_UsersByIDs ids g) (UsersByIDs ids (at t d))"
proof -
  let ?xs = "select_users (\<lambda>(i, r). i \<in> set ids) (tabs g)"
  let ?ys = "map mu_u (List.map_filter (map_of (users d)) ids)"
  note rep = represents_users [OF assms(2)] and wf = schema_mwf_users [OF assms(3)]
  have ys: "?ys = List.map_filter (\<lambda>i. map_option mu_u (map_of (users d) i)) ids"
    by (rule map_map_filter)
  have us: "map_option mu_u (map_of (users d) i) = map_option (scanUser i) (map_of (t_users (tabs g)) i)" for i
    using rep by (cases "map_of (t_users (tabs g)) i") (simp_all add: users_rep_def mem_user_def)
  have "distinct (map usr_ID ?ys)"
    unfolding ys us by (rule distinct_map_filter [where g = "\<lambda>i. i"]) (auto simp: scanUser_def assms(5))
  moreover have "distinct (map usr_ID ?xs)"
    by (rule select_distinct [OF wf])
  moreover have "set ?xs = set ?ys"
    unfolding ys us set_map_filter by (force simp: select_users_def mwf_map_of [OF wf])
  ultimately have "mset ?xs = mset ?ys"
    by (metis distinct_map set_eq_iff_mset_eq_distinct)
  with assms(1,2) show ?thesis
    by (cases "ids = []") (simp_all add: pg_UsersByIDs_def UsersByIDs_def List.map_filter_simps)
qed

section \<open>Changing accounts\<close>

lemma row_free: "schema_ok T \<Longrightarrow> map_of (t_users T) i = Some r \<Longrightarrow>
    free_in u_phone i (t_users T) (u_phone r) \<and> free_in u_username i (t_users T) (u_username r) \<and>
    free_in u_bot_token i (t_users T) (u_bot_token r) \<and> refers_opt (t_users T) (u_bot_owner_id r)"
proof -
  assume T: "schema_ok T" and r: "map_of (t_users T) i = Some r"
  have "free_in col i (t_users T) (col r)" if "unique_col col (t_users T)" for col :: "user_row \<Rightarrow> string option"
    using that r unfolding unique_col_def free_in_iff [OF schema_mwf_users [OF T]] by metis
  with T r show ?thesis
    unfolding schema_ok_def users_typed_def by blast
qed

lemma represents_mmod:
  assumes "represents g d" "\<And>r. map_of (t_users (tabs g)) i = Some r \<Longrightarrow> f' (mem_user i r) = mem_user i (f r)"
  shows "represents ((ticked g)\<lparr>tabs := (tabs g)\<lparr>t_users := mmod i f (t_users (tabs g))\<rparr>\<rparr>)
    ((at t d)\<lparr>users := mmod i f' (users d)\<rparr>)"
  using assms users_rep_mmod [of "t_users (tabs g)" "users d" i f' f] by (simp add: represents_def)

lemma agree_SetBotToken:
  assumes up: "pg_up g = (\<lambda>_. True)" and rep: "represents g d" and ok: "typed g"
    and acc: "accepts (CallSetBotToken b tok) g"
  shows "agree (=) (pg_SetBotToken b tok g) (SetBotToken b tok (at t d))"
proof (cases "map_of (t_users (tabs g)) b")
  case None
  then have "map_of (users d) b = None"
    using represents_users [OF rep] by (simp add: users_rep_def)
  with None up rep acc show ?thesis
    by (simp add: pg_SetBotToken_def SetBotToken_def autocommit_up)
next
  case (Some r)
  then have u: "map_of (users d) b = Some (mem_user b r)"
    using represents_users [OF rep] by (simp add: users_rep_def)
  have "user_row_ok b (r\<lparr>u_bot_token := Some tok\<rparr>) (tabs g)"
    using row_free [OF ok Some] acc by (simp add: user_row_ok_def)
  moreover have "represents ((ticked g)\<lparr>tabs := (tabs g)\<lparr>t_users := mmod b (\<lambda>r. r\<lparr>u_bot_token := Some tok\<rparr>) (t_users (tabs g))\<rparr>\<rparr>)
      ((at t d)\<lparr>users := mmod b (\<lambda>mu. mu\<lparr>mu_u := (mu_u mu)\<lparr>usr_BotToken := tok\<rparr>\<rparr>) (users d)\<rparr>)"
    by (rule represents_mmod [OF rep]) (simp add: mem_user_def scanUser_def)
  moreover have "usr_IsBot (mu_u (mem_user b r)) = u_is_bot r"
    by (simp add: mem_user_def scanUser_def)
  ultimately show ?thesis
    using Some u up rep acc
    by (simp add: pg_SetBotToken_def SetBotToken_def setUser_def autocommit_up bnd_def [of "update_user _ _"] update_user_run Let_def)
qed

lemma map_rep_user: "represents g d \<Longrightarrow> map_of (users d) i = map_option (mem_user i) (map_of (t_users (tabs g)) i)"
  by (simp add: represents_def users_rep_def)

lemma agree_update_profile:
  assumes up: "pg_up g = (\<lambda>_. True)" and rep: "represents g d" and ok: "typed g"
    and texts: "list_all text_ok ts"
    and f: "\<And>r. map_of (t_users (tabs g)) i = Some r \<Longrightarrow> mu_u (mem_user i (f r)) = h (mu_u (mem_user i r)) \<and>
      u_pts (f r) = u_pts r \<and> u_last_message_id (f r) = u_last_message_id r \<and> u_bot_owner_id (f r) = u_bot_owner_id r"
    and row: "\<And>r. map_of (t_users (tabs g)) i = Some r \<Longrightarrow> user_row_ok i (f r) (tabs g)"
  shows "agree (=) (not_found i (autocommit ts (\<lambda>_. bnd (update_user i f) (\<lambda>r. ret (scanUser i r)))) g)
    (bnd (gets (\<lambda>d. map_of (users d) i)) (\<lambda>x. case x of None \<Rightarrow> fail (ErrUserNotFound i)
       | Some mu \<Rightarrow> let u = h (mu_u mu) in bnd (setUser i (\<lambda>mu. mu\<lparr>mu_u := u\<rparr>)) (\<lambda>_. ret u)) (at t d))"
proof (cases "map_of (t_users (tabs g)) i")
  case None
  with up rep texts map_rep_user [OF rep, of i] show ?thesis
    by (simp add: not_found_def on_err_def autocommit_up bnd_def [of "update_user _ _"] update_user_run Let_def
        no_rows_def) (simp add: represents_resync)
next
  case (Some r)
  have "represents ((ticked g)\<lparr>tabs := (tabs g)\<lparr>t_users := mmod i f (t_users (tabs g))\<rparr>\<rparr>)
      ((at t d)\<lparr>users := mmod i (\<lambda>mu. mu\<lparr>mu_u := h (mu_u (mem_user i r))\<rparr>) (users d)\<rparr>)"
    using f Some by (intro represents_mmod [OF rep]) (auto simp: mem_user_def)
  with Some up texts row [OF Some] f [OF Some] map_rep_user [OF rep, of i] show ?thesis
    by (simp add: not_found_def on_err_def autocommit_up bnd_def [of "update_user _ _"] update_user_run Let_def
        setUser_def mem_user_def)
qed

lemma agree_SetProfile:
  assumes up: "pg_up g = (\<lambda>_. True)" and rep: "represents g d" and ok: "typed g" "db_inv d"
    and acc: "accepts (CallSetProfile i fn ln ab) g"
  shows "agree (=) (pg_SetProfile i fn ln ab g) (SetProfile i fn ln ab (at t d))"
proof (cases "fn = None \<and> ln = None \<and> ab = None")
  case True
  have "agree (=) (pg_UserByID i g) (UserByID i (at t d))"
    by (rule agree_finders [OF up rep ok])
  then obtain x g' where x: "pg_UserByID i g = (Ok x, g')" "x = map_option mu_u (map_of (users d) i)" "represents g' (at t d)"
    by (auto simp: UserByID_def agree_def split: prod.splits outcome.splits)
  have "represents g' ((at t d)\<lparr>users := mmod i (\<lambda>mu. mu\<lparr>mu_u := setProfileFields None None None u\<rparr>) (users d)\<rparr>)"
    if u: "map_of (users d) i = Some mu" "u = mu_u mu" for mu u
  proof -
    have "map_of (mmod i (\<lambda>mu. mu\<lparr>mu_u := setProfileFields None None None u\<rparr>) (users d)) = map_of (users d)"
      using u by (auto simp: fun_eq_iff setProfileFields_def with_default_def)
    with x(3) show ?thesis
      by (simp add: represents_def users_rep_def)
  qed
  with True x show ?thesis
    by (cases "map_of (users d) i") (auto simp: pg_SetProfile_def SetProfile_def bnd_def [of "pg_UserByID i"]
        represents_resync setUser_def Let_def setProfileFields_def with_default_def fail_def)
next
  case False
  show ?thesis
    unfolding pg_SetProfile_def SetProfile_def if_not_P [OF False]
  proof (rule agree_update_profile [OF up rep ok(1)])
    show "user_row_ok i (r\<lparr>u_first_name := with_default fn (u_first_name r),
        u_last_name := with_default ln (u_last_name r), u_about := with_default ab (u_about r)\<rparr>) (tabs g)"
      if "map_of (t_users (tabs g)) i = Some r" for r
      using row_free [OF ok(1) that] by (simp add: user_row_ok_def)
    show "list_all text_ok (List.map_filter id [fn, ln, ab])"
      using acc by (simp only: accepts.simps)
  qed (auto simp: mem_user_def scanUser_def setProfileFields_def)
qed

lemma agree_SetUsername:
  assumes up: "pg_up g = (\<lambda>_. True)" and rep: "represents g d" and ok: "typed g" "db_inv d"
    and acc: "text_ok name"
  shows "agree (=) (pg_SetUsername i name g) (SetUsername i name (at t d))"
proof (cases "map_of (t_users (tabs g)) i")
  case None
  with up rep acc map_rep_user [OF rep, of i] show ?thesis
    by (simp add: pg_SetUsername_def SetUsername_def not_found_def on_err_def autocommit_up
        bnd_def [of "update_user _ _"] update_user_run Let_def no_rows_def) (simp add: represents_resync)
next
  case (Some r)
  let ?T = "t_users (tabs g)"
  let ?r = "r\<lparr>u_username := (if name \<noteq> [] then Some name else None)\<rparr>"
  have "(\<exists>(k, mu) \<in> set (users d). k \<noteq> i \<and> usr_Username (mu_u mu) = name) \<longleftrightarrow>
      (\<exists>k s. map_of ?T k = Some s \<and> k \<noteq> i \<and> u_username s = Some name)" if "name \<noteq> []"
  proof -
    have "(\<exists>(k, mu) \<in> set (users d). k \<noteq> i \<and> usr_Username (mu_u mu) = name) \<longleftrightarrow>
        (\<exists>k mu. map_of (users d) k = Some mu \<and> k \<noteq> i \<and> usr_Username (mu_u mu) = name)"
      using mwf_map_of [OF db_inv_mwf_users [OF ok(2)]] by fastforce
    also have "\<dots> \<longleftrightarrow> (\<exists>k s. map_of ?T k = Some s \<and> k \<noteq> i \<and> coalesce (u_username s) = name)"
    proof (intro ex_cong1)
      show "(\<exists>mu. map_of (users d) k = Some mu \<and> k \<noteq> i \<and> usr_Username (mu_u mu) = name) \<longleftrightarrow>
          (\<exists>s. map_of ?T k = Some s \<and> k \<noteq> i \<and> coalesce (u_username s) = name)" for k
        unfolding map_rep_user [OF rep] by (cases "map_of ?T k") (simp_all add: mem_user_def scanUser_def)
    qed
    finally show ?thesis
      by (simp add: coalesce_eq [OF that])
  qed
  then have taken: "name \<noteq> [] \<and> (\<exists>(k, mu) \<in> set (users d). k \<noteq> i \<and> usr_Username (mu_u mu) = name) \<longleftrightarrow>
      \<not> user_row_ok i ?r (tabs g)"
    using row_free [OF ok(1) Some] by (auto simp: user_row_ok_def free_in_iff [OF schema_mwf_users [OF ok(1)]])
  have u: "map_of (users (at t d)) i = Some (mem_user i r)"
    using map_rep_user [OF rep, of i] Some by simp
  have "represents ((ticked g)\<lparr>tabs := (tabs g)\<lparr>t_users := mmod i (\<lambda>r. r\<lparr>u_username := (if name \<noteq> [] then Some name else None)\<rparr>) ?T\<rparr>\<rparr>)
      ((at t d)\<lparr>users := mmod i (\<lambda>mu. mu\<lparr>mu_u := (mu_u mu)\<lparr>usr_Username := name\<rparr>\<rparr>) (users d)\<rparr>)"
    by (rule represents_mmod [OF rep]) (simp add: mem_user_def scanUser_def)
  with taken Some up acc represents_resync [OF rep] show ?thesis
    unfolding SetUsername_run [OF u]
    by (cases "user_row_ok i ?r (tabs g)"; cases "name = []";
        simp add: pg_SetUsername_def not_found_def on_err_def autocommit_up
          bnd_def [of "update_user _ _"] update_user_run Let_def no_rows_def violation_def mem_user_def scanUser_def;
        simp add: represents_def resync_def)
qed

section \<open>Searching accounts\<close>

text \<open>A pattern without wildcards but for the outer ones.\<close>

definition tame :: "nat list \<Rightarrow> bool" where
  "tame p \<longleftrightarrow> 37 \<notin> set p \<and> 95 \<notin> set p \<and> 92 \<notin> set p"

lemma like_any: "like [37] s"
  by (induction s) simp_all

lemma like_prefix: "tame p \<Longrightarrow> like (p @ [37]) s \<longleftrightarrow> prefix p s"
proof (induction p arbitrary: s)
  case Nil
  then show ?case
    by (simp add: like_any)
next
  case (Cons c p)
  then show ?case
    by (cases s) (auto simp: tame_def)
qed

lemma like_infix: "tame p \<Longrightarrow> like (37 # p @ [37]) s \<longleftrightarrow> (\<exists>a b. s = a @ p @ b)"
proof (induction s)
  case Nil
  then have "like (p @ [37]) [] \<longleftrightarrow> prefix p []"
    by (rule like_prefix)
  then show ?case
    by simp
next
  case (Cons x s)
  have "(\<exists>a b. x # s = a @ p @ b) \<longleftrightarrow> prefix p (x # s) \<or> (\<exists>a b. s = a @ p @ b)"
    by (auto simp: prefix_def Cons_eq_append_conv)
  with Cons like_prefix [OF Cons.prems] show ?case
    by simp
qed

lemma runes_ascii: "ascii_text s \<Longrightarrow> runes s = map of_char s"
proof (induction s)
  case Nil
  then show ?case
    by (simp add: runes_def)
next
  case (Cons c s)
  then have "decode_rune (of_char c # map of_char s) = (of_char c, 1)"
    by (simp add: ascii_text_def is_ascii_def decode_rune_def)
  with Cons show ?case
    by (simp add: runes_def ascii_text_def)
qed

lemma low_ascii: "is_ascii c \<Longrightarrow> low g (of_char c) = of_char (ascii_lower c)"
  by (auto simp: is_ascii_def low_def ascii_lower_def is_upper_def)

lemma low_runes: "ascii_text s \<Longrightarrow> map (low g) (runes s) = map of_char (map ascii_lower s)"
  by (simp add: runes_ascii low_ascii ascii_text_def list_all_iff)

lemma ToLower_ascii: "ascii_text s \<Longrightarrow> ToLower uc s = map ascii_lower s"
  by (simp add: ToLower_def ascii_text_def)

lemma of_char_map_eq: "map (of_char :: char \<Rightarrow> nat) xs = map of_char ys \<longleftrightarrow> xs = ys"
  by (simp add: inj_map_eq_map inj_def)

lemma prefix_map_char: "prefix (map (of_char :: char \<Rightarrow> nat) xs) (map of_char ys) \<longleftrightarrow> prefix xs ys"
proof
  assume "prefix (map (of_char :: char \<Rightarrow> nat) xs) (map of_char ys)"
  then have "map (of_char :: char \<Rightarrow> nat) xs = map of_char (take (length xs) ys)"
    by (metis length_map prefix_def append_eq_conv_conj take_map)
  then show "prefix xs ys"
    unfolding of_char_map_eq by (metis take_is_prefix)
qed (rule map_mono_prefix)

lemma infix_map_char: "(\<exists>a b. map (of_char :: char \<Rightarrow> nat) ys = a @ map of_char xs @ b) \<longleftrightarrow> (\<exists>a b. ys = a @ xs @ b)"
proof
  assume "\<exists>a b. map (of_char :: char \<Rightarrow> nat) ys = a @ map of_char xs @ b"
  then obtain a b where eq: "map (of_char :: char \<Rightarrow> nat) ys = a @ map of_char xs @ b"
    by blast
  from iffD1 [OF map_eq_append_conv eq]
  obtain a' c where c: "ys = a' @ c" "map (of_char :: char \<Rightarrow> nat) c = map of_char xs @ b"
    by (elim exE conjE) simp
  then have "prefix xs c"
    using prefix_map_char [of xs c] by (simp add: prefix_def)
  with c(1) show "\<exists>a b. ys = a @ xs @ b"
    by (auto simp: prefix_def)
qed (metis map_append)

lemma ascii_char_eq: "n < 128 \<Longrightarrow> \<not> (65 \<le> n \<and> n \<le> 90) \<Longrightarrow> \<not> (97 \<le> n \<and> n \<le> 122) \<Longrightarrow>
    of_char (ascii_lower c) = (n :: nat) \<longleftrightarrow> of_char c = n"
  by (auto simp: ascii_lower_def is_upper_def)

lemma tame_lower: "plain q \<Longrightarrow> tame (map of_char (map ascii_lower q))"
proof -
  assume q: "plain q"
  have inj: "of_char c = (of_char c' :: nat) \<longleftrightarrow> c = c'" for c c' :: char
    by simp
  have "(37 :: nat) \<notin> of_char ` set q" "(95 :: nat) \<notin> of_char ` set q" "(92 :: nat) \<notin> of_char ` set q"
    using q inj [of _ "CHR ''%''"] inj [of _ "CHR ''_''"] inj [of _ "CHR 0x5C"] by (auto simp: plain_def image_iff)
  then show ?thesis
    using ascii_char_eq [of 37] ascii_char_eq [of 95] ascii_char_eq [of 92] by (force simp: tame_def image_iff)
qed

lemma wild_ascii: "ascii_text q \<Longrightarrow> ascii_text (q @ ''%'')" "ascii_text q \<Longrightarrow> ascii_text (''%'' @ q @ ''%'')"
  by (simp_all add: ascii_text_def is_ascii_def)

lemma lower_wild: "ascii_lower CHR ''%'' = CHR ''%''"
  by (simp add: ascii_lower_def is_upper_def)

lemma ilike_prefix: "plain q \<Longrightarrow> ascii_text s \<Longrightarrow>
    ilike g s (q @ ''%'') \<longleftrightarrow> prefix (map ascii_lower q) (map ascii_lower s)"
  using like_prefix [OF tame_lower, of q] wild_ascii(1) [of q]
  by (simp add: ilike_def low_runes lower_wild plain_def prefix_map_char del: map_map)

lemma ilike_contains: "plain q \<Longrightarrow> ascii_text s \<Longrightarrow>
    ilike g s (''%'' @ q @ ''%'') \<longleftrightarrow> contains (map ascii_lower s) (map ascii_lower q)"
  using like_infix [OF tame_lower, of q] wild_ascii(2) [of q]
  by (simp add: ilike_def low_runes lower_wild plain_def infix_map_char contains_iff del: map_map)

lemma ascii_text_ok:
  assumes "ascii_text s"
  shows "text_ok s \<longleftrightarrow> (0 :: nat) \<notin> of_char ` set s"
  using assms
proof (induction s)
  case Nil
  then show ?case
    by simp
next
  case (Cons c s)
  then have "decode_rune (of_char c # map of_char s) = (of_char c, 1)" "of_char c < (128 :: nat)"
    by (simp_all add: ascii_text_def is_ascii_def decode_rune_def)
  with Cons show ?case
    by (auto simp: text_ok_def ascii_text_def)
qed

lemma set_strip: "set (strip seps s) \<subseteq> set s"
proof (induction seps s rule: strip.induct)
  case (1 ws s)
  show ?case
  proof (cases "find (\<lambda>w. w \<noteq> [] \<and> prefix w s) ws")
    case None
    then show ?thesis
      by (subst strip.simps) simp
  next
    case (Some w)
    with 1 [OF Some] show ?thesis
      by (subst strip.simps) (auto dest: in_set_dropD)
  qed
qed

lemma set_TrimSpace: "set (TrimSpace s) \<subseteq> set s"
proof -
  have "set (TrimSpace s) \<subseteq> set (rev (strip spaces s))"
    using set_strip [of "map rev spaces" "rev (strip spaces s)"] by (simp add: TrimSpace_def)
  then show ?thesis
    using set_strip [of spaces s] by simp
qed

lemma plain_TrimSpace: "plain q \<Longrightarrow> plain (TrimSpace q)"
  using set_TrimSpace [of q] by (auto simp: plain_def ascii_text_def list_all_iff)

lemma wild_ok:
  assumes "plain q" "text_ok q"
  shows "text_ok (q @ ''%'')" "text_ok (''%'' @ q @ ''%'')"
proof -
  have q: "ascii_text q" "(0 :: nat) \<notin> of_char ` set q"
    using assms ascii_text_ok [of q] by (simp_all add: plain_def)
  show "text_ok (q @ ''%'')" "text_ok (''%'' @ q @ ''%'')"
    using q(2) unfolding ascii_text_ok [OF wild_ascii(1) [OF q(1)]] ascii_text_ok [OF wild_ascii(2) [OF q(1)]] by auto
qed

lemma ilike_ticks [simp]: "ilike (g\<lparr>pg_pos := n\<rparr>) = ilike g"
proof -
  have "low (g\<lparr>pg_pos := n\<rparr>) = low g"
    by (simp add: fun_eq_iff low_def)
  then show ?thesis
    by (intro ext) (simp only: ilike_def)
qed

lemma agree_SearchUsers:
  assumes up: "pg_up g = (\<lambda>_. True)" and rep: "represents g d" and ok: "typed g" "db_inv d"
    and acc: "accepts (CallSearchUsers q n) g"
  shows "agree (=) (pg_SearchUsers q n g) (SearchUsers q n (at t d))"
proof (cases "TrimSpace q = []")
  case True
  with rep show ?thesis
    by (simp add: pg_SearchUsers_def SearchUsers_def ToLower_def Let_def)
next
  case False
  let ?q = "TrimSpace q"
  let ?lc = "ToLower (uc_lower d)"
  let ?P = "\<lambda>(i, r). (case u_username r of None \<Rightarrow> False | Some n \<Rightarrow> ilike g n (?q @ ''%'')) \<or>
       ilike g (u_first_name r) (''%'' @ ?q @ ''%'') \<or> ilike g (u_last_name r) (''%'' @ ?q @ ''%'')"
  let ?hit = "\<lambda>u. prefix (?lc ?q) (?lc (usr_Username u)) \<or> contains (?lc (usr_FirstName u)) (?lc ?q)
                  \<or> contains (?lc (usr_LastName u)) (?lc ?q)"
  have q: "plain ?q" "text_ok ?q"
    using acc plain_TrimSpace by simp_all
  then have lq: "?lc ?q = map ascii_lower ?q"
    by (simp add: ToLower_ascii plain_def)
  have "sort_key usr_ID (map mu_u (filter (\<lambda>mu. ?hit (mu_u mu)) (mvals (users d)))) = sort_key usr_ID (select_users ?P (tabs g))"
  proof (rule select_sorted [OF rep ok])
    fix k r
    assume "(k, r) \<in> set (t_users (tabs g))"
    with acc have "ascii_text (coalesce (u_username r))" "ascii_text (u_first_name r)" "ascii_text (u_last_name r)"
      by auto
    then show "?P (k, r) \<longleftrightarrow> ?hit (mu_u (mem_user k r))"
      using False by (cases "u_username r")
        (simp_all add: lq mem_user_def scanUser_def ToLower_ascii ilike_prefix [OF q(1)] ilike_contains [OF q(1), simplified])
  qed
  then have sorted: "sort_key usr_ID (filter ?hit (map mu_u (mvals (users d)))) = sort_key usr_ID (select_users ?P (tabs g))"
    by (simp add: filter_map comp_def)
  have "?lc ?q \<noteq> []"
    using False lq by simp
  with sorted up rep False wild_ok [OF q] show ?thesis
    by (simp add: pg_SearchUsers_def SearchUsers_def Let_def gotake_take pg_limit_def
        cong: option.case_cong)
qed

end
