(* ===== verification/PgMessages.thy ===== *)
theory PgMessages imports PgUsers begin

text \<open>
  The calls that change messages and the update log, when every statement is carried out: each
  step of a transaction does to the tables what the step of the in-memory call does to its maps.
\<close>

section \<open>Transactions step by step\<close>

abbreviation up :: "'z pgdb_scheme \<Rightarrow> bool" where
  "up g \<equiv> pg_up g = (\<lambda>_. True)"

lemma tx_agree:
  assumes "up g" "agree R (m (started g) (ticked g)) q" "up (snd (m (started g) (ticked g)))"
    and "\<And>e g'. m (started g) (ticked g) = (Err e, g') \<Longrightarrow> tabs g' = tabs g"
  shows "agree R (tx m g) q"
proof (cases "m (started g) (ticked g)")
  case (Pair r g')
  show ?thesis
  proof (cases r)
    case (Ok x)
    with assms Pair show ?thesis
      by (simp add: tx_up [where m = m] agree_def split: prod.splits outcome.splits)
  next
    case (Err e)
    have same: "tabs g = tabs g'"
      using assms(4) Pair Err by simp
    have "tx m g = (Err e, g')"
      using tx_err [OF assms(1), of m e g'] Pair Err by (simp add: same)
    with assms(2) Pair Err show ?thesis
      by simp
  next
    case Panic
    with assms Pair show ?thesis
      by (simp add: agree_def)
  qed
qed

section \<open>The update log\<close>

lemma log_rep_add:
  assumes "log_rep t ups" "map_of t (u, ue_Pts e) = None"
  shows "log_rep (mput (u, ue_Pts e) (log_row_of e) t) (mput u (getd ups u @ [e]) ups)"
proof -
  have "ue_Pts e' \<noteq> ue_Pts e" if "e' \<in> set (getd ups u)" for e'
    using assms that unfolding log_rep_def by fastforce
  with assms(1) show ?thesis
    unfolding log_rep_def by auto
qed

lemma log_free:
  assumes "log_rep t ups" "tiles 0 (getd ups u) p0" "p0 < p"
  shows "map_of t (u, p) = None"
proof (rule ccontr)
  assume "map_of t (u, p) \<noteq> None"
  then obtain e where "e \<in> set (getd ups u)" "ue_Pts e = p"
    using assms(1) unfolding log_rep_def by blast
  with tiles_range [OF assms(2)] assms(3) show False
    by fastforce
qed

lemma represents_log: "represents g d \<Longrightarrow> log_rep (t_updates_log (tabs g)) (updates d)"
  by (simp add: represents_def)

lemma user_row_kept:
  assumes "schema_ok T" "map_of (t_users T) u = Some r"
    "u_phone s = u_phone r" "u_username s = u_username r" "u_bot_token s = u_bot_token r" "u_bot_owner_id s = u_bot_owner_id r"
  shows "user_row_ok u s T"
  using row_free [OF assms(1,2)] assms(3-6) by (simp add: user_row_ok_def)

lemma update_user_kept:
  assumes "typed s" "map_of (t_users (tabs s)) u = Some r"
    "u_phone (f r) = u_phone r" "u_username (f r) = u_username r" "u_bot_token (f r) = u_bot_token r"
    "u_bot_owner_id (f r) = u_bot_owner_id r"
  shows "update_user u f s = (Ok (f r), s\<lparr>tabs := (tabs s)\<lparr>t_users := mmod u f (t_users (tabs s))\<rparr>\<rparr>)"
  using user_row_kept [OF assms(1,2,3-6)] assms(2) by (simp add: update_user_run Let_def)

lemma rep_user:
  assumes "represents s d" "map_of (users d) u = Some mu"
  obtains r where "map_of (t_users (tabs s)) u = Some r" "mu = mem_user u r"
  using assms map_rep_user [OF assms(1), of u] by auto

lemma tiles_of: "log_ok us rs ups \<Longrightarrow> map_of us u = Some mu \<Longrightarrow> tiles 0 (getd ups u) (mu_pts mu)"
  by (metis log_ok_def option.simps(5) pts_of_def)

lemma text_ok_types: "text_ok UpdateNew" "text_ok UpdateEdit" "text_ok UpdateDelete" "text_ok UpdateReadInbox"
  "text_ok UpdateReadOutbox"
  by (simp_all add: text_ok_def decode_rune_def UpdateNew_def UpdateEdit_def UpdateDelete_def UpdateReadInbox_def
      UpdateReadOutbox_def)

text \<open>One step of the update log: \<^verbatim>\<open>allocatePts\<close> and \<^verbatim>\<open>logUpdate\<close>.\<close>

lemma pg_logged:
  fixes s :: "'y pgdb_scheme" and d :: "'z memdb_scheme" and k :: "int \<Rightarrow> ('y pgdb_scheme, 'a) go"
  assumes s: "up s" "represents s d" "typed s" 
    and u: "map_of (users d) u = Some mu" and log: "tiles 0 (getd (updates d) u) (mu_pts mu)" and n: "1 \<le> n" and ty: "text_ok kind"
    and x: "x = (if extra = [] then None else Some extra)"
  shows "\<exists>s'. (\<forall>k. bnd (pg_allocatePts u n) (\<lambda>p. bnd (pg_logUpdate t u p n kind gid x) (\<lambda>_. k p)) s =
        (k (mu_pts mu + n) s' :: 'a outcome \<times> 'y pgdb_scheme)) \<and>
      represents s' (logged u (log_entry (mu_pts mu + n) n kind gid extra t) d) \<and> typed s' \<and> up s'"
proof -
  obtain r where r: "map_of (t_users (tabs s)) u = Some r" "mu = mem_user u r"
    using rep_user [OF s(2) u] .
  let ?f = "\<lambda>r. r\<lparr>u_pts := u_pts r + n\<rparr>"
  let ?e = "log_entry (mu_pts mu + n) n kind gid extra t"
  let ?s1 = "s\<lparr>pg_pos := Suc (pg_pos s), tabs := (tabs s)\<lparr>t_users := mmod u ?f (t_users (tabs s))\<rparr>\<rparr>"
  let ?s2 = "?s1\<lparr>pg_pos := Suc (pg_pos ?s1), tabs := (tabs ?s1)\<lparr>t_updates_log :=
     mput (u, ue_Pts ?e) (log_row_of ?e) (t_updates_log (tabs ?s1))\<rparr>\<rparr>"
  have pts: "mu_pts mu = u_pts r"
    using r(2) by (simp add: mem_user_def)
  have free: "map_of (t_updates_log (tabs s)) (u, mu_pts mu + n) = None"
    using log_free [OF represents_log [OF s(2)] log] n by simp
  have row: "\<lparr>l_pts_count = n, l_type = kind, l_global_id = gid, l_extra = map_option jsonb x, l_date = t\<rparr> = log_row_of ?e"
    using x by (simp add: log_row_of_def)
  have "update_user u ?f (s\<lparr>pg_pos := Suc (pg_pos s)\<rparr>) = (Ok (?f r), ?s1)"
    using update_user_kept [of "s\<lparr>pg_pos := Suc (pg_pos s)\<rparr>" u r ?f] s(3) r(1) by simp
  then have alloc: "pg_allocatePts u n s = (Ok (mu_pts mu + n), ?s1)"
    using s(1) pts by (simp add: pg_allocatePts_def bnd_def [of "update_user _ _"])
  have t1: "typed ?s1"
    by (rule keepsD [OF typed_allocate(2) s(3) alloc]) simp
  have logd: "pg_logUpdate t u (mu_pts mu + n) n kind gid x ?s1 = (Ok (), ?s2)"
    using s(1) ty free r(1) row by (simp add: pg_logUpdate_def refers_def)
  have t2: "typed ?s2"
    by (rule keepsD [OF typed_logUpdate t1 logd]) simp
  have "users_rep (mmod u ?f (t_users (tabs s))) (mmod u (bump n) (users d))"
    using represents_users [OF s(2)] by (rule users_rep_mmod) (simp add: mem_user_def bump_def scanUser_def)
  moreover have "log_rep (mput (u, ue_Pts ?e) (log_row_of ?e) (t_updates_log (tabs s))) (mput u (getd (updates d) u @ [?e]) (updates d))"
    by (rule log_rep_add [OF represents_log [OF s(2)]]) (simp add: free)
  ultimately have "represents ?s2 (logged u ?e d)"
    using s(2) by (simp add: represents_def logged_def)
  moreover have "bnd (pg_allocatePts u n) (\<lambda>p. bnd (pg_logUpdate t u p n kind gid x) (\<lambda>_. k p)) s = k (mu_pts mu + n) ?s2"
    for k :: "int \<Rightarrow> ('y pgdb_scheme, 'a) go"
    by (simp only: bnd_Ok [where m = "pg_allocatePts u n", OF alloc]
        bnd_Ok [where m = "pg_logUpdate t u (mu_pts mu + n) n kind gid x", OF logd])
  ultimately show ?thesis
    using s(1) t2 by - (rule exI [of _ ?s2], simp)
qed

section \<open>Sending\<close>

lemma represents_refs: "represents g d \<Longrightarrow> refs_rep (t_message_refs (tabs g)) (refs d)"
  by (simp add: represents_def)

lemma represents_messages: "represents g d \<Longrightarrow> map_of (messages d) i = map_option (mem_message i) (map_of (t_messages (tabs g)) i)"
  by (simp add: represents_def messages_rep_def)

lemma rep_message:
  assumes "represents s d" "map_of (messages d) i = Some m"
  obtains row where "map_of (t_messages (tabs s)) i = Some row" "m = mem_message i row"
  using assms(2) unfolding represents_messages [OF assms(1)] by blast

lemma refers_message:
  assumes "represents s d" "map_of (messages d) i = Some m"
  shows "refers (t_messages (tabs s)) i"
  using assms(2) unfolding represents_messages [OF assms(1)] by (auto simp: refers_def)

lemma refs_rep_mput: "refs_rep t rs \<Longrightarrow> refs_rep (mput (u, l) r t) (mput u (mput l (mem_ref l r) (getd rs u)) rs)"
  by (auto simp: refs_rep_def)

lemma ref_row_of:
  assumes "represents s d" "map_of (t_message_refs (tabs s)) (u, l) = Some r"
  shows "map_of (getd (refs d) u) l = Some (mem_ref l r)"
  using represents_refs [OF assms(1)] assms(2) by (simp add: refs_rep_def)

lemma fresh_ref:
  assumes s: "represents s d" "typed s" and rs: "refs_ok (users d) (messages d) (refs d)"
    and u: "map_of (users d) u = Some mu" and old: "\<And>l r. map_of (getd (refs d) u) l = Some r \<Longrightarrow> mr_globalID r < g"
  shows "map_of (t_message_refs (tabs s)) (u, mu_lastMessageID mu + 1) = None"
    and "list_all (\<lambda>((v, l), r). \<not> (v = u \<and> r_global_id r = g)) (t_message_refs (tabs s))"
proof -
  have "map_of (getd (refs d) u) (mu_lastMessageID mu + 1) \<noteq> None \<longleftrightarrow>
      1 \<le> mu_lastMessageID mu + 1 \<and> mu_lastMessageID mu + 1 \<le> last_of (users d) u"
    using rs unfolding refs_ok_def by blast
  with u have "map_of (getd (refs d) u) (mu_lastMessageID mu + 1) = None"
    by (simp add: last_of_def)
  then show "map_of (t_message_refs (tabs s)) (u, mu_lastMessageID mu + 1) = None"
    using represents_refs [OF s(1)] by (simp add: refs_rep_def)
  have wf: "mwf (t_message_refs (tabs s))"
    using s(2) by (simp add: schema_defs)
  have "r_global_id r \<noteq> g" if "((u, l), r) \<in> set (t_message_refs (tabs s))" for l r
    using old [OF ref_row_of [OF s(1)], of l r] that by (simp add: mwf_map_of [OF wf] mem_ref_def)
  then show "list_all (\<lambda>((v, l), r). \<not> (v = u \<and> r_global_id r = g)) (t_message_refs (tabs s))"
    by (auto simp: list_all_iff)
qed

text \<open>The delivery to one participant: \<^verbatim>\<open>allocate\<close>, the ref, the log entry.\<close>

lemma pg_delivered:
  fixes s :: "'y pgdb_scheme" and d :: "'z memdb_scheme"
  assumes s: "up s" "represents s d" "typed s" and inv: "db_inv' d"
    and u: "map_of (users d) u = Some mu" and m: "map_of (messages d) g = Some m"
    and old: "\<And>l r. map_of (getd (refs d) u) l = Some r \<Longrightarrow> mr_globalID r < g"
    and un: "un \<longleftrightarrow> \<not> out" and clock: "clk d = (\<lambda>_. t)"
  shows "\<exists>s'. (\<forall>k. bnd (pg_allocate u) (\<lambda>(l, p). bnd (insertRef u l g out un) (\<lambda>_.
        bnd (pg_logUpdate t u p 1 UpdateNew (Some g) None) (\<lambda>_. k l p))) s =
        (k (mu_lastMessageID mu + 1) (mu_pts mu + 1) s' :: 'a outcome \<times> 'y pgdb_scheme)) \<and>
      represents s' (delivered u g out d) \<and> typed s' \<and> up s'"
proof -
  obtain r where r: "map_of (t_users (tabs s)) u = Some r" "mu = mem_user u r"
    using rep_user [OF s(2) u] .
  let ?f = "\<lambda>r. r\<lparr>u_last_message_id := u_last_message_id r + 1, u_pts := u_pts r + 1\<rparr>"
  let ?l = "mu_lastMessageID mu + 1"
  let ?row = "\<lparr>r_global_id = g, r_out = out, r_unread = un\<rparr>"
  let ?e = "log_entry (mu_pts mu + 1) 1 UpdateNew (Some g) [] t"
  define s1 where "s1 = s\<lparr>pg_pos := Suc (pg_pos s), tabs := (tabs s)\<lparr>t_users := mmod u ?f (t_users (tabs s))\<rparr>\<rparr>"
  define s2 where "s2 = s1\<lparr>pg_pos := Suc (pg_pos s1), tabs := (tabs s1)\<lparr>t_message_refs := mput (u, ?l) ?row (t_message_refs (tabs s1))\<rparr>\<rparr>"
  define s3 where "s3 = s2\<lparr>pg_pos := Suc (pg_pos s2), tabs := (tabs s2)\<lparr>t_updates_log :=
     mput (u, ue_Pts ?e) (log_row_of ?e) (t_updates_log (tabs s2))\<rparr>\<rparr>"
  have num: "mu_pts mu = u_pts r" "mu_lastMessageID mu = u_last_message_id r"
    using r(2) by (simp_all add: mem_user_def)
  have rs: "refs_ok (users d) (messages d) (refs d)" and log: "log_ok (users d) (refs d) (updates d)"
    using inv by (simp_all add: db_inv'_def)
  have free: "map_of (t_updates_log (tabs s)) (u, mu_pts mu + 1) = None"
    using log_free [OF represents_log [OF s(2)] tiles_of [OF log u]] by simp
  note fresh = fresh_ref [OF s(2,3) rs u old]
  have msg: "refers (t_messages (tabs s)) g"
    by (rule refers_message [OF s(2) m])
  have row: "\<lparr>l_pts_count = 1, l_type = UpdateNew, l_global_id = Some g, l_extra = None, l_date = t\<rparr> = log_row_of ?e"
    by (simp add: log_row_of_def)
  have "update_user u ?f (s\<lparr>pg_pos := Suc (pg_pos s)\<rparr>) = (Ok (?f r), s1)"
    using update_user_kept [of "s\<lparr>pg_pos := Suc (pg_pos s)\<rparr>" u r ?f] s(3) r(1) by (simp add: s1_def)
  then have alloc: "pg_allocate u s = (Ok (?l, mu_pts mu + 1), s1)"
    using s(1) num by (simp add: pg_allocate_def bnd_def [of "update_user _ _"])
  have t1: "typed s1"
    by (rule keepsD [OF typed_allocate(1) s(3) alloc]) simp
  have ref: "insertRef u ?l g out un s1 = (Ok (), s2)"
    using s(1) fresh msg r(1) by (simp add: insertRef_def refers_def s2_def s1_def)
  have t2: "typed s2"
    by (rule keepsD [OF typed_insertRef t1 ref]) simp
  have logd: "pg_logUpdate t u (mu_pts mu + 1) 1 UpdateNew (Some g) None s2 = (Ok (), s3)"
    using s(1) text_ok_types(1) free r(1) row by (simp add: pg_logUpdate_def refers_def s3_def s2_def s1_def)
  have t3: "typed s3"
    by (rule keepsD [OF typed_logUpdate t2 logd]) simp
  have "users_rep (mmod u ?f (t_users (tabs s))) (mmod u bumpMsg (users d))"
    using represents_users [OF s(2)] by (rule users_rep_mmod) (simp add: mem_user_def bumpMsg_def scanUser_def)
  moreover have "log_rep (mput (u, ue_Pts ?e) (log_row_of ?e) (t_updates_log (tabs s))) (mput u (getd (updates d) u @ [?e]) (updates d))"
    by (rule log_rep_add [OF represents_log [OF s(2)]]) (simp add: free)
  moreover have "refs_rep (mput (u, ?l) ?row (t_message_refs (tabs s))) (mput u (mput ?l
      \<lparr>mr_localID = ?l, mr_globalID = g, mr_out = out, mr_unread = \<not> out\<rparr> (getd (refs d) u)) (refs d))"
    using refs_rep_mput [OF represents_refs [OF s(2)], of u ?l ?row] un by (simp add: mem_ref_def)
  ultimately have rep3: "represents s3 (delivered u g out d)"
    using s(2) u clock by (simp add: represents_def delivered_def Let_def s3_def s2_def s1_def)
  show ?thesis
  proof (intro exI [of _ s3] conjI allI)
    show "bnd (pg_allocate u) (\<lambda>(l, p). bnd (insertRef u l g out un) (\<lambda>_.
        bnd (pg_logUpdate t u p 1 UpdateNew (Some g) None) (\<lambda>_. k l p))) s = k ?l (mu_pts mu + 1) s3"
      for k :: "int \<Rightarrow> int \<Rightarrow> ('y pgdb_scheme, 'a) go"
      by (simp only: bnd_Ok [where m = "pg_allocate u", OF alloc] prod.case
          bnd_Ok [where m = "insertRef u ?l g out un", OF ref]
          bnd_Ok [where m = "pg_logUpdate t u (mu_pts mu + 1) 1 UpdateNew (Some g) None", OF logd])
      show "represents s3 (delivered u g out d)" "typed s3"
      by (fact rep3, fact t3)
  qed (use s(1) in \<open>simp add: s3_def s2_def s1_def\<close>)
qed

lemma messages_rep_mput: "messages_rep t ms \<Longrightarrow> messages_rep (mput g r t) (mput g (mem_message g r) ms)"
  by (simp add: messages_rep_def)

lemma pg_posted:
  fixes s :: "'y pgdb_scheme" and d :: "'z memdb_scheme"
  assumes s: "up s" "represents s d" "typed s" and inv: "db_inv' d" and clock: "clk d = (\<lambda>_. tm)"
    and acc: "text_ok txt'" "refers (t_users (tabs s)) f" "refers (t_users (tabs s)) p" "md \<noteq> 0 \<longrightarrow> refers (t_files (tabs s)) md"
    and row: "row = \<lparr>m_from_user_id = f, m_peer_user_id = p, m_text = txt', m_date = tm, m_edit_date = None,
    m_random_id = rid, m_deleted = False, m_media_file_id = (if md \<noteq> 0 then Some md else None)\<rparr>"
  shows "\<exists>s'. (\<forall>k. bnd (statement [txt']) (\<lambda>_. bnd (insert_message row) k) s =
        (k (msgSeq d + 1) s' :: 'a outcome \<times> 'y pgdb_scheme)) \<and>
      represents s' (posted f p txt' rid md d) \<and> typed s' \<and> up s'"
proof -
  let ?g = "s_messages s + 1"
  let ?s1 = "s\<lparr>pg_pos := Suc (pg_pos s)\<rparr>"
  let ?s2 = "?s1\<lparr>tabs := (tabs s)\<lparr>t_messages := mput ?g row (t_messages (tabs s))\<rparr>, s_messages := ?g\<rparr>"
  have seq: "msgSeq d = s_messages s"
    using s(2) by (simp add: represents_def)
  have "map_of (messages d) (msgSeq d + 1) = None"
    using inv by (intro msgs_ok_fresh [where us = "users d"]) (simp add: db_inv'_def)
  then have "\<not> refers (t_messages (tabs s)) ?g"
    using represents_messages [OF s(2), of ?g] seq by (simp add: refers_def)
  then have ins: "insert_message row ?s1 = (Ok ?g, ?s2)"
    using acc by (simp add: insert_message_run Let_def row refers_opt_def)
  have "typed ?s2"
    using keepsD [OF typed_insert_message _ ins] s(3) acc(1) by (simp add: row)
  moreover have "mem_message ?g row = \<lparr>mm_globalID = ?g, mm_from = f, mm_peer = p, mm_text = txt', mm_date = tm,
      mm_editDate = zero_time, mm_randomID = rid, mm_mediaFileID = md, mm_deleted = False\<rparr>"
    by (simp add: mem_message_def row nullable_def)
  then have "represents ?s2 (posted f p txt' rid md d)"
    using s(2) messages_rep_mput [of "t_messages (tabs s)" "messages d" ?g row] clock seq
    by (simp add: represents_def posted_def)
  moreover have "bnd (statement [txt']) (\<lambda>_. bnd (insert_message row) k) s = k (msgSeq d + 1) ?s2"
    for k :: "int \<Rightarrow> ('y pgdb_scheme, 'a) go"
    using s(1) acc(1) by (simp add: bnd_Ok [where m = "insert_message row", OF ins] seq)
  ultimately show ?thesis
    using s(1) by - (rule exI [of _ ?s2], simp)
qed

lemma refers_rep: "represents g d \<Longrightarrow> refers (t_users (tabs g)) u \<Longrightarrow> \<exists>mu. map_of (users d) u = Some mu"
  using map_rep_user [of g d u] by (auto simp: refers_def)

lemma old_globals:
  assumes "db_inv' d" "map_of (getd (refs d) v) l = Some x"
  shows "mr_globalID x < msgSeq d + 1"
proof -
  have "ref_ok (messages d) v l x"
    using assms by (simp add: db_inv'_def refs_ok_def)
  then obtain y where "map_of (messages d) (mr_globalID x) = Some y"
    by (auto simp: ref_ok_def)
  then have "mr_globalID x \<le> msgSeq d"
    using assms(1) unfolding db_inv'_def msgs_ok_def by blast
  then show ?thesis
    by simp
qed

lemma posted_more [simp]:
  "clk (posted f p x r mf d) = clk d" "map_of (messages (posted f p x r mf d)) (msgSeq d + 1) \<noteq> None"
  by (simp_all add: posted_def)

lemma delivered_more [simp]:
  "clk (delivered u g b d) = clk d" "v \<noteq> u \<Longrightarrow> getd (refs (delivered u g b d)) v = getd (refs d) v"
  by (simp_all add: delivered_def Let_def)

lemma agree_SendMessage:
  fixes g :: "'y pgdb_scheme" and d :: "'z memdb_scheme"
  assumes g: "up g" "represents g d" "typed g" and inv: "db_inv d" and acc: "accepts (CallSendMessage f p x rid md) g"
  shows "agree (=) (pg_SendMessage f p x rid md g) (SendMessage f p x rid md (at (started g) d))"
proof -
  let ?t = "started g"
  let ?d = "at ?t d"
  let ?g = "msgSeq d + 1"
  have inv0: "db_inv' ?d"
    using inv by (simp add: db_inv_split db_inv'_def)
  obtain mf mp where mf: "map_of (users d) f = Some mf" and mp: "map_of (users d) p = Some mp"
    using refers_rep [OF g(2)] acc by fastforce
  have acc': "text_ok x" "refers (t_users (tabs (ticked g))) f" "refers (t_users (tabs (ticked g))) p"
    "md \<noteq> 0 \<longrightarrow> refers (t_files (tabs (ticked g))) md"
    using acc by simp_all
  have g0: "up (ticked g)" "represents (ticked g) ?d" "typed (ticked g)"
    using g by simp_all
  let ?d1 = "posted f p x rid md ?d"
  let ?d2 = "delivered f ?g True ?d1"
  have inv1: "db_inv' ?d1"
    using db_inv'_posted [OF inv0] mf mp by simp
  obtain m where m: "map_of (messages ?d1) ?g = Some m" "mm_from m = f" "mm_peer m = p"
    by (simp add: posted_def)
  have old: "mr_globalID y < ?g" if "map_of (getd (refs ?d) v) l = Some y" for v l y
    using old_globals [OF inv0 that] by simp
  have inv2: "db_inv' ?d2"
    using db_inv'_delivered [OF inv1, of f mf ?g m True] mf m old by simp
  obtain s1 where s1: "\<And>k :: int \<Rightarrow> ('y pgdb_scheme, SentMessage) go. bnd (statement [x]) (\<lambda>_. bnd (insert_message
      \<lparr>m_from_user_id = f, m_peer_user_id = p, m_text = x, m_date = ?t, m_edit_date = None, m_random_id = rid,
       m_deleted = False, m_media_file_id = (if md \<noteq> 0 then Some md else None)\<rparr>) k) (ticked g) = k ?g s1"
    "represents s1 ?d1" "typed s1" "up s1"
    using pg_posted [where tm = "started g" and rid = rid, OF g0 inv0 _ acc' refl] by auto
  obtain s2 where s2: "\<And>k :: int \<Rightarrow> int \<Rightarrow> ('y pgdb_scheme, SentMessage) go. bnd (pg_allocate f) (\<lambda>(l, p). bnd (insertRef f l ?g True False) (\<lambda>_.
        bnd (pg_logUpdate ?t f p 1 UpdateNew (Some ?g) None) (\<lambda>_. k l p))) s1 = k (mu_lastMessageID mf + 1) (mu_pts mf + 1) s2"
    "represents s2 ?d2" "typed s2" "up s2"
    using pg_delivered [where out = True and un = False and t = "started g" and u = f and mu = mf, OF s1(4,2,3) inv1 _ m(1)] mf old by auto
  show ?thesis
  proof (cases "f = p")
    case True
    show ?thesis
      unfolding pg_SendMessage_def SendMessage_run [of ?d, simplified, OF mf mp] if_P [OF True]
      by (rule tx_agree [OF g(1)]) (simp_all only: s1(1) s2(1) if_P [OF True], use s2(2,4) in simp_all)
  next
    case False
    let ?d3 = "delivered p ?g False ?d2"
    obtain s3 where s3: "\<And>k :: int \<Rightarrow> int \<Rightarrow> ('y pgdb_scheme, SentMessage) go. bnd (pg_allocate p) (\<lambda>(l, q). bnd (insertRef p l ?g False True) (\<lambda>_.
        bnd (pg_logUpdate ?t p q 1 UpdateNew (Some ?g) None) (\<lambda>_. k l q))) s2 = k (mu_lastMessageID mp + 1) (mu_pts mp + 1) s3"
      "represents s3 ?d3" "typed s3" "up s3"
      using pg_delivered [where out = False and un = True and t = "started g" and u = p and g = "msgSeq d + 1" and m = m and mu = mp, OF s2(4,2,3) inv2]
        mp old m(1) False by auto
    show ?thesis
      unfolding pg_SendMessage_def SendMessage_run [of ?d, simplified, OF mf mp] if_not_P [OF False]
      by (rule tx_agree [OF g(1)]) (simp_all only: s1(1) s2(1) s3(1) if_not_P [OF False], use s3(2,4) in simp_all)
  qed
qed

section \<open>Editing\<close>

lemma refByGlobal_rep:
  assumes s: "represents s d" "typed s" and wf: "mwf (getd (refs d) u)"
  shows "refByGlobal u g d = map_option (\<lambda>((_, l), r). mem_ref l r)
     (find (\<lambda>((v, l), r). v = u \<and> r_global_id r = g) (t_message_refs (tabs s)))"
proof -
  let ?t = "t_message_refs (tabs s)"
  let ?P = "\<lambda>((v, l), r). v = u \<and> r_global_id r = g"
  have rep: "map_of (getd (refs d) u) l = map_option (mem_ref l) (map_of ?t (u, l))" for l
    using represents_refs [OF s(1)] by (simp add: refs_rep_def)
  have wft: "mwf ?t" and typed: "refs_typed (t_users (tabs s)) (t_messages (tabs s)) ?t"
    using s(2) by (simp_all add: schema_defs)
  have one: "l = l'" if "map_of ?t (u, l) = Some r" "map_of ?t (u, l') = Some r'" "r_global_id r = r_global_id r'" for l l' r r'
    using typed that unfolding refs_typed_def by blast
  have find_t: "find ?P ?t = Some (k, r) \<longleftrightarrow> map_of ?t k = Some r \<and> ?P (k, r)" for k r
    by (rule find_unique [OF wft]) (auto dest: one)
  have find_m: "find (\<lambda>x. mr_globalID (snd x) = g) (getd (refs d) u) = Some (l, r) \<longleftrightarrow>
      map_of (getd (refs d) u) l = Some r \<and> mr_globalID r = g" for l r
  proof -
    have "k = k'" if kk: "map_of (getd (refs d) u) k = Some v" "map_of (getd (refs d) u) k' = Some v'"
      "mr_globalID v = mr_globalID v'" for k k' v v'
    proof -
      obtain q where q: "map_of ?t (u, k) = Some q" "v = mem_ref k q"
        using kk(1) unfolding rep by blast
      obtain q' where q': "map_of ?t (u, k') = Some q'" "v' = mem_ref k' q'"
        using kk(2) unfolding rep by blast
      have "r_global_id q = r_global_id q'"
        using kk(3) by (simp add: q(2) q'(2) mem_ref_def)
      then show ?thesis
        by (rule one [OF q(1) q'(1)])
    qed
    then show ?thesis
      using find_unique [OF wf, of "\<lambda>x. mr_globalID (snd x) = g" l r] by simp
  qed
  show ?thesis
  proof (cases "find ?P ?t")
    case None
    have "find (\<lambda>x. mr_globalID (snd x) = g) (getd (refs d) u) = None"
    proof (rule ccontr)
      assume "find (\<lambda>x. mr_globalID (snd x) = g) (getd (refs d) u) \<noteq> None"
      then obtain l r where "find (\<lambda>x. mr_globalID (snd x) = g) (getd (refs d) u) = Some (l, r)"
        by auto
      then obtain q where "map_of ?t (u, l) = Some q" "r_global_id q = g"
        unfolding find_m rep by (auto simp: mem_ref_def)
      with find_t [of "(u, l)" q] None show False
        by simp
    qed
    with None show ?thesis
      by (simp add: refByGlobal_def find_mvals)
  next
    case (Some x)
    obtain v l r where x: "x = ((v, l), r)"
      by (metis prod.exhaust)
    with Some find_t [of "(v, l)" r] have r: "v = u" "map_of ?t (u, l) = Some r" "r_global_id r = g"
      by auto
    then have "find (\<lambda>x. mr_globalID (snd x) = g) (getd (refs d) u) = Some (l, mem_ref l r)"
      unfolding find_m rep by (simp add: mem_ref_def)
    with Some x show ?thesis
      by (simp add: refByGlobal_def find_mvals)
  qed
qed

lemma bnd_peer_local_id:
  fixes s :: "'y pgdb_scheme" and k :: "int \<Rightarrow> ('y pgdb_scheme, 'a) go"
  assumes "up s" "represents s d" "typed s" "mwf (getd (refs d) u)"
  shows "bnd (peer_local_id u g) k s =
    k (case refByGlobal u g d of None \<Rightarrow> 0 | Some r \<Rightarrow> mr_localID r) (s\<lparr>pg_pos := Suc (pg_pos s)\<rparr>)"
  unfolding refByGlobal_rep [OF assms(2-4)] using assms(1)
  by (simp add: peer_local_id_def bnd_def [of "bnd _ _"] mem_ref_def split: option.split)

lemma bnd_find_ref:
  fixes s :: "'y pgdb_scheme" and k :: "int option \<Rightarrow> ('y pgdb_scheme, 'a) go"
  assumes "up s" "represents s d"
  shows "bnd (find_ref u l) k s = k (map_option mr_globalID (map_of (getd (refs d) u) l)) (s\<lparr>pg_pos := Suc (pg_pos s)\<rparr>)"
proof -
  have "map_of (getd (refs d) u) l = map_option (mem_ref l) (map_of (t_message_refs (tabs s)) (u, l))"
    using represents_refs [OF assms(2)] by (simp add: refs_rep_def)
  then show ?thesis
    using assms(1) by (simp add: find_ref_def bnd_def [of "bnd _ _"] option.map_comp comp_def mem_ref_def)
qed

lemma resync_pos [simp]: "resync (g\<lparr>pg_pos := n\<rparr>) d = resync g d"
  by (simp add: resync_def)

lemma messages_rep_mmod:
  assumes "messages_rep t ms" "\<And>r. f' (mem_message g r) = mem_message g (f r)"
  shows "messages_rep (mmod g f t) (mmod g f' ms)"
  using assms by (auto simp: messages_rep_def option.map_comp comp_def)

lemma agree_EditMessage:
  fixes g :: "'y pgdb_scheme" and d :: "'z memdb_scheme"
  assumes g: "up g" "represents g d" "typed g" and inv: "db_inv d" and acc: "text_ok x"
  shows "agree (=) (pg_EditMessage self l x g) (EditMessage self l x (at (started g) d))"
proof (cases "editable self l d")
  case None
  have mem: "EditMessage self l x (at (started g) d) = (Err ErrMessageID, at (started g) d)"
    using None by (intro EditMessage_invalid) (simp add: editable_def cong: option.case_cong)
  have find: "bnd (find_ref self l) k (ticked g) =
      k (map_option mr_globalID (map_of (getd (refs d) self) l)) ((ticked g)\<lparr>pg_pos := Suc (pg_pos (ticked g))\<rparr>)"
    for k :: "int option \<Rightarrow> ('y pgdb_scheme, EditResult) go"
    using g by (intro bnd_find_ref) simp_all
  show ?thesis
  proof (cases "map_of (getd (refs d) self) l")
    case None
    show ?thesis
      unfolding pg_EditMessage_def mem
      by (rule tx_agree [OF g(1)]) (use g(1) represents_resync [OF g(2)] in \<open>simp_all add: find None\<close>)
  next
    case (Some r)
    have bad: "case map_of (t_messages (tabs g)) (mr_globalID r) of None \<Rightarrow> True
        | Some m \<Rightarrow> m_from_user_id m \<noteq> self \<or> m_deleted m"
      using None Some represents_messages [OF g(2), of "mr_globalID r"]
      by (cases "map_of (t_messages (tabs g)) (mr_globalID r)") (auto simp: editable_def mem_message_def split: if_splits)
    show ?thesis
      unfolding pg_EditMessage_def mem
      by (rule tx_agree [OF g(1)])
        (use g(1) acc bad represents_resync [OF g(2)] in \<open>auto simp: find Some split: option.splits if_splits\<close>)
  qed
next
  case (Some rm)
  obtain r m where "rm = (r, m)"
    by (cases rm)
  with Some have e: "editable self l d = Some (r, m)"
    by simp
  note m = editableD [OF e]
  let ?t = "started g" and ?gid = "mr_globalID r"
  let ?d = "at ?t d"
  have e': "editable self l ?d = Some (r, m)"
    using e by (simp add: editable_def cong: option.case_cong)
  obtain mu mp where u: "map_of (users d) self = Some mu" and p: "map_of (users d) (mm_peer m) = Some mp"
    using db_inv_user_of_message [OF inv m(2)] m(4) by metis
  have gid: "mm_globalID m = ?gid"
    using inv m(2) unfolding db_inv_def msgs_ok_def by blast
  obtain row where row: "map_of (t_messages (tabs g)) ?gid = Some row" "m = mem_message ?gid row"
    using rep_message [OF g(2) m(2)] .
  have own: "m_from_user_id row = self" "\<not> m_deleted row" "m_peer_user_id row = mm_peer m" "m_date row = mm_date m"
    using m(3,4) row(2) by (simp_all add: mem_message_def)
  let ?f = "\<lambda>m. m\<lparr>m_text := x, m_edit_date := Some ?t\<rparr>"
  define s0 where "s0 = (ticked g)\<lparr>pg_pos := Suc (Suc (pg_pos (ticked g))),
    tabs := (tabs g)\<lparr>t_messages := mmod ?gid ?f (t_messages (tabs g))\<rparr>\<rparr>"
  let ?base = "edited ?gid x ?d"
  have "messages_rep (mmod ?gid ?f (t_messages (tabs g))) (mmod ?gid (\<lambda>m. m\<lparr>mm_text := x, mm_editDate := ?t\<rparr>) (messages d))"
    using g(2) by (intro messages_rep_mmod) (simp_all add: represents_def mem_message_def)
  then have rep0: "represents s0 ?base"
    using g(2) by (simp add: represents_def s0_def edited_def)
  have t0: "typed s0"
    using schema_mmod_messages [OF g(3), of ?f ?gid] acc by (simp add: s0_def)
  have up0: "up s0"
    using g(1) by (simp add: s0_def)
  have logs: "log_ok (users d) (refs d) (updates d)" and wf: "mwf (getd (refs d) v)" for v
    using inv by (simp_all add: db_inv_def refs_ok_def)
  let ?d1 = "logged self (log_entry (mu_pts mu + 1) 1 UpdateEdit (Some ?gid) [] ?t) ?base"
  obtain s1 where s1: "\<And>k :: int \<Rightarrow> ('y pgdb_scheme, EditResult) go. bnd (pg_allocatePts self 1) (\<lambda>p.
        bnd (pg_logUpdate ?t self p 1 UpdateEdit (Some ?gid) None) (\<lambda>_. k p)) s0 = k (mu_pts mu + 1) s1"
      "represents s1 ?d1" "typed s1" "up s1"
    using pg_logged [where x = None and extra = "[]" and u = self and mu = mu and n = 1 and t = "started g" and gid = "Some (mr_globalID r)",
        OF up0 rep0 t0 _ _ _ text_ok_types(2)] u tiles_of [OF logs u] by auto
  have body0: "bnd (find_ref self l) (\<lambda>y. case y of None \<Rightarrow> fail ErrMessageID | Some gid \<Rightarrow>
     bnd (statement [x]) (\<lambda>_. bnd (rows (\<lambda>T. map_of (t_messages T) gid)) (\<lambda>y. case y of
       None \<Rightarrow> fail ErrMessageID | Some m \<Rightarrow>
     if m_from_user_id m \<noteq> self \<or> m_deleted m then fail ErrMessageID else
     bnd (change (\<lambda>T. T\<lparr>t_messages := mmod gid (\<lambda>m. m\<lparr>m_text := x, m_edit_date := Some ?t\<rparr>) (t_messages T)\<rparr>)) (\<lambda>_. k gid m)))) (ticked g)
      = (k ?gid row s0 :: EditResult outcome \<times> 'y pgdb_scheme)" for k
    using g(1) acc m(1) row(1) own by (simp add: bnd_find_ref [where d = d, OF _ represents_ticks(3) [THEN iffD2, OF g(2)]] s0_def)
  show ?thesis
  proof (cases "mm_peer m = self")
    case True
    show ?thesis
      unfolding pg_EditMessage_def EditMessage_run [OF e', simplified, OF u p] Let_def if_P [OF True]
      by (rule tx_agree [OF g(1)]) (simp_all only: body0 s1(1) own(3,4) if_P [OF True],
        use s1(2,4) gid in \<open>simp_all add: edit_entry_def\<close>)
  next
    case False
    let ?d2 = "logged (mm_peer m) (log_entry (mu_pts mp + 1) 1 UpdateEdit (Some ?gid) [] ?t) ?d1"
    let ?s1 = "s1\<lparr>pg_pos := Suc (pg_pos s1)\<rparr>"
    have at1: "up ?s1" "represents ?s1 ?d1" "typed ?s1"
      using s1(2-4) by simp_all
    have p1: "map_of (users ?d1) (mm_peer m) = Some mp"
      using p False by simp
    obtain s2 where s2: "\<And>k :: int \<Rightarrow> ('y pgdb_scheme, EditResult) go. bnd (pg_allocatePts (mm_peer m) 1) (\<lambda>p.
        bnd (pg_logUpdate ?t (mm_peer m) p 1 UpdateEdit (Some ?gid) None) (\<lambda>_. k p)) ?s1 = k (mu_pts mp + 1) s2"
      "represents s2 ?d2" "typed s2" "up s2"
      using pg_logged [where x = None and extra = "[]" and n = 1 and t = "started g" and gid = "Some (mr_globalID r)",
          OF at1 p1 _ _ text_ok_types(2)] tiles_of [OF logs p] False by auto
    have peer: "bnd (peer_local_id (mm_peer m) ?gid) k s1 =
        k (case refByGlobal (mm_peer m) ?gid d of None \<Rightarrow> 0 | Some r \<Rightarrow> mr_localID r) ?s1" for k :: "int \<Rightarrow> ('y pgdb_scheme, EditResult) go"
      using bnd_peer_local_id [OF s1(4,2,3), of "mm_peer m" ?gid k] wf by (simp add: refByGlobal_def)
    show ?thesis
      unfolding pg_EditMessage_def EditMessage_run [OF e', simplified, OF u p] Let_def if_not_P [OF False]
      by (rule tx_agree [OF g(1)]) (simp_all only: body0 s1(1) peer s2(1) own(3,4) if_not_P [OF False],
        use s2(2,4) gid in \<open>simp_all add: edit_entry_def refByGlobal_def\<close>)
  qed
qed

section \<open>Deleting\<close>

lemma pg_marked:
  assumes "up s" "represents s d" "typed s"
  shows "\<exists>s'. loop (pg_markDeleted self) ids acc s = (Ok (acc @ deleted_ids self ids d), s') \<and>
    represents s' (d\<lparr>messages := mark_all (getd (refs d) self) ids (messages d)\<rparr>) \<and> typed s' \<and> up s'"
  using assms
proof (induction ids arbitrary: s d acc)
  case Nil
  then show ?case
    by (simp add: deleted_ids_def ret_def)
next
  case (Cons l ids)
  show ?case
  proof (cases "map_of (getd (refs d) self) l")
    case None
    have "pg_markDeleted self l acc s = (Ok acc, s\<lparr>pg_pos := Suc (pg_pos s)\<rparr>)"
      using Cons.prems(1) None by (simp add: pg_markDeleted_def bnd_find_ref [OF Cons.prems(1,2)])
    with None Cons.prems Cons.IH [of "s\<lparr>pg_pos := Suc (pg_pos s)\<rparr>" d acc] show ?thesis
      by (simp add: bnd_def [of "pg_markDeleted self l acc"] deleted_ids_def)
  next
    case (Some r)
    let ?f = "\<lambda>m. m\<lparr>m_deleted := True\<rparr>"
    let ?s = "s\<lparr>pg_pos := Suc (Suc (pg_pos s)), tabs := (tabs s)\<lparr>t_messages := mmod (mr_globalID r) ?f (t_messages (tabs s))\<rparr>\<rparr>"
    let ?d = "d\<lparr>messages := mmod (mr_globalID r) (\<lambda>m. m\<lparr>mm_deleted := True\<rparr>) (messages d)\<rparr>"
    have "messages_rep (mmod (mr_globalID r) ?f (t_messages (tabs s))) (mmod (mr_globalID r) (\<lambda>m. m\<lparr>mm_deleted := True\<rparr>) (messages d))"
      using Cons.prems(2) by (intro messages_rep_mmod) (simp_all add: represents_def mem_message_def)
    then have "represents ?s ?d"
      using Cons.prems(2) by (simp add: represents_def)
    moreover have "typed ?s"
      using schema_mmod_messages [OF Cons.prems(3), of ?f "mr_globalID r"] by simp
    ultimately obtain s' where s': "loop (pg_markDeleted self) ids (acc @ [l]) ?s = (Ok ((acc @ [l]) @ deleted_ids self ids ?d), s')"
        "represents s' (?d\<lparr>messages := mark_all (getd (refs ?d) self) ids (messages ?d)\<rparr>)" "typed s'" "up s'"
      using Cons.IH [of ?s ?d "acc @ [l]"] Cons.prems(1) by auto
    have "pg_markDeleted self l acc s = (Ok (acc @ [l]), ?s)"
      using Cons.prems(1) Some by (simp add: pg_markDeleted_def bnd_find_ref [OF Cons.prems(1,2)])
    then have "loop (pg_markDeleted self) (l # ids) acc s = (Ok (acc @ deleted_ids self (l # ids) d), s')"
      using s'(1) Some by (simp add: bnd_def [of "pg_markDeleted self l acc"] deleted_ids_def)
    with s'(2-4) Some show ?thesis
      by (intro exI [of _ s']) simp
  qed
qed

lemma ref_owner:
  assumes "db_inv d" "map_of (getd (refs d) u) l = Some r"
  obtains mu where "map_of (users d) u = Some mu"
proof -
  have "map_of (getd (refs d) u) l \<noteq> None \<longleftrightarrow> 1 \<le> l \<and> l \<le> last_of (users d) u"
    using assms(1) unfolding db_inv_def refs_ok_def by blast
  with assms(2) show thesis
    by (cases "map_of (users d) u") (auto simp: last_of_def intro: that)
qed

lemma agree_DeleteMessages:
  fixes g :: "'y pgdb_scheme" and d :: "'z memdb_scheme"
  assumes g: "up g" "represents g d" "typed g" and inv: "db_inv d"
  shows "agree (=) (pg_DeleteMessages self ids g) (DeleteMessages self ids (at (started g) d))"
proof -
  let ?t = "started g" and ?dl = "deleted_ids self ids d"
  let ?d = "at ?t d"
  let ?marked = "?d\<lparr>messages := mark_all (getd (refs d) self) ids (messages d)\<rparr>"
  have dl: "deleted_ids self ids ?d = ?dl"
    by (simp add: deleted_ids_def)
  have g0: "up (ticked g)" "represents (ticked g) ?d" "typed (ticked g)"
    using g by simp_all
  obtain s0 where s0: "loop (pg_markDeleted self) ids [] (ticked g) = (Ok ?dl, s0)" "represents s0 ?marked" "typed s0" "up s0"
    using pg_marked [OF g0, of self ids "[]"] by (auto simp: dl)
  show ?thesis
  proof (cases "?dl = []")
    case True
    show ?thesis
      unfolding pg_DeleteMessages_def DeleteMessages_none [of self ids ?d, unfolded dl, OF True]
      by (rule tx_agree [OF g(1)]) (use s0 True in \<open>simp_all add: bnd_def [of "loop _ _ _"] ret_def\<close>)
  next
    case False
    then obtain l r where "map_of (getd (refs d) self) l = Some r"
      by (auto simp: deleted_ids_def filter_empty_conv)
    from ref_owner [OF inv this] obtain mu where u: "map_of (users d) self = Some mu" .
    let ?n = "int (length ?dl)"
    let ?done = "logged self (delete_entry (mu_pts mu + ?n) ?dl ?t) ?marked"
    have n: "1 \<le> ?n" "EncodeDeleted ?dl \<noteq> []"
      using False by (cases ?dl; simp add: EncodeDeleted_def)+
    have logs: "log_ok (users d) (refs d) (updates d)"
      using inv by (simp add: db_inv_def)
    obtain s1 where s1: "\<And>k :: int \<Rightarrow> ('y pgdb_scheme, DeleteResult) go. bnd (pg_allocatePts self ?n) (\<lambda>p.
        bnd (pg_logUpdate ?t self p ?n UpdateDelete None (Some (EncodeDeleted ?dl))) (\<lambda>_. k p)) s0 = k (mu_pts mu + ?n) s1"
      "represents s1 ?done" "typed s1" "up s1"
      using pg_logged [where x = "Some (EncodeDeleted (deleted_ids self ids d))" and extra = "EncodeDeleted (deleted_ids self ids d)"
          and u = self and mu = mu and n = "int (length (deleted_ids self ids d))" and t = "started g" and gid = None,
          OF s0(4,2,3) _ _ _ text_ok_types(3)] u tiles_of [OF logs u] n by (auto simp: delete_entry_def)
    show ?thesis
      unfolding pg_DeleteMessages_def DeleteMessages_some [of self ids ?d, unfolded dl, OF refl False, simplified, OF u] Let_def
      by (rule tx_agree [OF g(1)]) (simp_all only: bnd_Ok [where m = "loop (pg_markDeleted self) ids []", OF s0(1)] if_not_P [OF False] s1(1),
        use s1(2,4) in simp_all)
  qed
qed

section \<open>Reading\<close>

lemma readable_at [simp]: "readable (at t d) = readable d"
  by (simp add: fun_eq_iff readable_def)

lemma incoming_rep:
  assumes "represents s d"
  shows "incoming self peer (tabs s) ((u, l), r) \<and> l \<le> m \<longleftrightarrow> u = self \<and> readable d self peer m (mem_ref l r)"
  using represents_messages [OF assms, of "r_global_id r"]
  by (cases "map_of (t_messages (tabs s)) (r_global_id r)")
    (auto simp: incoming_def readable_def mem_ref_def mem_message_def other_def row_other_def)

lemma max_or_0_cong: "set xs = set ys \<Longrightarrow> max_or_0 xs = max_or_0 ys"
  unfolding max_or_0_def by (metis set_empty)

lemma max_or_0_Cons: "(\<forall>y \<in> set xs. 0 \<le> y) \<Longrightarrow> 0 \<le> x \<Longrightarrow> max_or_0 (x # xs) = max x (max_or_0 xs)"
  by (simp add: max_or_0_def)

lemma max_or_0_nonneg: "(\<forall>y \<in> set xs. 0 \<le> y) \<Longrightarrow> 0 \<le> max_or_0 xs"
  by (simp add: max_or_0_def)

lemma outboxMax_fold:
  assumes "\<forall>r \<in> set rs. 0 \<le> mr_localID r" "0 \<le> a"
  shows "fold (\<lambda>pr mx. if mr_out pr \<and> mr_globalID pr \<in> set gs \<and> mx < mr_localID pr then mr_localID pr else mx) rs a
    = max a (max_or_0 (map mr_localID (filter (\<lambda>r. mr_out r \<and> mr_globalID r \<in> set gs) rs)))"
  using assms
proof (induction rs arbitrary: a)
  case (Cons r rs)
  have "\<forall>y \<in> set (map mr_localID (filter (\<lambda>r. mr_out r \<and> mr_globalID r \<in> set gs) rs)). 0 \<le> y"
    using Cons.prems(1) by simp
  note max_or_0_Cons [OF this, of "mr_localID r"]
  with Cons show ?case
    by (auto simp: max_def)
qed (simp add: max_or_0_def)

lemma outboxMax_max:
  assumes "\<forall>r \<in> set rs. 0 \<le> mr_localID r"
  shows "outboxMax gs rs = max_or_0 (map mr_localID (filter (\<lambda>r. mr_out r \<and> mr_globalID r \<in> set gs) rs))"
  using outboxMax_fold [OF assms order_refl, of gs] max_or_0_nonneg assms by (simp add: outboxMax_def)

lemma rep_refs:
  assumes "represents s d"
  shows "map_of (getd (refs d) u) l = map_option (mem_ref l) (map_of (t_message_refs (tabs s)) (u, l))"
  using represents_refs [OF assms] by (simp add: refs_rep_def)

lemma in_filtered:
  assumes "mwf m"
  shows "y \<in> set (map f (filter P (mvals m))) \<longleftrightarrow> (\<exists>k v. map_of m k = Some v \<and> P v \<and> f v = y)"
  by (force simp: mwf_map_of [OF assms, symmetric])

lemma in_filtered_refs:
  assumes "represents s d" "mwf (getd (refs d) u)"
  shows "y \<in> set (map f (filter P (mvals (getd (refs d) u)))) \<longleftrightarrow>
    (\<exists>l q. map_of (t_message_refs (tabs s)) (u, l) = Some q \<and> P (mem_ref l q) \<and> f (mem_ref l q) = y)"
  unfolding in_filtered [OF assms(2)] rep_refs [OF assms(1)] by auto

lemma in_outbox:
  assumes "represents s d" "typed s"
  shows "y \<in> set (concat (map (\<lambda>x. if incoming self peer (tabs s) x \<and> snd (fst x) \<le> m
     then map (\<lambda>((u, l), pr). l) (filter (\<lambda>((u, l), pr). r_global_id pr = r_global_id (snd x) \<and> u = peer \<and> r_out pr)
       (t_message_refs (tabs s))) else []) (t_message_refs (tabs s)))) \<longleftrightarrow>
    (\<exists>l q pr. map_of (t_message_refs (tabs s)) (self, l) = Some q \<and> readable d self peer m (mem_ref l q) \<and>
      map_of (t_message_refs (tabs s)) (peer, y) = Some pr \<and> r_global_id pr = r_global_id q \<and> r_out pr)"
proof -
  let ?t = "t_message_refs (tabs s)"
  have "mwf ?t"
    using assms(2) by (simp add: schema_defs)
  note mem = mwf_map_of [OF this]
  have row: "y \<in> set (if incoming self peer (tabs s) x \<and> snd (fst x) \<le> m
     then map (\<lambda>((u, l), pr). l) (filter (\<lambda>((u, l), pr). r_global_id pr = r_global_id (snd x) \<and> u = peer \<and> r_out pr) ?t) else [])
     \<longleftrightarrow> fst (fst x) = self \<and> readable d self peer m (mem_ref (snd (fst x)) (snd x)) \<and>
       (\<exists>pr. map_of ?t (peer, y) = Some pr \<and> r_global_id pr = r_global_id (snd x) \<and> r_out pr)" for x
    using incoming_rep [OF assms(1), of self peer "fst (fst x)" "snd (fst x)" "snd x" m]
    by (auto simp: mem [symmetric] image_iff)
  show ?thesis
    unfolding set_concat set_map Union_iff bex_simps(7) row
    by (force simp: mem [symmetric])
qed

lemma map_option_ex:
  assumes "\<And>k q. h (f (g k q)) = k" "\<And>k q. P (f (g k q)) = P' q"
  shows "(\<exists>k v. map_option f (map_option (g k) (m k)) = Some v \<and> P v \<and> h v = y) \<longleftrightarrow> (\<exists>q. m y = Some q \<and> P' q)"
proof
  assume "\<exists>q. m y = Some q \<and> P' q"
  then obtain q where "m y = Some q" "P' q"
    by blast
  then show "\<exists>k v. map_option f (map_option (g k) (m k)) = Some v \<and> P v \<and> h v = y"
    using assms by (intro exI [of _ y] exI [of _ "f (g y q)"]) simp
qed (use assms in auto)

lemma pg_outbox_read:
  assumes s: "represents s d" "typed s" and inv: "db_inv d"
  shows "pg_outbox_max self peer m (tabs s) = outbox_read self peer m d"
proof -
  let ?t = "t_message_refs (tabs s)"
  let ?d = "read_refs self peer m d"
  have wft: "mwf ?t" and wf: "mwf (getd (refs d) v)" for v
    using s(2) inv by (simp_all add: schema_defs db_inv_def refs_ok_def)
  have wf': "mwf (getd (refs ?d) v)" for v
    using db_inv_read_refs [OF inv] by (simp add: db_inv_def refs_ok_def)
  define B where "B g \<longleftrightarrow> (\<exists>l q. map_of ?t (self, l) = Some q \<and> readable d self peer m (mem_ref l q) \<and> r_global_id q = g)" for g
  have gs: "g \<in> set (map mr_globalID (filter (readable d self peer m) (mvals (getd (refs d) self)))) \<longleftrightarrow> B g" for g
    unfolding in_filtered_refs [OF s(1) wf] B_def by (simp add: mem_ref_def)
  have pos: "\<forall>r \<in> set (mvals (getd (refs ?d) v)). 0 \<le> mr_localID r" for v
  proof
    fix r
    assume "r \<in> set (mvals (getd (refs ?d) v))"
    then obtain l where l: "map_of (getd (refs ?d) v) l = Some r"
      by (auto simp: mwf_map_of [OF wf'])
    have "refs_ok (users ?d) (messages ?d) (refs ?d)"
      using db_inv_read_refs [OF inv] unfolding db_inv_def by blast
    with l have "1 \<le> l" "ref_ok (messages ?d) v l r"
      unfolding refs_ok_def by (metis option.distinct(1), metis)
    then show "0 \<le> mr_localID r"
      by (simp add: ref_ok_def)
  qed
  let ?P = "\<lambda>r. mr_out r \<and> mr_globalID r \<in> set (map mr_globalID (filter (readable d self peer m) (mvals (getd (refs d) self))))"
  have "y \<in> set (map mr_localID (filter ?P (mvals (getd (refs ?d) peer)))) \<longleftrightarrow>
      (\<exists>pr. map_of ?t (peer, y) = Some pr \<and> r_out pr \<and> B (r_global_id pr))" for y
    unfolding in_filtered [OF wf'] map_of_read_refs rep_refs [OF s(1)] gs
    by (rule map_option_ex; simp add: mem_ref_def)
  moreover have "(\<exists>l q pr. map_of ?t (self, l) = Some q \<and> readable d self peer m (mem_ref l q) \<and>
      map_of ?t (peer, y) = Some pr \<and> r_global_id pr = r_global_id q \<and> r_out pr) \<longleftrightarrow>
      (\<exists>pr. map_of ?t (peer, y) = Some pr \<and> r_out pr \<and> B (r_global_id pr))" for y
    unfolding B_def by metis
  ultimately show ?thesis
    unfolding pg_outbox_max_def outbox_read_def outboxMax_max [OF pos]
    by (intro max_or_0_cong set_eqI) (simp only: in_outbox [OF s])
qed

lemma represents_read:
  assumes "represents s d"
  shows "represents (s\<lparr>tabs := (tabs s)\<lparr>t_message_refs := mark_rows (\<lambda>x. incoming self peer (tabs s) x \<and> snd (fst x) \<le> m)
    (t_message_refs (tabs s))\<rparr>\<rparr>) (read_refs self peer m d)"
proof -
  have "map_of (getd (refs (read_refs self peer m d)) u) l = map_option (mem_ref l)
      (map_of (mark_rows (\<lambda>x. incoming self peer (tabs s) x \<and> snd (fst x) \<le> m) (t_message_refs (tabs s))) (u, l))" for u l
    unfolding map_of_mark_rows map_of_read_refs rep_refs [OF assms] option.map_comp fst_conv snd_conv incoming_rep [OF assms]
    by (rule arg_cong2 [where f = map_option]) (auto simp: fun_eq_iff mem_ref_def)
  then have "refs_rep (mark_rows (\<lambda>x. incoming self peer (tabs s) x \<and> snd (fst x) \<le> m) (t_message_refs (tabs s)))
      (refs (read_refs self peer m d))"
    by (simp add: refs_rep_def)
  with assms show ?thesis
    by (simp add: represents_def) (simp add: read_refs_def)
qed

lemma owned_Cons: "owned u (x # t) = (if fst (fst x) = u then (snd (fst x), snd x) # owned u t else owned u t)"
  by (cases x; cases "fst x") simp

lemma length_filter_owned:
  "length (filter (\<lambda>((v, p), r). v = u \<and> P p r) t) = length (filter (\<lambda>(p, r). P p r) (owned u t))"
  by (induction t) (simp_all add: case_prod_beta' prod_eq_iff owned_Cons)

lemma length_filter_mset: "mset xs = mset ys \<Longrightarrow> length (filter P xs) = length (filter P ys)"
  by (metis mset_filter size_mset)

lemma pg_unread:
  assumes "represents s d" "typed s" "mwf (getd (refs d) self)"
  shows "int (length (filter (\<lambda>x. incoming self peer (tabs s) x \<and> r_unread (snd x)) (t_message_refs (tabs s)))) =
    unreadCount d self peer"
proof -
  let ?t = "t_message_refs (tabs s)"
  let ?Q = "\<lambda>r. \<not> (mr_out r \<or> \<not> mr_unread r) \<and>
     (case map_of (messages d) (mr_globalID r) of None \<Rightarrow> False | Some m \<Rightarrow> other self m = peer)"
  have row: "incoming self peer (tabs s) ((v, l), r) \<and> r_unread r \<longleftrightarrow> v = self \<and> ?Q (mem_ref l r)" for v l r
    using represents_messages [OF assms(1), of "r_global_id r"]
    by (cases "map_of (t_messages (tabs s)) (r_global_id r)")
      (auto simp: incoming_def mem_ref_def mem_message_def other_def row_other_def)
  have "(incoming self peer (tabs s) x \<and> r_unread (snd x)) = (\<lambda>((v, l), r). v = self \<and> ?Q (mem_ref l r)) x" for x
  proof -
    obtain v l r where x: "x = ((v, l), r)"
      by (metis prod.exhaust)
    show ?thesis
      unfolding x prod.case snd_conv by (rule row)
  qed
  then have "length (filter (\<lambda>x. incoming self peer (tabs s) x \<and> r_unread (snd x)) ?t) =
      length (filter (\<lambda>((v, l), r). v = self \<and> ?Q (mem_ref l r)) ?t)"
    by (simp only:)
  also have "\<dots> = length (filter ?Q (map (\<lambda>(l, r). mem_ref l r) (owned self ?t)))"
    unfolding length_filter_owned by (simp add: filter_map comp_def case_prod_beta')
  also have "\<dots> = length (filter ?Q (mvals (getd (refs d) self)))"
    using assms(2,3) rep_refs [OF assms(1)]
    by (intro length_filter_mset mset_rep_vals [symmetric]) (simp_all add: schema_defs)
  finally show ?thesis
    by (simp add: unreadCount_def)
qed

lemma agree_ReadHistory:
  fixes g :: "'y pgdb_scheme" and d :: "'z memdb_scheme"
  assumes g: "up g" "represents g d" "typed g" and inv: "db_inv d" and acc: "refers (t_users (tabs g)) self"
  shows "agree (=) (pg_ReadHistory self peer m g) (ReadHistory self peer m (at (started g) d))"
proof -
  define om where "om = outbox_read self peer m d"
  let ?t = "started g"
  let ?read = "read_refs self peer m (at ?t d)"
  define uc where "uc = unreadCount ?read self peer"
  obtain mu where u: "map_of (users d) self = Some mu"
    using refers_rep [OF g(2) acc] by blast
  let ?P = "\<lambda>T x. incoming self peer T x \<and> snd (fst x) \<le> m"
  define s0 where "s0 = (ticked g)\<lparr>tabs := (tabs g)\<lparr>t_message_refs := mark_rows (?P (tabs g)) (t_message_refs (tabs g))\<rparr>,
    pg_pos := Suc (Suc (Suc (pg_pos (ticked g))))\<rparr>"
  have inv': "db_inv ?read"
    using db_inv_read_refs [of "at (started g) d" self peer m] inv by (simp add: db_inv_def)
  have rep0: "represents s0 ?read"
    using represents_read [OF g(2), of self peer m] by (simp add: s0_def) (simp add: represents_def read_refs_def)
  have t0: "typed s0"
    using g(3) refs_typed_mark by (simp add: s0_def schema_defs)
  have up0: "up s0"
    using g(1) by (simp add: s0_def)
  have wf: "mwf (getd (refs ?read) self)"
    using inv' by (simp add: db_inv_def refs_ok_def)
  have om: "pg_outbox_max self peer m (tabs g) = om"
    unfolding om_def by (rule pg_outbox_read [OF g(2,3) inv])
  have uc: "int (length (filter (\<lambda>x. incoming self peer (tabs s0) x \<and> r_unread (snd x)) (t_message_refs (tabs s0)))) = uc"
    unfolding uc_def by (rule pg_unread [OF rep0 t0 wf])
  have logs: "log_ok (users d) (refs d) (updates d)"
    using inv by (simp add: db_inv_def)
  let ?in = "logged self (read_entry UpdateReadInbox (mu_pts mu + 1) peer m ?t) ?read"
  have nonempty: "EncodeRead a b \<noteq> []" for a b
    by (simp add: EncodeRead_def)
  obtain s1 where s1: "\<And>k :: int \<Rightarrow> ('y pgdb_scheme, ReadResult) go. bnd (pg_allocatePts self 1) (\<lambda>p.
        bnd (pg_logUpdate ?t self p 1 UpdateReadInbox None (Some (EncodeRead peer m))) (\<lambda>_. k p)) s0 = k (mu_pts mu + 1) s1"
      "represents s1 ?in" "typed s1" "up s1"
    using pg_logged [where x = "Some (EncodeRead peer m)" and extra = "EncodeRead peer m" and u = self and mu = mu and n = 1
        and t = "started g" and gid = None, OF up0 rep0 t0 _ _ _ text_ok_types(4)] u tiles_of [OF logs u] nonempty
    by (auto simp: read_entry_def)
  have body0: "bnd (statement []) (\<lambda>_. bnd (rows (pg_outbox_max self peer m)) (\<lambda>om.
     bnd (statement []) (\<lambda>_. bnd (change (\<lambda>T. T\<lparr>t_message_refs :=
       mark_rows (\<lambda>x. incoming self peer T x \<and> snd (fst x) \<le> m) (t_message_refs T)\<rparr>)) (\<lambda>_.
     bnd (statement []) (\<lambda>_. bnd (rows (\<lambda>T. int (length (filter (\<lambda>x. incoming self peer T x \<and> r_unread (snd x))
       (t_message_refs T))))) (\<lambda>uc. k om uc)))))) (ticked g) = (k om uc s0 :: ReadResult outcome \<times> 'y pgdb_scheme)" for k
    unfolding uc [symmetric] using g(1) by (simp add: om s0_def)
  have mem0: "outboxMax (map mr_globalID (filter (readable d self peer m) (mvals (getd (refs d) self)))) (mvals (getd (refs ?read) peer)) = om"
    unfolding om_def outbox_read_def by (simp add: read_refs_def readable_def)
  show ?thesis
  proof (cases "0 < om \<and> peer \<noteq> self")
    case False
    have "ReadHistory self peer m (at ?t d) = (Ok \<lparr>rr_InboxPts = mu_pts mu + 1, rr_UnreadCount = uc, rr_OutboxPts = 0,
        rr_OutboxMaxID = om\<rparr>, ?in)"
      using u False by (auto simp: ReadHistory_def bnd_markRead mem0 uc_def allocatePts_logUpdate read_entry_def)
    then show ?thesis
      unfolding pg_ReadHistory_mark
      by (simp only:) (rule tx_agree [OF g(1)]; simp only: body0 s1(1) if_not_P [OF False]; use s1(2,4) in simp)
  next
    case True
    have "mvals (getd (refs d) peer) \<noteq> []"
      using mem0 True by (auto simp: getd_read_refs outboxMax_def)
    then have "\<exists>l r. map_of (getd (refs d) peer) l = Some r"
      by (cases "getd (refs d) peer") auto
    then obtain mp where p: "map_of (users d) peer = Some mp"
      using ref_owner [OF inv] by metis
    let ?out = "logged peer (read_entry UpdateReadOutbox (mu_pts mp + 1) self om ?t) ?in"
    have p1: "map_of (users ?in) peer = Some mp"
      using p True by simp
    obtain s2 where s2: "\<And>k :: int \<Rightarrow> ('y pgdb_scheme, ReadResult) go. bnd (pg_allocatePts peer 1) (\<lambda>p.
        bnd (pg_logUpdate ?t peer p 1 UpdateReadOutbox None (Some (EncodeRead self om))) (\<lambda>_. k p)) s1 = k (mu_pts mp + 1) s2"
      "represents s2 ?out" "typed s2" "up s2"
      using pg_logged [where x = "Some (EncodeRead self om)" and extra = "EncodeRead self om" and n = 1
        and t = "started g" and gid = None, OF s1(4,2,3) p1 _ _ text_ok_types(5)] tiles_of [OF logs p] True nonempty
      by (auto simp: read_entry_def)
    have "ReadHistory self peer m (at ?t d) = (Ok \<lparr>rr_InboxPts = mu_pts mu + 1, rr_UnreadCount = uc,
        rr_OutboxPts = mu_pts mp + 1, rr_OutboxMaxID = om\<rparr>, ?out)"
      using u p True by (simp add: ReadHistory_def bnd_markRead mem0 uc_def allocatePts_logUpdate read_entry_def)
    then show ?thesis
      unfolding pg_ReadHistory_mark
      by (simp only:) (rule tx_agree [OF g(1)]; simp only: body0 s1(1) s2(1) if_P [OF True]; use s2(2,4) in simp)
  qed
qed

end
