(* ===== verification/PgReads.thy ===== *)
theory PgReads imports PgMessages MemSync begin

text \<open>
  The calls that read messages, dialogs and the update log, when every statement is carried
  out: the result sets of the queries are what the loops of the in-memory database collect.
\<close>

section \<open>Histories\<close>

lemma scan_mem:
  assumes s: "represents s d" "typed s" and inv: "db_inv d"
    and m: "map_of (t_messages (tabs s)) (r_global_id r) = Some m"
  shows "scanMessage self (tabs s) l r m = message self (mem_ref l r) (mem_message (r_global_id r) m) d"
proof -
  have files: "map_of (t_files (tabs s)) = map_of (files d)"
    using s(1) by (simp add: represents_def same_map_def)
  have "map_of (files d) 0 = None"
    using inv unfolding db_inv_def files_ok_def by (metis not_None_eq not_one_le_zero)
  moreover have "refers_opt (t_files (tabs s)) (m_media_file_id m)"
    using s(2) m unfolding schema_ok_def messages_typed_def by blast
  ultimately have "m_media_file_id m \<noteq> Some 0"
    by (auto simp: refers_opt_def refers_def files)
  then show ?thesis
    by (cases "m_media_file_id m") (auto simp: scanMessage_def message_def mem_ref_def mem_message_def row_other_def
        other_def nullable_def files)
qed

lemma map_filter_map: "List.map_filter f (map h xs) = List.map_filter (\<lambda>x. f (h x)) xs"
  by (simp add: List.map_filter_def filter_map comp_def)

lemma message_at [simp]: "message self r m (at t d) = message self r m d"
  by (simp add: message_def)

lemma conversation_at [simp]: "conversation self peer p (at t d) = conversation self peer p d"
  by (simp only: conversation_def at_sel message_at)

lemma mset_map_filter_rep:
  assumes s: "represents s d" "typed s" and inv: "db_inv d"
    and F: "\<And>l r. map_of (t_message_refs (tabs s)) (self, l) = Some r \<Longrightarrow> F l r = G (mem_ref l r)"
  shows "mset (List.map_filter (\<lambda>((u, l), r). if u = self then F l r else None) (t_message_refs (tabs s))) =
    mset (List.map_filter G (mvals (getd (refs d) self)))"
proof -
  let ?t = "owned self (t_message_refs (tabs s))"
  have wft: "mwf ?t" and wf: "mwf (getd (refs d) self)"
    using s(2) inv by (simp_all add: schema_defs db_inv_def refs_ok_def)
  have "List.map_filter (\<lambda>((u, l), r). if u = self then F l r else None) (t_message_refs (tabs s)) =
      List.map_filter (\<lambda>(l, r). F l r) ?t"
    by (rule map_filter_owned)
  also have "\<dots> = List.map_filter (\<lambda>(l, r). G (mem_ref l r)) ?t"
    by (rule map_filter_cong) (auto simp: mwf_map_of [OF wft] F)
  also have "\<dots> = List.map_filter G (map (\<lambda>(l, r). mem_ref l r) ?t)"
    by (simp add: map_filter_map case_prod_beta')
  also have "mset \<dots> = mset (List.map_filter G (mvals (getd (refs d) self)))"
    using rep_refs [OF s(1)] by (intro mset_map_filter mset_rep_vals [symmetric] wf wft) simp
  finally show ?thesis .
qed

lemma history_mset:
  assumes s: "represents s d" "typed s" and inv: "db_inv d"
    and P: "\<And>l r m. map_of (t_messages (tabs s)) (r_global_id r) = Some m \<Longrightarrow>
      cond l m \<longleftrightarrow> p (mem_ref l r) (mem_message (r_global_id r) m)"
  shows "mset (historySelect self peer cond (tabs s)) = mset (conversation self peer p d)"
proof -
  let ?F = "\<lambda>l r. case map_of (t_messages (tabs s)) (r_global_id r) of None \<Rightarrow> None
     | Some m \<Rightarrow> if \<not> m_deleted m \<and> row_other self m = peer \<and> cond l m then Some (scanMessage self (tabs s) l r m) else None"
  let ?G = "\<lambda>r. case map_of (messages d) (mr_globalID r) of None \<Rightarrow> None
     | Some m \<Rightarrow> if mm_deleted m \<or> other self m \<noteq> peer \<or> \<not> p r m then None else Some (message self r m d)"
  have "historySelect self peer cond (tabs s) =
      List.map_filter (\<lambda>((u, l), r). if u = self then ?F l r else None) (t_message_refs (tabs s))"
    unfolding historySelect_def by (rule map_filter_cong) auto
  also have "mset \<dots> = mset (List.map_filter ?G (mvals (getd (refs d) self)))"
  proof (rule mset_map_filter_rep [OF s inv])
    fix l r
    show "?F l r = ?G (mem_ref l r)"
    proof (cases "map_of (t_messages (tabs s)) (r_global_id r)")
      case None
      then show ?thesis
        using represents_messages [OF s(1), of "r_global_id r"] by (simp add: mem_ref_def)
    next
      case (Some m)
      have "map_of (messages d) (mr_globalID (mem_ref l r)) = Some (mem_message (r_global_id r) m)"
        using represents_messages [OF s(1), of "r_global_id r"] Some by (simp add: mem_ref_def)
      moreover have "mm_deleted (mem_message (r_global_id r) m) = m_deleted m"
        "other self (mem_message (r_global_id r) m) = row_other self m"
        by (simp_all add: mem_message_def other_def row_other_def)
      ultimately show ?thesis
        using Some P [OF Some] scan_mem [OF s inv Some] by simp
    qed
  qed
  finally show ?thesis
    by (simp add: conversation_def)
qed

lemma history_rep:
  assumes s: "represents s d" "typed s" and inv: "db_inv d"
    and P: "\<And>l r m. map_of (t_messages (tabs s)) (r_global_id r) = Some m \<Longrightarrow>
      cond l m \<longleftrightarrow> p (mem_ref l r) (mem_message (r_global_id r) m)"
    and Q: "\<And>r m. p r m = Q (message self r m d)"
  shows "newest_first (historySelect self peer cond (tabs s)) = newest_first (conversation self peer p d)"
proof -
  have "distinct (map msg_LocalID (conversation self peer p d))"
    using distinct_conversation [OF inv, of self peer] unfolding conversation_filter [where p = p, OF Q]
    by (rule List.distinct_map_filter)
  then have "distinct (map (\<lambda>m. - msg_LocalID m) (conversation self peer p d))"
    by (simp add: distinct_map inj_on_def)
  with history_mset [where cond = cond and p = p, OF s inv P] show ?thesis
    unfolding newest_first_def by (rule sort_key_mset)
qed

lemma agree_GetHistory:
  assumes g: "up g" "represents g d" "typed g" and inv: "db_inv d" and n: "0 < n"
  shows "agree (=) (pg_GetHistory self peer off n g) (GetHistory self peer off n (at t d))"
proof -
  have "newest_first (historySelect self peer (\<lambda>l m. 0 < off \<longrightarrow> l < off) (tabs g)) =
      newest_first (conversation self peer (\<lambda>r m. \<not> (0 < off \<and> off \<le> mr_localID r)) d)"
    by (rule history_rep [OF g(2,3) inv, where Q = "\<lambda>x. \<not> (0 < off \<and> off \<le> msg_LocalID x)"])
      (auto simp: mem_ref_def message_def)
  with g n show ?thesis
    by (simp add: pg_GetHistory_def GetHistory_def pg_limit_def gotake_take)
qed

lemma agree_SearchMessages:
  assumes g: "up g" "represents g d" "typed g" and inv: "db_inv d" and acc: "accepts (CallSearchMessages self peer q n) g"
  shows "agree (=) (pg_SearchMessages self peer q n g) (SearchMessages self peer q n (at t d))"
proof (cases "TrimSpace q = []")
  case True
  with g show ?thesis
    by (simp add: pg_SearchMessages_def SearchMessages_def ToLower_def Let_def)
next
  case False
  let ?q = "TrimSpace q"
  let ?lc = "ToLower (uc_lower d)"
  have q: "plain ?q" "text_ok ?q"
    using acc plain_TrimSpace by simp_all
  then have lq: "?lc ?q = map ascii_lower ?q"
    by (simp add: ToLower_ascii plain_def)
  have wf: "mwf (t_messages (tabs g))"
    using g(3) by (simp add: schema_defs)
  have "newest_first (historySelect self peer (\<lambda>l m. ilike g (m_text m) (''%'' @ ?q @ ''%'')) (tabs g)) =
      newest_first (conversation self peer (\<lambda>r m. contains (?lc (mm_text m)) (?lc ?q)) d)"
  proof (rule history_rep [OF g(2,3) inv, where Q = "\<lambda>x. contains (?lc (msg_Text x)) (?lc ?q)"])
    fix r :: ref_row and m
    assume "map_of (t_messages (tabs g)) (r_global_id r) = Some m"
    with acc have "ascii_text (m_text m)"
      using map_of_SomeD by fastforce
    then show "ilike g (m_text m) (''%'' @ ?q @ ''%'') = contains (?lc (mm_text (mem_message (r_global_id r) m))) (?lc ?q)"
      using ilike_contains [OF q(1)] by (simp add: lq mem_message_def ToLower_ascii)
  qed (simp add: message_def)
  moreover have "?lc ?q \<noteq> []"
    using False lq by simp
  ultimately show ?thesis
    using g wild_ok [OF q] False
    by (simp add: pg_SearchMessages_def SearchMessages_def Let_def pg_limit_def gotake_take)
qed

section \<open>One message\<close>

lemma hd_map_filter:
  assumes "\<And>x. x \<in> set xs \<Longrightarrow> P x \<Longrightarrow> h x \<noteq> None"
  shows "(case List.map_filter (\<lambda>x. if P x then h x else None) xs of [] \<Rightarrow> None | m # _ \<Rightarrow> Some m) = Option.bind (find P xs) h"
  using assms
proof (induction xs)
  case (Cons x xs)
  show ?case
  proof (cases "P x")
    case True
    then obtain y where "h x = Some y"
      using Cons.prems [of x] by auto
    with True show ?thesis
      by (simp add: List.map_filter_simps)
  next
    case False
    with Cons show ?thesis
      by (simp add: List.map_filter_simps)
  qed
qed (simp add: List.map_filter_simps)

lemma agree_MessageByGlobal:
  assumes g: "up g" "represents g d" "typed g" and inv: "db_inv d"
  shows "agree (=) (pg_MessageByGlobal self i g) (MessageByGlobal self i (at t d))"
proof -
  let ?T = "tabs g"
  let ?P = "\<lambda>((v, l), r). v = self \<and> r_global_id r = i"
  let ?h = "\<lambda>((v, l), r). map_option (scanMessage self ?T l r) (map_of (t_messages ?T) (r_global_id r))"
  have wft: "mwf (t_message_refs ?T)" and wf: "mwf (getd (refs d) self)" and typed: "refs_typed (t_users ?T) (t_messages ?T) (t_message_refs ?T)"
    using g(3) inv by (simp_all add: schema_defs db_inv_def refs_ok_def)
  have rows: "?h x \<noteq> None" if "x \<in> set (t_message_refs ?T)" for x
  proof -
    obtain v l r where x: "x = ((v, l), r)"
      by (metis prod.exhaust)
    then have "map_of (t_message_refs ?T) (v, l) = Some r"
      using that mwf_map_of [OF wft] by simp
    then have "refers (t_messages ?T) (r_global_id r)"
      using typed unfolding refs_typed_def by blast
    then show ?thesis
      by (simp add: x refers_def)
  qed
  have filt: "List.map_filter (\<lambda>((u, l), r). if u \<noteq> self \<or> r_global_id r \<noteq> i then None else
       map_option (scanMessage self ?T l r) (map_of (t_messages ?T) (r_global_id r))) (t_message_refs ?T) =
     List.map_filter (\<lambda>x. if ?P x then ?h x else None) (t_message_refs ?T)"
    by (rule map_filter_cong) (auto split: if_splits)
  have pg: "(case List.map_filter (\<lambda>((u, l), r). if u \<noteq> self \<or> r_global_id r \<noteq> i then None else
       map_option (scanMessage self ?T l r) (map_of (t_messages ?T) (r_global_id r))) (t_message_refs ?T) of
       [] \<Rightarrow> None | m # _ \<Rightarrow> Some m) = Option.bind (find ?P (t_message_refs ?T)) ?h"
    unfolding filt by (rule hd_map_filter) (rule rows)
  have mem: "(case refByGlobal self i d of None \<Rightarrow> None | Some r \<Rightarrow> map_option (\<lambda>m. message self r m d) (map_of (messages d) i)) =
     Option.bind (find ?P (t_message_refs ?T)) ?h"
  proof (cases "find ?P (t_message_refs ?T)")
    case None
    then show ?thesis
      by (simp add: refByGlobal_rep [OF g(2,3) wf])
  next
    case (Some x)
    obtain v l r where x: "x = ((v, l), r)"
      by (metis prod.exhaust)
    have P: "v = self" "r_global_id r = i"
      using Some x by (auto simp: find_Some_iff)
    have "map_option (\<lambda>m. message self (mem_ref l r) m d) (map_of (messages d) i) =
        map_option (scanMessage self ?T l r) (map_of (t_messages ?T) i)"
      unfolding represents_messages [OF g(2)] using scan_mem [OF g(2,3) inv, of r] P(2)
      by (cases "map_of (t_messages ?T) i") simp_all
    with Some x P show ?thesis
      by (simp add: refByGlobal_rep [OF g(2,3) wf])
  qed
  have "refByGlobal self i (at t d) = refByGlobal self i d"
    by (simp add: refByGlobal_def)
  with pg mem g show ?thesis
    by (simp add: pg_MessageByGlobal_def MessageByGlobal_def cong: if_cong option.case_cong)
qed

section \<open>State and difference\<close>

lemma agree_GetState:
  assumes g: "up g" "represents g d"
  shows "agree (=) (pg_GetState self g) (GetState self (at (clk g (clk_pos g)) d))"
proof (cases "map_of (t_users (tabs g)) self")
  case None
  with g map_rep_user [OF g(2), of self] show ?thesis
    by (simp add: pg_GetState_def GetState_def no_rows_def) (simp add: represents_resync)
next
  case (Some r)
  with g map_rep_user [OF g(2), of self] show ?thesis
    by (simp add: pg_GetState_def GetState_def mem_user_def)
qed

definition respaced :: "UpdateLogEntry \<Rightarrow> UpdateLogEntry" where
  "respaced e = e\<lparr>ue_Extra := jsonb (ue_Extra e)\<rparr>"

lemma scan_entry_row: "scan_entry (ue_Pts e) (log_row_of e) = respaced e"
  by (simp add: scan_entry_def log_row_of_def respaced_def jsonb_def)

lemma owned_log:
  assumes s: "represents s d" "typed s" and tiles: "tiles 0 (getd (updates d) u) p0"
  shows "mset (owned u (t_updates_log (tabs s))) = mset (map (\<lambda>e. (ue_Pts e, log_row_of e)) (getd (updates d) u))"
proof (rule mset_map_of)
  let ?L = "getd (updates d) u"
  have rep: "log_rep (t_updates_log (tabs s)) (updates d)"
    by (rule represents_log [OF s(1)])
  show "mwf (owned u (t_updates_log (tabs s)))"
    using s(2) by (simp add: schema_defs)
  have "distinct (map ue_Pts ?L)"
    using tiles_sorted [OF tiles] strict_sorted_iff by blast
  then show wf: "mwf (map (\<lambda>e. (ue_Pts e, log_row_of e)) ?L)"
    by (simp add: mwf_def comp_def)
  show "map_of (owned u (t_updates_log (tabs s))) = map_of (map (\<lambda>e. (ue_Pts e, log_row_of e)) ?L)"
  proof
    fix p
    show "map_of (owned u (t_updates_log (tabs s))) p = map_of (map (\<lambda>e. (ue_Pts e, log_row_of e)) ?L) p"
    proof (cases "\<exists>e \<in> set ?L. ue_Pts e = p")
      case True
      then obtain e where e: "e \<in> set ?L" "ue_Pts e = p"
        by blast
      then have "map_of (map (\<lambda>e. (ue_Pts e, log_row_of e)) ?L) p = Some (log_row_of e)"
        using mwf_map_of [OF wf, symmetric] by auto
      moreover have "map_of (t_updates_log (tabs s)) (u, p) = Some (log_row_of e)"
        using rep e unfolding log_rep_def by blast
      ultimately show ?thesis
        by simp
    next
      case False
      then have "map_of (map (\<lambda>e. (ue_Pts e, log_row_of e)) ?L) p = None"
        by (force simp: map_of_eq_None_iff)
      moreover have "map_of (t_updates_log (tabs s)) (u, p) = None"
        using rep False unfolding log_rep_def by blast
      ultimately show ?thesis
        by simp
    qed
  qed
qed

lemma scan_rows: "List.map_filter (\<lambda>(p, r). case (p, r) of (p, r) \<Rightarrow> if since < p then Some (scan_entry p r) else None)
    (map (\<lambda>e. (ue_Pts e, log_row_of e)) es) = map respaced (filter (\<lambda>e. since < ue_Pts e) es)"
  by (induction es) (simp_all add: List.map_filter_simps scan_entry_row)

lemma difference_rows:
  assumes s: "represents s d" "typed s" and tiles: "tiles 0 (getd (updates d) u) p0"
  shows "sort_key ue_Pts (List.map_filter (\<lambda>((v, p), r). if v = u \<and> since < p then Some (scan_entry p r) else None)
    (t_updates_log (tabs s))) = map respaced (filter (\<lambda>e. since < ue_Pts e) (getd (updates d) u))"
proof -
  let ?L = "getd (updates d) u"
  let ?F = "\<lambda>(p, r). if since < p then Some (scan_entry p r) else None"
  have sorted: "sorted_wrt (<) (map ue_Pts ?L)"
    by (rule tiles_sorted [OF tiles])
  have keys: "map ue_Pts (map respaced (filter P ?L)) = map ue_Pts (filter P ?L)" for P
    by (simp add: respaced_def)
  have "List.map_filter (\<lambda>((v, p), r). if v = u \<and> since < p then Some (scan_entry p r) else None) (t_updates_log (tabs s)) =
      List.map_filter (\<lambda>((v, p), r). if v = u then ?F (p, r) else None) (t_updates_log (tabs s))"
    by (rule map_filter_cong) auto
  also have "\<dots> = List.map_filter (\<lambda>(p, r). ?F (p, r)) (owned u (t_updates_log (tabs s)))"
    by (rule map_filter_owned)
  also have "mset \<dots> = mset (List.map_filter (\<lambda>(p, r). ?F (p, r)) (map (\<lambda>e. (ue_Pts e, log_row_of e)) ?L))"
    by (rule mset_map_filter [OF owned_log [OF s tiles]])
  also have "List.map_filter (\<lambda>(p, r). ?F (p, r)) (map (\<lambda>e. (ue_Pts e, log_row_of e)) ?L) =
      map respaced (filter (\<lambda>e. since < ue_Pts e) ?L)"
    by (rule scan_rows)
  finally have ms: "mset (List.map_filter (\<lambda>((v, p), r). if v = u \<and> since < p then Some (scan_entry p r) else None)
      (t_updates_log (tabs s))) = mset (map respaced (filter (\<lambda>e. since < ue_Pts e) ?L))" .
  have "sorted_wrt (<) (map ue_Pts (map respaced (filter (\<lambda>e. since < ue_Pts e) ?L)))"
    unfolding keys using sorted by (simp add: sorted_wrt_map sorted_wrt_filter)
  then have strict: "sorted (map ue_Pts (map respaced (filter (\<lambda>e. since < ue_Pts e) ?L)))"
    "distinct (map ue_Pts (map respaced (filter (\<lambda>e. since < ue_Pts e) ?L)))"
    using strict_sorted_iff by blast+
  show ?thesis
    unfolding sort_key_mset [OF ms strict(2)] by (rule sort_key_id_if_sorted [OF strict(1)])
qed

lemma agree_GetDifference:
  assumes g: "up g" "represents g d" "typed g" and inv: "db_inv d" and n: "0 < n"
  shows "agree (\<lambda>x y. fst x = map respaced (fst y) \<and> snd x = snd y) (pg_GetDifference self since n g) (GetDifference self since n (at t d))"
proof (cases "map_of (t_users (tabs g)) self")
  case None
  with g map_rep_user [OF g(2), of self] show ?thesis
    by (simp add: pg_GetDifference_def GetDifference_def pg_GetState_def no_rows_def bnd_def [of "bnd _ _"]) (simp add: represents_resync)
next
  case (Some r)
  then have u: "map_of (users d) self = Some (mem_user self r)"
    using map_rep_user [OF g(2), of self] by simp
  have pts: "mu_pts (mem_user self r) = u_pts r"
    by (simp add: mem_user_def)
  have "db_inv (at t d)" "map_of (users (at t d)) self = Some (mem_user self r)"
    using inv u by (simp_all add: db_inv_def)
  note mem = difference_run [OF this, of since n]
  show ?thesis
    unfolding mem using g n Some pts difference_rows [OF g(2,3) log_tiles [OF inv u], of since]
    by (simp add: pg_GetDifference_def pg_GetState_def bnd_def [of "bnd _ _"] pg_limit_def gotake_take take_map)
qed

end
