(* ===== verification/PgDialogs.thy ===== *)
theory PgDialogs imports PgReads begin

text \<open>
  The dialog list: the grouped query of \<^verbatim>\<open>internal/db/dialogs.go\<close> against the fold of
  \<^verbatim>\<open>memory/db.go\<close> over the map of refs.
\<close>

section \<open>The joined rows\<close>

text \<open>The row that the inner query has for a ref of the in-memory database.\<close>

definition dialog_row :: "int \<Rightarrow> 'z memdb_scheme \<Rightarrow> memRef \<Rightarrow> (int \<times> int \<times> bool \<times> bool \<times> bool) option" where
  "dialog_row self d r = (case map_of (messages d) (mr_globalID r) of None \<Rightarrow> None
     | Some m \<Rightarrow> if mm_deleted m then None
         else Some (other self m, mr_localID r, mr_out r, mr_unread r, peerReadGlobal d (other self m) (mr_globalID r)))"

lemma concat_map_option:
  "(\<And>x. x \<in> set xs \<Longrightarrow> f x = (case h x of None \<Rightarrow> [] | Some y \<Rightarrow> [y])) \<Longrightarrow> concat (map f xs) = List.map_filter h xs"
  by (induction xs) (simp_all add: List.map_filter_simps split: option.split)

lemma filter_the_one:
  assumes "distinct xs" "a \<in> set xs" "P a" "\<And>x. x \<in> set xs \<Longrightarrow> P x \<Longrightarrow> x = a"
  shows "filter P xs = [a]"
  using assms
proof (induction xs)
  case (Cons x xs)
  show ?case
  proof (cases "x = a")
    case True
    with Cons.prems(1,4) have "\<forall>y \<in> set xs. \<not> P y"
      by (metis distinct.simps(2) list.set_intros(2))
    with True Cons.prems(3) show ?thesis
      by (simp add: filter_empty_conv)
  next
    case False
    then have "\<not> P x"
      using Cons.prems(4) [of x] by auto
    moreover have "filter P xs = [a]"
      using Cons.prems False by (intro Cons.IH) simp_all
    ultimately show ?thesis
      by simp
  qed
qed simp

text \<open>The rows of the left join, of which there is at most one.\<close>

lemma joined_row:
  assumes s: "represents s d" "typed s" and wf: "mwf (getd (refs d) peer)"
    and prs: "prs = filter (\<lambda>((u', l'), pr). r_global_id pr = g \<and> \<not> r_out pr \<and> u' = peer) (t_message_refs (tabs s))"
  shows "(if prs = [] then [False] else map (\<lambda>(_, pr). \<not> r_unread pr) prs) = [peerReadGlobal d peer g]"
proof -
  let ?t = "t_message_refs (tabs s)"
  let ?P = "\<lambda>((v, l), r). v = peer \<and> r_global_id r = g"
  let ?Q = "\<lambda>((u', l'), pr). r_global_id pr = g \<and> \<not> r_out pr \<and> u' = peer"
  have wft: "mwf ?t" and typed: "refs_typed (t_users (tabs s)) (t_messages (tabs s)) ?t"
    using s(2) by (simp_all add: schema_defs)
  show ?thesis
  proof (cases "find ?P ?t")
    case None
    then have "prs = []"
      by (auto simp: prs filter_empty_conv find_None_iff)
    moreover have "\<not> peerReadGlobal d peer g"
      unfolding peerReadGlobal_def refByGlobal_rep [OF s wf] None by simp
    ultimately show ?thesis
      by simp
  next
    case (Some x)
    obtain v l pr where x: "x = ((v, l), pr)"
      by (metis prod.exhaust)
    have found: "((peer, l), pr) \<in> set ?t" "v = peer" "r_global_id pr = g"
      using Some x by (auto simp: find_Some_iff dest: nth_mem)
    have only: "y = ((peer, l), pr)" if y0: "y \<in> set ?t" "?Q y" for y
    proof -
      obtain l' q where y: "y = ((peer, l'), q)" "r_global_id q = g"
        using y0(2) by (cases y) auto
      have "map_of ?t (peer, l') = Some q" "map_of ?t (peer, l) = Some pr"
        using y0(1) found(1) y by (simp_all add: mwf_map_of [OF wft])
      moreover from this have "l' = l"
        using typed y(2) found(3) unfolding refs_typed_def by blast
      ultimately show ?thesis
        using y by simp
    qed
    have mem: "refByGlobal peer g d = Some (mem_ref l pr)"
      unfolding refByGlobal_rep [OF s wf] Some x by simp
    show ?thesis
    proof (cases "r_out pr")
      case True
      have "prs = []"
        unfolding prs filter_empty_conv using only True by fastforce
      with True show ?thesis
        by (simp add: peerReadGlobal_def mem mem_ref_def)
    next
      case False
      have "distinct ?t"
        using wft by (simp add: mwf_def distinct_map)
      then have "prs = [((peer, l), pr)]"
        unfolding prs by (rule filter_the_one) (use found False in \<open>auto dest: only\<close>)
      with False show ?thesis
        by (simp add: peerReadGlobal_def mem mem_ref_def)
    qed
  qed
qed

lemma dialog_rows_mset:
  assumes s: "represents s d" "typed s" and inv: "db_inv d"
  shows "mset (dialog_rows self (tabs s)) = mset (List.map_filter (dialog_row self d) (mvals (getd (refs d) self)))"
proof -
  let ?F = "\<lambda>l r. dialog_row self d (mem_ref l r)"
  have wf: "mwf (getd (refs d) u)" for u
    using inv by (simp add: db_inv_def refs_ok_def)
  have "dialog_rows self (tabs s) =
      List.map_filter (\<lambda>((u, l), r). if u = self then ?F l r else None) (t_message_refs (tabs s))"
    unfolding dialog_rows_def
  proof (rule concat_map_option)
    fix x :: "(int \<times> int) \<times> ref_row"
    obtain u l r where x: "x = ((u, l), r)"
      by (metis prod.exhaust)
    show "(\<lambda>((u, l), r). if u \<noteq> self then [] else
        case map_of (t_messages (tabs s)) (r_global_id r) of None \<Rightarrow> []
        | Some m \<Rightarrow> if m_deleted m then [] else
          let peer = row_other self m;
              prs = filter (\<lambda>((u', l'), pr). r_global_id pr = r_global_id r \<and> \<not> r_out pr \<and> u' = peer) (t_message_refs (tabs s))
          in if prs = [] then [(peer, l, r_out r, r_unread r, False)]
             else map (\<lambda>(_, pr). (peer, l, r_out r, r_unread r, \<not> r_unread pr)) prs) x =
      (case (\<lambda>((u, l), r). if u = self then ?F l r else None) x of None \<Rightarrow> [] | Some y \<Rightarrow> [y])"
    proof (cases "map_of (t_messages (tabs s)) (r_global_id r)")
      case None
      then have "map_of (messages d) (r_global_id r) = None"
        using represents_messages [OF s(1), of "r_global_id r"] by simp
      with None x show ?thesis
        by (simp add: dialog_row_def mem_ref_def)
    next
      case (Some m)
      let ?peer = "row_other self m"
      let ?prs = "filter (\<lambda>((u', l'), pr). r_global_id pr = r_global_id r \<and> \<not> r_out pr \<and> u' = ?peer) (t_message_refs (tabs s))"
      have mm: "map_of (messages d) (r_global_id r) = Some (mem_message (r_global_id r) m)"
        using represents_messages [OF s(1), of "r_global_id r"] Some by simp
      have eqs: "mm_deleted (mem_message (r_global_id r) m) = m_deleted m" "other self (mem_message (r_global_id r) m) = ?peer"
        by (simp_all add: mem_message_def other_def row_other_def)
      have "(if ?prs = [] then [(?peer, l, r_out r, r_unread r, False)]
          else map (\<lambda>(_, pr). (?peer, l, r_out r, r_unread r, \<not> r_unread pr)) ?prs) =
        map (\<lambda>b. (?peer, l, r_out r, r_unread r, b)) (if ?prs = [] then [False] else map (\<lambda>(_, pr). \<not> r_unread pr) ?prs)"
        by (simp add: case_prod_beta')
      also have "\<dots> = [(?peer, l, r_out r, r_unread r, peerReadGlobal d ?peer (r_global_id r))]"
        unfolding joined_row [OF s wf refl] by simp
      finally show ?thesis
        using x Some mm eqs by (simp add: dialog_row_def mem_ref_def Let_def)
    qed
  qed
  also have "mset \<dots> = mset (List.map_filter (dialog_row self d) (mvals (getd (refs d) self)))"
    by (rule mset_map_filter_rep [OF s inv]) (rule refl)
  finally show ?thesis .
qed

section \<open>Groups\<close>

lemma dialog_group_cong:
  assumes "mset rs = mset rs'"
  shows "dialog_group rs q = dialog_group rs' q"
proof -
  let ?g = "filter (\<lambda>(p, _). p = q)"
  have ms: "mset (?g rs) = mset (?g rs')"
    using assms by (simp add: mset_filter)
  have sets: "set (map f (filter P (?g rs))) = set (map f (filter P (?g rs')))" for f :: "int \<times> int \<times> bool \<times> bool \<times> bool \<Rightarrow> int" and P
    by (simp only: set_map set_filter [of P] mset_eq_setD [OF ms])
  have top: "set (map f (?g rs)) = set (map f (?g rs'))" for f :: "int \<times> int \<times> bool \<times> bool \<times> bool \<Rightarrow> int"
    using mset_eq_setD [OF ms] by (simp only: set_map)
  show ?thesis
    unfolding dialog_group_def Let_def top max_or_0_cong [OF sets] length_filter_mset [OF ms] ..
qed

text \<open>The row of a ref that is shown in the conversation with \<open>q\<close>.\<close>

definition row_in :: "int \<Rightarrow> 'z memdb_scheme \<Rightarrow> memRef \<Rightarrow> int \<times> int \<times> bool \<times> bool \<times> bool" where
  "row_in q d r = (q, mr_localID r, mr_out r, mr_unread r, peerReadGlobal d q (mr_globalID r))"

lemma rows_of_peer:
  "filter (\<lambda>(p, _). p = q) (List.map_filter (dialog_row self d) rs) =
    map (row_in q d) (filter (\<lambda>r. shown self q d r \<noteq> None) rs)"
proof (induction rs)
  case (Cons r rs)
  then show ?case
    by (cases "map_of (messages d) (mr_globalID r)")
      (auto simp: List.map_filter_simps dialog_row_def shown_def row_in_def)
qed (simp add: List.map_filter_simps)

lemma max_or_0_Max: "\<forall>x \<in> set xs. 0 \<le> x \<Longrightarrow> max_or_0 xs = Max (insert 0 (set xs))"
  by (cases "xs = []") (simp_all add: max_or_0_def max_def order_antisym)

lemma dialog_group_of:
  assumes inv: "db_inv d" and live: "live_refs self q d \<noteq> []"
  shows "dialog_group (List.map_filter (dialog_row self d) (mvals (getd (refs d) self))) q = dialog_of self q d"
proof -
  let ?L = "live_refs self q d"
  have pos: "0 < mr_localID r" if "r \<in> set ?L" for r
    using that ref_of_val(3) [OF inv, of r self] by (simp add: live_refs_def)
  have rows: "filter (\<lambda>(p, _). p = q) (List.map_filter (dialog_row self d) (mvals (getd (refs d) self))) = map (row_in q d) ?L"
    unfolding live_refs_def by (rule rows_of_peer)
  obtain r where r: "r \<in> set ?L"
    using live by (cases ?L) auto
  have top: "Max (set (map (\<lambda>(p, l, _). l) (map (row_in q d) ?L))) = Max (insert 0 (mr_localID ` set ?L))"
  proof -
    have "0 < Max (mr_localID ` set ?L)"
      using pos [OF r] r by (intro less_le_trans [OF pos [OF r]] Max_ge) auto
    then show ?thesis
      using r by (subst Max_insert) (auto simp: row_in_def image_image comp_def)
  qed
  have ids: "max_or_0 (map (\<lambda>(p, l, _). l) (filter P (map (row_in q d) ?L))) =
      Max (insert 0 (mr_localID ` {r \<in> set ?L. P (row_in q d r)}))" for P
  proof -
    have eq: "map (\<lambda>(p, l, _). l) (filter P (map (row_in q d) ?L)) = map mr_localID (filter (\<lambda>r. P (row_in q d r)) ?L)"
      by (simp add: filter_map comp_def row_in_def)
    have "\<forall>x \<in> set (map mr_localID (filter (\<lambda>r. P (row_in q d r)) ?L)). 0 \<le> x"
      using pos by (auto intro: less_imp_le)
    then show ?thesis
      unfolding eq by (simp add: max_or_0_Max)
  qed
  have "dialog_group (List.map_filter (dialog_row self d) (mvals (getd (refs d) self))) q =
      \<lparr>dlg_PeerUserID = q, dlg_TopMessageID = Max (insert 0 (mr_localID ` set ?L)),
       dlg_ReadInboxMaxID = Max (insert 0 (mr_localID ` {r \<in> set ?L. \<not> mr_out r \<and> \<not> mr_unread r})),
       dlg_ReadOutboxMaxID = Max (insert 0 (mr_localID ` {r \<in> set ?L. mr_out r \<and> peerReadGlobal d q (mr_globalID r)})),
       dlg_UnreadCount = int (length (filter (\<lambda>r. mr_unread r \<and> \<not> mr_out r) ?L)), dlg_Draft = None\<rparr>"
    unfolding dialog_group_def Let_def rows top ids by (simp add: row_in_def filter_map comp_def)
  also have "\<dots> = dialog_of self q d"
  proof -
    have "dlg_Draft (fold (bump_dialog f) rs dl) = dlg_Draft dl" for f rs dl
      by (induction rs arbitrary: dl) (simp_all add: bump_dialog_def)
    then show ?thesis
      by (intro Dialog.equality) (simp_all add: dialog_of_def bump_fold_top bump_fold_inbox bump_fold_outbox bump_fold_unread
          bump_fold_peer new_dialog_def)
  qed
  finally show ?thesis .
qed

section \<open>The list\<close>

lemma shown_peer: "shown self q d r = Some x \<Longrightarrow> shown self q' d r = Some x' \<Longrightarrow> q = q'"
  by (auto simp: shown_def split: option.splits if_splits)

lemma dialog_tops_distinct:
  assumes inv: "db_inv d"
  shows "distinct (map (\<lambda>dl. - dlg_TopMessageID dl) (mvals (dialog_map self d)))"
proof -
  have entry: "\<exists>x. x \<in> set (mailbox self q d) \<and> dlg_TopMessageID dl = msg_LocalID x \<and> dl = dialog_of self q d"
    if "(q, dl) \<in> set (dialog_map self d)" for q dl
  proof -
    have "live_refs self q d \<noteq> []" "dl = dialog_of self q d"
      using that unfolding mwf_map_of [OF dialog_map_wf] by (auto simp: dialog_map_of split: if_splits)
    then show ?thesis
      using dialog_of_top [OF inv, of self q] live_refs_mailbox [of self q d] by (metis hd_in_set)
  qed
  have "inj_on (\<lambda>x. - dlg_TopMessageID (snd x)) (set (dialog_map self d))"
  proof (rule inj_onI)
    fix a b
    assume a: "a \<in> set (dialog_map self d)" and b: "b \<in> set (dialog_map self d)"
      and same: "- dlg_TopMessageID (snd a) = - dlg_TopMessageID (snd b)"
    obtain x where x: "x \<in> set (mailbox self (fst a) d)" "dlg_TopMessageID (snd a) = msg_LocalID x" "snd a = dialog_of self (fst a) d"
      using entry [of "fst a" "snd a"] a unfolding prod.collapse by blast
    obtain y where y: "y \<in> set (mailbox self (fst b) d)" "dlg_TopMessageID (snd b) = msg_LocalID y" "snd b = dialog_of self (fst b) d"
      using entry [of "fst b" "snd b"] b unfolding prod.collapse by blast
    obtain r where r: "r \<in> set (mvals (getd (refs d) self))" "shown self (fst a) d r = Some x"
      using x(1) unfolding mailbox_in by blast
    obtain r' where r': "r' \<in> set (mvals (getd (refs d) self))" "shown self (fst b) d r' = Some y"
      using y(1) unfolding mailbox_in by blast
    have "mr_localID r = mr_localID r'"
      using shown_localID [OF r(2)] shown_localID [OF r'(2)] x(2) y(2) same by simp
    then have "r = r'"
      using ref_of_val(1) [OF inv r(1)] ref_of_val(1) [OF inv r'(1)] by (metis option.inject)
    then have "fst a = fst b"
      using shown_peer r(2) r'(2) by blast
    then show "a = b"
      using x(3) y(3) by (simp add: prod_eq_iff)
  qed
  moreover have "distinct (dialog_map self d)"
    using dialog_map_wf [of self d] by (simp add: mwf_def distinct_map)
  ultimately show ?thesis
    by (simp add: distinct_map comp_def)
qed

lemma dialog_rows_peers:
  "set (map fst (List.map_filter (dialog_row self d) (mvals (getd (refs d) self)))) = {q. live_refs self q d \<noteq> []}"
proof -
  have "(\<exists>y. dialog_row self d r = Some y \<and> fst y = q) \<longleftrightarrow> shown self q d r \<noteq> None" for r q
    by (auto simp: dialog_row_def shown_def split: option.split)
  then show ?thesis
    by (auto simp: set_map_filter live_refs_def filter_empty_conv image_iff Bex_def) (metis fst_conv snd_conv)+
qed

lemma dialogs_mset:
  assumes s: "represents s d" "typed s" and inv: "db_inv d"
  shows "mset (map (dialog_group (dialog_rows self (tabs s))) (remdups (map fst (dialog_rows self (tabs s))))) =
    mset (mvals (dialog_map self d))"
proof -
  let ?rs = "List.map_filter (dialog_row self d) (mvals (getd (refs d) self))"
  let ?qs = "remdups (map fst (dialog_rows self (tabs s)))"
  have ms: "mset (dialog_rows self (tabs s)) = mset ?rs"
    by (rule dialog_rows_mset [OF s inv])
  have peers: "set ?qs = {q. live_refs self q d \<noteq> []}"
    using mset_eq_setD [OF ms] dialog_rows_peers [of self d] by simp
  have keys: "set (mkeys (dialog_map self d)) = {q. live_refs self q d \<noteq> []}"
    unfolding dialog_map_keys live_refs_mailbox ..
  have "map (dialog_group (dialog_rows self (tabs s))) ?qs = map (\<lambda>q. dialog_of self q d) ?qs"
    using peers dialog_group_cong [OF ms] dialog_group_of [OF inv] by (intro map_cong) auto
  moreover have "mset ?qs = mset (mkeys (dialog_map self d))"
    using peers keys dialog_map_wf [of self d] unfolding mwf_def by (metis distinct_remdups set_eq_iff_mset_eq_distinct)
  moreover have "mvals (dialog_map self d) = map (\<lambda>q. dialog_of self q d) (mkeys (dialog_map self d))"
    by (auto simp: mwf_map_of [OF dialog_map_wf] dialog_map_of split: if_splits)
  ultimately show ?thesis
    by (metis mset_map)
qed

lemma agree_GetDialogs:
  assumes g: "up g" "represents g d" "typed g" and inv: "db_inv d" and n: "0 < n"
  shows "agree (=) (pg_GetDialogs self n g) (GetDialogs self n (at t d))"
proof -
  have "sort_key (\<lambda>dl. - dlg_TopMessageID dl) (map (dialog_group (dialog_rows self (tabs g))) (remdups (map fst (dialog_rows self (tabs g))))) =
      sort_key (\<lambda>dl. - dlg_TopMessageID dl) (mvals (dialog_map self d))"
    by (rule sort_key_mset [OF dialogs_mset [OF g(2,3) inv] dialog_tops_distinct [OF inv]])
  moreover have "dialog_map self (at t d) = dialog_map self d"
  proof -
    have "peerReadGlobal (at t d) = peerReadGlobal d"
      by (simp add: fun_eq_iff peerReadGlobal_def refByGlobal_def)
    then have "dialog_step (at t d) self = dialog_step d self"
      by (intro ext) (simp only: dialog_step_def at_sel)
    then show ?thesis
      by (simp add: dialog_map_def)
  qed
  then have "GetDialogs self n (at t d) = (Ok (take (nat n) (sort_key (\<lambda>dl. - dlg_TopMessageID dl) (mvals (dialog_map self d)))), at t d)"
    using n by (simp add: GetDialogs_def dialog_map_def gotake_take)
  ultimately show ?thesis
    using g n by (simp add: pg_GetDialogs_def pg_limit_def)
qed

end
