(* ===== verification/PgSim.thy ===== *)
theory PgSim imports PgDialogs begin

text \<open>
  The PostgreSQL database implements the in-memory one: while every statement is carried out,
  each accepted call gives the answer the in-memory call gives at the time of its statement,
  and the tables go on to represent the in-memory state.
\<close>

section \<open>One call\<close>

lemma ready_agrees: "up g \<Longrightarrow> represents g d \<Longrightarrow> agree (=) (pg_Ready g) (Ready (at t d))"
  by (simp add: pg_Ready_def Ready_def ret_def)

lemma agree_alike: "agree (=) (m g) (n d) \<Longrightarrow> (\<And>x. alike (f x) (f x)) \<Longrightarrow> agree alike (ans f m g) (ans f n d)"
  by (erule agree_ans) simp

lemma alike_simps [simp]:
  "alike AnsUnit AnsUnit" "alike (AnsUser u) (AnsUser u)" "alike (AnsUserOpt v) (AnsUserOpt v)" "alike (AnsUsers us) (AnsUsers us)"
  "alike (AnsUserSet us) (AnsUserSet us') \<longleftrightarrow> mset us = mset us'" "alike (AnsText x) (AnsText x)" "alike (AnsUserID i) (AnsUserID i)"
  "alike (AnsKey k) (AnsKey k)" "alike (AnsSent s) (AnsSent s)" "alike (AnsMessages ms) (AnsMessages ms)"
  "alike (AnsMessageOpt m) (AnsMessageOpt m)" "alike (AnsContacts cs) (AnsContacts cs)" "alike (AnsTime t) (AnsTime t)"
  "alike (AnsDrafts ds) (AnsDrafts ds') \<longleftrightarrow> mset ds = mset ds'" "alike (AnsEdit e) (AnsEdit e)" "alike (AnsDelete r) (AnsDelete r)"
  "alike (AnsDialogs dl) (AnsDialogs dl)" "alike (AnsRead rr) (AnsRead rr)" "alike (AnsState st) (AnsState st)"
  "alike (AnsDifference es p) (AnsDifference es' p') \<longleftrightarrow> p = p' \<and> es = map respaced es'"
  "alike (AnsFile f) (AnsFile f)" "alike (AnsFileOpt fo) (AnsFileOpt fo)" "alike (AnsFlow b) (AnsFlow b)" "alike (AnsCommands bc) (AnsCommands bc)"
  by (auto simp: alike_def respaced_def)

text \<open>The time of a call: that of its first clock reading, or up to a microsecond before, as
  \<^verbatim>\<open>TIMESTAMPTZ\<close> rounds it.\<close>

definition call_time :: "'z pgdb_scheme \<Rightarrow> int \<Rightarrow> bool" where
  "call_time g t \<longleftrightarrow> clk g (clk_pos g) - 1000 < t \<and> t \<le> clk g (clk_pos g)"

lemma usec_bounds: "x - 1000 < usec x" "usec x \<le> x"
  using pos_mod_bound [of 1000 x] pos_mod_sign [of 1000 x] by (simp_all add: usec_def)

lemma call_time_simps [simp]:
  "call_time g (started g)" "call_time g (clk g (clk_pos g))" "call_time g (usec (clk g (clk_pos g) + n) - n)"
  using usec_bounds [of "clk g (clk_pos g)"] usec_bounds [of "clk g (clk_pos g) + n"] by (simp_all add: call_time_def)

lemma call_agrees:
  assumes g: "up g" "represents g d" "typed g" and inv: "db_inv d" and acc: "accepts c g"
  shows "\<exists>t. call_time g t \<and> agree alike (pg_call c g) (mem_call c (at t d))"
proof -
  have timed: "call_time g t \<Longrightarrow> agree alike (pg_call c g) (mem_call c (at t d)) \<Longrightarrow> ?thesis" for t
    by blast
  note time = timed [OF call_time_simps(1)] timed [OF call_time_simps(2)] timed [OF call_time_simps(3)]
  note unit = agree_ans_unit [where R = "(=)"]
  show ?thesis
  proof (cases c)
    case (CallCreateUser a b e)
    then show ?thesis
      using agree_CreateUser [OF g inv] acc by (intro time(1)) (simp add: agree_alike)
  next
    case (CallCreateBot a b e)
    then show ?thesis
      using agree_CreateBot [OF g inv] acc by (intro time(1)) (simp add: agree_alike)
  next
    case (CallCreateOwnedBot a b i e)
    then show ?thesis
      using agree_CreateOwnedBot [OF g inv] acc by (intro time(1)) (simp add: agree_alike del: accepts.simps)
  next
    case (CallSetBotToken i a)
    then show ?thesis
      using agree_SetBotToken [OF g] acc by (intro time(1)) (simp add: unit)
  next
    case (CallBotByToken a)
    then show ?thesis
      using agree_finders(1) [OF g inv] acc by (intro time(1)) (simp add: agree_alike)
  next
    case (CallBotsByOwner i)
    then show ?thesis
      using agree_BotsByOwner [OF g inv] acc by (intro time(1)) (simp add: agree_alike)
  next
    case (CallUserByID i)
    then show ?thesis
      using agree_finders(2) [OF g inv] by (intro time(1)) (simp add: agree_alike)
  next
    case (CallUserByPhone a)
    then show ?thesis
      using agree_finders(3) [OF g inv] acc by (intro time(1)) (simp add: agree_alike)
  next
    case (CallUserByUsername a)
    then show ?thesis
      using agree_finders(4) [OF g inv] acc by (intro time(1)) (simp add: agree_alike)
  next
    case (CallSetProfile i x y z)
    then show ?thesis
      using agree_SetProfile [OF g inv] acc by (intro time(1)) (simp add: agree_alike)
  next
    case (CallSearchUsers a n)
    then show ?thesis
      using agree_SearchUsers [OF g inv] acc by (intro time(1)) (simp add: agree_alike del: accepts.simps)
  next
    case (CallSetUsername i a)
    then show ?thesis
      using agree_SetUsername [OF g inv] acc by (intro time(1)) (simp add: agree_alike)
  next
    case (CallUsersByIDs ids)
    then have "agree (\<lambda>xs ys. mset xs = mset ys) (pg_UsersByIDs ids g) (UsersByIDs ids (at (started g) d))"
      using agree_UsersByIDs [OF g inv] acc by simp
    with CallUsersByIDs show ?thesis
      by (intro time(1)) (simp add: agree_ans)
  next
    case (CallSavePhoneCode a b e n)
    then show ?thesis
      using agree_SavePhoneCode [OF g(1,2)] acc by (intro time(3) [of n]) (simp add: unit)
  next
    case (CallPhoneCode a b)
    then show ?thesis
      using agree_PhoneCode [OF g(1,2)] acc by (intro time(1)) (simp add: agree_alike)
  next
    case (CallBindSession k i)
    then show ?thesis
      using agree_BindSession [OF g(1,2)] acc by (intro time(1)) (simp add: unit)
  next
    case (CallSessionUserID k)
    then show ?thesis
      using agree_SessionUserID [OF g(1,2)] by (intro time(1)) (simp add: agree_alike)
  next
    case (CallUnbind k)
    then show ?thesis
      using agree_Unbind [OF g(1,2)] by (intro time(1)) (simp add: unit)
  next
    case (CallBindTempAuthKey k k' e)
    then show ?thesis
      using agree_BindTempAuthKey [OF g(1,2)] acc by (intro time(1)) (simp add: unit)
  next
    case (CallPermAuthKey k)
    then show ?thesis
      using agree_PermAuthKey [OF g(1,2)] by (intro time(1)) (simp add: agree_alike)
  next
    case (CallSendMessage i j a n f)
    then show ?thesis
      using agree_SendMessage [OF g inv] acc by (intro time(1)) (simp add: agree_alike del: accepts.simps)
  next
    case (CallGetHistory i j off n)
    then show ?thesis
      using agree_GetHistory [OF g inv] acc by (intro time(1)) (simp add: agree_alike)
  next
    case (CallAddContact i j a b)
    then show ?thesis
      using agree_AddContact [OF g(1,2)] acc by (intro time(1)) (simp add: unit)
  next
    case (CallDeleteContacts i ids)
    then show ?thesis
      using agree_DeleteContacts [OF g(1,2)] by (intro time(1)) (simp add: unit)
  next
    case (CallContacts i)
    then show ?thesis
      using agree_Contacts [OF g inv] by (intro time(1)) (simp add: agree_alike)
  next
    case (CallSaveDraft i j a)
    then show ?thesis
      using agree_SaveDraft [OF g(1,2)] acc by (intro time(1)) (simp add: agree_alike)
  next
    case (CallDrafts i)
    then have "agree (\<lambda>xs ys. mset xs = mset ys) (pg_Drafts i g) (Drafts i (at (started g) d))"
      using agree_Drafts [OF g inv] by simp
    with CallDrafts show ?thesis
      by (intro time(1)) (simp add: agree_ans)
  next
    case (CallSearchMessages i j a n)
    then show ?thesis
      using agree_SearchMessages [OF g inv] acc by (intro time(1)) (simp add: agree_alike del: accepts.simps)
  next
    case (CallMessageByGlobal i j)
    then show ?thesis
      using agree_MessageByGlobal [OF g inv] by (intro time(1)) (simp add: agree_alike)
  next
    case (CallEditMessage i l a)
    then show ?thesis
      using agree_EditMessage [OF g inv] acc by (intro time(1)) (simp add: agree_alike)
  next
    case (CallDeleteMessages i ids)
    then show ?thesis
      using agree_DeleteMessages [OF g inv] by (intro time(1)) (simp add: agree_alike)
  next
    case (CallGetDialogs i n)
    then show ?thesis
      using agree_GetDialogs [OF g inv] acc by (intro time(1)) (simp add: agree_alike)
  next
    case (CallReadHistory i j n)
    then show ?thesis
      using agree_ReadHistory [OF g inv] acc by (intro time(1)) (simp add: agree_alike)
  next
    case (CallGetState i)
    then show ?thesis
      using agree_GetState [OF g(1,2)] by (intro time(2)) (simp add: agree_alike)
  next
    case (CallGetDifference i p n)
    then have "agree (\<lambda>x y. fst x = map respaced (fst y) \<and> snd x = snd y) (pg_GetDifference i p n g) (GetDifference i p n (at (started g) d))"
      using agree_GetDifference [OF g inv] acc by simp
    then have "agree alike (ans (\<lambda>(es, p). AnsDifference es p) (pg_GetDifference i p n) g)
        (ans (\<lambda>(es, p). AnsDifference es p) (GetDifference i p n) (at (started g) d))"
      by (rule agree_ans) auto
    with CallGetDifference show ?thesis
      by (intro time(1)) simp
  next
    case (CallSaveFile f)
    then show ?thesis
      using agree_SaveFile [OF g(1,2) inv] acc by (intro time(1)) (simp add: agree_alike)
  next
    case (CallFileByID i)
    then show ?thesis
      using agree_FileByID [OF g(1,2)] by (intro time(1)) (simp add: agree_alike)
  next
    case (CallBotFatherState i)
    then show ?thesis
      using agree_flows(2) [OF g(1,2)] by (intro time(1)) (simp add: agree_alike)
  next
    case (CallSetBotFatherState i b)
    then show ?thesis
      using agree_flows(1) [OF g(1,2)] acc by (intro time(1)) (simp add: unit)
  next
    case (CallClearBotFatherState i)
    then show ?thesis
      using agree_flows(3) [OF g(1,2)] by (intro time(1)) (simp add: unit)
  next
    case (CallSetBotCommands i a b cs)
    then show ?thesis
      using agree_commands(1) [OF g(1,2)] acc by (intro time(1)) (simp add: unit)
  next
    case (CallBotCommands i a b)
    then show ?thesis
      using agree_commands(2) [OF g(1,2)] acc by (intro time(1)) (simp add: agree_alike)
  next
    case (CallResetBotCommands i a b)
    then show ?thesis
      using agree_commands(3) [OF g(1,2)] acc by (intro time(1)) (simp add: unit)
  next
    case CallReady
    then show ?thesis
      using ready_agrees [OF g(1,2)] by (intro time(1)) (simp add: unit)
  qed
qed

section \<open>Sequences and the random source\<close>

text \<open>
  A call only moves the sequences forward, that of the users by at most \<open>k\<close>, and leaves the
  random source and the server as they are.
\<close>

definition forward :: "int \<Rightarrow> ('z pgdb_scheme, 'a) go \<Rightarrow> bool" where
  "forward k m \<longleftrightarrow> (\<forall>g. rnd (snd (m g)) = rnd g \<and> pg_up (snd (m g)) = pg_up g \<and> s_users g \<le> s_users (snd (m g)) \<and>
     s_users (snd (m g)) \<le> s_users g + k \<and> s_messages g \<le> s_messages (snd (m g)) \<and> s_files g \<le> s_files (snd (m g)))"

named_theorems forward_rules

lemma forward_basic [forward_rules]:
  "forward 0 (ret x)" "forward 0 (fail e)" "forward 0 (gets f)" "forward 0 (rows h)" "forward 0 (statement ts)"
  "forward 0 now" "forward 0 (rand_read n)" "forward 0 (require b)" "forward 0 (one_row y)" "forward 0 (pg_limit j xs)"
  "forward 0 pg_clock" "forward 0 (change u)" "forward 0 (modify (\<lambda>g. g\<lparr>s_messages := s_messages g + 1\<rparr>))"
  "forward 0 (modify (\<lambda>g. g\<lparr>s_files := s_files g + 1\<rparr>))" "forward 1 (modify (\<lambda>g. g\<lparr>s_users := s_users g + 1\<rparr>))"
  by (auto simp: forward_def ret_def fail_def gets_def rows_def statement_def bnd_def modify_def now_def rand_read_def
      require_def one_row_def pg_limit_def pg_clock_def change_def split: option.split)

lemma forward_bnd_add: "forward j m \<Longrightarrow> (\<And>x. forward k (f x)) \<Longrightarrow> 0 \<le> k \<Longrightarrow> forward (j + k) (bnd m f)"
proof (unfold forward_def, intro allI)
  fix g
  assume m: "\<forall>g. rnd (snd (m g)) = rnd g \<and> pg_up (snd (m g)) = pg_up g \<and> s_users g \<le> s_users (snd (m g)) \<and>
      s_users (snd (m g)) \<le> s_users g + j \<and> s_messages g \<le> s_messages (snd (m g)) \<and> s_files g \<le> s_files (snd (m g))"
    and f: "\<And>x. \<forall>g. rnd (snd (f x g)) = rnd g \<and> pg_up (snd (f x g)) = pg_up g \<and> s_users g \<le> s_users (snd (f x g)) \<and>
      s_users (snd (f x g)) \<le> s_users g + k \<and> s_messages g \<le> s_messages (snd (f x g)) \<and> s_files g \<le> s_files (snd (f x g))"
    and k: "0 \<le> k"
  obtain r g' where run: "m g = (r, g')"
    by (cases "m g")
  have g': "rnd g' = rnd g" "pg_up g' = pg_up g" "s_users g \<le> s_users g'" "s_users g' \<le> s_users g + j"
    "s_messages g \<le> s_messages g'" "s_files g \<le> s_files g'"
    using m [rule_format, of g] run by simp_all
  show "rnd (snd (bnd m f g)) = rnd g \<and> pg_up (snd (bnd m f g)) = pg_up g \<and> s_users g \<le> s_users (snd (bnd m f g)) \<and>
      s_users (snd (bnd m f g)) \<le> s_users g + (j + k) \<and> s_messages g \<le> s_messages (snd (bnd m f g)) \<and> s_files g \<le> s_files (snd (bnd m f g))"
  proof (cases r)
    case (Ok x)
    with run have "bnd m f g = f x g'"
      by (simp add: bnd_def)
    with f [of x, rule_format, of g'] g' show ?thesis
      by simp
  qed (use run g' k in \<open>simp_all add: bnd_def\<close>)
qed

lemma forward_bnd [forward_rules]: "forward 0 m \<Longrightarrow> (\<And>x. forward 0 (f x)) \<Longrightarrow> forward 0 (bnd m f)"
  using forward_bnd_add [of 0 m 0 f] by simp

lemma forward_bnd_left: "forward 1 m \<Longrightarrow> (\<And>x. forward 0 (f x)) \<Longrightarrow> forward 1 (bnd m f)"
  using forward_bnd_add [of 1 m 0 f] by simp

lemma forward_bnd_right: "forward 0 m \<Longrightarrow> (\<And>x. forward 1 (f x)) \<Longrightarrow> forward 1 (bnd m f)"
  using forward_bnd_add [of 0 m 1 f] by simp

lemma forward_if [forward_rules]: "forward k m \<Longrightarrow> forward k m' \<Longrightarrow> forward k (if b then m else m')"
  by simp

lemma forward_option [forward_rules]: "forward k m \<Longrightarrow> (\<And>x. forward k (f x)) \<Longrightarrow> forward k (case z of None \<Rightarrow> m | Some x \<Rightarrow> f x)"
  by (cases z) auto

lemma forward_prod [forward_rules]: "(\<And>x y. forward k (f x y)) \<Longrightarrow> forward k (case z of (x, y) \<Rightarrow> f x y)"
  by (cases z) auto

lemma forward_on_err [forward_rules]: "forward k m \<Longrightarrow> forward k (on_err m (\<lambda>e. fail (h e)))"
  unfolding forward_def on_err_def by (auto simp: fail_def split: prod.splits outcome.splits) (metis snd_conv)+

lemma forward_atomic [forward_rules]: "forward k m \<Longrightarrow> forward k (atomic m)"
  unfolding forward_def atomic_def by (auto split: prod.splits outcome.splits) (metis snd_conv)+

lemma forward_loop [forward_rules]: "(\<And>x a. forward 0 (f x a)) \<Longrightarrow> forward 0 (loop f xs a)"
  by (induction xs arbitrary: a) (auto intro!: forward_rules)

lemma forward_writes [forward_rules]: "(\<And>t. forward 0 (m t)) \<Longrightarrow> forward 0 (autocommit ts m)" "(\<And>t. forward 0 (m t)) \<Longrightarrow> forward 0 (tx m)"
  unfolding autocommit_def tx_def by (intro forward_rules; assumption)+

lemma forward_ans [forward_rules]: "forward 0 m \<Longrightarrow> forward 0 (ans f m)"
  unfolding ans_def by (intro forward_rules)

lemma forward_ans_unit [forward_rules]: "forward 0 m \<Longrightarrow> forward 0 (ans_unit m)"
  unfolding ans_unit_def by (rule forward_ans)

lemma forward_rows [forward_rules]:
  "forward 0 (update_user i f)" "forward 0 (insert_message r)" "forward 0 pg_genAccessHash" "forward 0 (pg_allocate j)"
  "forward 0 (pg_allocatePts j n)" "forward 0 (pg_logUpdate t j p n ty gid' x)" "forward 0 (insertRef j l gid out un)"
  "forward 0 (find_ref j l)" "forward 0 (peer_local_id j gid)"
  unfolding update_user_def insert_message_def pg_genAccessHash_def pg_allocate_def pg_allocatePts_def pg_logUpdate_def
    insertRef_def find_ref_def peer_local_id_def Let_def by (intro forward_rules)+

lemma forward_insert_user: "forward 1 (insert_user r)"
  unfolding insert_user_def by (intro forward_bnd_left forward_rules)

lemma forward_autocommit: "(\<And>t. forward 1 (m t)) \<Longrightarrow> forward 1 (autocommit ts m)" "(\<And>t. forward 1 (m t)) \<Longrightarrow> forward 1 (tx m)"
  unfolding autocommit_def tx_def by (intro forward_atomic forward_bnd_right forward_bnd_left forward_rules; assumption?)+

lemma forward_creates:
  "forward 1 (pg_CreateUser a b e)" "forward 1 (pg_CreateBot a b e)" "forward 1 (pg_CreateOwnedBot a b i e)"
  unfolding pg_CreateUser_def pg_CreateBot_def pg_CreateOwnedBot_def Let_def
  by (intro forward_bnd_right [OF forward_rows(3)] forward_autocommit forward_bnd_left [OF forward_insert_user]
      forward_bnd_right [OF forward_basic(5)] forward_rules)+

lemma forward_reads [forward_rules]:
  "forward 0 (pg_BotByToken s)" "forward 0 (pg_BotsByOwner i)" "forward 0 (pg_UserByID i)" "forward 0 (pg_UserByPhone s)"
  "forward 0 (pg_UserByUsername s)" "forward 0 (pg_SearchUsers s n)" "forward 0 (pg_UsersByIDs is)" "forward 0 (pg_PhoneCode s t)"
  "forward 0 (pg_SessionUserID k)" "forward 0 (pg_PermAuthKey k)" "forward 0 (pg_GetHistory i j n k')" "forward 0 (pg_Contacts i)"
  "forward 0 (pg_Drafts i)" "forward 0 (pg_SearchMessages i j s n)" "forward 0 (pg_MessageByGlobal i j)"
  "forward 0 (pg_GetDialogs i n)" "forward 0 (pg_GetState i)" "forward 0 (pg_GetDifference i n n')" "forward 0 (pg_FileByID i)"
  "forward 0 (pg_BotFatherState i)" "forward 0 (pg_BotCommands i s t)" "forward 0 pg_Ready"
  unfolding pg_reads Let_def by (intro forward_rules)+

lemma forward_changes:
  "forward 0 (pg_SetBotToken i a)" "forward 0 (pg_SetProfile i x y z)" "forward 0 (pg_SetUsername i a)"
  "forward 0 (pg_SavePhoneCode a b c' n)" "forward 0 (pg_BindSession k i)" "forward 0 (pg_Unbind k)"
  "forward 0 (pg_BindTempAuthKey k k' n)" "forward 0 (pg_SendMessage i j a n n')" "forward 0 (pg_AddContact i j a b)"
  "forward 0 (pg_DeleteContacts i is)" "forward 0 (pg_SaveDraft i j a)" "forward 0 (pg_EditMessage i j a)"
  "forward 0 (pg_DeleteMessages i is)" "forward 0 (pg_ReadHistory i j n)" "forward 0 (pg_SaveFile f)"
  "forward 0 (pg_SetBotFatherState i st)" "forward 0 (pg_ClearBotFatherState i)" "forward 0 (pg_SetBotCommands i a b cs)"
  "forward 0 (pg_ResetBotCommands i a b)"
  unfolding pg_writes pg_markDeleted_def not_found_def Let_def by (intro forward_rules)+

definition creates :: "db_call \<Rightarrow> bool" where
  "creates c \<longleftrightarrow> (case c of CallCreateUser _ _ _ \<Rightarrow> True | CallCreateBot _ _ _ \<Rightarrow> True | CallCreateOwnedBot _ _ _ _ \<Rightarrow> True | _ \<Rightarrow> False)"

lemma forward_ans_one: "forward 1 m \<Longrightarrow> forward 1 (ans f m)"
  unfolding ans_def by (intro forward_bnd_left forward_rules)

lemma forward_call: "forward (if creates c then 1 else 0) (pg_call c)"
  by (cases c) (simp_all add: creates_def forward_ans_one forward_creates forward_ans forward_ans_unit forward_reads
      forward_changes)

section \<open>Errors of the in-memory database\<close>

text \<open>The methods of the in-memory database check before they change anything.\<close>

definition sure :: "('s, 'a) go \<Rightarrow> bool" where
  "sure m \<longleftrightarrow> (\<forall>s e. fst (m s) \<noteq> Err e)"

definition checks :: "('s, 'a) go \<Rightarrow> bool" where
  "checks m \<longleftrightarrow> (\<forall>s e s'. m s = (Err e, s') \<longrightarrow> s' = s)"

named_theorems checks_rules

lemma sure_checks: "sure m \<Longrightarrow> checks m"
  by (auto simp: sure_def checks_def) (metis fst_conv)

lemma sure_basic [checks_rules]: "sure (ret x)" "sure (gets f)" "sure (modify h)" "sure now" "sure (rand_read n)" "sure gopanic"
  by (simp_all add: sure_def ret_def gets_def modify_def now_def rand_read_def gopanic_def)

lemma sure_bnd [checks_rules]: "sure m \<Longrightarrow> (\<And>x. sure (f x)) \<Longrightarrow> sure (bnd m f)"
  unfolding sure_def bnd_def by (auto split: prod.splits outcome.splits) (metis fst_conv)+

lemma sure_if [checks_rules]: "sure m \<Longrightarrow> sure m' \<Longrightarrow> sure (if b then m else m')"
  by simp

lemma sure_option [checks_rules]: "sure m \<Longrightarrow> (\<And>x. sure (f x)) \<Longrightarrow> sure (case z of None \<Rightarrow> m | Some x \<Rightarrow> f x)"
  by (cases z) auto

lemma sure_prod [checks_rules]: "(\<And>x y. sure (f x y)) \<Longrightarrow> sure (case z of (x, y) \<Rightarrow> f x y)"
  by (cases z) auto

lemma sure_loop [checks_rules]: "(\<And>x a. sure (f x a)) \<Longrightarrow> sure (loop f xs a)"
  by (induction xs arbitrary: a) (auto intro!: checks_rules)

lemma checks_fail: "checks (fail e)"
  by (simp add: checks_def fail_def)

lemma checks_gets: "(\<And>x. checks (f x)) \<Longrightarrow> checks (bnd (gets h) f)"
  by (simp add: checks_def)

lemma checks_if: "checks m \<Longrightarrow> checks m' \<Longrightarrow> checks (if b then m else m')"
  by simp

lemma checks_option: "checks m \<Longrightarrow> (\<And>x. checks (f x)) \<Longrightarrow> checks (case z of None \<Rightarrow> m | Some x \<Rightarrow> f x)"
  by (cases z) auto

lemma checks_sure_bnd: "checks m \<Longrightarrow> (\<And>x. sure (f x)) \<Longrightarrow> checks (bnd m f)"
  unfolding sure_def checks_def bnd_def by (auto split: prod.splits outcome.splits) (metis fst_conv)+

lemmas checked = checks_gets checks_if checks_option checks_fail

lemma sure_steps [checks_rules]:
  "sure genAccessHash" "sure nextUserID" "sure (insertUser u i)" "sure (setUser i h)" "sure (setMessage i h')"
  "sure (allocate i)" "sure (allocatePts i n)" "sure (putRef i r)" "sure (logUpdate i p n ty g x)" "sure (markDeleted i l ids)"
  "sure (markRead i j n)"
  unfolding genAccessHash_def nextUserID_def insertUser_def setUser_def setMessage_def allocate_def allocatePts_def putRef_def
    logUpdate_def markDeleted_def markRead_def Let_def by (intro checks_rules)+

lemma checks_users:
  "checks (CreateUser a b e)" "checks (CreateBot a b e)" "checks (CreateOwnedBot a b i e)" "checks (SetProfile i x y z)"
  "checks (SetUsername i a)" "checks (EditMessage i j a)" "checks (GetState i)" "checks (GetDifference i n n')"
  "checks (SetBotToken i a)"
  unfolding CreateUser_def CreateBot_def CreateOwnedBot_def SetProfile_def SetUsername_def EditMessage_def GetState_def
    GetDifference_def SetBotToken_def Let_def
  by (intro checked | intro sure_checks checks_rules)+

lemma sure_calls:
  "sure (BotByToken a)" "sure (BotsByOwner i)" "sure (UserByID i)" "sure (UserByPhone a)" "sure (UserByUsername a)"
  "sure (SearchUsers a n)" "sure (UsersByIDs is)" "sure (SavePhoneCode a b e n)" "sure (PhoneCode a b)" "sure (BindSession k i)"
  "sure (SessionUserID k)" "sure (Unbind k)" "sure (BindTempAuthKey k k' n)" "sure (PermAuthKey k)" "sure (SendMessage i j a n n')"
  "sure (GetHistory i j n n')" "sure (AddContact i j a b)" "sure (DeleteContacts i is)" "sure (Contacts i)" "sure (SaveDraft i j a)"
  "sure (Drafts i)" "sure (SearchMessages i j a n)" "sure (MessageByGlobal i j)" "sure (DeleteMessages i is)" "sure (GetDialogs i n)"
  "sure (ReadHistory i j n)" "sure (SaveFile f)" "sure (FileByID i)" "sure (BotFatherState i)" "sure (SetBotFatherState i st)"
  "sure (ClearBotFatherState i)" "sure (SetBotCommands i a b cs)" "sure (BotCommands i a b)" "sure (ResetBotCommands i a b)" "sure Ready"
  unfolding BotByToken_def BotsByOwner_def UserByID_def UserByPhone_def UserByUsername_def SearchUsers_def UsersByIDs_def
    SavePhoneCode_def PhoneCode_def BindSession_def SessionUserID_def Unbind_def BindTempAuthKey_def PermAuthKey_def
    SendMessage_def GetHistory_def AddContact_def DeleteContacts_def Contacts_def SaveDraft_def Drafts_def SearchMessages_def
    MessageByGlobal_def DeleteMessages_def GetDialogs_def ReadHistory_def SaveFile_def FileByID_def BotFatherState_def
    SetBotFatherState_def ClearBotFatherState_def SetBotCommands_def BotCommands_def ResetBotCommands_def Ready_def Let_def
  by (intro checks_rules)+

lemma checks_ans: "checks m \<Longrightarrow> checks (ans f m)" "checks n \<Longrightarrow> checks (ans_unit n)"
  unfolding ans_def ans_unit_def by (intro checks_sure_bnd checks_rules; assumption)+

lemma checks_call: "checks (mem_call c)"
  by (cases c) (simp_all add: checks_ans checks_users sure_checks sure_calls)

section \<open>Linked databases\<close>

definition linked :: "'y pgdb_scheme \<Rightarrow> 'z memdb_scheme \<Rightarrow> bool" where
  "linked g d \<longleftrightarrow> up g \<and> schema_ok (tabs g) \<and> db_inv d \<and> represents g d \<and> s_users g < BotFatherID"

lemma db_inv_resync:
  assumes inv: "db_inv d" and seq: "userSeq d \<le> s_users g" "s_users g < BotFatherID" "msgSeq d \<le> s_messages g" "fileSeq d \<le> s_files g"
  shows "db_inv (resync g d)"
proof -
  have "users_ok (users d) (s_users g)" "msgs_ok (users d) (messages d) (s_messages g)" "files_ok (files d) (s_files g)"
    using inv seq unfolding db_inv_def users_ok_def msgs_ok_def files_ok_def by (meson order_trans)+
  with inv show ?thesis
    by (simp add: db_inv_def resync_def)
qed

definition outcomes_alike :: "db_answer outcome \<Rightarrow> db_answer outcome \<Rightarrow> bool" where
  "outcomes_alike p q \<longleftrightarrow> (case (p, q) of (Ok x, Ok y) \<Rightarrow> alike x y
     | (Err e, Err e') \<Rightarrow> (e = ErrMessageID \<longleftrightarrow> e' = ErrMessageID) | _ \<Rightarrow> False)"

lemma accepts_creates: "accepts c g \<Longrightarrow> creates c \<Longrightarrow> s_users g + 1 < BotFatherID"
  by (cases c) (auto simp: creates_def Let_def)

text \<open>Numbers of the sequences and bytes of the random source that no answer uses.\<close>

definition skips :: "'z memdb_scheme \<Rightarrow> 'z memdb_scheme \<Rightarrow> bool" where
  "skips d d' \<longleftrightarrow> (\<exists>u m f n. d' = d\<lparr>userSeq := u, msgSeq := m, fileSeq := f, rnd_pos := n\<rparr> \<and>
     userSeq d \<le> u \<and> msgSeq d \<le> m \<and> fileSeq d \<le> f)"

lemma skips_resync:
  assumes "rnd g = rnd d" "userSeq d \<le> s_users g" "msgSeq d \<le> s_messages g" "fileSeq d \<le> s_files g"
  shows "skips d (resync g d)"
  unfolding skips_def using assms
  by (intro exI [of _ "s_users g"] exI [of _ "s_messages g"] exI [of _ "s_files g"] exI [of _ "rnd_pos g"])
    (simp add: resync_def)

lemma call_linked:
  assumes "linked g d" "accepts c g" "pg_call c g = (x, g')"
  shows "\<exists>t y d' e. call_time g t \<and> mem_call c (at t d) = (y, d') \<and> outcomes_alike x y \<and> linked g' e \<and>
    (case y of Err _ \<Rightarrow> skips d' e | _ \<Rightarrow> e = d')"
proof -
  have g: "up g" "represents g d" "typed g" and inv: "db_inv d"
    using assms(1) by (simp_all add: linked_def)
  obtain t where time: "call_time g t" and t: "agree alike (pg_call c g) (mem_call c (at t d))"
    using call_agrees [OF g inv assms(2)] by blast
  obtain y d' where y: "mem_call c (at t d) = (y, d')"
    by (cases "mem_call c (at t d)")
  have fwd: "rnd g' = rnd g" "up g'" "s_users g \<le> s_users g'" "s_users g' \<le> s_users g + (if creates c then 1 else 0)"
    "s_messages g \<le> s_messages g'" "s_files g \<le> s_files g'"
    using forward_call [of c, unfolded forward_def, rule_format, of g] assms(3) g(1) by simp_all
  have seq: "s_users g' < BotFatherID"
    using fwd(4) accepts_creates [OF assms(2)] assms(1) by (auto simp: linked_def split: if_splits)
  have inv_at: "db_inv (at t d)"
    using inv by (simp add: db_inv_def)
  have typed: "typed g'"
    using t assms(3) y typed_next [OF undone_call typed_call g(3) assms(3)] by simp
  show ?thesis
  proof (cases y)
    case (Ok v)
    have rep: "represents g' d'" "outcomes_alike x y"
      using t assms(3) y Ok by (auto simp: agree_def outcomes_alike_def split: outcome.splits)
    have "userSeq d' = s_users g'"
      using rep(1) by (simp add: represents_def)
    moreover have "db_ok d'"
      using keepsD [OF keeps_mem_call _ y] inv_at Ok by (simp add: db_ok_def)
    ultimately have "db_inv d'"
      using seq by (simp add: db_ok_def)
    with time rep typed fwd(2) seq y Ok show ?thesis
      by (intro exI [of _ t] exI [of _ y] exI [of _ d']) (simp add: linked_def)
  next
    case (Err e)
    have rep: "represents g' (resync g' d')" "outcomes_alike x y"
      using t assms(3) y Err by (auto simp: agree_def outcomes_alike_def split: outcome.splits)
    have d': "d' = at t d"
      using checks_call [of c] y Err unfolding checks_def by blast
    have "db_inv (resync g' d')"
      unfolding d' using fwd seq g(2) inv_at by (intro db_inv_resync) (simp_all add: represents_def)
    moreover have "skips d' (resync g' d')"
      unfolding d' using fwd g(2) by (intro skips_resync) (simp_all add: represents_def)
    ultimately show ?thesis
      using time rep typed fwd(2) seq y Err
      by (intro exI [of _ t] exI [of _ y] exI [of _ d'] exI [of _ "resync g' d'"]) (simp add: linked_def)
  next
    case Panic
    with t assms(3) y show ?thesis
      by (simp add: agree_def split: outcome.splits)
  qed
qed

section \<open>Runs\<close>

text \<open>
  What the servers ask of PostgreSQL: the calls of \<^verbatim>\<open>teled.DB\<close>, and the keys that the key storage
  saves, which is a component of its own when the database is in memory.
\<close>

datatype pg_event = Call db_call | SaveKey bytes bytes

primrec pg_answer :: "pg_event \<Rightarrow> ('z pgdb_scheme, db_answer) go" where
  "pg_answer (Call c) = pg_call c"
| "pg_answer (SaveKey i k) = ans_unit (pg_key_Save i k)"

primrec pg_run :: "pg_event list \<Rightarrow> 'z pgdb_scheme \<Rightarrow> db_answer outcome list \<times> 'z pgdb_scheme" where
  "pg_run [] g = ([], g)"
| "pg_run (c # cs) g = (let (x, g') = pg_answer c g; (xs, g'') = pg_run cs g' in (x # xs, g''))"

primrec all_accepted :: "pg_event list \<Rightarrow> 'z pgdb_scheme \<Rightarrow> bool" where
  "all_accepted [] g \<longleftrightarrow> True"
| "all_accepted (c # cs) g \<longleftrightarrow> (case c of Call b \<Rightarrow> accepts b g | SaveKey _ _ \<Rightarrow> True) \<and>
     all_accepted cs (snd (pg_answer c g))"

text \<open>The times \<open>ts\<close> are those of the calls.\<close>

primrec run_times :: "pg_event list \<Rightarrow> 'z pgdb_scheme \<Rightarrow> int list \<Rightarrow> bool" where
  "run_times [] g ts \<longleftrightarrow> ts = []"
| "run_times (c # cs) g ts \<longleftrightarrow> (case ts of [] \<Rightarrow> False | t # ts' \<Rightarrow>
     call_time g t \<and> run_times cs (snd (pg_answer c g)) ts')"

text \<open>
  A run of the in-memory database with the answers \<open>ys\<close>, each call at its time of \<open>ts\<close>; after an error
  it may skip numbers.
\<close>

inductive mem_run :: "pg_event list \<Rightarrow> int list \<Rightarrow> 'z memdb_scheme \<Rightarrow> db_answer outcome list \<Rightarrow> 'z memdb_scheme \<Rightarrow> bool" where
  mem_stop: "mem_run [] [] d [] d"
| mem_ok: "mem_call c (at t d) = (Ok v, d') \<Longrightarrow> mem_run cs ts d' ys d'' \<Longrightarrow>
    mem_run (Call c # cs) (t # ts) d (Ok v # ys) d''"
| mem_err: "mem_call c (at t d) = (Err e, d') \<Longrightarrow> skips d' d1 \<Longrightarrow> mem_run cs ts d1 ys d'' \<Longrightarrow>
    mem_run (Call c # cs) (t # ts) d (Err e # ys) d''"
| mem_key: "mem_run cs ts d ys d' \<Longrightarrow> mem_run (SaveKey i k # cs) (t # ts) d (Ok AnsUnit # ys) d'"

lemma key_linked:
  assumes "linked g d" "pg_answer (SaveKey i k) g = (x, g')"
  shows "x = Ok AnsUnit \<and> linked g' d"
proof -
  have g: "up g" "represents g d" "typed g"
    using assms(1) by (simp_all add: linked_def)
  have run: "pg_key_Save i k g = (Ok (), g')" and x: "x = Ok AnsUnit"
    using assms(2) g(1) by (auto simp: ans_unit_def ans_def bnd_def pg_key_Save_def autocommit_up)
  have "undone (pg_key_Save i k)"
    unfolding pg_key_Save_def by (rule undone_writes)
  from typed_next [OF this typed_key_Save g(3) run] have "typed g'" .
  moreover have "represents g' d" "up g'" "s_users g' = s_users g"
    using g run by (auto simp: pg_key_Save_def autocommit_up represents_def split: if_splits)
  ultimately show ?thesis
    using assms(1) x by (simp add: linked_def)
qed

lemma event_linked:
  assumes "linked g d" "all_accepted (c # cs) g" "pg_answer c g = (x, g')"
  shows "\<exists>t y e. call_time g t \<and> outcomes_alike x y \<and> linked g' e \<and>
    (\<forall>ts ys d''. mem_run cs ts e ys d'' \<longrightarrow> mem_run (c # cs) (t # ts) d (y # ys) d'')"
proof (cases c)
  case (Call b)
  obtain t y d' e where y: "call_time g t" "mem_call b (at t d) = (y, d')" "outcomes_alike x y" "linked g' e"
      "case y of Err _ \<Rightarrow> skips d' e | _ \<Rightarrow> e = d'"
    using call_linked [OF assms(1), of b x g'] assms(2,3) Call by auto
  have "mem_run (c # cs) (t # ts) d (y # ys) d''" if "mem_run cs ts e ys d''" for ts ys d''
    using y(2,3,5) that unfolding Call
    by (cases y) (auto intro: mem_ok mem_err simp: outcomes_alike_def split: outcome.splits)
  with y(1,3,4) show ?thesis
    by blast
next
  case (SaveKey i k)
  have "x = Ok AnsUnit \<and> linked g' d"
    using key_linked [OF assms(1)] assms(3) SaveKey by blast
  moreover have "outcomes_alike (Ok AnsUnit) (Ok AnsUnit)"
    by (simp add: outcomes_alike_def)
  ultimately show ?thesis
    using call_time_simps(1) [of g] mem_key unfolding SaveKey by blast
qed

lemma run_linked:
  "linked g d \<Longrightarrow> all_accepted cs g \<Longrightarrow> \<exists>ts ys d'. run_times cs g ts \<and> mem_run cs ts d ys d' \<and>
    list_all2 outcomes_alike (fst (pg_run cs g)) ys \<and> linked (snd (pg_run cs g)) d'"
proof (induction cs arbitrary: g d)
  case Nil
  then show ?case
    using mem_stop [of d] by auto
next
  case (Cons c cs)
  obtain x g' where x: "pg_answer c g = (x, g')"
    by (cases "pg_answer c g")
  obtain t y e where y: "call_time g t" "outcomes_alike x y" "linked g' e"
      "\<And>ts ys d''. mem_run cs ts e ys d'' \<Longrightarrow> mem_run (c # cs) (t # ts) d (y # ys) d''"
    using event_linked [OF Cons.prems x] by blast
  obtain ts ys d'' where ys: "run_times cs g' ts" "mem_run cs ts e ys d''"
      "list_all2 outcomes_alike (fst (pg_run cs g')) ys" "linked (snd (pg_run cs g')) d''"
    using Cons.IH [OF y(3)] Cons.prems(2) x by auto
  with x y(1,2) y(4) [OF ys(2)] show ?case
    by (intro exI [of _ "t # ts"] exI [of _ "y # ys"] exI [of _ d'']) (simp add: case_prod_beta' Let_def)
qed

lemma start_linked:
  assumes "up w" "rnd v = rnd w" "rnd_pos v = rnd_pos w" "clk v (clk_pos v) = usec (clk w (clk_pos w))"
  shows "linked (snd (Migrate w)) (snd (NewDB v))"
proof -
  have "represents (snd (Migrate w)) (snd (NewDB v))"
    using assms
    by (simp add: represents_def Migrate_def NewDB_def modify_def users_rep_def messages_rep_def refs_rep_def log_rep_def
        codes_rep_def temp_rep_def drafts_rep_def contacts_rep_def commands_rep_def same_map_def no_tables_def
        mem_user_def scanUser_def botfather_row_def newMemUser_def zero_user_def nullable_def)
  moreover have "s_users (snd (Migrate w)) = 0" "pg_up (snd (Migrate w)) = pg_up w"
    by (simp_all add: Migrate_def modify_def)
  ultimately show ?thesis
    using assms(1) typed_Migrate [of w] db_inv_NewDB [of v] by (simp add: linked_def BotFatherID_def)
qed


end
