(* ===== verification/PgSamples.thy ===== *)
theory PgSamples imports PgSim begin

text \<open>
  A sample run of the PostgreSQL database, and the instances of its properties at concrete
  inputs.
\<close>

definition pg_world :: pgdb where
  "pg_world = \<lparr>clk = (\<lambda>n. 1000 * int n), clk_pos = 0, rnd = (\<lambda>_. CHR ''a''), rnd_pos = 0, uc_lower = (\<lambda>s. s),
     uc_fold = (=), uc_letter = (\<lambda>_. False), sha256 = (\<lambda>_. replicate 32 (chr 0)), tabs = no_tables,
     s_users = 0, s_messages = 0, s_files = 0, pg_up = (\<lambda>_. True), pg_pos = 0, pg_lower = (\<lambda>c. c)\<rparr>"

definition mem_world :: memdb where
  "mem_world = \<lparr>clk = (\<lambda>n. 1000 * int n), clk_pos = 0, rnd = (\<lambda>_. CHR ''a''), rnd_pos = 0,
     uc_lower = (\<lambda>s. s), uc_fold = (=), uc_letter = (\<lambda>_. False), sha256 = (\<lambda>_. replicate 32 (chr 0)),
     users = [], userSeq = 0, messages = [], msgSeq = 0, refs = [], updates = [], files = [],
     fileSeq = 0, sessions = [], tempKeys = [], phoneCodes = [], drafts = [], contacts = [],
     botStates = [], botCommands = []\<rparr>"

definition two_accounts :: "pg_event list" where
  "two_accounts = map Call [CallCreateUser ''100'' ''Ann'' [], CallCreateUser ''200'' ''Bob'' []]"

definition pg_calls :: "pg_event list" where
  "pg_calls = two_accounts @ SaveKey ''key'' ''value'' # map Call [CallBindSession ''key'' 1, CallSessionUserID ''key'',
     CallCreateUser ''200'' ''Eve'' [], CallSendMessage 1 2 ''hi'' 7 0,
     CallGetHistory 2 1 0 10, CallEditMessage 1 1 ''hi!'', CallEditMessage 2 1 ''no'', CallReadHistory 2 1 1,
     CallGetDialogs 1 20, CallGetDifference 1 0 10, CallDeleteMessages 2 [1, 99]]"

lemma pg_calls_accepted: "all_accepted pg_calls (snd (Migrate pg_world))"
  by code_simp

lemma answer_reachable:
  assumes "pg_reachable g" "pg_answer c g = (x, g')"
  shows "pg_reachable g'"
proof (cases c)
  case (Call b)
  with assms show ?thesis
    by (auto intro: pg_next)
next
  case (SaveKey i k)
  obtain r g1 where run: "pg_key_Save i k g = (r, g1)"
    by (cases "pg_key_Save i k g")
  with assms(2) SaveKey have "g' = g1"
    by (cases r) (auto simp: ans_unit_def ans_def bnd_def ret_def)
  with pg_key [OF assms(1) run] show ?thesis
    by simp
qed

lemma run_reachable: "pg_reachable g \<Longrightarrow> pg_reachable (snd (pg_run cs g))"
proof (induction cs arbitrary: g)
  case (Cons c cs)
  obtain x g' where "pg_answer c g = (x, g')"
    by (cases "pg_answer c g")
  with Cons.IH [OF answer_reachable [OF Cons.prems this]] show ?case
    by (simp add: case_prod_beta' Let_def)
qed simp

lemma start_reachable: "pg_reachable (snd (Migrate w))"
  by (rule pg_start [of w "fst (Migrate w)"]) simp


text \<open>The connection breaks in the middle of a transaction.\<close>

definition pg_broken :: pgdb where
  "pg_broken = (snd (pg_run two_accounts (snd (Migrate pg_world))))\<lparr>pg_up := (\<lambda>i. i < 9)\<rparr>"

lemma pg_broken_fails: "fst (pg_call (CallSendMessage 1 2 ''hi'' 7 0) pg_broken) = Err (ErrLib ''connection'')"
  by code_simp

lemma failed_call_undone_witness:
  "\<exists>e g'. pg_call (CallSendMessage 1 2 ''hi'' 7 0) pg_broken = (Err e, g') \<and> tabs g' = tabs pg_broken"
proof -
  have run: "pg_call (CallSendMessage 1 2 ''hi'' 7 0) pg_broken =
      (Err (ErrLib ''connection''), snd (pg_call (CallSendMessage 1 2 ''hi'' 7 0) pg_broken))"
    using pg_broken_fails by (simp only: prod_eq_iff fst_conv snd_conv)
  from failed_call_undone [OF run] run show ?thesis
    by blast
qed


end
