(* ===== verification/FsStore.thy ===== *)
theory FsStore imports ObjStore begin

text \<open>
  The object store on the file system, \<^verbatim>\<open>internal/objstore/fs.go\<close>, over the operations of Go's \<^verbatim>\<open>os\<close>
  and \<^verbatim>\<open>path/filepath\<close>. A path is the flag that it is absolute and its components, lexically cleaned
  as \<^verbatim>\<open>filepath.Join\<close> does; there are no symbolic links. The operations come one at a time; that a
  failing system call may be followed by failing ones only covers a process that dies in the middle.
  \<open>object_store\<close> is the contract of \<^verbatim>\<open>teled.ObjectStore\<close>, which both implementations meet.
\<close>

section \<open>Paths\<close>

type_synonym path = "bool \<times> string list"

fun Split :: "char \<Rightarrow> string \<Rightarrow> string list" where
  "Split c [] = [[]]"
| "Split c (x # s) = (if x = c then [] # Split c s
     else case Split c s of [] \<Rightarrow> [[x]] | w # ws \<Rightarrow> (x # w) # ws)"

definition clean_step :: "bool \<Rightarrow> string list \<Rightarrow> string \<Rightarrow> string list" where
  "clean_step rooted acc c = (if c = [] \<or> c = ''.'' then acc
     else if c = ''..'' then (if acc \<noteq> [] \<and> last acc \<noteq> ''..'' then butlast acc
       else if rooted then acc else acc @ [''..''])
     else acc @ [c])"

definition Join :: "string list \<Rightarrow> path" where
  "Join es = (let es' = filter (\<lambda>e. e \<noteq> []) es;
       rooted = (case es' of [] \<Rightarrow> False | e # _ \<Rightarrow> hd e = CHR ''/'')
     in (rooted, foldl (clean_step rooted) [] (concat (map (Split (CHR ''/'')) es'))))"

definition Dir_of :: "path \<Rightarrow> path" where
  "Dir_of p = (fst p, butlast (snd p))"

definition fs_path :: "string \<Rightarrow> string \<Rightarrow> path" where
  "fs_path base key = (if 4 \<le> length key then Join [base, take 2 key, take 2 (drop 2 key), key]
     else Join [base, ''_'', key])"

section \<open>The file system\<close>

text \<open>
  Whether the \<open>i\<close>-th system call succeeds, how much a failing write has written, the numbers
  \<^verbatim>\<open>os.CreateTemp\<close> draws and the size a directory reports are open.
\<close>

datatype node = Folder | File bytes

record filesys =
  fs_base :: string
  fs_nodes :: "(path, node) gomap"
  sys_ok :: "nat \<Rightarrow> bool"
  sys_pos :: nat
  sys_short :: "nat \<Rightarrow> nat"
  tmp_rand :: "nat \<Rightarrow> nat"
  tmp_pos :: nat
  folder_size :: "path \<Rightarrow> int"

definition io_error :: goerr where "io_error = ErrLib ''input/output error''"

definition not_exist :: goerr where "not_exist = ErrLib ''file does not exist''"

definition exists_already :: goerr where "exists_already = ErrLib ''file already exists''"

definition is_folder :: goerr where "is_folder = ErrLib ''is a directory''"

definition not_folder :: goerr where "not_folder = ErrLib ''not a directory''"

definition not_empty :: goerr where "not_empty = ErrLib ''directory not empty''"

definition invalid_arg :: goerr where "invalid_arg = ErrLib ''invalid argument''"

definition syscall :: "(filesys, unit) go" where
  "syscall = bnd (gets (\<lambda>s. sys_ok s (sys_pos s))) (\<lambda>b.
     bnd (modify (\<lambda>s. s\<lparr>sys_pos := Suc (sys_pos s)\<rparr>)) (\<lambda>_. if b then ret () else fail io_error))"

definition node_at :: "path \<Rightarrow> filesys \<Rightarrow> node option" where
  "node_at p s = map_of (fs_nodes s) p"

text \<open>Why there is nothing at a path: a file stands where a directory should, or the name is free.\<close>

definition is_file :: "filesys \<Rightarrow> path \<Rightarrow> bool" where
  "is_file s p \<longleftrightarrow> (case node_at p s of Some (File _) \<Rightarrow> True | _ \<Rightarrow> False)"

definition missing :: "path \<Rightarrow> filesys \<Rightarrow> goerr" where
  "missing p s = (if list_ex (\<lambda>n. is_file s (fst p, take n (snd p))) [0..<length (snd p)]
     then not_folder else not_exist)"

definition set_node :: "path \<Rightarrow> node \<Rightarrow> (filesys, unit) go" where
  "set_node p x = modify (\<lambda>s. s\<lparr>fs_nodes := mput p x (fs_nodes s)\<rparr>)"

definition mkdir :: "path \<Rightarrow> (filesys, unit) go" where
  "mkdir p = bnd syscall (\<lambda>_. bnd (gets (node_at p)) (\<lambda>x. case x of
       None \<Rightarrow> set_node p Folder
     | Some Folder \<Rightarrow> ret ()
     | Some (File _) \<Rightarrow> fail not_folder))"

definition MkdirAll :: "path \<Rightarrow> (filesys, unit) go" where
  "MkdirAll p = loop (\<lambda>n _. mkdir (fst p, take n (snd p))) [1..<Suc (length (snd p))] ()"

text \<open>\<^verbatim>\<open>os.CreateTemp\<close> draws up to 10000 names and creates the first one that is free.\<close>

primrec create_temp :: "nat \<Rightarrow> path \<Rightarrow> (filesys, path) go" where
  "create_temp 0 p = fail exists_already"
| "create_temp (Suc n) p = bnd (gets (\<lambda>s. tmp_rand s (tmp_pos s) mod 2 ^ 32)) (\<lambda>r.
     bnd (modify (\<lambda>s. s\<lparr>tmp_pos := Suc (tmp_pos s)\<rparr>)) (\<lambda>_.
     let q = (fst p, snd p @ [''.tmp-'' @ FormatInt (int r)]) in
     bnd syscall (\<lambda>_. bnd (gets (node_at q)) (\<lambda>x.
     if x = None then bnd (set_node q (File [])) (\<lambda>_. ret q) else create_temp n p))))"

definition CreateTemp :: "path \<Rightarrow> (filesys, path) go" where
  "CreateTemp = create_temp 10000"

definition write_file :: "path \<Rightarrow> bytes \<Rightarrow> (filesys, unit) go" where
  "write_file p content = (if content = [] then ret () else bnd (gets (\<lambda>s. sys_short s (sys_pos s))) (\<lambda>k.
     on_err (bnd syscall (\<lambda>_. set_node p (File content)))
       (\<lambda>e. bnd (set_node p (File (take k content))) (\<lambda>_. fail e))))"

text \<open>\<^verbatim>\<open>os.Rename\<close> of a file within a directory.\<close>

definition rename_file :: "path \<Rightarrow> path \<Rightarrow> (filesys, unit) go" where
  "rename_file p q = bnd syscall (\<lambda>_. bnd (gets (node_at p)) (\<lambda>x. bnd (gets (node_at q)) (\<lambda>y.
     case x of None \<Rightarrow> fail not_exist
     | Some f \<Rightarrow> if y = Some Folder then fail is_folder
         else modify (\<lambda>s. s\<lparr>fs_nodes := mput q f (mdel p (fs_nodes s))\<rparr>))))"

definition remove_path :: "path \<Rightarrow> (filesys, unit) go" where
  "remove_path p = bnd syscall (\<lambda>_. bnd (gets (\<lambda>s. (node_at p s, missing p s))) (\<lambda>(x, e). case x of
       None \<Rightarrow> fail e
     | Some (File _) \<Rightarrow> modify (\<lambda>s. s\<lparr>fs_nodes := mdel p (fs_nodes s)\<rparr>)
     | Some Folder \<Rightarrow> bnd (gets (\<lambda>s. list_ex (\<lambda>q. fst q = fst p \<and> strict_prefix (snd p) (snd q)) (mkeys (fs_nodes s)))) (\<lambda>b.
         if b then fail not_empty else modify (\<lambda>s. s\<lparr>fs_nodes := mdel p (fs_nodes s)\<rparr>))))"

definition open_file :: "path \<Rightarrow> (filesys, node) go" where
  "open_file p = bnd syscall (\<lambda>_. bnd (gets (\<lambda>s. (node_at p s, missing p s))) (\<lambda>(x, e). case x of
     None \<Rightarrow> fail e | Some f \<Rightarrow> ret f))"

definition read_all :: "node \<Rightarrow> (filesys, bytes) go" where
  "read_all f = bnd syscall (\<lambda>_. case f of Folder \<Rightarrow> fail is_folder | File content \<Rightarrow> ret content)"

text \<open>A deferred call, whose error is dropped.\<close>

definition deferred :: "('s, 'a) go \<Rightarrow> ('s, 'b) go \<Rightarrow> ('s, 'b) go" where
  "deferred m body = (\<lambda>s. case body s of (r, s') \<Rightarrow> (r, snd (m s')))"

section \<open>The store\<close>

definition NewFS :: "string \<Rightarrow> (filesys, unit) go" where
  "NewFS base = (if base = [] then fail not_exist else bnd (MkdirAll (Join [base])) (\<lambda>_.
     modify (\<lambda>s. s\<lparr>fs_base := base\<rparr>)))"

definition path_of :: "string \<Rightarrow> (filesys, path) go" where
  "path_of key = gets (\<lambda>s. fs_path (fs_base s) key)"

definition FsPut :: "string \<Rightarrow> bytes \<Rightarrow> (filesys, unit) go" where
  "FsPut key content = bnd (path_of key) (\<lambda>dst. bnd (MkdirAll (Dir_of dst)) (\<lambda>_.
     bnd (CreateTemp (Dir_of dst)) (\<lambda>tmp. deferred (remove_path tmp)
       (bnd (write_file tmp content) (\<lambda>_. bnd syscall (\<lambda>_. rename_file tmp dst))))))"

text \<open>\<^verbatim>\<open>Get\<close> and \<^verbatim>\<open>GetRange\<close> with the reading of what they return.\<close>

definition FsGet :: "string \<Rightarrow> (filesys, bytes) go" where
  "FsGet key = bnd (path_of key) (\<lambda>p. bnd (open_file p) read_all)"

definition FsGetRange :: "string \<Rightarrow> int \<Rightarrow> int \<Rightarrow> (filesys, bytes) go" where
  "FsGetRange key offset len = bnd (path_of key) (\<lambda>p. bnd (open_file p) (\<lambda>f. bnd syscall (\<lambda>_.
     if offset < 0 then fail invalid_arg
     else if len \<le> 0 then ret []
     else bnd (read_all f) (\<lambda>content. ret (take (nat len) (drop (nat offset) content))))))"

text \<open>\<^verbatim>\<open>os.Stat\<close> finds a path as \<^verbatim>\<open>os.Open\<close> does.\<close>

definition FsStat :: "string \<Rightarrow> (filesys, int) go" where
  "FsStat key = bnd (path_of key) (\<lambda>p. bnd (open_file p) (\<lambda>f. bnd (gets (\<lambda>s. folder_size s p)) (\<lambda>n.
     case f of Folder \<Rightarrow> ret n | File content \<Rightarrow> ret (int (length content)))))"

definition FsDelete :: "string \<Rightarrow> (filesys, unit) go" where
  "FsDelete key = bnd (path_of key) (\<lambda>p. on_err (remove_path p) (\<lambda>e. if e = not_exist then ret () else fail e))"

definition fs_ops :: "filesys object_ops" where
  "fs_ops = \<lparr>op_put = FsPut, op_get = FsGet, op_range = FsGetRange, op_stat = FsStat, op_delete = FsDelete\<rparr>"

section \<open>What a store promises\<close>

text \<open>The objects a store holds are as before, but for the key \<open>k\<close>.\<close>

definition writes :: "('s \<Rightarrow> string \<Rightarrow> bytes option) \<Rightarrow> (string \<Rightarrow> bool) \<Rightarrow> string \<Rightarrow> bytes option \<Rightarrow> 's \<Rightarrow> 's \<Rightarrow> bool" where
  "writes view good k x s s' \<longleftrightarrow> (\<forall>k'. good k' \<longrightarrow> view s' k' = (if k' = k then x else view s k'))"

definition same_objects :: "('s \<Rightarrow> string \<Rightarrow> bytes option) \<Rightarrow> (string \<Rightarrow> bool) \<Rightarrow> 's \<Rightarrow> 's \<Rightarrow> bool" where
  "same_objects view good s s' \<longleftrightarrow> (\<forall>k'. good k' \<longrightarrow> view s' k' = view s k')"

text \<open>A range that starts inside the object, without a negative length, below the 64-bit limit.\<close>

definition in_range :: "int \<Rightarrow> int \<Rightarrow> bytes option \<Rightarrow> bool" where
  "in_range offset len x \<longleftrightarrow> 0 \<le> offset \<and> 0 \<le> len \<and> offset + len < 2 ^ 63 \<and>
     (case x of None \<Rightarrow> True | Some content \<Rightarrow> offset \<le> int (length content))"

primrec call_fits :: "('s \<Rightarrow> string \<Rightarrow> bytes option) \<Rightarrow> (string \<Rightarrow> bool) \<Rightarrow> store_call \<Rightarrow> 's \<Rightarrow> bool" where
  "call_fits view good (StorePut k content) s \<longleftrightarrow> good k"
| "call_fits view good (StoreGet k) s \<longleftrightarrow> good k"
| "call_fits view good (StoreRange k offset len) s \<longleftrightarrow> good k \<and> in_range offset len (view s k)"
| "call_fits view good (StoreStat k) s \<longleftrightarrow> good k"
| "call_fits view good (StoreDelete k) s \<longleftrightarrow> good k"

primrec run_fits :: "'s object_ops \<Rightarrow> ('s \<Rightarrow> string \<Rightarrow> bytes option) \<Rightarrow> (string \<Rightarrow> bool) \<Rightarrow> store_call list \<Rightarrow> 's \<Rightarrow> bool" where
  "run_fits ops view good [] s \<longleftrightarrow> True"
| "run_fits ops view good (c # cs) s \<longleftrightarrow> call_fits view good c s \<and> run_fits ops view good cs (snd (call_store ops c s))"

text \<open>
  The answers \<open>xs\<close> of a store to \<open>cs\<close>, as the in-memory store gives them: the same results, and
  an error where it has one; a call that was broken off has not taken place.
\<close>

definition same_answer :: "'a outcome \<Rightarrow> 'a outcome \<Rightarrow> bool" where
  "same_answer x y \<longleftrightarrow> (case (x, y) of (Ok a, Ok b) \<Rightarrow> a = b | (Err _, Err _) \<Rightarrow> True | _ \<Rightarrow> False)"

inductive served :: "(goerr \<Rightarrow> bool) \<Rightarrow> store_call list \<Rightarrow> objstore \<Rightarrow> store_answer outcome list \<Rightarrow> objstore \<Rightarrow> bool"
  for broken where
  served_all: "served broken [] m [] m"
| served_call: "call_store mem_ops c m = (y, m') \<Longrightarrow> same_answer x y \<Longrightarrow> served broken cs m' xs m'' \<Longrightarrow>
    served broken (c # cs) m (x # xs) m''"
| served_broken: "broken e \<Longrightarrow> served broken cs m xs m'' \<Longrightarrow> served broken (c # cs) m (Err e # xs) m''"

text \<open>
  The contract: the store keeps an invariant \<open>I\<close>, and under the keys that are \<open>good\<close> each
  operation reads or writes the object of its key and no other; one that is \<open>broken\<close> off by the
  environment has changed no object.
\<close>

locale object_store =
  fixes ops :: "'s object_ops" and I :: "'s \<Rightarrow> bool" and view :: "'s \<Rightarrow> string \<Rightarrow> bytes option"
    and good :: "string \<Rightarrow> bool" and broken :: "goerr \<Rightarrow> bool"
  assumes put_law: "I s \<Longrightarrow> good k \<Longrightarrow> op_put ops k content s = (r, s') \<Longrightarrow> I s' \<and>
      (case r of Ok _ \<Rightarrow> writes view good k (Some content) s s' | Err e \<Rightarrow> broken e \<and> same_objects view good s s' | Panic \<Rightarrow> False)"
    and get_law: "I s \<Longrightarrow> good k \<Longrightarrow> op_get ops k s = (q, s') \<Longrightarrow> I s' \<and> same_objects view good s s' \<and>
      (case q of Ok b \<Rightarrow> view s k = Some b | Err e \<Rightarrow> broken e \<or> view s k = None | Panic \<Rightarrow> False)"
    and range_law: "I s \<Longrightarrow> good k \<Longrightarrow> in_range offset len (view s k) \<Longrightarrow> op_range ops k offset len s = (q, s') \<Longrightarrow>
      I s' \<and> same_objects view good s s' \<and>
      (case q of Ok b \<Rightarrow> \<exists>c. view s k = Some c \<and> b = take (nat len) (drop (nat offset) c)
       | Err e \<Rightarrow> broken e \<or> view s k = None | Panic \<Rightarrow> False)"
    and stat_law: "I s \<Longrightarrow> good k \<Longrightarrow> op_stat ops k s = (n, s') \<Longrightarrow> I s' \<and> same_objects view good s s' \<and>
      (case n of Ok i \<Rightarrow> \<exists>c. view s k = Some c \<and> i = int (length c) | Err e \<Rightarrow> broken e \<or> view s k = None | Panic \<Rightarrow> False)"
    and delete_law: "I s \<Longrightarrow> good k \<Longrightarrow> op_delete ops k s = (d, s') \<Longrightarrow> I s' \<and>
      (case d of Ok _ \<Rightarrow> writes view good k None s s' | Err e \<Rightarrow> broken e \<and> same_objects view good s s' | Panic \<Rightarrow> False)"
begin

definition holds :: "'s \<Rightarrow> objstore \<Rightarrow> bool" where
  "holds s m \<longleftrightarrow> I s \<and> (\<forall>k. good k \<longrightarrow> view s k = map_of (objs m) k)"

text \<open>One call: it is that of the in-memory store, or it was broken off.\<close>

lemma call_holds:
  assumes "holds s m" "call_fits view good c s" "call_store ops c s = (x, s')"
  shows "(\<exists>y m'. call_store mem_ops c m = (y, m') \<and> same_answer x y \<and> holds s' m') \<or>
    (\<exists>e. x = Err e \<and> broken e \<and> holds s' m)"
proof (cases c)
  case (StorePut k content)
  then show ?thesis
    using assms put_law [of s k content]
    by (cases "op_put ops k content s")
      (auto simp: holds_def bnd_def mem_ops_def ObjPut_def writes_def same_objects_def same_answer_def split: outcome.splits)
next
  case (StoreGet k)
  then show ?thesis
    using assms get_law [of s k]
    by (cases "op_get ops k s")
      (auto simp: holds_def bnd_def mem_ops_def ObjGet_def same_objects_def same_answer_def split: outcome.splits option.splits)
next
  case (StoreRange k offset len)
  obtain r s1 where run: "op_range ops k offset len s = (r, s1)"
    by (cases "op_range ops k offset len s")
  have range: "in_range offset len (view s k)" and k: "good k" and view: "view s k = map_of (objs m) k"
    using assms(1,2) StoreRange by (auto simp: holds_def)
  have "ObjGetRange k offset len m = (Ok (take (nat len) (drop (nat offset) b)), m)" if "view s k = Some b" for b
    using ObjGetRange_run [of m k b offset len] range that view by (simp add: in_range_def)
  moreover have "\<exists>e. ObjGetRange k offset len m = (Err e, m)" if "view s k = None"
    using that view by (simp add: ObjGetRange_def)
  moreover have "holds s1 m"
    using assms(1) range_law [OF _ k range run] by (simp add: holds_def same_objects_def)
  ultimately show ?thesis
    using assms(1,3) StoreRange run range_law [OF _ k range run]
    by (cases r; cases "view s k") (auto simp: holds_def bnd_def mem_ops_def same_answer_def)
next
  case (StoreStat k)
  then show ?thesis
    using assms stat_law [of s k]
    by (cases "op_stat ops k s")
      (auto simp: holds_def bnd_def mem_ops_def ObjStat_def same_objects_def same_answer_def split: outcome.splits option.splits)
next
  case (StoreDelete k)
  then show ?thesis
    using assms delete_law [of s k]
    by (cases "op_delete ops k s")
      (auto simp: holds_def bnd_def mem_ops_def ObjDelete_def writes_def same_objects_def same_answer_def split: outcome.splits)
qed

text \<open>Every run is served as the in-memory store would, but for the calls broken off.\<close>

lemma run_holds: "holds s m \<Longrightarrow> run_fits ops view good cs s \<Longrightarrow>
    \<exists>m'. served broken cs m (fst (run_store ops cs s)) m' \<and> holds (snd (run_store ops cs s)) m'"
proof (induction cs arbitrary: s m)
  case Nil
  then show ?case
    by (auto intro: served_all)
next
  case (Cons c cs)
  obtain x s' where x: "call_store ops c s = (x, s')"
    by (cases "call_store ops c s")
  have fits: "call_fits view good c s" "run_fits ops view good cs s'"
    using Cons.prems(2) x by simp_all
  from call_holds [OF Cons.prems(1) fits(1) x] show ?case
    using Cons.IH [OF _ fits(2)] x
    by (fastforce simp: case_prod_beta' Let_def intro: served_call served_broken)
qed

end

lemma mem_store_laws: "object_store mem_ops (\<lambda>_. True) (\<lambda>s. map_of (objs s)) (\<lambda>_. True) (\<lambda>_. False)"
proof (unfold_locales, goal_cases)
  case (3 s k offset len q s')
  then show ?case
    using ObjGetRange_run [of s k _ offset len]
    by (cases "map_of (objs s) k") (auto simp: mem_ops_def in_range_def same_objects_def ObjGetRange_def)
qed (auto simp: mem_ops_def ObjPut_def ObjGet_def ObjStat_def ObjDelete_def writes_def same_objects_def split: option.splits)

interpretation mem_store: object_store mem_ops "\<lambda>_. True" "\<lambda>s. map_of (objs s)" "\<lambda>_. True" "\<lambda>_. False"
  by (rule mem_store_laws)

section \<open>Where the objects are\<close>

declare split_paired_All [simp del] split_paired_Ex [simp del]

text \<open>A key that names one entry of a directory, and no temporary one: the hash of a content, for example.\<close>

definition plain_part :: "string \<Rightarrow> bool" where
  "plain_part c \<longleftrightarrow> c \<noteq> [] \<and> c \<noteq> ''.'' \<and> c \<noteq> ''..'' \<and> CHR ''/'' \<notin> set c"

definition plain_key :: "string \<Rightarrow> bool" where
  "plain_key k \<longleftrightarrow> plain_part k \<and> (4 \<le> length k \<longrightarrow> plain_part (take 2 k) \<and> plain_part (take 2 (drop 2 k))) \<and>
     \<not> prefix ''.tmp-'' k"

definition shard :: "string list \<Rightarrow> string list \<Rightarrow> bool" where
  "shard B d \<longleftrightarrow> d = B @ [''_''] \<or> (\<exists>x y. length x = 2 \<and> length y = 2 \<and> d = B @ [x, y])"

lemma Split_plain: "c \<notin> set x \<Longrightarrow> Split c x = [x]"
  by (induction x) auto

lemma clean_step_plain: "plain_part c \<Longrightarrow> clean_step rooted acc c = acc @ [c]"
  by (simp add: clean_step_def plain_part_def)

lemma Join_plain:
  assumes "base \<noteq> []" "\<And>c. c \<in> set cs \<Longrightarrow> plain_part c"
  shows "Join (base # cs) = (fst (Join [base]), snd (Join [base]) @ cs)"
proof -
  have "concat (map (Split (CHR ''/'')) cs) = cs"
    using assms(2) by (induction cs) (simp_all add: plain_part_def Split_plain)
  moreover have "filter (\<lambda>e. e \<noteq> []) cs = cs"
    using assms(2) by (intro filter_True) (auto simp: plain_part_def)
  moreover have "foldl (clean_step b) acc cs = acc @ cs" for b acc
    using assms(2) by (induction cs arbitrary: acc) (simp_all add: clean_step_plain)
  ultimately show ?thesis
    using assms(1) by (simp add: Join_def Let_def)
qed

lemma fs_path_plain:
  assumes "base \<noteq> []" "plain_key k"
  shows "\<exists>d. shard (snd (Join [base])) d \<and> fs_path base k = (fst (Join [base]), d @ [k])"
proof (cases "4 \<le> length k")
  case True
  then have "Join [base, take 2 k, take 2 (drop 2 k), k] =
      (fst (Join [base]), snd (Join [base]) @ [take 2 k, take 2 (drop 2 k), k])"
    using assms by (intro Join_plain) (auto simp: plain_key_def)
  with True show ?thesis
    by (intro exI [of _ "snd (Join [base]) @ [take 2 k, take 2 (drop 2 k)]"]) (simp add: fs_path_def shard_def)
next
  case False
  have "Join [base, ''_'', k] = (fst (Join [base]), snd (Join [base]) @ [''_'', k])"
    using assms by (intro Join_plain) (auto simp: plain_key_def plain_part_def)
  with False show ?thesis
    by (intro exI [of _ "snd (Join [base]) @ [''_'']"]) (simp add: fs_path_def shard_def)
qed

lemma shard_entry: "shard B d \<Longrightarrow> shard B d' \<Longrightarrow> \<not> prefix (d @ [k]) d'"
  by (auto simp: shard_def prefix_def)

text \<open>
  The directories are those of the shards and above, and each file is an entry of a shard. A
  temporary file is one whose name says so.
\<close>

definition tmp_path :: "path \<Rightarrow> bool" where
  "tmp_path p \<longleftrightarrow> prefix ''.tmp-'' (last (snd p))"

definition placed :: "path \<Rightarrow> path \<Rightarrow> node \<Rightarrow> bool" where
  "placed root p x \<longleftrightarrow> fst p = fst root \<and> (\<exists>d. shard (snd root) d \<and>
     (case x of Folder \<Rightarrow> prefix (snd p) d | File _ \<Rightarrow> \<exists>k. snd p = d @ [k]))"

definition tidy :: "filesys \<Rightarrow> bool" where
  "tidy s \<longleftrightarrow> fs_base s \<noteq> [] \<and> (\<forall>p x. node_at p s = Some x \<longrightarrow> placed (Join [fs_base s]) p x)"

definition fs_view :: "filesys \<Rightarrow> string \<Rightarrow> bytes option" where
  "fs_view s k = (case node_at (fs_path (fs_base s) k) s of Some (File c) \<Rightarrow> Some c | _ \<Rightarrow> None)"

lemma placed_entry: "shard (snd root) d \<Longrightarrow> placed root (fst root, d @ [k]) (File c)"
  by (auto simp: placed_def)

lemma entry_no_folder:
  assumes "tidy s" "shard (snd (Join [fs_base s])) d"
  shows "node_at (fst (Join [fs_base s]), d @ [k]) s \<noteq> Some Folder"
  using assms shard_entry by (fastforce simp: tidy_def placed_def)

lemma folder_no_file:
  assumes "tidy s" "shard (snd (Join [fs_base s])) d" "prefix q d"
  shows "node_at (r, q) s \<noteq> Some (File c)"
  using assms shard_entry by (fastforce simp: tidy_def placed_def)

section \<open>System calls\<close>

lemma missing_pos [simp]: "missing p (s\<lparr>sys_pos := i\<rparr>) = missing p s"
  by (simp add: missing_def is_file_def node_at_def)

lemma node_at_simps [simp]:
  "node_at p (s\<lparr>fs_nodes := N\<rparr>) = map_of N p" "map_of (fs_nodes s) p = node_at p s"
  "node_at p (s\<lparr>sys_pos := i\<rparr>) = node_at p s" "node_at p (s\<lparr>tmp_pos := i\<rparr>) = node_at p s"
  by (simp_all add: node_at_def)

lemma bnd_syscall: "bnd syscall f s = (if sys_ok s (sys_pos s) then f () (s\<lparr>sys_pos := Suc (sys_pos s)\<rparr>)
    else (Err io_error, s\<lparr>sys_pos := Suc (sys_pos s)\<rparr>))"
  by (simp add: syscall_def bnd_def [of "bnd _ _"])

text \<open>
  What a step leaves: the base, the oracle of the system calls, and all nodes but those at \<open>P\<close>.
\<close>

definition only_at :: "(path \<Rightarrow> bool) \<Rightarrow> filesys \<Rightarrow> filesys \<Rightarrow> bool" where
  "only_at P s s' \<longleftrightarrow> fs_base s' = fs_base s \<and> sys_ok s' = sys_ok s \<and> (\<forall>p. \<not> P p \<longrightarrow> node_at p s' = node_at p s)"

lemma only_at_trans: "only_at P s s' \<Longrightarrow> only_at P s' s'' \<Longrightarrow> only_at P s s''"
  by (simp add: only_at_def)

lemma only_at_mono: "only_at P s s' \<Longrightarrow> (\<And>p. P p \<Longrightarrow> Q p) \<Longrightarrow> only_at Q s s'"
  by (auto simp: only_at_def)

lemma only_at_step [simp]:
  "only_at P s (s\<lparr>sys_pos := i\<rparr>)" "only_at P s (s\<lparr>tmp_pos := j\<rparr>)"
  by (simp_all add: only_at_def)

lemma tidy_only:
  assumes "tidy s" "only_at P s s'" "\<And>p x. P p \<Longrightarrow> node_at p s' = Some x \<Longrightarrow> placed (Join [fs_base s]) p x"
  shows "tidy s'"
  using assms unfolding tidy_def only_at_def by metis

text \<open>Making a directory and those above it.\<close>

definition grown :: "path \<Rightarrow> filesys \<Rightarrow> filesys \<Rightarrow> bool" where
  "grown p s s' \<longleftrightarrow> fs_base s' = fs_base s \<and> sys_ok s' = sys_ok s \<and> (\<forall>q. node_at q s' = node_at q s \<or>
     node_at q s = None \<and> node_at q s' = Some Folder \<and> fst q = fst p \<and> prefix (snd q) (snd p))"

lemma grown_trans: "grown p s s' \<Longrightarrow> grown p s' s'' \<Longrightarrow> grown p s s''"
  unfolding grown_def by (metis option.distinct(1))

lemma grown_file: "grown p s s' \<Longrightarrow> node_at q s' = Some (File c) \<longleftrightarrow> node_at q s = Some (File c)"
  unfolding grown_def by (metis node.distinct(1) option.distinct(1) option.inject)

lemma mkdir_run:
  assumes "mkdir (fst p, take n (snd p)) s = (r, s')" "\<And>q c. prefix q (snd p) \<Longrightarrow> node_at (fst p, q) s \<noteq> Some (File c)"
  shows "grown p s s' \<and> (r = Ok () \<or> r = Err io_error \<and> \<not> sys_ok s (sys_pos s))"
proof (cases "sys_ok s (sys_pos s)")
  case True
  then show ?thesis
    using assms(1) assms(2) [OF take_is_prefix [of n]]
    by (auto simp: mkdir_def bnd_syscall set_node_def grown_def take_is_prefix split: option.splits node.splits if_splits)
next
  case False
  with assms(1) show ?thesis
    by (auto simp: mkdir_def bnd_syscall grown_def)
qed

lemma mkdirs_run:
  assumes "loop (\<lambda>n _. mkdir (fst p, take n (snd p))) ns () s = (r, s')"
    "\<And>q c. prefix q (snd p) \<Longrightarrow> node_at (fst p, q) s \<noteq> Some (File c)"
  shows "grown p s s' \<and> (r = Ok () \<or> r = Err io_error \<and> \<not> (\<forall>i. sys_ok s i))"
  using assms
proof (induction ns arbitrary: s)
  case Nil
  then show ?case
    by (simp add: grown_def)
next
  case (Cons n ns)
  obtain r1 s1 where one: "mkdir (fst p, take n (snd p)) s = (r1, s1)"
    by (cases "mkdir (fst p, take n (snd p)) s")
  have grown: "grown p s s1" and r1: "r1 = Ok () \<or> r1 = Err io_error \<and> \<not> (\<forall>i. sys_ok s i)"
    using mkdir_run [OF one Cons.prems(2)] by auto
  show ?case
  proof (cases "r1 = Ok ()")
    case True
    with Cons.prems(1) one have "loop (\<lambda>n _. mkdir (fst p, take n (snd p))) ns () s1 = (r, s')"
      by (simp add: bnd_def)
    moreover have "prefix q (snd p) \<Longrightarrow> node_at (fst p, q) s1 \<noteq> Some (File c)" for q c
      using Cons.prems(2) grown_file [OF grown] by blast
    ultimately have "grown p s1 s' \<and> (r = Ok () \<or> r = Err io_error \<and> \<not> (\<forall>i. sys_ok s1 i))"
      by (rule Cons.IH)
    moreover have "sys_ok s1 = sys_ok s"
      using grown by (simp add: grown_def)
    ultimately show ?thesis
      using grown_trans [OF grown] by simp
  next
    case False
    with Cons.prems(1) one r1 grown show ?thesis
      by (auto simp: bnd_def)
  qed
qed

lemma tidy_grown:
  assumes "tidy s" "grown p s s'" "fst p = fst (Join [fs_base s])" "shard (snd (Join [fs_base s])) (snd p)"
  shows "tidy s'"
proof -
  have "placed (Join [fs_base s]) q x" if "node_at q s' = Some x" for q x
  proof (cases "node_at q s' = node_at q s")
    case False
    then have "node_at q s' = Some Folder" "fst q = fst p" "prefix (snd q) (snd p)"
      using assms(2) unfolding grown_def by blast+
    with that have "x = Folder" "fst q = fst p" "prefix (snd q) (snd p)"
      by simp_all
    with assms(3,4) show ?thesis
      by (auto simp: placed_def)
  qed (use assms(1) that in \<open>simp add: tidy_def\<close>)
  with assms(1,2) show ?thesis
    by (simp add: tidy_def grown_def)
qed

text \<open>The steps of a write: each changes the temporary file only, but for the renaming.\<close>

definition tmp_name :: "string list \<Rightarrow> bool \<Rightarrow> path \<Rightarrow> bool" where
  "tmp_name d rooted q \<longleftrightarrow> (\<exists>n. q = (rooted, d @ [''.tmp-'' @ FormatInt n]))"

lemma create_temp_run:
  "create_temp n p s = (r, s') \<Longrightarrow> (case r of
      Ok q \<Rightarrow> tmp_name (snd p) (fst p) q \<and> node_at q s = None \<and> node_at q s' = Some (File []) \<and> only_at ((=) q) s s'
    | Err e \<Rightarrow> (e = io_error \<or> e = exists_already) \<and> only_at (\<lambda>_. False) s s'
    | Panic \<Rightarrow> False)"
proof (induction n arbitrary: s)
  case 0
  then show ?case
    by (auto simp: only_at_def)
next
  case (Suc n)
  define q where "q = (fst p, snd p @ [''.tmp-'' @ FormatInt (int (tmp_rand s (tmp_pos s) mod 2 ^ 32))])"
  define s1 where "s1 = s\<lparr>tmp_pos := Suc (tmp_pos s), sys_pos := Suc (sys_pos s)\<rparr>"
  have s1: "only_at P s s1" "node_at x s1 = node_at x s" for P x
    by (simp_all add: s1_def only_at_def)
  have run: "(r, s') = (if sys_ok s (sys_pos s) then
      (if node_at q s = None then (Ok q, s1\<lparr>fs_nodes := mput q (File []) (fs_nodes s1)\<rparr>) else create_temp n p s1)
      else (Err io_error, s1))"
    using Suc.prems by (auto simp: bnd_syscall Let_def q_def s1_def set_node_def split: if_splits)
  consider "sys_ok s (sys_pos s)" "node_at q s = None" | "sys_ok s (sys_pos s)" "create_temp n p s1 = (r, s')" | "r = Err io_error" "s' = s1"
    using run by (auto split: if_splits)
  then show ?case
  proof cases
    case 1
    with run s1 show ?thesis
      by (auto simp: tmp_name_def q_def only_at_def)
  next
    case 2
    from Suc.IH [OF this(2)] show ?thesis
      using only_at_trans [OF s1(1)] s1(2) by (auto split: outcome.splits)
  qed (use s1 in simp)
qed

lemma write_file_run:
  assumes "write_file q c s = (r, s')" "node_at q s = Some (File [])"
  shows "only_at ((=) q) s s' \<and> (\<exists>c'. node_at q s' = Some (File c') \<and> (r = Ok () \<and> c' = c \<or> r = Err io_error \<and> \<not> (\<forall>i. sys_ok s i)))"
  using assms
  by (cases "sys_ok s (sys_pos s)")
    (auto simp: write_file_def only_at_def bnd_syscall on_err_def set_node_def split: if_splits)

lemma rename_file_run:
  assumes "rename_file q p s = (r, s')" "node_at q s = Some (File c)" "node_at p s \<noteq> Some Folder"
  shows "r = Ok () \<and> only_at (\<lambda>x. x = p \<or> x = q) s s' \<and> node_at p s' = Some (File c) \<and> (p \<noteq> q \<longrightarrow> node_at q s' = None) \<or>
    r = Err io_error \<and> \<not> (\<forall>i. sys_ok s i) \<and> only_at (\<lambda>_. False) s s'"
  using assms
  by (auto simp: rename_file_def bnd_syscall only_at_def split: if_splits)

lemma remove_path_run:
  assumes "remove_path q s = (r, s')" "node_at q s \<noteq> Some Folder"
  shows "only_at ((=) q) s s' \<and> (r = Ok () \<and> node_at q s' = None \<or>
    node_at q s' = node_at q s \<and> (r = Err (missing q s) \<and> node_at q s = None \<or> r = Err io_error \<and> \<not> (\<forall>i. sys_ok s i)))"
  using assms
  by (auto simp: remove_path_def bnd_syscall only_at_def split: if_splits option.splits node.splits)

lemma missing_entry:
  assumes "tidy s" "shard (snd (Join [fs_base s])) d"
  shows "missing (r, d @ [k]) s = not_exist"
proof -
  have entry: "\<not> is_file s (r, take n (d @ [k]))" if "n < length (d @ [k])" for n
    using folder_no_file [OF assms, of "take n (d @ [k])" r] take_is_prefix [of n d] that
    by (auto simp: is_file_def split: option.splits node.splits)
  have "\<not> list_ex (\<lambda>n. is_file s (r, take n (d @ [k]))) [0..<length (d @ [k])]"
  proof
    assume "list_ex (\<lambda>n. is_file s (r, take n (d @ [k]))) [0..<length (d @ [k])]"
    then obtain n where "n < length (d @ [k])" "is_file s (r, take n (d @ [k]))"
      unfolding list_ex_iff set_upt by (meson atLeastLessThan_iff)
    with entry show False
      by blast
  qed
  then show ?thesis
    by (simp only: missing_def fst_conv snd_conv if_False)
qed

section \<open>The operations\<close>

text \<open>What the environment can break off.\<close>

definition broken_off :: "goerr \<Rightarrow> bool" where
  "broken_off e \<longleftrightarrow> e = io_error \<or> e = exists_already"

text \<open>The tidy states without temporary files, on a system that carries out every call.\<close>

definition smooth :: "filesys \<Rightarrow> bool" where
  "smooth s \<longleftrightarrow> (\<forall>i. sys_ok s i) \<and> (\<forall>p c. node_at p s = Some (File c) \<longrightarrow> \<not> tmp_path p)"

lemma fs_path_run:
  assumes "tidy s" "plain_key k"
  obtains d where "shard (snd (Join [fs_base s])) d" "fs_path (fs_base s) k = (fst (Join [fs_base s]), d @ [k])"
  using fs_path_plain [OF _ assms(2), of "fs_base s"] assms(1) unfolding tidy_def by blast

lemma plain_not_tmp: "plain_key k \<Longrightarrow> \<not> tmp_path (r, d @ [k])"
  by (simp add: plain_key_def tmp_path_def)

lemma tmp_name_tmp: "tmp_name d r q \<Longrightarrow> tmp_path q"
  by (auto simp: tmp_name_def tmp_path_def)

lemma fs_path_inj:
  assumes "tidy s" "plain_key k" "plain_key k'"
  shows "fs_path (fs_base s) k = fs_path (fs_base s) k' \<longleftrightarrow> k = k'"
  using fs_path_run [OF assms(1,2)] fs_path_run [OF assms(1,3)] by (metis append1_eq_conv snd_conv)

text \<open>What is at the paths of the keys decides what the store holds.\<close>

lemma view_cong:
  assumes "fs_base s' = fs_base s" "\<And>c. node_at (fs_path (fs_base s) k) s' = Some (File c) \<longleftrightarrow> node_at (fs_path (fs_base s) k) s = Some (File c)"
  shows "fs_view s' k = fs_view s k"
proof (cases "\<exists>c. node_at (fs_path (fs_base s) k) s = Some (File c)")
  case False
  with assms show ?thesis
    by (auto simp: fs_view_def split: option.split node.split)
next
  case True
  then obtain c where "node_at (fs_path (fs_base s) k) s = Some (File c)"
    by blast
  with assms(1) assms(2) [of c] show ?thesis
    by (simp add: fs_view_def)
qed

lemma put_body_run:
  assumes "bnd (write_file q c) (\<lambda>_. bnd syscall (\<lambda>_. rename_file q p)) s = (r, s')"
    "node_at q s = Some (File [])" "node_at p s \<noteq> Some Folder" "p \<noteq> q"
  shows "r = Ok () \<and> only_at (\<lambda>x. x = p \<or> x = q) s s' \<and> node_at p s' = Some (File c) \<and> node_at q s' = None \<or>
    r = Err io_error \<and> \<not> (\<forall>i. sys_ok s i) \<and> only_at ((=) q) s s' \<and> (\<exists>c'. node_at q s' = Some (File c'))"
proof -
  obtain r1 s1 where wrote: "write_file q c s = (r1, s1)"
    by (cases "write_file q c s")
  note run1 = write_file_run [OF wrote assms(2)]
  define s2 where "s2 = s1\<lparr>sys_pos := Suc (sys_pos s1)\<rparr>"
  show ?thesis
  proof (cases "r1 = Ok () \<and> sys_ok s1 (sys_pos s1)")
    case True
    then have rename: "rename_file q p s2 = (r, s')" and q: "node_at q s2 = Some (File c)"
      using assms(1) wrote run1 by (auto simp: bnd_def [of "write_file q c"] bnd_syscall s2_def)
    have same: "only_at ((=) q) s s2"
      using run1 by (simp add: s2_def only_at_def)
    then have "node_at p s2 \<noteq> Some Folder" "sys_ok s2 = sys_ok s"
      using assms(3,4) by (auto simp: only_at_def)
    from rename_file_run [OF rename q this(1)] this(2) same assms(4) q show ?thesis
      by (auto simp: only_at_def)
  next
    case False
    then have "r = Err io_error" "s' = s1 \<or> s' = s2" "\<not> (\<forall>i. sys_ok s i)"
      using assms(1) wrote run1 by (auto simp: bnd_def [of "write_file q c"] bnd_syscall s2_def only_at_def split: if_splits)
    with run1 show ?thesis
      by (auto simp: s2_def only_at_def)
  qed
qed

lemma view_only:
  assumes "only_at P s s'" "\<not> P (fs_path (fs_base s) k)"
  shows "fs_view s' k = fs_view s k"
  using assms by (intro view_cong) (simp_all add: only_at_def)

lemma same_grown: "grown p s s' \<Longrightarrow> same_objects fs_view plain_key s s'"
  unfolding same_objects_def using view_cong [of s' s] grown_file [of p s s'] by (simp add: grown_def)

text \<open>Writing into the directory \<open>d\<close>, which is there.\<close>

lemma put_entry_run:
  assumes "tidy s" "plain_key k" "shard (snd (Join [fs_base s])) d" "fs_path (fs_base s) k = (R, d @ [k])" "R = fst (Join [fs_base s])"
    and run: "bnd (CreateTemp (R, d)) (\<lambda>q. deferred (remove_path q)
      (bnd (write_file q c) (\<lambda>_. bnd syscall (\<lambda>_. rename_file q (R, d @ [k]))))) s = (r, s')"
  shows "tidy s' \<and> fs_base s' = fs_base s \<and> sys_ok s' = sys_ok s \<and>
    (r = Ok () \<and> writes fs_view plain_key k (Some c) s s' \<or> (\<exists>e. r = Err e \<and> broken_off e \<and> same_objects fs_view plain_key s s'))"
proof -
  obtain r1 s1 where create: "CreateTemp (R, d) s = (r1, s1)"
    by (cases "CreateTemp (R, d) s")
  note created = create_temp_run [OF create [unfolded CreateTemp_def]]
  show ?thesis
  proof (cases r1)
    case (Ok q)
    define p where "p = (R, d @ [k])"
    have q: "tmp_path q" "node_at q s1 = Some (File [])" "only_at ((=) q) s s1" "\<exists>n. q = (R, d @ [n])"
      using created Ok tmp_name_tmp by (auto simp: tmp_name_def)
    have "p \<noteq> q"
      using q(1) plain_not_tmp [OF assms(2)] by (auto simp: p_def)
    then have pq: "p \<noteq> q" "node_at p s1 \<noteq> Some Folder"
      using q(3) entry_no_folder [OF assms(1,3)] by (simp_all add: p_def only_at_def assms(5))
    obtain s2 where body: "bnd (write_file q c) (\<lambda>_. bnd syscall (\<lambda>_. rename_file q p)) s1 = (r, s2)"
        and s': "s' = snd (remove_path q s2)"
      using run create Ok by (auto simp: bnd_def [of "CreateTemp _"] deferred_def p_def split: prod.splits)
    note written = put_body_run [OF body q(2) pq(2,1)]
    then have "node_at q s2 \<noteq> Some Folder"
      by auto
    from remove_path_run [OF _ this] s' have removed: "only_at ((=) q) s2 s'" "node_at q s' = None \<or> node_at q s' = node_at q s2"
      by (metis prod.collapse)+
    have all: "only_at (\<lambda>x. x = p \<or> x = q) s s'"
      using q(3) written removed(1) by (auto simp: only_at_def)
    have kept: "node_at x s' = Some y \<Longrightarrow> x = p \<or> x = q \<Longrightarrow> (\<exists>c'. y = File c') \<or> node_at x s = Some y" for x y
      using q(3) written removed pq(1) by (auto simp: only_at_def)
    have "tidy s'"
    proof (rule tidy_only [OF assms(1) all])
      fix x y
      assume x: "x = p \<or> x = q" "node_at x s' = Some y"
      from kept [OF this(2,1)] show "placed (Join [fs_base s]) x y"
        using x(1) q(4) placed_entry [OF assms(3)] assms(1) x(2)
        by (auto simp: p_def assms(5) tidy_def)
    qed
    moreover have other: "fs_view s' k' = fs_view s k'" if good: "plain_key k'" and "k' \<noteq> k \<or> r \<noteq> Ok ()" for k'
    proof -
      obtain d' where d': "fs_path (fs_base s) k' = (R, d' @ [k'])"
        using fs_path_run [OF assms(1) good] assms(5) by blast
      have "fs_path (fs_base s) k' \<noteq> q"
        using q(1) plain_not_tmp [OF good] d' by metis
      moreover have "fs_path (fs_base s) k' = p \<longleftrightarrow> k' = k"
        using fs_path_inj [OF assms(1) good assms(2)] assms(4) by (simp add: p_def)
      moreover have "r \<noteq> Ok () \<Longrightarrow> only_at ((=) q) s s'"
        using q(3) written removed(1) by (auto simp: only_at_def)
      ultimately show ?thesis
        using that(2) view_only [OF all, of k'] view_only [of "(=) q" s s' k'] by auto
    qed
    moreover have "fs_view s' k = Some c" if "r = Ok ()"
      using that written removed(1) pq(1) all assms(4) by (auto simp: fs_view_def p_def only_at_def)
    ultimately show ?thesis
      using written all by (auto simp: writes_def same_objects_def broken_off_def only_at_def)
  next
    case (Err e)
    then have "r = Err e" "s' = s1" "only_at (\<lambda>_. False) s s1" "broken_off e"
      using created run create by (auto simp: bnd_def [of "CreateTemp _"] broken_off_def)
    with tidy_only [OF assms(1) this(3)] view_only [OF this(3)] show ?thesis
      by (auto simp: same_objects_def only_at_def)
  qed (use created in simp)
qed

lemma FsPut_run:
  assumes "tidy s" "plain_key k" "FsPut k c s = (r, s')"
  shows "tidy s' \<and> fs_base s' = fs_base s \<and> sys_ok s' = sys_ok s \<and>
    (r = Ok () \<and> writes fs_view plain_key k (Some c) s s' \<or> (\<exists>e. r = Err e \<and> broken_off e \<and> same_objects fs_view plain_key s s'))"
proof -
  define R where "R = fst (Join [fs_base s])"
  obtain d where d: "shard (snd (Join [fs_base s])) d" "fs_path (fs_base s) k = (R, d @ [k])"
    using fs_path_run [OF assms(1,2)] unfolding R_def by blast
  obtain r1 s1 where mkdir: "MkdirAll (R, d) s = (r1, s1)"
    by (cases "MkdirAll (R, d) s")
  have "node_at (fst (R, d), q) s \<noteq> Some (File c')" if "prefix q (snd (R, d))" for q c'
    using folder_no_file [OF assms(1) d(1)] that by simp
  from mkdirs_run [OF mkdir [unfolded MkdirAll_def] this] have grown: "grown (R, d) s s1" and r1: "r1 = Ok () \<or> r1 = Err io_error"
    by auto
  have s1: "tidy s1" "fs_base s1 = fs_base s" "sys_ok s1 = sys_ok s" "same_objects fs_view plain_key s s1"
    using tidy_grown [OF assms(1) grown] d(1) grown same_grown [OF grown] by (simp_all add: R_def grown_def)
  show ?thesis
  proof (cases "r1 = Ok ()")
    case True
    with assms(3) mkdir d(2) have "bnd (CreateTemp (R, d)) (\<lambda>q. deferred (remove_path q)
      (bnd (write_file q c) (\<lambda>_. bnd syscall (\<lambda>_. rename_file q (R, d @ [k]))))) s1 = (r, s')"
      by (simp add: FsPut_def path_of_def Dir_of_def bnd_def [of "MkdirAll _"])
    from put_entry_run [OF s1(1) assms(2) _ _ _ this] d s1 show ?thesis
      by (auto simp: R_def writes_def same_objects_def)
  next
    case False
    with r1 assms(3) mkdir d(2) have "r = Err io_error" "s' = s1"
      by (auto simp: FsPut_def path_of_def Dir_of_def bnd_def [of "MkdirAll _"])
    with s1 show ?thesis
      by (simp add: broken_off_def)
  qed
qed

text \<open>On a system that carries out every call the first name drawn is free, and the write succeeds.\<close>

lemma put_entry_smooth:
  assumes "tidy s" "smooth s" "plain_key k" "shard (snd (Join [fs_base s])) d" "R = fst (Join [fs_base s])"
    and run: "bnd (CreateTemp (R, d)) (\<lambda>q. deferred (remove_path q)
      (bnd (write_file q c) (\<lambda>_. bnd syscall (\<lambda>_. rename_file q (R, d @ [k]))))) s = (r, s')"
  shows "r = Ok () \<and> smooth s'"
proof -
  define p where "p = (R, d @ [k])"
  define q where "q = (R, d @ [''.tmp-'' @ FormatInt (int (tmp_rand s (tmp_pos s) mod 2 ^ 32))])"
  define s1 where "s1 = s\<lparr>tmp_pos := Suc (tmp_pos s), sys_pos := Suc (sys_pos s), fs_nodes := mput q (File []) (fs_nodes s)\<rparr>"
  have tmp: "tmp_path q" "p \<noteq> q"
    using plain_not_tmp [OF assms(3), of R d] by (auto simp: tmp_path_def q_def p_def)
  have "node_at q s = None"
    using entry_no_folder [OF assms(1,4)] assms(2) tmp(1) by (cases "node_at q s"; cases "the (node_at q s)") (auto simp: q_def assms(5) smooth_def)
  then have "create_temp (Suc n) (R, d) s = (Ok q, s1)" for n
    using assms(2) by (simp add: smooth_def bnd_syscall Let_def q_def s1_def set_node_def)
  from this [of 9999] have create: "CreateTemp (R, d) s = (Ok q, s1)"
    by (simp only: CreateTemp_def) simp
  have s1: "node_at q s1 = Some (File [])" "only_at ((=) q) s s1"
    by (simp_all add: s1_def only_at_def)
  have "node_at p s1 \<noteq> Some Folder"
    using s1(2) tmp(2) entry_no_folder [OF assms(1,4)] by (simp add: p_def only_at_def assms(5))
  obtain s2 where body: "bnd (write_file q c) (\<lambda>_. bnd syscall (\<lambda>_. rename_file q p)) s1 = (r, s2)"
      and s': "s' = snd (remove_path q s2)"
    using run create by (auto simp: bnd_def [of "CreateTemp _"] deferred_def p_def split: prod.splits)
  have "\<forall>i. sys_ok s1 i"
    using assms(2) s1(2) by (simp add: smooth_def only_at_def)
  with put_body_run [OF body s1(1) \<open>node_at p s1 \<noteq> Some Folder\<close> tmp(2)]
  have r: "r = Ok ()" and s2: "only_at (\<lambda>x. x = p \<or> x = q) s1 s2" "node_at q s2 = None"
    by auto
  from remove_path_run [of q s2 "fst (remove_path q s2)" s'] s' s2(2)
  have s3: "only_at ((=) q) s2 s'" "node_at q s' = None"
    by (auto simp: prod_eq_iff)
  have "\<not> tmp_path x" if "node_at x s' = Some (File b)" for x b
  proof (cases "x = p \<or> x = q")
    case True
    with that s3(2) plain_not_tmp [OF assms(3)] show ?thesis
      by (auto simp: p_def)
  next
    case False
    with that s1(2) s2(1) s3(1) assms(2) show ?thesis
      by (simp add: only_at_def smooth_def) metis
  qed
  then show ?thesis
    using r s1(2) s2(1) s3(1) assms(2) by (simp add: smooth_def only_at_def)
qed

lemma FsPut_smooth:
  assumes "tidy s" "smooth s" "plain_key k" "FsPut k c s = (r, s')"
  shows "r = Ok () \<and> smooth s'"
proof -
  define R where "R = fst (Join [fs_base s])"
  obtain d where d: "shard (snd (Join [fs_base s])) d" "fs_path (fs_base s) k = (R, d @ [k])"
    using fs_path_run [OF assms(1,3)] unfolding R_def by blast
  obtain r1 s1 where mkdir: "MkdirAll (R, d) s = (r1, s1)"
    by (cases "MkdirAll (R, d) s")
  have "node_at (fst (R, d), q) s \<noteq> Some (File c')" if "prefix q (snd (R, d))" for q c'
    using folder_no_file [OF assms(1) d(1)] that by simp
  from mkdirs_run [OF mkdir [unfolded MkdirAll_def] this] have grown: "grown (R, d) s s1" and r1: "r1 = Ok ()"
    using assms(2) by (auto simp: smooth_def)
  have s1: "tidy s1" "fs_base s1 = fs_base s" "smooth s1"
    using tidy_grown [OF assms(1) grown] d(1) grown assms(2) grown_file [OF grown] by (simp_all add: R_def grown_def smooth_def)
  from assms(4) mkdir d(2) r1 have "bnd (CreateTemp (R, d)) (\<lambda>q. deferred (remove_path q)
      (bnd (write_file q c) (\<lambda>_. bnd syscall (\<lambda>_. rename_file q (R, d @ [k]))))) s1 = (r, s')"
    by (simp add: FsPut_def path_of_def Dir_of_def bnd_def [of "MkdirAll _"])
  from put_entry_smooth [OF s1(1,3) assms(3) _ _ this] d s1(2) show ?thesis
    by (simp add: R_def)
qed

text \<open>Reading changes nothing but the count of system calls.\<close>

lemma pos_simps [simp]:
  "tidy (s\<lparr>sys_pos := i\<rparr>) = tidy s" "fs_view (s\<lparr>sys_pos := i\<rparr>) k = fs_view s k" "smooth (s\<lparr>sys_pos := i\<rparr>) = smooth s"
  "same_objects fs_view plain_key s (s\<lparr>sys_pos := i\<rparr>)"
  by (simp_all add: tidy_def fs_view_def smooth_def same_objects_def)

lemma view_cases:
  assumes "tidy s" "plain_key k"
  obtains "node_at (fs_path (fs_base s) k) s = None" "fs_view s k = None" "missing (fs_path (fs_base s) k) s = not_exist"
  | c where "node_at (fs_path (fs_base s) k) s = Some (File c)" "fs_view s k = Some c"
proof -
  obtain d where d: "shard (snd (Join [fs_base s])) d" "fs_path (fs_base s) k = (fst (Join [fs_base s]), d @ [k])"
    using fs_path_run [OF assms] by blast
  with entry_no_folder [OF assms(1) d(1)] missing_entry [OF assms(1) d(1)] that show ?thesis
    by (cases "node_at (fs_path (fs_base s) k) s"; cases "the (node_at (fs_path (fs_base s) k) s)") (auto simp: fs_view_def)
qed

lemma fs_errors [simp]: "broken_off io_error" "\<not> broken_off not_exist"
  by (simp_all add: broken_off_def io_error_def not_exist_def exists_already_def)

definition reads :: "filesys \<Rightarrow> 'a outcome \<times> filesys \<Rightarrow> (bytes \<Rightarrow> 'a) \<Rightarrow> string \<Rightarrow> bool" where
  "reads s p f k \<longleftrightarrow> (\<exists>i. snd p = s\<lparr>sys_pos := i\<rparr>) \<and> (case fst p of
       Ok b \<Rightarrow> \<exists>c. fs_view s k = Some c \<and> b = f c
     | Err e \<Rightarrow> e = io_error \<and> \<not> smooth s \<or> e = not_exist \<and> fs_view s k = None
     | Panic \<Rightarrow> False)"

lemma FsGet_run:
  assumes "tidy s" "plain_key k"
  shows "reads s (FsGet k s) (\<lambda>c. c) k"
  by (rule view_cases [OF assms])
    (auto simp: reads_def FsGet_def path_of_def open_file_def read_all_def bnd_def [of "bnd _ _"] bnd_syscall smooth_def)

lemma FsGetRange_run:
  assumes "tidy s" "plain_key k" "in_range off len (fs_view s k)"
  shows "reads s (FsGetRange k off len s) (\<lambda>c. take (nat len) (drop (nat off) c)) k"
  by (rule view_cases [OF assms(1,2)])
    (use assms(3) in \<open>auto simp: reads_def FsGetRange_def path_of_def open_file_def read_all_def bnd_def [of "bnd _ _"]
      bnd_syscall smooth_def in_range_def\<close>)

lemma FsStat_run:
  assumes "tidy s" "plain_key k"
  shows "reads s (FsStat k s) (\<lambda>c. int (length c)) k"
  by (rule view_cases [OF assms])
    (auto simp: reads_def FsStat_def path_of_def open_file_def bnd_def [of "bnd _ _"] bnd_syscall smooth_def)

lemma FsDelete_run:
  assumes "tidy s" "plain_key k" "FsDelete k s = (r, s')"
  shows "tidy s' \<and> fs_base s' = fs_base s \<and> sys_ok s' = sys_ok s \<and> (smooth s \<longrightarrow> r = Ok () \<and> smooth s') \<and>
    (r = Ok () \<and> writes fs_view plain_key k None s s' \<or> r = Err io_error \<and> same_objects fs_view plain_key s s')"
proof -
  define p where "p = fs_path (fs_base s) k"
  obtain r1 s1 where remove: "remove_path p s = (r1, s1)"
    by (cases "remove_path p s")
  have p: "node_at p s \<noteq> Some Folder" "missing p s = not_exist \<or> node_at p s \<noteq> None"
    using view_cases [OF assms(1,2)] unfolding p_def by (metis node.distinct(1) option.distinct(1) option.inject)+
  note removed = remove_path_run [OF remove p(1)]
  have r: "s' = s1" "r = (case r1 of Err e \<Rightarrow> if e = not_exist then Ok () else Err e | x \<Rightarrow> x)"
    using assms(3) remove by (auto simp: FsDelete_def path_of_def on_err_def p_def split: outcome.splits if_splits)
  have base: "fs_base s' = fs_base s" "sys_ok s' = sys_ok s"
    using removed r(1) by (simp_all add: only_at_def)
  have sub: "node_at x s' = Some y \<Longrightarrow> node_at x s = Some y" for x y
    using removed unfolding r(1) by (cases "x = p") (auto simp: only_at_def)
  have "tidy s'"
    using assms(1) base sub by (simp add: tidy_def)
  moreover have "fs_view s' k' = (if r = Ok () \<and> k' = k then None else fs_view s k')" if "plain_key k'" for k'
  proof (cases "k' = k")
    case True
    with removed p(2) r show ?thesis
      by (auto simp: fs_view_def p_def only_at_def io_error_def not_exist_def)
  next
    case False
    with fs_path_inj [OF assms(1) that assms(2)] have "p \<noteq> fs_path (fs_base s) k'"
      by (auto simp: p_def)
    with False removed r(1) view_only [of "(=) p" s s1 k'] show ?thesis
      by simp
  qed
  moreover have "smooth s'" if "smooth s"
    using that base sub unfolding smooth_def by metis
  moreover have "r = Ok ()" if "smooth s"
    using that removed p(2) r(2) by (auto simp: smooth_def)
  moreover have "r = Ok () \<or> r = Err io_error"
    using removed p(2) r(2) by (auto simp: io_error_def not_exist_def)
  ultimately show ?thesis
    using base by (auto simp: writes_def same_objects_def)
qed

lemma reads_law:
  assumes "reads s (r, s') f k"
  shows "\<exists>i. s' = s\<lparr>sys_pos := i\<rparr>" "case r of Ok b \<Rightarrow> \<exists>c. fs_view s k = Some c \<and> b = f c
    | Err e \<Rightarrow> broken_off e \<or> fs_view s k = None | Panic \<Rightarrow> False"
  using assms by (auto simp: reads_def split: outcome.splits)

interpretation disk: object_store fs_ops tidy fs_view plain_key broken_off
proof (unfold_locales, goal_cases)
  case (1 s k content r s')
  with FsPut_run [of s k content r s'] show ?case
    by (auto simp: fs_ops_def)
next
  case (2 s k q s')
  with reads_law [of s q s' _ k] FsGet_run [of s k] show ?case
    by (fastforce simp: fs_ops_def split: outcome.splits)
next
  case (3 s k offset len q s')
  with reads_law [of s q s' _ k] FsGetRange_run [of s k offset len] show ?case
    by (fastforce simp: fs_ops_def split: outcome.splits)
next
  case (4 s k n s')
  with reads_law [of s n s' _ k] FsStat_run [of s k] show ?case
    by (fastforce simp: fs_ops_def split: outcome.splits)
next
  case (5 s k d s')
  with FsDelete_run [of s k d s'] show ?case
    by (auto simp: fs_ops_def)
qed

lemma reads_smooth:
  assumes "reads s (m s) f k" "smooth s" "bnd m (\<lambda>b. ret (g b)) s = (x, s')"
  shows "smooth s' \<and> (\<forall>e. x = Err e \<longrightarrow> \<not> broken_off e)"
proof -
  obtain r s1 where m: "m s = (r, s1)"
    by (cases "m s")
  with assms show ?thesis
    by (cases r) (auto simp: reads_def bnd_def)
qed

lemma call_smooth:
  assumes "tidy s" "smooth s" "call_fits fs_view plain_key c s" "call_store fs_ops c s = (x, s')"
  shows "smooth s' \<and> (\<forall>e. x = Err e \<longrightarrow> \<not> broken_off e)"
proof (cases c)
  case (StorePut k content)
  obtain r s1 where run: "FsPut k content s = (r, s1)"
    by (cases "FsPut k content s")
  with StorePut assms FsPut_smooth [OF assms(1,2) _ run] show ?thesis
    by (auto simp: fs_ops_def bnd_def)
next
  case (StoreDelete k)
  obtain r s1 where run: "FsDelete k s = (r, s1)"
    by (cases "FsDelete k s")
  with StoreDelete assms FsDelete_run [OF assms(1) _ run] show ?thesis
    by (auto simp: fs_ops_def bnd_def)
next
  case (StoreGet k)
  with assms reads_smooth [of s "FsGet k" "\<lambda>c. c" k Content x s'] FsGet_run [OF assms(1), of k] show ?thesis
    by (simp add: fs_ops_def)
next
  case (StoreRange k offset len)
  with assms reads_smooth [of s "FsGetRange k offset len" "\<lambda>c. take (nat len) (drop (nat offset) c)" k Content x s'] FsGetRange_run [OF assms(1), of k offset len] show ?thesis
    by (simp add: fs_ops_def)
next
  case (StoreStat k)
  with assms reads_smooth [of s "FsStat k" "\<lambda>c. int (length c)" k Size x s'] FsStat_run [OF assms(1), of k] show ?thesis
    by (simp add: fs_ops_def)
qed

lemma run_smooth:
  "disk.holds s m \<Longrightarrow> smooth s \<Longrightarrow> run_fits fs_ops fs_view plain_key cs s \<Longrightarrow>
    Err e \<in> set (fst (run_store fs_ops cs s)) \<Longrightarrow> \<not> broken_off e"
proof (induction cs arbitrary: s m)
  case (Cons c cs)
  obtain x s' where x: "call_store fs_ops c s = (x, s')"
    by (cases "call_store fs_ops c s")
  have tidy: "tidy s" and fits: "call_fits fs_view plain_key c s" "run_fits fs_ops fs_view plain_key cs s'"
    using Cons.prems x by (auto simp: disk.holds_def)
  obtain m' where "disk.holds s' m'"
    using disk.call_holds [OF Cons.prems(1) fits(1) x] by blast
  with call_smooth [OF tidy Cons.prems(2) fits(1) x] Cons.IH [OF _ _ fits(2)] Cons.prems(4) x show ?case
    by (auto simp: case_prod_beta' Let_def)
qed simp

section \<open>Opening the store\<close>

text \<open>A disk on which the store of \<open>base\<close> holds the objects of \<open>m\<close>, and nothing else is there.\<close>

definition disk_holds :: "string \<Rightarrow> filesys \<Rightarrow> objstore \<Rightarrow> bool" where
  "disk_holds base w m \<longleftrightarrow> (\<forall>p x. node_at p w = Some x \<longrightarrow> placed (Join [base]) p x) \<and>
     (\<forall>k. plain_key k \<longrightarrow> fs_view (w\<lparr>fs_base := base\<rparr>) k = map_of (objs m) k)"

lemma base_simps [simp]:
  "node_at p (w\<lparr>fs_base := base\<rparr>) = node_at p w" "smooth (w\<lparr>fs_base := base\<rparr>) = smooth w"
  by (simp_all add: node_at_def smooth_def del: node_at_simps)

lemma disk_holds_iff: "base \<noteq> [] \<Longrightarrow> disk_holds base w m \<longleftrightarrow> disk.holds (w\<lparr>fs_base := base\<rparr>) m"
  by (simp add: disk_holds_def disk.holds_def tidy_def)

lemma NewFS_run:
  assumes "disk_holds base w m" "NewFS base w = (Ok (), s0)"
  shows "disk.holds s0 m \<and> fs_base s0 = base \<and> base \<noteq> [] \<and> (smooth w \<longrightarrow> smooth s0)"
proof -
  have base: "base \<noteq> []"
    using assms(2) by (auto simp: NewFS_def)
  define d where "d = snd (Join [base]) @ [''_'']"
  let ?w = "w\<lparr>fs_base := base\<rparr>"
  have w: "disk.holds ?w m" "tidy ?w" "shard (snd (Join [base])) d"
    using assms(1) base by (simp_all add: disk_holds_iff disk.holds_def shard_def d_def)
  obtain s1 where run: "MkdirAll (Join [base]) w = (Ok (), s1)" and s0: "s0 = s1\<lparr>fs_base := base\<rparr>"
    using assms(2) base by (cases "MkdirAll (Join [base]) w"; cases "fst (MkdirAll (Join [base]) w)") (auto simp: NewFS_def bnd_def)
  have "node_at (fst (Join [base]), q) w \<noteq> Some (File c)" if "prefix q (snd (Join [base]))" for q c
    using folder_no_file [OF w(2), of d q] w(3) that by (simp add: d_def)
  from mkdirs_run [OF run [unfolded MkdirAll_def] this] have made: "grown (Join [base]) w s1"
    by simp
  have "node_at q s0 = node_at q ?w \<or> node_at q ?w = None \<and> node_at q s0 = Some Folder \<and>
      fst q = fst (Join [base]) \<and> prefix (snd q) d" for q
    using made unfolding grown_def s0 d_def base_simps by (metis prefix_prefix)
  then have grown: "grown (fst (Join [base]), d) ?w s0"
    using made by (simp add: grown_def s0)
  have "tidy s0"
    using tidy_grown [OF w(2) grown] w(3) by simp
  moreover have "same_objects fs_view plain_key ?w s0"
    by (rule same_grown [OF grown])
  moreover have "smooth w \<Longrightarrow> smooth s0"
    using grown grown_file [OF grown] by (simp add: smooth_def grown_def)
  ultimately show ?thesis
    using w(1) base s0 by (simp add: disk.holds_def same_objects_def)
qed

lemma run_base: "disk.holds s m \<Longrightarrow> run_fits fs_ops fs_view plain_key cs s \<Longrightarrow> fs_base (snd (run_store fs_ops cs s)) = fs_base s"
proof (induction cs arbitrary: s m)
  case (Cons c cs)
  obtain x s' where x: "call_store fs_ops c s = (x, s')"
    by (cases "call_store fs_ops c s")
  have tidy: "tidy s" and fits: "call_fits fs_view plain_key c s" "run_fits fs_ops fs_view plain_key cs s'"
    using Cons.prems x by (auto simp: disk.holds_def)
  have "fs_base s' = fs_base s"
  proof (cases c)
    case (StorePut k content)
    with x fits(1) FsPut_run [OF tidy, of k content] show ?thesis
      by (cases "FsPut k content s") (auto simp: fs_ops_def bnd_def split: outcome.splits)
  next
    case (StoreDelete k)
    with x fits(1) FsDelete_run [OF tidy, of k] show ?thesis
      by (cases "FsDelete k s") (auto simp: fs_ops_def bnd_def split: outcome.splits)
  next
    case (StoreGet k)
    with x fits(1) FsGet_run [OF tidy, of k] show ?thesis
      by (cases "FsGet k s") (auto simp: fs_ops_def bnd_def reads_def split: outcome.splits)
  next
    case (StoreRange k offset len)
    with x fits(1) FsGetRange_run [OF tidy, of k offset len] show ?thesis
      by (cases "FsGetRange k offset len s") (auto simp: fs_ops_def bnd_def reads_def split: outcome.splits)
  next
    case (StoreStat k)
    with x fits(1) FsStat_run [OF tidy, of k] show ?thesis
      by (cases "FsStat k s") (auto simp: fs_ops_def bnd_def reads_def split: outcome.splits)
  qed
  moreover obtain m' where "disk.holds s' m'"
    using disk.call_holds [OF Cons.prems(1) fits(1) x] by blast
  ultimately show ?case
    using Cons.IH [OF _ fits(2)] x by (auto simp: case_prod_beta' Let_def)
qed simp

text \<open>C15: The object store on the file system implements the one in memory, also across restarts. Opened on a
  disk that holds the objects of \<open>m\<close>, it answers every sequence of calls as the in-memory store does from \<open>m\<close>,
  except for calls that a failing system call breaks off, wherever in them: those leave every object as it
  was. The disk then holds the objects of the in-memory store, and on a system that carries out every call
  none is broken off. The keys are plain file names, the ranges start inside the object.\<close>

theorem disk_store_refines:
  assumes "disk_holds base w m" "NewFS base w = (Ok (), s0)" "run_fits fs_ops fs_view plain_key cs s0"
  shows "\<exists>m'. served broken_off cs m (fst (run_store fs_ops cs s0)) m' \<and> disk_holds base (snd (run_store fs_ops cs s0)) m' \<and>
    (smooth w \<longrightarrow> (\<forall>e. Err e \<in> set (fst (run_store fs_ops cs s0)) \<longrightarrow> \<not> broken_off e))"
proof -
  have s0: "disk.holds s0 m" "fs_base s0 = base" "base \<noteq> []" "smooth w \<longrightarrow> smooth s0"
    using NewFS_run [OF assms(1,2)] by simp_all
  obtain m' where m': "served broken_off cs m (fst (run_store fs_ops cs s0)) m'" "disk.holds (snd (run_store fs_ops cs s0)) m'"
    using disk.run_holds [OF s0(1) assms(3)] by blast
  have "(snd (run_store fs_ops cs s0))\<lparr>fs_base := base\<rparr> = snd (run_store fs_ops cs s0)"
    using run_base [OF s0(1) assms(3)] s0(2) by simp
  with m'(2) have "disk_holds base (snd (run_store fs_ops cs s0)) m'"
    by (simp only: disk_holds_iff [OF s0(3)])
  with m'(1) run_smooth [OF s0(1) _ assms(3)] s0(4) show ?thesis
    by blast
qed

text \<open>A new disk; the write of the second call breaks off after one byte.\<close>

definition new_disk :: filesys where
  "new_disk = \<lparr>fs_base = [], fs_nodes = [], sys_ok = (\<lambda>i. i \<noteq> 13), sys_pos = 0, sys_short = (\<lambda>_. 1), tmp_rand = (\<lambda>i. i),
     tmp_pos = 0, folder_size = (\<lambda>_. 4096)\<rparr>"

definition disk_calls :: "store_call list" where
  "disk_calls = [StorePut ''abcdef'' ''old'', StorePut ''abcdef'' ''new'', StoreGet ''abcdef'', StoreStat ''xy'', StoreDelete ''abcdef'']"

lemma new_disk_opens: "fst (NewFS ''data'' new_disk) = Ok ()"
  by code_simp

lemma disk_calls_fit: "run_fits fs_ops fs_view plain_key disk_calls s"
  by (simp add: disk_calls_def plain_key_def plain_part_def)

lemma disk_store_refines_witness:
  "\<exists>m'. served broken_off disk_calls NewObjectStore (fst (run_store fs_ops disk_calls (snd (NewFS ''data'' new_disk)))) m' \<and>
    disk_holds ''data'' (snd (run_store fs_ops disk_calls (snd (NewFS ''data'' new_disk)))) m'"
proof -
  have "disk_holds ''data'' new_disk NewObjectStore"
    by (simp add: disk_holds_def node_at_def fs_view_def new_disk_def NewObjectStore_def del: node_at_simps)
  moreover have "NewFS ''data'' new_disk = (Ok (), snd (NewFS ''data'' new_disk))"
    using new_disk_opens by (simp add: prod_eq_iff)
  ultimately show ?thesis
    using disk_store_refines [OF _ _ disk_calls_fit] by blast
qed

end
