(* ===== verification/Spec2Isabelle.thy ===== *)
theory Spec2Isabelle imports RpcSamples BotSamples RpcIsolation MtSamples PgSamples FsStore begin

text \<open>
  A verification development of \<^verbatim>\<open>teled\<close>, a Telegram test server written in Go.

  \<^bold>\<open>The program.\<close> A client connects with MTProto: encrypted frames, each with a session id, a message id and
  a message. \<^verbatim>\<open>internal/mtproto\<close> (the MTProto server) exchanges keys, decrypts frames, answers service
  messages, opens containers and hands requests to a handler. \<^verbatim>\<open>server/server.go\<close> makes that handler of
  \<^verbatim>\<open>UnpackInvoke\<close>, which strips the invoke wrappers, and of the RPC handler \<^verbatim>\<open>internal/rpc\<close>, which resolves
  the account of the session, executes the request against the database and the object store and pushes
  updates to the live sessions of the accounts concerned. The database is an interface (\<^verbatim>\<open>teled.DB\<close>,
  \<^verbatim>\<open>db.go\<close>) with two implementations: maps in memory (\<^verbatim>\<open>memory/db.go\<close>) and PostgreSQL
  (\<^verbatim>\<open>internal/db\<close>). So is the object store (\<^verbatim>\<open>objstore.go\<close>): \<^verbatim>\<open>memory/objstore.go\<close> and
  \<^verbatim>\<open>internal/objstore/fs.go\<close>.

  \<^bold>\<open>How the code is modelled.\<close> An operation is a function of type \<open>('s, 'a) go\<close> (theory \<open>Prelude\<close>): from a
  state to an outcome, which is a result, an error or a panic, and the new state; what an operation has
  changed before it fails stays changed. \<open>bnd\<close>, \<open>ret\<close>, \<open>fail\<close>, \<open>on_err\<close>, \<open>loop\<close> and \<open>collect\<close> are the
  statement sequence, the returns, the handling of an error and the loops of Go. Nil dereferences and slice
  expressions out of range are panics of the model. The states are extensible records: \<open>world\<close> (clock,
  random source, Unicode tables, hash function) is extended by the database (\<open>memdb\<close>, \<open>pgdb\<close>), the database
  by the RPC handler (\<open>server\<close>), and that by the MTProto server (\<open>mtserver\<close>), so an operation of one layer is an
  operation of the layers above; the object stores have states of their own. Go maps are association lists (\<open>gomap\<close>); results that the order of a map
  could show are proved not to depend on it (\<open>history_order_free\<close>). Strings are byte lists.

  \<^bold>\<open>Theories and code.\<close>

  \<^item> \<open>Prelude\<close>, \<open>GoStd\<close>: Go's results, maps, sorting and what is used of \<^verbatim>\<open>strings\<close>, \<^verbatim>\<open>strconv\<close>,
    \<^verbatim>\<open>utf8\<close> and \<^verbatim>\<open>encoding/binary\<close>. \<open>Teled\<close>: the data types and update payloads of the root package.
    \<open>KeyValue\<close>: the interface of a table, a locale that the tables of every component interpret.
  \<^item> \<open>MemDB\<close> (\<^verbatim>\<open>memory/db.go\<close>): every method of \<^verbatim>\<open>memory.DB\<close>. \<open>MemInv\<close>, \<open>MemKeeps\<close>, \<open>MemCalls\<close>, \<open>MemReach\<close>:
    its invariant, kept by every call. \<open>MemViews\<close>, \<open>MemEdits\<close>, \<open>MemDialogs\<close>, \<open>MemSync\<close>: what clients see,
    in terms of mailboxes (\<open>mailbox\<close>, the abstraction of messages and references) and update logs.
  \<^item> \<open>ObjStore\<close> (\<^verbatim>\<open>memory/objstore.go\<close>), \<open>FsStore\<close> (\<^verbatim>\<open>internal/objstore/fs.go\<close>, with the interface of both, the
    locale \<open>object_store\<close>), \<open>Staging\<close> (\<^verbatim>\<open>internal/rpc/staging.go\<close>), \<open>Entities\<close>
    (\<^verbatim>\<open>internal/rpc/entities.go\<close>).
  \<^item> \<open>PgTables\<close>: the tables of the migrations, their constraints, statements and transactions. \<open>PgDB\<close>
    (\<^verbatim>\<open>internal/db/*.go\<close>): every method of \<^verbatim>\<open>db.DB\<close> and \<^verbatim>\<open>db.KeyStore\<close>. \<open>PgCalls\<close>: the calls of both
    databases, with answers. \<open>PgSchema\<close>: the schema as an invariant. \<open>PgRep\<close>: which tables represent which
    maps, and which calls are accepted. \<open>PgRun\<close>, \<open>PgUsers\<close>, \<open>PgMessages\<close>, \<open>PgReads\<close>, \<open>PgDialogs\<close>: the calls one by one.
    \<open>PgSim\<close>: the simulation.
  \<^item> \<open>Wire\<close>, \<open>Server\<close> (\<^verbatim>\<open>internal/rpc/handler.go\<close>, \<^verbatim>\<open>registry.go\<close>, \<^verbatim>\<open>convert.go\<close>), \<open>RpcAuth\<close>, \<open>RpcUsers\<close>,
    \<open>RpcBots\<close>, \<open>RpcMessages\<close>, \<open>RpcMedia\<close>, \<open>RpcHelp\<close>: the handlers of the files of those names in
    \<^verbatim>\<open>internal/rpc\<close>; \<open>Rpc\<close>: the requests and their dispatch (\<^verbatim>\<open>register.go\<close>). \<open>RpcKeeps\<close>, \<open>RpcSafe\<close>,
    \<open>RpcTotal\<close>: no request panics. \<open>RpcFrames\<close>, \<open>RpcDelivery\<close>, \<open>RpcFiles\<close>, \<open>RpcPush\<close>, \<open>RpcLogin\<close>, \<open>RpcBotFather\<close>,
    \<open>RpcIsolation\<close>: what requests do.
  \<^item> \<open>MtWire\<close>, \<open>MtRegistry\<close>, \<open>MtHandle\<close>, \<open>MtConn\<close> (\<^verbatim>\<open>internal/mtproto\<close>): keys, sessions, frames, connections;
    \<open>mt_step\<close> lets any number of connections interleave frame by frame. \<open>MtLaws\<close>, \<open>MtInv\<close>: what the server promises for every
    handler that meets the locale \<open>mt_handler\<close>. \<open>MtRpc\<close>, \<open>MtSafe\<close>, \<open>MtProto\<close>, \<open>MtLoops\<close>: the server with the RPC
    handler as that handler.
  \<^item> \<open>Samples\<close>, \<open>ServerSamples\<close>, \<open>RpcSamples\<close>, \<open>BotSamples\<close>, \<open>MtSamples\<close>, \<open>PgSamples\<close>: executions at concrete inputs,
    and the instances of the properties there.

  \<^bold>\<open>What is shown.\<close> The numbered properties stand in the theories above. Database: the invariant
  (C1), mailboxes under sending, editing, deleting and reading (C2 to C6, C8, C12), synchronisation (C7), and
  that PostgreSQL implements the same interface with the same behaviour, keeps its schema and undoes what
  fails (C9 to C11). Texts, objects and uploads: C13 to C16 and C28; C15 is the refinement of the object store in
  memory by the one on the file system. RPC handlers: safety, the invariant across the layers, isolation
  (C17, C18, C21), delivery (C19, C20), logging in and out (C22 to C26), media (C27), bots (C29, C30). MTProto: sessions
  and keys (C31 to C34), the loops (C35 to C38), and the server as a whole (C39, C40). The server is modelled over the
  database and the object store in memory; C9 and C15 relate the other implementations to these.

  \<^bold>\<open>Bounds and fuel.\<close> \<open>handle\<close> and \<open>unpack\<close> recurse into encoded messages and take a bound \<open>n\<close>; a library whose
  decoders return something shorter than what they read (\<open>bounded_lib\<close>) reaches the end with any bound
  above the length of the message, and then the bound makes no difference (C37). Integers are unbounded
  except where the code depends on the width: random access hashes, the hash of the time zones and the sum
  in \<^verbatim>\<open>GetRange\<close> have 64 bits; counters (message ids, \<^verbatim>\<open>pts\<close>) do not reach 2^63 by single steps. Fewer than
  93372553 accounts are created, since that id is BotFather's.

  \<^bold>\<open>Parameters and hypotheses.\<close> The encoders, decoders and ciphers of \<^verbatim>\<open>gotd/td\<close> are a record of functions
  (\<open>lib\<close>); the outcome of a key exchange, whether a write to a connection or a call of the key storage
  succeeds and the message ids are sequences in the state that any execution may choose. So are the clock, the
  random source, whether a statement reaches PostgreSQL (\<open>pg_up\<close>) and whether a system call succeeds (\<open>sys_ok\<close>). The
  clock of PostgreSQL is the clock of the program. A transaction of PostgreSQL is one step; one whose commit fails is
  taken as rolled back. The simulation (C9) is about statements that are carried out and accepted calls:
  texts that are text for PostgreSQL, limits that are positive, searches without wildcards over
  ASCII texts, accounts and keys that exist where a foreign key asks for them (\<open>accepts\<close>); C10 and C11 have no
  such hypothesis. C15 is about keys that are plain file names, as the hex digests of the server are. Calls of one method of the in-memory
  database are atomic, as its mutex makes them, and a request of the RPC layer is one step, which leaves out
  interleavings of two requests between their database calls.

  \<^bold>\<open>Not modelled.\<close> The canned replies of \<^verbatim>\<open>stubs.go\<close>, \<^verbatim>\<open>startup_stubs.go\<close>, \<^verbatim>\<open>stickers.go\<close> and \<^verbatim>\<open>appconfig.go\<close> are
  constants, represented by the names of their methods. Logging, tracing and metrics (the \<^verbatim>\<open>obs\<close> files) do not
  change the state. \<^verbatim>\<open>mtproto/exchange.go\<close> calls the library's key exchange and \<^verbatim>\<open>db/open.go\<close> sets options
  of a connection pool. \<^verbatim>\<open>cmd\<close>, \<^verbatim>\<open>internal/cmd\<close>, \<^verbatim>\<open>internal/queue\<close>, \<^verbatim>\<open>internal/key\<close> and \<^verbatim>\<open>teledtest\<close> start processes, read
  flags and set up tests; of \<^verbatim>\<open>server/server.go\<close> the composition of the handlers is modelled.
\<close>

end
